(* ===== verification/Prelude.thy ===== *)
theory Prelude
  imports Complex_Main "HOL-Library.Char_ord" "HOL-Library.List_Lexorder"
    "HOL-Library.Product_Lexorder"
begin

text \<open>
  Shared layer of the development: results of fallible code, Python text, and the generic
  lemmas the component theories use.

  A fallible Python function returns \<open>'e + 'a\<close>: \<open>Inl e\<close> is a raised exception, \<open>Inr x\<close>
  a returned value. \<open>res_bind\<close> is statement sequencing, \<open>guard_res\<close> an
  \<open>if ...: raise\<close> statement.

  Python text is \<open>string\<close>: a list of code points below 256. The whitespace and case tables
  below are those of \<open>str.strip\<close> and \<open>str.lower\<close> on that range.
\<close>

named_theorems res_simps \<open>rewrite rules for results of fallible code\<close>
named_theorems str_simps \<open>rewrite rules for Python text operations\<close>
named_theorems guard_defs \<open>definitions of validation guards, unfolded together\<close>

section \<open>Results of fallible code\<close>

definition res_bind :: "'e + 'a \<Rightarrow> ('a \<Rightarrow> 'e + 'b) \<Rightarrow> 'e + 'b" where
  "res_bind m f = (case m of Inl e \<Rightarrow> Inl e | Inr x \<Rightarrow> f x)"

definition guard_res :: "bool \<Rightarrow> 'e \<Rightarrow> 'e + unit" where
  "guard_res ok e = (if ok then Inr () else Inl e)"

definition is_ok :: "'e + 'a \<Rightarrow> bool" where
  "is_ok m = (case m of Inl _ \<Rightarrow> False | Inr _ \<Rightarrow> True)"

lemma res_bind_Inl [simp, res_simps]: "res_bind (Inl e) f = Inl e"
  by (simp add: res_bind_def)

lemma res_bind_Inr [simp, res_simps]: "res_bind (Inr x) f = f x"
  by (simp add: res_bind_def)

lemma res_bind_eq_Inr [res_simps]:
  "res_bind m f = Inr y \<longleftrightarrow> (\<exists>x. m = Inr x \<and> f x = Inr y)"
  by (cases m) auto

lemma res_bind_eq_Inl [res_simps]:
  "res_bind m f = Inl e \<longleftrightarrow> m = Inl e \<or> (\<exists>x. m = Inr x \<and> f x = Inl e)"
  by (cases m) auto

lemma res_bind_split:
  "P (res_bind m f) \<longleftrightarrow> (\<forall>e. m = Inl e \<longrightarrow> P (Inl e)) \<and> (\<forall>x. m = Inr x \<longrightarrow> P (f x))"
  by (cases m) auto

lemma res_bind_cong [fundef_cong]:
  "m = m' \<Longrightarrow> (\<And>x. m' = Inr x \<Longrightarrow> f x = g x) \<Longrightarrow> res_bind m f = res_bind m' g"
  by (cases m') auto

lemma guard_res_True [simp, res_simps]: "guard_res True e = Inr ()"
  by (simp add: guard_res_def)

lemma guard_res_False [simp, res_simps]: "guard_res False e = Inl e"
  by (simp add: guard_res_def)

lemma guard_res_eq_Inr [simp, res_simps]: "guard_res ok e = Inr u \<longleftrightarrow> ok"
  by (cases ok) auto

lemma guard_res_eq_Inl [simp, res_simps]: "guard_res ok e = Inl e' \<longleftrightarrow> \<not> ok \<and> e' = e"
  by (cases ok) auto

lemma is_ok_simps [simp, res_simps]: "\<not> is_ok (Inl e)" "is_ok (Inr x)"
  by (simp_all add: is_ok_def)

lemma is_ok_iff: "is_ok m \<longleftrightarrow> (\<exists>x. m = Inr x)"
  by (cases m) auto

section \<open>Python text\<close>

definition code :: "char \<Rightarrow> nat" where
  "code c = of_char c"

definition py_is_space :: "char \<Rightarrow> bool" where
  "py_is_space c = (let n = code c in
     (9 \<le> n \<and> n \<le> 13) \<or> (28 \<le> n \<and> n \<le> 32) \<or> n = 133 \<or> n = 160)"

definition py_lstrip :: "string \<Rightarrow> string" where
  "py_lstrip s = dropWhile py_is_space s"

definition py_rstrip :: "string \<Rightarrow> string" where
  "py_rstrip s = rev (dropWhile py_is_space (rev s))"

definition py_strip :: "string \<Rightarrow> string" where
  "py_strip s = py_rstrip (py_lstrip s)"

definition lower_char :: "char \<Rightarrow> char" where
  "lower_char c = (let n = code c in
     if (65 \<le> n \<and> n \<le> 90) \<or> (192 \<le> n \<and> n \<le> 222 \<and> n \<noteq> 215) then char_of (n + 32) else c)"

definition py_lower :: "string \<Rightarrow> string" where
  "py_lower s = map lower_char s"

definition py_startswith :: "string \<Rightarrow> string \<Rightarrow> bool" where
  "py_startswith s p = (take (length p) s = p)"

definition py_endswith :: "string \<Rightarrow> string \<Rightarrow> bool" where
  "py_endswith s p = (length p \<le> length s \<and> drop (length s - length p) s = p)"

fun py_join :: "string \<Rightarrow> string list \<Rightarrow> string" where
  "py_join sep [] = []"
| "py_join sep [x] = x"
| "py_join sep (x # y # ys) = x @ sep @ py_join sep (y # ys)"

text \<open>\<open>s.split(c)\<close> for a one-character separator: never the empty list.\<close>

fun py_split :: "char \<Rightarrow> string \<Rightarrow> string list" where
  "py_split c [] = [[]]"
| "py_split c (x # xs) =
     (if x = c then [] # py_split c xs
      else (case py_split c xs of [] \<Rightarrow> [[x]] | w # ws \<Rightarrow> (x # w) # ws))"

text \<open>\<open>s.split()\<close>, and \<open>s.strip(chars)\<close>.\<close>

definition py_words :: "string \<Rightarrow> string list" where
  "py_words s = filter (\<lambda>w. w \<noteq> [])
     (py_split CHR '' '' (map (\<lambda>c. if py_is_space c then CHR '' '' else c) s))"

definition py_strip_of :: "(char \<Rightarrow> bool) \<Rightarrow> string \<Rightarrow> string" where
  "py_strip_of P s = rev (dropWhile P (rev (dropWhile P s)))"

definition py_replace_char :: "char \<Rightarrow> char \<Rightarrow> string \<Rightarrow> string" where
  "py_replace_char a b s = map (\<lambda>x. if x = a then b else x) s"

definition is_digit :: "char \<Rightarrow> bool" where
  "is_digit c = (48 \<le> code c \<and> code c \<le> 57)"

definition is_ascii_lower :: "char \<Rightarrow> bool" where
  "is_ascii_lower c = (97 \<le> code c \<and> code c \<le> 122)"

definition is_ascii_upper :: "char \<Rightarrow> bool" where
  "is_ascii_upper c = (65 \<le> code c \<and> code c \<le> 90)"

definition is_ascii_alnum :: "char \<Rightarrow> bool" where
  "is_ascii_alnum c = (is_digit c \<or> is_ascii_lower c \<or> is_ascii_upper c)"

lemma code_less_256 [simp]: "code c < 256"
  unfolding code_def by (metis of_char_mod_256 mod_less_divisor zero_less_numeral)

lemma char_of_code [simp]: "char_of (code c) = c"
  by (simp add: code_def)

lemma code_char_of [simp]: "n < 256 \<Longrightarrow> code (char_of n) = n"
  by (simp add: code_def)

text \<open>
  Code equations: comparisons of character codes are evaluated on binary integers.
\<close>

definition icode :: "char \<Rightarrow> int" where
  "icode c = of_char c"

lemma icode_code: "icode c = int (code c)"
  unfolding icode_def code_def by (simp only: of_nat_of_char)

lemma code_compare_icode [code_unfold]:
  "code c = numeral k \<longleftrightarrow> icode c = numeral k"
  "code c < numeral k \<longleftrightarrow> icode c < numeral k"
  "code c \<le> numeral k \<longleftrightarrow> icode c \<le> numeral k"
  "numeral k \<le> code c \<longleftrightarrow> numeral k \<le> icode c"
  by (simp_all add: icode_code)

lemma py_is_space_icode [code]:
  "py_is_space c = (let n = icode c in
     (9 \<le> n \<and> n \<le> 13) \<or> (28 \<le> n \<and> n \<le> 32) \<or> n = 133 \<or> n = 160)"
  by (simp add: py_is_space_def icode_code Let_def)

lemma is_digit_icode [code]: "is_digit c = (let n = icode c in 48 \<le> n \<and> n \<le> 57)"
  by (simp add: is_digit_def icode_code Let_def)

lemma is_ascii_lower_icode [code]: "is_ascii_lower c = (let n = icode c in 97 \<le> n \<and> n \<le> 122)"
  by (simp add: is_ascii_lower_def icode_code Let_def)

lemma is_ascii_upper_icode [code]: "is_ascii_upper c = (let n = icode c in 65 \<le> n \<and> n \<le> 90)"
  by (simp add: is_ascii_upper_def icode_code Let_def)

lemma lower_char_icode [code]:
  "lower_char c = (let n = icode c in
     if (65 \<le> n \<and> n \<le> 90) \<or> (192 \<le> n \<and> n \<le> 222 \<and> n \<noteq> 215) then char_of (n + 32) else c)"
proof -
  have "char_of (code c + 32) = (char_of (icode c + 32) :: char)"
    by (metis icode_code char_of_nat of_nat_add of_nat_numeral)
  then show ?thesis by (simp add: lower_char_def icode_code Let_def)
qed

lemma code_inject [simp]: "code a = code b \<longleftrightarrow> a = b"
  by (metis char_of_code)

text \<open>The number of bytes of the UTF-8 encoding.\<close>

definition utf8_length :: "string \<Rightarrow> int" where
  "utf8_length s = sum_list (map (\<lambda>c. if code c < 128 then 1 else 2) s)"

text \<open>Stripping: idempotent, and the result never starts or ends with white space.\<close>

lemma dropWhile_idem: "dropWhile P (dropWhile P xs) = dropWhile P xs"
  by (induction xs) auto

lemma dropWhile_hd: "dropWhile P xs = y # ys \<Longrightarrow> \<not> P y"
  by (metis dropWhile_eq_Cons_conv)

lemma py_strip_Nil [simp, str_simps]: "py_strip [] = []"
  by (simp add: py_strip_def py_rstrip_def py_lstrip_def)

lemma py_rstrip_append:
  "\<exists>t. s = py_rstrip s @ t \<and> (\<forall>c\<in>set t. py_is_space c)"
proof -
  have "rev s = takeWhile py_is_space (rev s) @ dropWhile py_is_space (rev s)"
    by simp
  then have "s = py_rstrip s @ rev (takeWhile py_is_space (rev s))"
    unfolding py_rstrip_def by (metis rev_append rev_rev_ident)
  then show ?thesis by (metis set_rev set_takeWhileD)
qed

lemma py_strip_first: "py_strip s = c # cs \<Longrightarrow> \<not> py_is_space c"
proof -
  assume h: "py_strip s = c # cs"
  obtain t where "py_lstrip s = py_strip s @ t"
    using py_rstrip_append [of "py_lstrip s"] by (auto simp: py_strip_def)
  with h have "dropWhile py_is_space s = c # (cs @ t)" by (simp add: py_lstrip_def)
  then show ?thesis by (rule dropWhile_hd)
qed

lemma py_rstrip_last: "py_rstrip s = cs @ [c] \<Longrightarrow> \<not> py_is_space c"
  unfolding py_rstrip_def by (metis dropWhile_hd rev.simps(2) rev_rev_ident rev_is_rev_conv rev_append rev_singleton_conv append_Cons append_Nil)

lemma py_strip_idem [simp, str_simps]: "py_strip (py_strip s) = py_strip s"
proof (cases "py_strip s")
  case Nil
  then show ?thesis by simp
next
  case (Cons c cs)
  then have l: "py_lstrip (py_strip s) = py_strip s"
    using py_strip_first [OF Cons] by (simp add: py_lstrip_def)
  show ?thesis
    unfolding py_strip_def [of "py_strip s"] l
    by (simp add: py_strip_def py_rstrip_def dropWhile_idem)
qed

lemma code_lower_char:
  "code (lower_char c) = (let n = code c in
     if (65 \<le> n \<and> n \<le> 90) \<or> (192 \<le> n \<and> n \<le> 222 \<and> n \<noteq> 215) then n + 32 else n)"
  by (auto simp: lower_char_def Let_def)

lemma lower_char_idem [simp]: "lower_char (lower_char c) = lower_char c"
  by (subst code_inject [symmetric]) (auto simp: code_lower_char Let_def)

lemma py_lower_idem [simp, str_simps]: "py_lower (py_lower s) = py_lower s"
  by (simp add: py_lower_def)

lemma lower_char_space [simp]: "py_is_space (lower_char c) = py_is_space c"
  by (auto simp: py_is_space_def code_lower_char Let_def)

lemma py_strip_lower [simp, str_simps]: "py_strip (py_lower s) = py_lower (py_strip s)"
  by (simp add: py_strip_def py_rstrip_def py_lstrip_def py_lower_def dropWhile_map o_def rev_map)

lemma length_py_strip: "length (py_strip s) \<le> length s"
  by (simp add: py_strip_def py_rstrip_def py_lstrip_def)
    (metis le_trans length_dropWhile_le length_rev)

lemma strip_ends_id:
  assumes "s \<noteq> []" "\<not> py_is_space (hd s)" "\<not> py_is_space (last s)"
  shows "py_strip s = s"
proof -
  have "py_lstrip s = s" using assms(1,2) by (cases s) (auto simp: py_lstrip_def)
  moreover have "dropWhile py_is_space (rev s) = rev s"
    using assms(1,3) by (cases s rule: rev_cases) auto
  ultimately show ?thesis by (simp add: py_strip_def py_rstrip_def)
qed


lemma py_rstrip_Cons: "\<not> py_is_space c \<Longrightarrow> py_rstrip (c # s) = c # py_rstrip s"
proof -
  assume "\<not> py_is_space c"
  then have "dropWhile py_is_space (rev s @ [c]) = dropWhile py_is_space (rev s) @ [c]"
    by (induction s rule: rev_induct) auto
  then show ?thesis by (simp add: py_rstrip_def)
qed

text \<open>Prefixes and splitting.\<close>

lemma py_startswith_append: "py_startswith s p \<longleftrightarrow> (\<exists>r. s = p @ r)"
  unfolding py_startswith_def by (metis append_eq_conv_conj append_take_drop_id)

lemma py_split_nonempty [simp]: "py_split c s \<noteq> []"
  by (induction s) (auto split: list.splits)

lemma py_split_append: "py_split c (a @ c # b) = py_split c a @ py_split c b"
  by (induction a) (auto split: list.splits)

section \<open>Lists and maps\<close>

text \<open>\<open>dict.fromkeys\<close> / seen-set de-duplication: first occurrences, in order.\<close>

fun dedup :: "'a list \<Rightarrow> 'a list" where
  "dedup [] = []"
| "dedup (x # xs) = x # filter (\<lambda>y. y \<noteq> x) (dedup xs)"

lemma set_dedup [simp]: "set (dedup xs) = set xs"
  by (induction xs) auto

lemma distinct_dedup [simp]: "distinct (dedup xs)"
  by (induction xs) auto

lemma dedup_id: "distinct xs \<Longrightarrow> dedup xs = xs"
  by (induction xs) (auto simp: filter_id_conv)

text \<open>A dictionary with its insertion order: an association list, updated in place.\<close>

fun alist_put :: "'k \<Rightarrow> 'v \<Rightarrow> ('k \<times> 'v) list \<Rightarrow> ('k \<times> 'v) list" where
  "alist_put k v [] = [(k, v)]"
| "alist_put k v ((k', v') # kvs) = (if k' = k then (k, v) # kvs else (k', v') # alist_put k v kvs)"

definition alist_pop :: "'k \<Rightarrow> ('k \<times> 'v) list \<Rightarrow> ('k \<times> 'v) list" where
  "alist_pop k kvs = filter (\<lambda>kv. fst kv \<noteq> k) kvs"

lemma map_of_alist_put [simp]: "map_of (alist_put k v kvs) = (map_of kvs)(k \<mapsto> v)"
  by (induction kvs) auto

lemma map_of_alist_pop [simp]: "map_of (alist_pop k kvs) = (map_of kvs)(k := None)"
  by (induction kvs) (auto simp: alist_pop_def)

lemma keys_alist_put [simp]: "fst ` set (alist_put k v kvs) = insert k (fst ` set kvs)"
  by (induction k v kvs rule: alist_put.induct) (simp_all add: insert_commute)

lemma distinct_alist_put [simp]:
  "distinct (map fst kvs) \<Longrightarrow> distinct (map fst (alist_put k v kvs))"
proof (induction kvs)
  case (Cons a kvs)
  then show ?case
    using keys_alist_put [of k v kvs] by (cases a) (auto simp: image_iff)
qed simp

lemma distinct_alist_pop [simp]:
  "distinct (map fst kvs) \<Longrightarrow> distinct (map fst (alist_pop k kvs))"
  by (simp add: alist_pop_def distinct_map_filter)

lemma alist_put_all:
  "list_all P kvs \<Longrightarrow> P (k, v) \<Longrightarrow> list_all P (alist_put k v kvs)"
  by (induction k v kvs rule: alist_put.induct) auto

text \<open>The last \<open>n\<close> elements of a list: the slice \<open>xs[-n:]\<close> for positive \<open>n\<close>.\<close>

definition take_last :: "nat \<Rightarrow> 'a list \<Rightarrow> 'a list" where
  "take_last n xs = drop (length xs - n) xs"

lemma length_take_last [simp]: "length (take_last n xs) = min n (length xs)"
  by (simp add: take_last_def)

lemma take_last_snoc: "0 < n \<Longrightarrow> take_last n (xs @ [x]) = take_last (n - 1) xs @ [x]"
  by (auto simp: take_last_def)

lemma last_take_last: "0 < n \<Longrightarrow> xs \<noteq> [] \<Longrightarrow> last (take_last n xs) = last xs"
  by (simp add: take_last_def)

end
