(* ===== verification/PyValue.thy ===== *)
theory PyValue
  imports Prelude
begin

text \<open>
  The dynamically typed values the program passes around (JSON documents, task and plan
  records, tool arguments) and the built-in conversions applied to them: \<open>bool(x)\<close>,
  \<open>str(x)\<close>, \<open>repr(x)\<close>, \<open>int(x)\<close>, \<open>d.get(k)\<close>.

  A dictionary is its list of items in insertion order; a key that is not text, an integer,
  a boolean or \<open>None\<close> is \<open>KOther\<close>. A finite float is the text \<open>float.__repr__\<close> prints for it,
  which determines it. \<open>POther\<close> and \<open>KOther\<close> are any other object, with the text \<open>repr\<close>
  gives for it.
\<close>

datatype pyfloat = FFin string | FInf | FNegInf | FNan

datatype pykey = KNone | KBool bool | KInt int | KStr string | KOther string

datatype pyval =
    PNone
  | PBool bool
  | PInt int
  | PFloat pyfloat
  | PStr string
  | PList "pyval list"
  | PTuple "pyval list"
  | PDict "(pykey \<times> pyval) list"
  | POther string

datatype py_exc = ValueError | TypeError | OverflowError | KeyError | AttributeError

section \<open>Decimal text of integers\<close>

definition digit_char :: "nat \<Rightarrow> char" where
  "digit_char d = char_of (48 + d)"

definition digit_val :: "char \<Rightarrow> nat" where
  "digit_val c = code c - 48"

fun show_nat :: "nat \<Rightarrow> string" where
  "show_nat n = (if n < 10 then [digit_char n] else show_nat (n div 10) @ [digit_char (n mod 10)])"

declare show_nat.simps [simp del]

definition show_int :: "int \<Rightarrow> string" where
  "show_int i = (if i < 0 then CHR ''-'' # show_nat (nat (- i)) else show_nat (nat i))"

definition nat_of_digits :: "string \<Rightarrow> nat" where
  "nat_of_digits s = foldl (\<lambda>a c. 10 * a + digit_val c) 0 s"

lemma digit_char_digit [simp]: "d < 10 \<Longrightarrow> is_digit (digit_char d)"
  by (simp add: is_digit_def digit_char_def)

lemma digit_val_char [simp]: "d < 10 \<Longrightarrow> digit_val (digit_char d) = d"
  by (simp add: digit_val_def digit_char_def)

lemma show_nat_digits: "\<forall>c\<in>set (show_nat n). is_digit c"
proof (induction n rule: show_nat.induct)
  case (1 n)
  then show ?case by (cases "n < 10") (auto simp: show_nat.simps [of n])
qed

lemma show_nat_nonempty [simp]: "show_nat n \<noteq> []"
  by (simp add: show_nat.simps [of n])

lemma nat_of_digits_snoc: "nat_of_digits (s @ [c]) = 10 * nat_of_digits s + digit_val c"
  by (simp add: nat_of_digits_def)

lemma nat_of_digits_show [simp]: "nat_of_digits (show_nat n) = n"
proof (induction n rule: show_nat.induct)
  case (1 n)
  show ?case
  proof (cases "n < 10")
    case True
    then show ?thesis by (simp add: show_nat.simps [of n] nat_of_digits_def)
  next
    case False
    then show ?thesis
      by (simp add: show_nat.simps [of n] nat_of_digits_snoc "1.IH")
  qed
qed

lemma show_nat_first: "0 < n \<Longrightarrow> hd (show_nat n) \<noteq> CHR ''0''"
proof (induction n rule: show_nat.induct)
  case (1 n)
  show ?case
  proof (cases "n < 10")
    case True
    have "code (digit_char n) = 48 + n" using True by (simp add: digit_char_def)
    moreover have "code CHR ''0'' = 48" by (simp add: code_def)
    ultimately have "digit_char n \<noteq> CHR ''0''" using \<open>0 < n\<close> by (metis add_cancel_left_right less_irrefl)
    then show ?thesis using True by (simp add: show_nat.simps [of n])
  next
    case False
    then have "hd (show_nat (n div 10)) \<noteq> CHR ''0''" using "1.IH" by simp
    then show ?thesis using False by (simp add: show_nat.simps [of n])
  qed
qed

lemma show_nat_inject [simp]: "show_nat m = show_nat n \<longleftrightarrow> m = n"
  by (metis nat_of_digits_show)

section \<open>Conversions\<close>

text \<open>\<open>bool(x)\<close>.\<close>

fun py_truthy :: "pyval \<Rightarrow> bool" where
  "py_truthy PNone = False"
| "py_truthy (PBool b) = b"
| "py_truthy (PInt i) = (i \<noteq> 0)"
| "py_truthy (PFloat (FFin t)) = (t \<noteq> ''0.0'' \<and> t \<noteq> ''-0.0'')"
| "py_truthy (PFloat _) = True"
| "py_truthy (PStr s) = (s \<noteq> [])"
| "py_truthy (PList xs) = (xs \<noteq> [])"
| "py_truthy (PTuple xs) = (xs \<noteq> [])"
| "py_truthy (PDict kvs) = (kvs \<noteq> [])"
| "py_truthy (POther _) = True"

definition hex_digit :: "nat \<Rightarrow> char" where
  "hex_digit d = (if d < 10 then char_of (48 + d) else char_of (87 + d))"

text \<open>\<open>repr\<close> of text: single quotes unless the text has one and no double quote.\<close>

definition repr_char :: "char \<Rightarrow> char \<Rightarrow> string" where
  "repr_char q c =
     (if c = q \<or> c = CHR 0x5C then [CHR 0x5C, c]
      else if code c = 10 then [CHR 0x5C, CHR ''n'']
      else if code c = 13 then [CHR 0x5C, CHR ''r'']
      else if code c = 9 then [CHR 0x5C, CHR ''t'']
      else if code c < 32 \<or> (127 \<le> code c \<and> code c \<le> 160) \<or> code c = 173
      then [CHR 0x5C, CHR ''x'', hex_digit (code c div 16), hex_digit (code c mod 16)]
      else [c])"

definition repr_str :: "string \<Rightarrow> string" where
  "repr_str s =
     (let q = (if CHR 0x27 \<in> set s \<and> CHR 0x22 \<notin> set s then CHR 0x22 else CHR 0x27)
      in q # concat (map (repr_char q) s) @ [q])"

fun key_repr :: "pykey \<Rightarrow> string" where
  "key_repr KNone = ''None''"
| "key_repr (KBool b) = (if b then ''True'' else ''False'')"
| "key_repr (KInt i) = show_int i"
| "key_repr (KStr s) = repr_str s"
| "key_repr (KOther s) = s"

fun py_repr :: "pyval \<Rightarrow> string"
and py_repr_list :: "pyval list \<Rightarrow> string"
and py_repr_items :: "(pykey \<times> pyval) list \<Rightarrow> string" where
  "py_repr PNone = ''None''"
| "py_repr (PBool b) = (if b then ''True'' else ''False'')"
| "py_repr (PInt i) = show_int i"
| "py_repr (PFloat (FFin t)) = t"
| "py_repr (PFloat FInf) = ''inf''"
| "py_repr (PFloat FNegInf) = ''-inf''"
| "py_repr (PFloat FNan) = ''nan''"
| "py_repr (PStr s) = repr_str s"
| "py_repr (PList xs) = ''['' @ py_repr_list xs @ '']''"
| "py_repr (PTuple xs) =
     ''('' @ py_repr_list xs @ (if length xs = 1 then '',)'' else '')'')"
| "py_repr (PDict kvs) = ''{'' @ py_repr_items kvs @ ''}''"
| "py_repr (POther s) = s"
| "py_repr_list [] = []"
| "py_repr_list [v] = py_repr v"
| "py_repr_list (v # w # vs) = py_repr v @ '', '' @ py_repr_list (w # vs)"
| "py_repr_items [] = []"
| "py_repr_items [(k, v)] = key_repr k @ '': '' @ py_repr v"
| "py_repr_items ((k, v) # kv # kvs) =
     key_repr k @ '': '' @ py_repr v @ '', '' @ py_repr_items (kv # kvs)"

definition py_str :: "pyval \<Rightarrow> string" where
  "py_str v = (case v of PStr s \<Rightarrow> s | _ \<Rightarrow> py_repr v)"

text \<open>\<open>str(x or d)\<close> for a text default \<open>d\<close>.\<close>

definition str_or :: "pyval \<Rightarrow> string \<Rightarrow> string" where
  "str_or v d = (if py_truthy v then py_str v else d)"

lemma str_or_PStr [simp, str_simps]: "str_or (PStr s) [] = s"
  by (simp add: str_or_def py_str_def)

lemma str_or_PNone [simp, str_simps]: "str_or PNone d = d"
  by (simp add: str_or_def)

text \<open>\<open>int(text)\<close>: optional sign, digits, single underscores between digits.\<close>

fun int_digits_ok :: "string \<Rightarrow> bool" where
  "int_digits_ok [] = False"
| "int_digits_ok [c] = is_digit c"
| "int_digits_ok (c # d # cs) =
     (is_digit c \<and> (if d = CHR ''_'' then int_digits_ok cs else int_digits_ok (d # cs)))"

definition int_of_text :: "string \<Rightarrow> int option" where
  "int_of_text s =
     (let t = py_strip s;
          neg = (t \<noteq> [] \<and> hd t = CHR ''-'');
          body = (if t \<noteq> [] \<and> (hd t = CHR ''-'' \<or> hd t = CHR ''+'') then tl t else t)
      in if int_digits_ok body
         then (let n = int (nat_of_digits (filter (\<lambda>c. c \<noteq> CHR ''_'') body))
               in Some (if neg then - n else n))
         else None)"

text \<open>The integer part of a finite float, from its decimal text.\<close>

definition trunc_float_text :: "string \<Rightarrow> int" where
  "trunc_float_text t =
     (let neg = (t \<noteq> [] \<and> hd t = CHR ''-'');
          body = (if neg then tl t else t);
          mant = takeWhile (\<lambda>c. c \<noteq> CHR ''e'' \<and> c \<noteq> CHR ''E'') body;
          ex = drop (Suc (length mant)) body;
          exneg = (ex \<noteq> [] \<and> hd ex = CHR ''-'');
          e = int (nat_of_digits (filter is_digit ex));
          ip = takeWhile (\<lambda>c. c \<noteq> CHR ''.'') mant;
          fp = drop (Suc (length ip)) mant;
          m = int (nat_of_digits (ip @ fp));
          k = (if exneg then - e else e) - int (length fp);
          n = (if 0 \<le> k then m * 10 ^ nat k else m div 10 ^ nat (- k))
      in if neg then - n else n)"

fun py_int :: "pyval \<Rightarrow> py_exc + int" where
  "py_int (PBool b) = Inr (if b then 1 else 0)"
| "py_int (PInt i) = Inr i"
| "py_int (PFloat (FFin t)) = Inr (trunc_float_text t)"
| "py_int (PFloat FNan) = Inl ValueError"
| "py_int (PFloat _) = Inl OverflowError"
| "py_int (PStr s) = (case int_of_text s of None \<Rightarrow> Inl ValueError | Some i \<Rightarrow> Inr i)"
| "py_int _ = Inl TypeError"

section \<open>Dictionaries and lists\<close>

fun is_str :: "pyval \<Rightarrow> bool" where
  "is_str (PStr _) = True"
| "is_str _ = False"

fun is_dict :: "pyval \<Rightarrow> bool" where
  "is_dict (PDict _) = True"
| "is_dict _ = False"

fun is_list :: "pyval \<Rightarrow> bool" where
  "is_list (PList _) = True"
| "is_list _ = False"

fun items_of :: "pyval \<Rightarrow> (pykey \<times> pyval) list" where
  "items_of (PDict kvs) = kvs"
| "items_of _ = []"

fun elems_of :: "pyval \<Rightarrow> pyval list" where
  "elems_of (PList xs) = xs"
| "elems_of (PTuple xs) = xs"
| "elems_of _ = []"

text \<open>\<open>d.get("k")\<close> (None when missing) and \<open>"k" in d\<close>, on the items of a dictionary.\<close>

definition dget :: "(pykey \<times> pyval) list \<Rightarrow> string \<Rightarrow> pyval" where
  "dget d k = (case map_of d (KStr k) of None \<Rightarrow> PNone | Some v \<Rightarrow> v)"

definition dhas :: "(pykey \<times> pyval) list \<Rightarrow> string \<Rightarrow> bool" where
  "dhas d k = (map_of d (KStr k) \<noteq> None)"

definition dput :: "string \<Rightarrow> pyval \<Rightarrow> (pykey \<times> pyval) list \<Rightarrow> (pykey \<times> pyval) list" where
  "dput k v d = alist_put (KStr k) v d"

definition dpop :: "string \<Rightarrow> (pykey \<times> pyval) list \<Rightarrow> (pykey \<times> pyval) list" where
  "dpop k d = alist_pop (KStr k) d"

lemma dget_dput [simp]: "dget (dput k v d) k' = (if k' = k then v else dget d k')"
  by (simp add: dget_def dput_def)

lemma dget_dpop [simp]: "dget (dpop k d) k' = (if k' = k then PNone else dget d k')"
  by (simp add: dget_def dpop_def)

lemma dhas_dput [simp]: "dhas (dput k v d) k' \<longleftrightarrow> k' = k \<or> dhas d k'"
  by (simp add: dhas_def dput_def)

lemma dhas_dpop [simp]: "dhas (dpop k d) k' \<longleftrightarrow> k' \<noteq> k \<and> dhas d k'"
  by (simp add: dhas_def dpop_def)

lemma dget_Nil [simp]: "dget [] k = PNone"
  by (simp add: dget_def)

lemma dget_Cons_KStr [simp]: "dget ((KStr k', v) # d) k = (if k' = k then v else dget d k)"
  by (simp add: dget_def)

lemma dhas_Cons_KStr [simp]: "dhas ((KStr k', v) # d) k \<longleftrightarrow> k' = k \<or> dhas d k"
  by (simp add: dhas_def)

lemma dhas_Nil [simp]: "\<not> dhas [] k"
  by (simp add: dhas_def)

lemma int_of_text_show_nat: "int_digits_ok (show_nat n)"
proof -
  have *: "s \<noteq> [] \<Longrightarrow> \<forall>c\<in>set s. is_digit c \<Longrightarrow> int_digits_ok s" for s
    by (induction s rule: int_digits_ok.induct) (auto simp: is_digit_def code_def)
  show ?thesis by (rule *) (simp_all add: show_nat_digits)
qed

end
