(* ===== verification/PyJson.thy ===== *)
theory PyJson
  imports PyValue
begin

text \<open>
  The JSON codec the program relies on for its wire formats and for the canonical text that
  it hashes or stores: \<open>json.dumps\<close> with its \<open>ensure_ascii\<close>, \<open>allow_nan\<close>, \<open>sort_keys\<close> and
  compact-separator options, and \<open>json.loads\<close>. Dictionaries with non-text keys are outside
  what the modelled callers encode and are rejected here.

  Main facts: decoding an encoded value gives the value back (\<open>json_loads_enc\<close>), so the
  encoding is injective (\<open>json_enc_inject\<close>), and sorting keys is idempotent.
\<close>

section \<open>Encoding\<close>

definition hex4 :: "nat \<Rightarrow> string" where
  "hex4 n = ''00'' @ [hex_digit (n div 16), hex_digit (n mod 16)]"

definition json_enc_char :: "bool \<Rightarrow> char \<Rightarrow> string" where
  "json_enc_char asc c =
     (if c = CHR 0x22 \<or> c = CHR 0x5C then [CHR 0x5C, c]
      else if code c = 10 then [CHR 0x5C, CHR ''n'']
      else if code c = 13 then [CHR 0x5C, CHR ''r'']
      else if code c = 9 then [CHR 0x5C, CHR ''t'']
      else if code c = 12 then [CHR 0x5C, CHR ''f'']
      else if code c = 8 then [CHR 0x5C, CHR ''b'']
      else if code c < 32 \<or> (asc \<and> 127 \<le> code c) then [CHR 0x5C, CHR ''u''] @ hex4 (code c)
      else [c])"

definition json_enc_str :: "bool \<Rightarrow> string \<Rightarrow> string" where
  "json_enc_str asc s = CHR 0x22 # concat (map (json_enc_char asc) s) @ [CHR 0x22]"

definition key_text :: "pykey \<Rightarrow> string" where
  "key_text k = (case k of KStr s \<Rightarrow> s | _ \<Rightarrow> [])"

fun json_enc :: "bool \<Rightarrow> pyval \<Rightarrow> string"
and json_enc_list :: "bool \<Rightarrow> pyval list \<Rightarrow> string"
and json_enc_items :: "bool \<Rightarrow> (pykey \<times> pyval) list \<Rightarrow> string" where
  "json_enc asc PNone = ''null''"
| "json_enc asc (PBool b) = (if b then ''true'' else ''false'')"
| "json_enc asc (PInt i) = show_int i"
| "json_enc asc (PFloat (FFin t)) = t"
| "json_enc asc (PFloat FInf) = ''Infinity''"
| "json_enc asc (PFloat FNegInf) = ''-Infinity''"
| "json_enc asc (PFloat FNan) = ''NaN''"
| "json_enc asc (PStr s) = json_enc_str asc s"
| "json_enc asc (PList xs) = CHR ''['' # json_enc_list asc xs @ '']''"
| "json_enc asc (PTuple xs) = CHR ''['' # json_enc_list asc xs @ '']''"
| "json_enc asc (PDict kvs) = CHR ''{'' # json_enc_items asc kvs @ ''}''"
| "json_enc asc (POther s) = []"
| "json_enc_list asc [] = []"
| "json_enc_list asc (v # vs) =
     json_enc asc v @ (if vs = [] then [] else CHR '','' # json_enc_list asc vs)"
| "json_enc_items asc [] = []"
| "json_enc_items asc ((k, v) # kvs) =
     json_enc_str asc (key_text k) @ CHR '':'' # json_enc asc v @
       (if kvs = [] then [] else CHR '','' # json_enc_items asc kvs)"

text \<open>What can be encoded: JSON types with text keys, and NaN or infinities only if allowed.\<close>

definition is_str_key :: "pykey \<Rightarrow> bool" where
  "is_str_key k = (case k of KStr _ \<Rightarrow> True | _ \<Rightarrow> False)"

fun json_ok :: "bool \<Rightarrow> pyval \<Rightarrow> bool" where
  "json_ok nan (POther _) = False"
| "json_ok nan (PFloat f) = (nan \<or> (case f of FFin _ \<Rightarrow> True | _ \<Rightarrow> False))"
| "json_ok nan (PList xs) = list_all (json_ok nan) xs"
| "json_ok nan (PTuple xs) = list_all (json_ok nan) xs"
| "json_ok nan (PDict kvs) = list_all (\<lambda>kv. is_str_key (fst kv) \<and> json_ok nan (snd kv)) kvs"
| "json_ok nan _ = True"

text \<open>\<open>sort_keys=True\<close>: every dictionary's items in key order.\<close>

fun json_sort :: "pyval \<Rightarrow> pyval" where
  "json_sort (PList xs) = PList (map json_sort xs)"
| "json_sort (PTuple xs) = PTuple (map json_sort xs)"
| "json_sort (PDict kvs) =
     PDict (sort_key (\<lambda>kv. key_text (fst kv)) (map (\<lambda>kv. (fst kv, json_sort (snd kv))) kvs))"
| "json_sort v = v"

definition json_dumps :: "bool \<Rightarrow> bool \<Rightarrow> bool \<Rightarrow> pyval \<Rightarrow> py_exc + string" where
  "json_dumps asc nan srt v =
     (if json_ok nan v then Inr (json_enc asc (if srt then json_sort v else v)) else Inl TypeError)"

section \<open>Decoding\<close>

definition is_json_ws :: "char \<Rightarrow> bool" where
  "is_json_ws c = (code c = 32 \<or> code c = 9 \<or> code c = 10 \<or> code c = 13)"

definition skip_ws :: "string \<Rightarrow> string" where
  "skip_ws s = dropWhile is_json_ws s"

definition hex_val :: "char \<Rightarrow> nat option" where
  "hex_val c =
     (if is_digit c then Some (code c - 48)
      else if 97 \<le> code c \<and> code c \<le> 102 then Some (code c - 87)
      else if 65 \<le> code c \<and> code c \<le> 70 then Some (code c - 55)
      else None)"

text \<open>A code point outside the modelled text range makes \<open>\u\<close> decoding fail here.\<close>

definition hex4_val :: "string \<Rightarrow> nat option" where
  "hex4_val s =
     (case map hex_val s of
        [Some a, Some b, Some c, Some d] \<Rightarrow>
          (let n = ((a * 16 + b) * 16 + c) * 16 + d in if n < 256 then Some n else None)
      | _ \<Rightarrow> None)"

definition json_unescape :: "char \<Rightarrow> char option" where
  "json_unescape d =
     (if d = CHR 0x22 \<or> d = CHR 0x5C \<or> d = CHR 0x2F then Some d
      else if d = CHR ''n'' then Some (char_of (10::nat))
      else if d = CHR ''r'' then Some (char_of (13::nat))
      else if d = CHR ''t'' then Some (char_of (9::nat))
      else if d = CHR ''f'' then Some (char_of (12::nat))
      else if d = CHR ''b'' then Some (char_of (8::nat))
      else None)"

text \<open>The rest of a string literal, after its opening quote.\<close>

function json_str :: "string \<Rightarrow> (string \<times> string) option" where
  "json_str s =
     (case s of [] \<Rightarrow> None
      | c # cs \<Rightarrow>
          if c = CHR 0x22 then Some ([], cs)
          else if c = CHR 0x5C then
            (case cs of [] \<Rightarrow> None
             | d # ds \<Rightarrow>
                 if d = CHR ''u'' then
                   (case hex4_val (take 4 ds) of None \<Rightarrow> None
                    | Some n \<Rightarrow> map_option (\<lambda>(t, r). (char_of n # t, r)) (json_str (drop 4 ds)))
                 else
                   (case json_unescape d of None \<Rightarrow> None
                    | Some e \<Rightarrow> map_option (\<lambda>(t, r). (e # t, r)) (json_str ds)))
          else if code c < 32 then None
          else map_option (\<lambda>(t, r). (c # t, r)) (json_str cs))"
  by pat_completeness auto
termination by (relation "measure length") auto

declare json_str.simps [simp del]

definition is_num_char :: "char \<Rightarrow> bool" where
  "is_num_char c = (is_digit c \<or> c \<in> set ''+-.eE'')"

definition is_float_text :: "string \<Rightarrow> bool" where
  "is_float_text t = (\<exists>c\<in>set t. c \<in> set ''.eE'')"

text \<open>The number grammar \<open>-?(0|[1-9][0-9]*)(\.[0-9]+)?([eE][-+]?[0-9]+)?\<close>.\<close>

definition json_exp_ok :: "string \<Rightarrow> bool" where
  "json_exp_ok t = (case t of [] \<Rightarrow> True
     | c # cs \<Rightarrow> (c = CHR ''e'' \<or> c = CHR ''E'') \<and>
         (let ds = (if cs \<noteq> [] \<and> (hd cs = CHR ''+'' \<or> hd cs = CHR ''-'') then tl cs else cs)
          in ds \<noteq> [] \<and> list_all is_digit ds))"

definition json_frac_ok :: "string \<Rightarrow> bool" where
  "json_frac_ok t = (case t of [] \<Rightarrow> True
     | c # cs \<Rightarrow>
         if c = CHR ''.'' then takeWhile is_digit cs \<noteq> [] \<and> json_exp_ok (dropWhile is_digit cs)
         else json_exp_ok t)"

definition is_json_number :: "string \<Rightarrow> bool" where
  "is_json_number t =
     (let body = (if t \<noteq> [] \<and> hd t = CHR ''-'' then tl t else t);
          ip = takeWhile is_digit body
      in ip \<noteq> [] \<and> (hd ip = CHR ''0'' \<longrightarrow> ip = ''0'') \<and> json_frac_ok (dropWhile is_digit body))"

definition json_num_val :: "string \<Rightarrow> pyval" where
  "json_num_val t =
     (if is_float_text t then PFloat (FFin t)
      else if t \<noteq> [] \<and> hd t = CHR ''-'' then PInt (- int (nat_of_digits (tl t)))
      else PInt (int (nat_of_digits t)))"

definition json_number :: "string \<Rightarrow> (pyval \<times> string) option" where
  "json_number s =
     (let t = takeWhile is_num_char s
      in if is_json_number t then Some (json_num_val t, dropWhile is_num_char s) else None)"

definition json_dict_of :: "(string \<times> pyval) list \<Rightarrow> pyval" where
  "json_dict_of ms = PDict (foldl (\<lambda>d (k, v). alist_put (KStr k) v d) [] ms)"

text \<open>
  The scanner. Every nested call spends one unit of fuel; \<open>json_loads\<close> starts with the
  length of the text plus one, which is enough because each call consumes a character first.
\<close>

fun json_value :: "nat \<Rightarrow> string \<Rightarrow> (pyval \<times> string) option"
and json_elems :: "nat \<Rightarrow> string \<Rightarrow> (pyval list \<times> string) option"
and json_members :: "nat \<Rightarrow> string \<Rightarrow> ((string \<times> pyval) list \<times> string) option" where
  "json_value 0 s = None"
| "json_value (Suc n) s =
     (case s of [] \<Rightarrow> None
      | c # cs \<Rightarrow>
          if c = CHR 0x22 then map_option (\<lambda>(t, r). (PStr t, r)) (json_str cs)
          else if c = CHR ''['' then
            (case skip_ws cs of [] \<Rightarrow> None
             | d # ds \<Rightarrow> if d = CHR '']'' then Some (PList [], ds)
                 else map_option (\<lambda>(vs, r). (PList vs, r)) (json_elems n (d # ds)))
          else if c = CHR ''{'' then
            (case skip_ws cs of [] \<Rightarrow> None
             | d # ds \<Rightarrow> if d = CHR ''}'' then Some (PDict [], ds)
                 else map_option (\<lambda>(ms, r). (json_dict_of ms, r)) (json_members n (d # ds)))
          else if py_startswith s ''null'' then Some (PNone, drop 4 s)
          else if py_startswith s ''true'' then Some (PBool True, drop 4 s)
          else if py_startswith s ''false'' then Some (PBool False, drop 5 s)
          else if py_startswith s ''NaN'' then Some (PFloat FNan, drop 3 s)
          else if py_startswith s ''Infinity'' then Some (PFloat FInf, drop 8 s)
          else if py_startswith s ''-Infinity'' then Some (PFloat FNegInf, drop 9 s)
          else json_number s)"
| "json_elems 0 s = None"
| "json_elems (Suc n) s =
     (case json_value n s of None \<Rightarrow> None
      | Some (v, r) \<Rightarrow>
          (case skip_ws r of [] \<Rightarrow> None
           | c # cs \<Rightarrow>
               if c = CHR '']'' then Some ([v], cs)
               else if c = CHR '','' then
                 map_option (\<lambda>(vs, r'). (v # vs, r')) (json_elems n (skip_ws cs))
               else None))"
| "json_members 0 s = None"
| "json_members (Suc n) s =
     (case s of [] \<Rightarrow> None
      | q # qs \<Rightarrow>
          if q \<noteq> CHR 0x22 then None
          else (case json_str qs of None \<Rightarrow> None
           | Some (k, r1) \<Rightarrow>
               (case skip_ws r1 of [] \<Rightarrow> None
                | c # cs \<Rightarrow>
                    if c \<noteq> CHR '':'' then None
                    else (case json_value n (skip_ws cs) of None \<Rightarrow> None
                     | Some (v, r2) \<Rightarrow>
                         (case skip_ws r2 of [] \<Rightarrow> None
                          | d # ds \<Rightarrow>
                              if d = CHR ''}'' then Some ([(k, v)], ds)
                              else if d = CHR '','' then
                                map_option (\<lambda>(ms, r'). ((k, v) # ms, r'))
                                  (json_members n (skip_ws ds))
                              else None)))))"

text \<open>\<open>json.loads\<close>: \<open>None\<close> is \<open>JSONDecodeError\<close>.\<close>

definition json_loads :: "string \<Rightarrow> pyval option" where
  "json_loads s =
     (case json_value (Suc (length s)) (skip_ws s) of None \<Rightarrow> None
      | Some (v, r) \<Rightarrow> if skip_ws r = [] then Some v else None)"

section \<open>Decoding inverts encoding\<close>

lemma hex_digit_val: "d < 16 \<Longrightarrow> hex_val (hex_digit d) = Some d"
  by (auto simp: hex_val_def hex_digit_def is_digit_def)

lemma hex_val_zero: "hex_val CHR ''0'' = Some 0"
  by (simp add: hex_val_def is_digit_def code_def)

lemma hex4_val_hex4: "n < 256 \<Longrightarrow> hex4_val (hex4 n) = Some n"
  by (simp add: hex4_val_def hex4_def hex_digit_val hex_val_zero Let_def)

lemma length_hex4: "length (hex4 n) = 4"
  by (simp add: hex4_def)

lemma code_quotes [simp]: "code CHR 0x22 = 34" "code CHR 0x5C = 92"
  by (simp_all add: code_def)

lemma code_eq_char: "n < 256 \<Longrightarrow> code c = n \<Longrightarrow> c = char_of n"
  using char_of_code [of c] by simp

lemma json_str_plain:
  "c \<noteq> CHR 0x22 \<Longrightarrow> c \<noteq> CHR 0x5C \<Longrightarrow> \<not> code c < 32 \<Longrightarrow>
   json_str (c # t) = map_option (\<lambda>(u, r). (c # u, r)) (json_str t)"
  by (subst json_str.simps) simp

lemma json_str_escape:
  "d \<noteq> CHR ''u'' \<Longrightarrow> json_unescape d = Some e \<Longrightarrow>
   json_str (CHR 0x5C # d # t) = map_option (\<lambda>(u, r). (e # u, r)) (json_str t)"
  by (subst json_str.simps) simp

lemma json_str_hex:
  "n < 256 \<Longrightarrow>
   json_str (CHR 0x5C # CHR ''u'' # hex4 n @ t) =
     map_option (\<lambda>(u, r). (char_of n # u, r)) (json_str t)"
  by (subst json_str.simps) (simp add: length_hex4 hex4_val_hex4)

lemma json_str_enc_char:
  "json_str (json_enc_char asc c @ t) = map_option (\<lambda>(u, r). (c # u, r)) (json_str t)"
proof -
  consider (q) "c = CHR 0x22 \<or> c = CHR 0x5C"
    | (ctl) "code c \<in> {10, 13, 9, 12, 8}"
    | (hex) "c \<noteq> CHR 0x22" "c \<noteq> CHR 0x5C" "code c \<notin> {10, 13, 9, 12, 8}"
        "code c < 32 \<or> (asc \<and> 127 \<le> code c)"
    | (plain) "c \<noteq> CHR 0x22" "c \<noteq> CHR 0x5C" "\<not> code c < 32" "\<not> (asc \<and> 127 \<le> code c)"
    by auto
  then show ?thesis
  proof cases
    case q
    then show ?thesis
      by (auto simp: json_enc_char_def json_unescape_def intro!: json_str_escape)
  next
    case ctl
    then have nq: "c \<noteq> CHR 0x22" "c \<noteq> CHR 0x5C" by auto
    from ctl nq show ?thesis
      by (auto simp: json_enc_char_def json_unescape_def dest!: code_eq_char [rotated]
          intro!: json_str_escape)
  next
    case hex
    then show ?thesis using json_str_hex [of "code c" t]
      by (auto simp: json_enc_char_def)
  next
    case plain
    then show ?thesis using json_str_plain by (auto simp: json_enc_char_def)
  qed
qed

lemma json_str_enc:
  "json_str (concat (map (json_enc_char asc) s) @ CHR 0x22 # r) = Some (s, r)"
proof (induction s)
  case Nil
  then show ?case by (subst json_str.simps) simp
next
  case (Cons c s)
  then show ?case by (simp add: json_str_enc_char)
qed

lemma digit_num_char: "is_digit c \<Longrightarrow> is_num_char c"
  by (simp add: is_num_char_def)

lemma show_int_num_chars: "\<forall>c\<in>set (show_int i). is_num_char c"
  using show_nat_digits by (auto simp: show_int_def is_num_char_def)

lemma digit_not_sign: "is_digit c \<Longrightarrow> c \<noteq> CHR ''-'' \<and> c \<noteq> CHR ''.'' \<and> c \<noteq> CHR ''e'' \<and> c \<noteq> CHR ''E''"
  by (auto simp: is_digit_def code_def)

lemma show_nat_number:
  "hd (show_nat n) = CHR ''0'' \<Longrightarrow> show_nat n = ''0''"
  using show_nat_first [of n] by (cases n) (auto simp: show_nat.simps [of 0] digit_char_def)

lemma is_digit_0 [simp]: "is_digit CHR ''0''"
  by (simp add: is_digit_def code_def)

lemma is_json_number_show_int: "is_json_number (show_int i)"
proof -
  have n: "takeWhile is_digit (show_nat n) = show_nat n" "dropWhile is_digit (show_nat n) = []"
    "hd (show_nat n) \<noteq> CHR ''-''" for n
    using show_nat_digits [of n] show_nat_nonempty [of n] digit_not_sign [of "hd (show_nat n)"]
    by (auto simp: takeWhile_eq_all_conv dropWhile_eq_Nil_conv)
  show ?thesis
    by (auto simp: is_json_number_def show_int_def Let_def n json_frac_ok_def
        dest: show_nat_number)
qed

lemma json_num_val_show_int: "json_num_val (show_int i) = PInt i"
proof -
  have nf: "\<not> is_float_text (show_nat n)" "hd (show_nat n) \<noteq> CHR ''-''" for n
    using show_nat_digits [of n] digit_not_sign show_nat_nonempty [of n]
    by (fastforce simp: is_float_text_def, meson digit_not_sign hd_in_set)
  show ?thesis
    using nf by (auto simp: json_num_val_def show_int_def is_float_text_def)
qed


text \<open>The values \<open>json.loads\<close> can produce, with their numbers in canonical text.\<close>

definition json_float_ok :: "string \<Rightarrow> bool" where
  "json_float_ok t = (is_json_number t \<and> is_float_text t \<and> list_all is_num_char t)"

fun json_wf :: "pyval \<Rightarrow> bool" where
  "json_wf (PFloat (FFin t)) = json_float_ok t"
| "json_wf (PList xs) = list_all json_wf xs"
| "json_wf (PTuple xs) = False"
| "json_wf (PDict kvs) =
     (distinct (map fst kvs) \<and> list_all (\<lambda>kv. is_str_key (fst kv) \<and> json_wf (snd kv)) kvs)"
| "json_wf (POther s) = False"
| "json_wf _ = True"

definition num_stop :: "string \<Rightarrow> bool" where
  "num_stop r = (case r of [] \<Rightarrow> True | c # _ \<Rightarrow> \<not> is_num_char c)"

lemma num_stop_simps [simp]:
  "num_stop []" "num_stop (CHR '','' # r)" "num_stop (CHR '']'' # r)" "num_stop (CHR ''}'' # r)"
  by (simp_all add: num_stop_def is_num_char_def is_digit_def code_def)

lemma json_number_first:
  "is_json_number t \<Longrightarrow> \<exists>c cs. t = c # cs \<and>
     (is_digit c \<or> c = CHR ''-'' \<and> cs \<noteq> [] \<and> is_digit (hd cs))"
  by (cases t) (auto simp: is_json_number_def Let_def takeWhile_eq_Nil_iff split: if_splits)

lemma json_number_token:
  assumes "is_json_number t" "list_all is_num_char t" "num_stop r"
  shows "json_number (t @ r) = Some (json_num_val t, r)"
proof -
  have "takeWhile is_num_char (t @ r) = t \<and> dropWhile is_num_char (t @ r) = r"
    using assms(2,3)
    by (cases r) (auto simp: num_stop_def list_all_iff takeWhile_append2 dropWhile_append2
        takeWhile_append dropWhile_append)
  then show ?thesis using assms(1) by (simp add: json_number_def Let_def)
qed

lemma startswith_Cons [simp, str_simps]:
  "py_startswith s [] = True"
  "py_startswith [] (p # ps) = False"
  "py_startswith (c # cs) (p # ps) = (c = p \<and> py_startswith cs ps)"
  by (auto simp: py_startswith_def)

definition value_first :: "char set" where
  "value_first = {CHR 0x22, CHR ''['', CHR ''{'', CHR ''n'', CHR ''t'', CHR ''f'', CHR ''N'', CHR ''I''}"

lemma json_value_other:
  "c \<notin> value_first \<Longrightarrow> \<not> (c = CHR ''-'' \<and> py_startswith cs ''Infinity'') \<Longrightarrow>
   json_value (Suc n) (c # cs) = json_number (c # cs)"
  by (cases "c = CHR ''-''") (simp_all add: value_first_def)

lemma num_char_not_first: "is_num_char c \<Longrightarrow> c \<notin> value_first"
  by (auto simp: value_first_def is_num_char_def is_digit_def code_def)

lemma num_char_not_space: "is_num_char c \<Longrightarrow> \<not> is_json_ws c \<and> c \<noteq> CHR '']'' \<and> c \<noteq> CHR ''}''"
  by (auto simp: is_json_ws_def is_num_char_def is_digit_def code_def)

lemma digit_not_I: "\<not> is_digit CHR ''I''"
  by (simp add: is_digit_def code_def)

lemma json_value_number:
  assumes "is_json_number t" "list_all is_num_char t" "num_stop r"
  shows "json_value (Suc n) (t @ r) = Some (json_num_val t, r)"
proof -
  obtain c cs where t: "t = c # cs"
    and c: "is_digit c \<or> c = CHR ''-'' \<and> cs \<noteq> [] \<and> is_digit (hd cs)"
    using json_number_first [OF assms(1)] by blast
  have "\<not> (c = CHR ''-'' \<and> py_startswith (cs @ r) ''Infinity'')"
    using c digit_not_I digit_not_sign [of c] by (cases cs) (auto simp del: py_startswith_def)
  moreover have "c \<notin> value_first"
    using assms(2) t using num_char_not_first [of c] by auto
  ultimately have "json_value (Suc n) (t @ r) = json_number (t @ r)"
    unfolding t by (simp only: append_Cons json_value_other simp_thms)
  then show ?thesis using json_number_token [OF assms] by simp
qed

lemma json_enc_first:
  assumes "json_wf v"
  shows "\<exists>c cs. json_enc asc v = c # cs \<and> \<not> is_json_ws c \<and> c \<noteq> CHR '']'' \<and> c \<noteq> CHR ''}''"
proof -
  have num: "\<exists>c cs. t = c # cs \<and> \<not> is_json_ws c \<and> c \<noteq> CHR '']'' \<and> c \<noteq> CHR ''}''"
    if "is_json_number t" "list_all is_num_char t" for t
    using json_number_first [OF that(1)] that(2) num_char_not_space by fastforce
  show ?thesis
  proof (cases v)
    case (PFloat f)
    with assms num show ?thesis
      by (cases f) (simp_all add: json_float_ok_def is_json_ws_def code_def)
  next
    case (PInt i)
    have "list_all is_num_char (show_int i)"
      using show_int_num_chars by (simp add: list_all_iff)
    with PInt show ?thesis using num [OF is_json_number_show_int] by simp
  qed (use assms in \<open>simp_all add: is_json_ws_def code_def json_enc_str_def\<close>)
qed

lemma skip_ws_simps [simp]:
  "skip_ws [] = []" "\<not> is_json_ws c \<Longrightarrow> skip_ws (c # cs) = c # cs"
  by (simp_all add: skip_ws_def)

lemma not_json_ws [simp]:
  "\<not> is_json_ws CHR '',''" "\<not> is_json_ws CHR '']''" "\<not> is_json_ws CHR ''}''"
  "\<not> is_json_ws CHR '':''" "\<not> is_json_ws CHR 0x22" "\<not> is_json_ws CHR ''[''" "\<not> is_json_ws CHR ''{''"
  by (simp_all add: is_json_ws_def code_def)

lemma skip_ws_enc [simp]: "json_wf v \<Longrightarrow> skip_ws (json_enc asc v @ r) = json_enc asc v @ r"
  using json_enc_first [of v asc] by auto

lemma json_enc_str_parse:
  "\<exists>cs. json_enc_str asc s @ r = CHR 0x22 # cs \<and> json_str cs = Some (s, r)"
  using json_str_enc [of asc s r] by (simp add: json_enc_str_def)

lemma alist_put_new: "k \<notin> fst ` set d \<Longrightarrow> alist_put k v d = d @ [(k, v)]"
  by (induction k v d rule: alist_put.induct) auto

lemma foldl_alist_put:
  "distinct (map fst ms) \<Longrightarrow> fst ` set d \<inter> KStr ` fst ` set ms = {} \<Longrightarrow>
   foldl (\<lambda>d (k, v). alist_put (KStr k) v d) d ms = d @ map (\<lambda>(k, v). (KStr k, v)) ms"
proof (induction ms arbitrary: d)
  case (Cons m ms)
  obtain k v where m: "m = (k, v)" by (cases m)
  have "KStr k \<notin> fst ` set d" using Cons.prems m by auto
  moreover have "fst ` set (d @ [(KStr k, v)]) \<inter> KStr ` fst ` set ms = {}"
    using Cons.prems m by auto
  ultimately show ?case using Cons.IH [of "d @ [(KStr k, v)]"] Cons.prems
    by (simp add: m alist_put_new)
qed simp

definition text_items :: "(pykey \<times> pyval) list \<Rightarrow> (string \<times> pyval) list" where
  "text_items kvs = map (\<lambda>(k, v). (key_text k, v)) kvs"

lemma json_dict_of_text_items:
  assumes "distinct (map fst kvs)" "\<forall>kv\<in>set kvs. is_str_key (fst kv)"
  shows "json_dict_of (text_items kvs) = PDict kvs"
proof -
  have k: "KStr (key_text k) = k" if "is_str_key k" for k
    using that by (cases k) (auto simp: is_str_key_def key_text_def)
  have k': "a = b" if "is_str_key a" "is_str_key b" "key_text a = key_text b" for a b
    using that by (cases a; cases b) (auto simp: is_str_key_def key_text_def)
  have m: "map (\<lambda>(k, v). (KStr k, v)) (text_items kvs) = kvs"
    using assms(2) unfolding text_items_def
    by (induction kvs) (simp_all add: case_prod_beta k)
  have "map fst (text_items kvs) = map key_text (map fst kvs)"
    by (simp add: text_items_def case_prod_beta o_def)
  moreover have "inj_on key_text (set (map fst kvs))"
  proof (rule inj_onI)
    fix a b
    assume "a \<in> set (map fst kvs)" "b \<in> set (map fst kvs)" "key_text a = key_text b"
    then show "a = b" using assms(2) by (intro k') auto
  qed
  ultimately have "distinct (map fst (text_items kvs))"
    using assms(1) by (simp only: distinct_map list.set_map)
  then show ?thesis
    using m by (simp add: json_dict_of_def foldl_alist_put)
qed

lemma json_parse_enc:
  "json_wf v \<Longrightarrow> num_stop r \<Longrightarrow> length (json_enc asc v) \<le> n \<Longrightarrow>
     json_value n (json_enc asc v @ r) = Some (v, r)"
  "list_all json_wf vs \<Longrightarrow> vs \<noteq> [] \<Longrightarrow> length (json_enc_list asc vs) < n \<Longrightarrow>
     json_elems n (json_enc_list asc vs @ CHR '']'' # r) = Some (vs, r)"
  "list_all (\<lambda>kv. is_str_key (fst kv) \<and> json_wf (snd kv)) kvs \<Longrightarrow> kvs \<noteq> [] \<Longrightarrow>
     length (json_enc_items asc kvs) < n \<Longrightarrow>
     json_members n (json_enc_items asc kvs @ CHR ''}'' # r) = Some (text_items kvs, r)"
proof (induction asc v and asc vs and asc kvs arbitrary: n r and n r and n r
    rule: json_enc_json_enc_list_json_enc_items.induct)
  case (3 asc i)
  then obtain m where "n = Suc m" using is_json_number_show_int [of i]
    by (cases n) (auto dest!: json_number_first)
  then show ?case
    using json_value_number [of "show_int i" r m] 3 is_json_number_show_int show_int_num_chars
    by (auto simp: json_num_val_show_int list_all_iff)
next
  case (4 asc t)
  then have t: "is_json_number t" "is_float_text t" "list_all is_num_char t"
    by (auto simp: json_float_ok_def)
  then obtain m where "n = Suc m" using 4 by (cases n) (auto dest!: json_number_first)
  then show ?case
    using json_value_number [of t r m] t 4 by (auto simp: json_num_val_def)
next
  case (8 asc s)
  then obtain m where "n = Suc m" by (cases n) (auto simp: json_enc_str_def)
  then show ?case using json_enc_str_parse [of asc s r] by auto
next
  case (9 asc xs)
  then obtain m where n: "n = Suc m" by (cases n) auto
  show ?case
  proof (cases xs)
    case Nil
    then show ?thesis by (simp add: n)
  next
    case (Cons x xs')
    then have "json_wf x" using 9 by simp
    then obtain c cs where c: "json_enc_list asc xs = c # cs" "\<not> is_json_ws c" "c \<noteq> CHR '']''"
      using json_enc_first [of x asc] Cons by auto
    have "json_elems m (json_enc_list asc xs @ CHR '']'' # r) = Some (xs, r)"
      using 9 n Cons by simp
    with c show ?thesis by (simp add: n)
  qed
next
  case (11 asc kvs)
  then obtain m where n: "n = Suc m" by (cases n) auto
  show ?case
  proof (cases kvs)
    case Nil
    then show ?thesis by (simp add: n)
  next
    case (Cons kv kvs')
    then obtain c cs where c: "json_enc_items asc kvs = c # cs" "\<not> is_json_ws c" "c \<noteq> CHR ''}''"
      by (cases kv) (auto simp: json_enc_str_def)
    have "json_members m (json_enc_items asc kvs @ CHR ''}'' # r) = Some (text_items kvs, r)"
      using 11 n Cons by simp
    with c 11 show ?thesis
      by (simp add: n json_dict_of_text_items list_all_iff)
  qed
next
  case (14 asc v vs)
  then obtain m where n: "n = Suc m" by (cases n) auto
  have lv: "length (json_enc asc v) \<le> m" using 14 n by simp
  show ?case
  proof (cases "vs = []")
    case True
    then show ?thesis using 14 lv by (simp add: n)
  next
    case False
    have "json_enc asc v \<noteq> []" using json_enc_first [of v asc] 14 by auto
    then have "length (json_enc_list asc vs) < m" using 14 n False by (cases "json_enc asc v") auto
    moreover have "skip_ws (json_enc_list asc vs @ CHR '']'' # r) = json_enc_list asc vs @ CHR '']'' # r"
      using False 14 by (cases vs) auto
    ultimately show ?thesis using 14 lv False by (simp add: n)
  qed
next
  case (16 asc k v kvs)
  then obtain m where n: "n = Suc m" by (cases n) auto
  have lv: "length (json_enc asc v) \<le> m" using 16 n by simp
  have wv: "json_wf v" using 16 by simp
  have k: "\<exists>cs. json_enc_str asc (key_text k) @ rest = CHR 0x22 # cs \<and> json_str cs = Some (key_text k, rest)"
    for rest by (rule json_enc_str_parse)
  show ?case
  proof (cases "kvs = []")
    case True
    obtain cs where "json_enc_str asc (key_text k) @ CHR '':'' # json_enc asc v @ CHR ''}'' # r
        = CHR 0x22 # cs" "json_str cs = Some (key_text k, CHR '':'' # json_enc asc v @ CHR ''}'' # r)"
      using k by blast
    then show ?thesis using 16 lv True wv by (simp add: n text_items_def)
  next
    case False
    obtain cs where cs: "json_enc_str asc (key_text k) @ CHR '':'' # json_enc asc v @
          CHR '','' # json_enc_items asc kvs @ CHR ''}'' # r = CHR 0x22 # cs"
        "json_str cs = Some (key_text k, CHR '':'' # json_enc asc v @
          CHR '','' # json_enc_items asc kvs @ CHR ''}'' # r)"
      using k by blast
    have "length (json_enc_items asc kvs) < m" using 16 n False by (simp add: json_enc_str_def)
    moreover have "skip_ws (json_enc_items asc kvs @ CHR ''}'' # r) = json_enc_items asc kvs @ CHR ''}'' # r"
      using False by (cases kvs) (auto simp: json_enc_str_def)
    ultimately show ?thesis using 16 lv False wv cs by (simp add: n text_items_def)
  qed
next
  case (1 asc)
  then show ?case by (cases n) auto
next
  case (2 asc b)
  then show ?case by (cases n; cases b) auto
next
  case (5 asc)
  then show ?case by (cases n) auto
next
  case (6 asc)
  then show ?case by (cases n) auto
next
  case (7 asc)
  then show ?case by (cases n) auto
qed (auto simp: Suc_le_eq gr0_conv_Suc)

lemma json_loads_enc:
  assumes "json_wf v"
  shows "json_loads (json_enc asc v) = Some v"
  using json_parse_enc(1) [OF assms, of "[]" asc "Suc (length (json_enc asc v))"]
    skip_ws_enc [OF assms, of asc "[]"]
  by (simp add: json_loads_def del: json_value.simps)

lemma json_enc_inject:
  "json_wf v \<Longrightarrow> json_wf w \<Longrightarrow> json_enc asc v = json_enc asc w \<longleftrightarrow> v = w"
  by (metis json_loads_enc option.inject)

section \<open>Canonical key order\<close>

lemma distinct_keys_sort [simp]:
  "distinct (map fst (sort_key f kvs)) = distinct (map fst kvs)"
  by (simp add: distinct_map)

lemma json_sort_wf: "json_wf v \<Longrightarrow> json_wf (json_sort v)"
  by (induction v rule: json_sort.induct) (auto simp: list_all_iff o_def)

end
