(* ===== verification/PromptQueueInput.thy ===== *)
theory PromptQueueInput
  imports PyJson
begin

text \<open>
  Input side of the IDE prompt queue, \<open>ide/prompt_queue.py\<close>: the error classes, the queue
  limits, identifier, lease-duration, clock and state-filter validation, and the
  normalisation and serialisation of prompt payloads.

  \<open>float_arg\<close> is what \<open>float(x)\<close> makes of a numeric argument: an exact finite value, a NaN or
  infinity, or an exception; booleans are kept apart because the code tests for them.
\<close>

datatype pq_error =
    ValidationError string
  | CapacityError string
  | IdempotencyConflict string
  | NotFound string
  | StateError string
  | LeaseLost string
  | StorageError string
  | AssertionFailed

datatype prompt_state = PENDING | RUNNING | COMPLETED | CANCELLED | FAILED

definition TERMINAL_STATES :: "prompt_state set" where
  "TERMINAL_STATES = {COMPLETED, CANCELLED, FAILED}"

definition prompt_state_value :: "prompt_state \<Rightarrow> string" where
  "prompt_state_value s = (case s of PENDING \<Rightarrow> ''pending'' | RUNNING \<Rightarrow> ''running''
     | COMPLETED \<Rightarrow> ''completed'' | CANCELLED \<Rightarrow> ''cancelled'' | FAILED \<Rightarrow> ''failed'')"

definition prompt_state_of :: "string \<Rightarrow> prompt_state option" where
  "prompt_state_of v =
     (if v = ''pending'' then Some PENDING else if v = ''running'' then Some RUNNING
      else if v = ''completed'' then Some COMPLETED else if v = ''cancelled'' then Some CANCELLED
      else if v = ''failed'' then Some FAILED else None)"

lemma prompt_state_of_value [simp]: "prompt_state_of (prompt_state_value s) = Some s"
  by (cases s) (simp_all add: prompt_state_of_def prompt_state_value_def)

datatype float_arg = ArgBool bool | ArgFinite rat | ArgNonFinite | ArgUnconvertible

section \<open>Limits\<close>

record pq_config =
  max_payload_bytes :: int
  max_json_depth :: int
  max_json_nodes :: int
  max_outstanding_per_session :: int
  max_list_limit :: int
  busy_timeout_seconds :: float_arg

definition default_config :: pq_config where
  "default_config = \<lparr>max_payload_bytes = 1024 * 1024, max_json_depth = 24,
     max_json_nodes = 50000, max_outstanding_per_session = 100, max_list_limit = 500,
     busy_timeout_seconds = ArgFinite 10\<rparr>"

definition config_post_init :: "pq_config \<Rightarrow> pq_error + pq_config" where
  "config_post_init c =
     (if list_ex (\<lambda>v. v \<le> 0) [max_payload_bytes c, max_json_depth c, max_json_nodes c,
           max_outstanding_per_session c, max_list_limit c]
      then Inl (ValidationError ''Queue limits must be positive integers.'')
      else (case busy_timeout_seconds c of
          ArgFinite v \<Rightarrow>
            if v \<le> 0 \<or> v > 60
            then Inl (ValidationError ''Queue busy timeout is outside the allowed range.'')
            else Inr c
        | _ \<Rightarrow> Inl (ValidationError ''Queue busy timeout is outside the allowed range.'')))"

section \<open>Identifiers, durations, clock, state filters\<close>

definition identifier_char :: "char \<Rightarrow> bool" where
  "identifier_char c = (is_ascii_alnum c \<or> c \<in> set ''._:@/-'')"

text \<open>\<open>^[A-Za-z0-9][A-Za-z0-9._:@/-]*$\<close>, matched against the whole text.\<close>

definition identifier_re :: "string \<Rightarrow> bool" where
  "identifier_re s = (case s of [] \<Rightarrow> False | c # cs \<Rightarrow> is_ascii_alnum c \<and> list_all identifier_char cs)"

definition validate_identifier :: "pyval \<Rightarrow> string \<Rightarrow> nat \<Rightarrow> pq_error + string" where
  "validate_identifier v kind max_len =
     (case v of
        PStr s \<Rightarrow>
          if s = [] \<or> length s > max_len \<or> \<not> identifier_re s
          then Inl (ValidationError (''Prompt '' @ kind @ '' identifier is invalid.''))
          else Inr s
      | _ \<Rightarrow> Inl (ValidationError (''Prompt '' @ kind @ '' identifier must be a string.'')))"

definition validate_lease_identifiers ::
    "pyval \<Rightarrow> pyval \<Rightarrow> pyval \<Rightarrow> pq_error + string \<times> string \<times> string" where
  "validate_lease_identifiers session_id prompt_id lease_token =
     res_bind (validate_identifier session_id ''session'' 256) (\<lambda>s.
     res_bind (validate_identifier prompt_id ''prompt'' 256) (\<lambda>p.
     res_bind (validate_identifier lease_token ''lease'' 256) (\<lambda>l. Inr (s, p, l))))"

definition validate_lease_seconds :: "float_arg \<Rightarrow> pq_error + rat" where
  "validate_lease_seconds v =
     (case v of
        ArgBool _ \<Rightarrow> Inl (ValidationError ''Prompt lease duration is invalid.'')
      | ArgUnconvertible \<Rightarrow> Inl (ValidationError ''Prompt lease duration is invalid.'')
      | ArgNonFinite \<Rightarrow> Inl (ValidationError ''Prompt lease duration is outside the allowed range.'')
      | ArgFinite parsed \<Rightarrow>
          if parsed < 1 \<or> parsed > 24 * 60 * 60
          then Inl (ValidationError ''Prompt lease duration is outside the allowed range.'')
          else Inr parsed)"

definition queue_now :: "float_arg \<Rightarrow> pq_error + rat" where
  "queue_now clock =
     (let checked = (\<lambda>n::rat. if n < 0
            then Inl (ValidationError ''Queue clock returned an invalid value.'') else Inr n)
      in case clock of
           ArgBool b \<Rightarrow> checked (if b then 1 else 0)
         | ArgFinite n \<Rightarrow> checked n
         | _ \<Rightarrow> Inl (ValidationError ''Queue clock returned an invalid value.''))"

text \<open>\<open>^[a-z][a-z0-9_.-]*$\<close>, matched against the whole text.\<close>

definition error_code_re :: "string \<Rightarrow> bool" where
  "error_code_re s = (case s of [] \<Rightarrow> False
     | c # cs \<Rightarrow> is_ascii_lower c \<and>
         list_all (\<lambda>d. is_ascii_lower d \<or> is_digit d \<or> d \<in> set ''_.-'') cs)"

datatype states_arg = StatesNone | StatesText | StatesItems "pyval list"

fun normalize_state_items :: "pyval list \<Rightarrow> prompt_state list option" where
  "normalize_state_items [] = Some []"
| "normalize_state_items (v # vs) =
     (case v of
        PStr t \<Rightarrow> (case prompt_state_of t of None \<Rightarrow> None
           | Some s \<Rightarrow> map_option ((#) s) (normalize_state_items vs))
      | _ \<Rightarrow> None)"

definition normalize_states :: "states_arg \<Rightarrow> pq_error + prompt_state list" where
  "normalize_states states =
     (case states of
        StatesNone \<Rightarrow> Inr []
      | StatesText \<Rightarrow> Inl (ValidationError ''Queue states must be a collection.'')
      | StatesItems vs \<Rightarrow>
          (case normalize_state_items vs of
             None \<Rightarrow> Inl (ValidationError ''Queue state filter is invalid.'')
           | Some ss \<Rightarrow> Inr (dedup ss)))"

section \<open>Payloads\<close>

definition contains_control_character :: "string \<Rightarrow> bool" where
  "contains_control_character s = list_ex (\<lambda>c. code c < 32 \<or> code c = 127) s"

text \<open>\<open>visit\<close> of \<open>_normalize_json\<close>; the node counter of the closure is threaded through.\<close>

fun visit :: "pq_config \<Rightarrow> pyval \<Rightarrow> int \<Rightarrow> int \<Rightarrow> pq_error + pyval \<times> int"
and visit_list :: "pq_config \<Rightarrow> pyval list \<Rightarrow> int \<Rightarrow> int \<Rightarrow> pq_error + pyval list \<times> int"
and visit_items :: "pq_config \<Rightarrow> (pykey \<times> pyval) list \<Rightarrow> int \<Rightarrow> int \<Rightarrow> (pykey \<times> pyval) list \<Rightarrow>
       pq_error + (pykey \<times> pyval) list \<times> int" where
  "visit cfg item depth nodes0 =
     (let nodes = nodes0 + 1 in
      if nodes > max_json_nodes cfg then
        Inl (ValidationError ''Prompt payload has too many JSON values.'')
      else if depth > max_json_depth cfg then
        Inl (ValidationError ''Prompt payload is nested too deeply.'')
      else (case item of
          PNone \<Rightarrow> Inr (PNone, nodes)
        | PBool b \<Rightarrow> Inr (PBool b, nodes)
        | PStr s \<Rightarrow> Inr (PStr s, nodes)
        | PInt i \<Rightarrow> Inr (PInt i, nodes)
        | PFloat f \<Rightarrow> (case f of FFin t \<Rightarrow> Inr (PFloat (FFin t), nodes)
            | _ \<Rightarrow> Inl (ValidationError ''Prompt payload contains an invalid number.''))
        | PDict kvs \<Rightarrow>
            res_bind (visit_items cfg kvs depth nodes []) (\<lambda>(r, n). Inr (PDict r, n))
        | PList xs \<Rightarrow> res_bind (visit_list cfg xs depth nodes) (\<lambda>(ys, n). Inr (PList ys, n))
        | PTuple xs \<Rightarrow> res_bind (visit_list cfg xs depth nodes) (\<lambda>(ys, n). Inr (PList ys, n))
        | POther _ \<Rightarrow> Inl (ValidationError ''Prompt payload contains a non-JSON value.'')))"
| "visit_list cfg [] depth nodes = Inr ([], nodes)"
| "visit_list cfg (x # xs) depth nodes =
     res_bind (visit cfg x (depth + 1) nodes) (\<lambda>(y, n).
     res_bind (visit_list cfg xs depth n) (\<lambda>(ys, n'). Inr (y # ys, n')))"
| "visit_items cfg [] depth nodes result = Inr (result, nodes)"
| "visit_items cfg ((k, child) # kvs) depth nodes result =
     (case k of
        KStr key \<Rightarrow>
          if length key > 512 \<or> contains_control_character key then
            Inl (ValidationError ''Prompt payload object key is invalid.'')
          else res_bind (visit cfg child (depth + 1) nodes) (\<lambda>(v, n).
            visit_items cfg kvs depth n (alist_put (KStr key) v result))
      | _ \<Rightarrow> Inl (ValidationError ''Prompt payload object keys must be strings.''))"

declare visit.simps [simp del]

definition normalize_json :: "pq_config \<Rightarrow> pyval \<Rightarrow> pq_error + pyval" where
  "normalize_json cfg v = res_bind (visit cfg v 0 0) (\<lambda>(r, _). Inr r)"

definition serialize_payload :: "pq_config \<Rightarrow> pyval \<Rightarrow> pq_error + string \<times> pyval" where
  "serialize_payload cfg payload =
     (case payload of
        PDict _ \<Rightarrow>
          res_bind (normalize_json cfg payload) (\<lambda>normalized.
            case normalized of
              PDict _ \<Rightarrow>
                (case json_dumps False False True normalized of
                   Inl _ \<Rightarrow> Inl (ValidationError ''Prompt payload is not valid JSON.'')
                 | Inr serialized \<Rightarrow>
                     if utf8_length serialized > max_payload_bytes cfg
                     then Inl (ValidationError ''Prompt payload exceeds the queue size limit.'')
                     else Inr (serialized, normalized))
            | _ \<Rightarrow> Inl (ValidationError ''Prompt payload must be a JSON object.''))
      | _ \<Rightarrow> Inl (ValidationError ''Prompt payload must be a JSON object.''))"

end
