(* ===== verification/PromptQueueStore.thy ===== *)
theory PromptQueueStore
  imports PromptQueueInput
begin

text \<open>
  The durable prompt queue itself, \<open>DurablePromptQueue\<close> of \<open>ide/prompt_queue.py\<close>: the SQLite
  table with its constraints, and every queue operation as a transaction on it.

  A table holds its rows in sequence order and the next AUTOINCREMENT value. An operation
  returns \<open>Inl\<close> with the raised exception, in which case the transaction rolled back and the
  table is the old one, or \<open>Inr\<close> with its result and the committed table. The clock reading,
  the generated prompt id, the fresh lease token and the SHA-256 digest are arguments: they
  come from \<open>time.time\<close>, \<open>uuid.uuid4\<close> and \<open>hashlib\<close>.
\<close>

section \<open>Table and constraints\<close>

record pq_row =
  sequence :: int
  prompt_id :: string
  session_id :: string
  idempotency_key :: string
  payload_json :: string
  payload_sha256 :: string
  row_state :: prompt_state
  created_at :: rat
  updated_at :: rat
  attempts :: int
  lease_token :: "string option"
  lease_owner :: "string option"
  lease_session_id :: "string option"
  lease_expires_at :: "rat option"
  execution_started_at :: "rat option"
  terminal_at :: "rat option"
  error_code :: "string option"

record pq_table =
  rows :: "pq_row list"
  next_sequence :: int

definition empty_table :: pq_table where
  "empty_table = \<lparr>rows = [], next_sequence = 1\<rparr>"

text \<open>The row-level CHECKs of the schema.\<close>

definition row_check :: "pq_row \<Rightarrow> bool" where
  "row_check r =
     (attempts r \<ge> 0 \<and>
      (if row_state r = RUNNING
       then lease_token r \<noteq> None \<and> lease_owner r \<noteq> None \<and> lease_expires_at r \<noteq> None
       else lease_token r = None \<and> lease_owner r = None \<and> lease_expires_at r = None))"

definition is_running :: "pq_row \<Rightarrow> bool" where
  "is_running r = (row_state r = RUNNING)"

text \<open>
  The table constraints: unique prompt ids, unique idempotency keys per session, the CHECKs,
  and the partial unique index that allows one running row per session.
\<close>

definition constraints_ok :: "pq_row list \<Rightarrow> bool" where
  "constraints_ok rs =
     (distinct (map sequence rs) \<and> distinct (map prompt_id rs) \<and>
      distinct (map (\<lambda>r. (session_id r, idempotency_key r)) rs) \<and>
      list_all row_check rs \<and>
      distinct (map session_id (filter is_running rs)))"

text \<open>\<open>SELECT ... WHERE P ORDER BY sequence LIMIT 1\<close>.\<close>

definition select_first :: "(pq_row \<Rightarrow> bool) \<Rightarrow> pq_table \<Rightarrow> pq_row option" where
  "select_first P t = find P (rows t)"

definition count_rows :: "(pq_row \<Rightarrow> bool) \<Rightarrow> pq_table \<Rightarrow> int" where
  "count_rows P t = int (length (filter P (rows t)))"

text \<open>
  \<open>UPDATE ... SET f WHERE P\<close>: a violated constraint raises \<open>sqlite3.IntegrityError\<close>, which
  \<open>_transaction\<close> turns into a storage error.
\<close>

definition update_rows ::
    "(pq_row \<Rightarrow> bool) \<Rightarrow> (pq_row \<Rightarrow> pq_row) \<Rightarrow> pq_table \<Rightarrow> pq_error + pq_table" where
  "update_rows P f t =
     (let rs = map (\<lambda>r. if P r then f r else r) (rows t) in
      if constraints_ok rs then Inr (t\<lparr>rows := rs\<rparr>)
      else Inl (StorageError ''Prompt queue operation failed.''))"

text \<open>\<open>INSERT\<close>: \<open>None\<close> is \<open>sqlite3.IntegrityError\<close>, which \<open>enqueue\<close> handles itself.\<close>

definition insert_row :: "pq_row \<Rightarrow> pq_table \<Rightarrow> pq_table option" where
  "insert_row r t =
     (let rs = rows t @ [r\<lparr>sequence := next_sequence t\<rparr>] in
      if constraints_ok rs
      then Some \<lparr>rows = rs, next_sequence = next_sequence t + 1\<rparr> else None)"

definition by_sequence :: "int \<Rightarrow> pq_row \<Rightarrow> bool" where
  "by_sequence s r = (sequence r = s)"

text \<open>
  \<open>_prepare_storage\<close> on an existing database: unsupported schema versions are refused, and
  running rows written before leases recorded their session get it filled in.
\<close>

definition SCHEMA_VERSION :: int where
  "SCHEMA_VERSION = 2"

definition backfilled_row :: "pq_row \<Rightarrow> pq_row" where
  "backfilled_row r = r\<lparr>lease_session_id := Some (session_id r)\<rparr>"

definition prepare_storage :: "int \<Rightarrow> pq_table \<Rightarrow> pq_error + int \<times> pq_table" where
  "prepare_storage version t =
     (if version \<notin> {0, 1, SCHEMA_VERSION}
      then Inl (StorageError ''Prompt queue database schema is not supported by this version.'')
      else res_bind (update_rows (\<lambda>r. row_state r = RUNNING \<and> lease_session_id r = None)
                       backfilled_row t) (\<lambda>t'. Inr (SCHEMA_VERSION, t')))"

section \<open>Items and leases\<close>

record pq_item =
  item_prompt_id :: string
  item_sequence :: int
  item_session_id :: string
  item_idempotency_key :: string
  item_payload :: pyval
  item_state :: prompt_state
  item_created_at :: rat
  item_updated_at :: rat
  item_attempts :: int
  item_lease_expires_at :: "rat option"
  item_execution_started_at :: "rat option"
  item_terminal_at :: "rat option"
  item_error_code :: "string option"

record enqueue_result =
  res_item :: pq_item
  res_created :: bool

record pq_lease =
  lease_item :: pq_item
  lease_tok :: string
  lease_owner_id :: "string option"
  lease_expiry :: rat

definition item_with_payload :: "pq_row \<Rightarrow> pyval \<Rightarrow> pq_item" where
  "item_with_payload r payload =
     \<lparr>item_prompt_id = prompt_id r, item_sequence = sequence r, item_session_id = session_id r,
      item_idempotency_key = idempotency_key r, item_payload = payload,
      item_state = row_state r, item_created_at = created_at r, item_updated_at = updated_at r,
      item_attempts = attempts r, item_lease_expires_at = lease_expires_at r,
      item_execution_started_at = execution_started_at r, item_terminal_at = terminal_at r,
      item_error_code = error_code r\<rparr>"

definition item_from_row :: "pq_row \<Rightarrow> pyval option \<Rightarrow> pq_error + pq_item" where
  "item_from_row r payload =
     (case payload of
        Some p \<Rightarrow> Inr (item_with_payload r p)
      | None \<Rightarrow>
          (case json_loads (payload_json r) of
             Some (PDict d) \<Rightarrow> Inr (item_with_payload r (PDict d))
           | _ \<Rightarrow> Inl (StorageError ''Stored prompt payload is invalid.'')))"

text \<open>Re-reading the row with a given sequence number at the end of an operation.\<close>

definition reload :: "pq_error \<Rightarrow> int \<Rightarrow> pq_table \<Rightarrow> pq_error + pq_row" where
  "reload e s t = (case select_first (by_sequence s) t of None \<Rightarrow> Inl e | Some r \<Rightarrow> Inr r)"

section \<open>Enqueue and reads\<close>

definition new_row ::
    "string \<Rightarrow> string \<Rightarrow> string \<Rightarrow> string \<Rightarrow> string \<Rightarrow> rat \<Rightarrow> pq_row" where
  "new_row pid sid ikey pjson psha now =
     \<lparr>sequence = 0, prompt_id = pid, session_id = sid, idempotency_key = ikey,
      payload_json = pjson, payload_sha256 = psha, row_state = PENDING,
      created_at = now, updated_at = now, attempts = 0,
      lease_token = None, lease_owner = None, lease_session_id = None, lease_expires_at = None,
      execution_started_at = None, terminal_at = None, error_code = None\<rparr>"

definition same_key :: "string \<Rightarrow> string \<Rightarrow> pq_row \<Rightarrow> bool" where
  "same_key sid ikey r = (session_id r = sid \<and> idempotency_key r = ikey)"

definition outstanding :: "string \<Rightarrow> pq_row \<Rightarrow> bool" where
  "outstanding sid r = (session_id r = sid \<and> (row_state r = PENDING \<or> row_state r = RUNNING))"

definition existing_result :: "string \<Rightarrow> pq_row \<Rightarrow> pq_error + enqueue_result" where
  "existing_result psha r =
     (if payload_sha256 r \<noteq> psha
      then Inl (IdempotencyConflict ''Idempotency key was already used for a different prompt.'')
      else res_bind (item_from_row r None) (\<lambda>i. Inr \<lparr>res_item = i, res_created = False\<rparr>))"

definition enqueue ::
    "pq_config \<Rightarrow> (string \<Rightarrow> string) \<Rightarrow> pyval \<Rightarrow> pyval \<Rightarrow> pyval \<Rightarrow> pyval \<Rightarrow> float_arg \<Rightarrow>
     pq_table \<Rightarrow> pq_error + enqueue_result \<times> pq_table" where
  "enqueue cfg sha sid_arg ikey_arg payload new_id clock t =
     res_bind (validate_identifier sid_arg ''session'' 256) (\<lambda>sid.
     res_bind (validate_identifier ikey_arg ''idempotency'' 256) (\<lambda>ikey.
     res_bind (serialize_payload cfg payload) (\<lambda>(pjson, normalized).
       let psha = sha pjson in
       case select_first (same_key sid ikey) t of
         Some existing \<Rightarrow> res_bind (existing_result psha existing) (\<lambda>r. Inr (r, t))
       | None \<Rightarrow>
           if count_rows (outstanding sid) t \<ge> max_outstanding_per_session cfg
           then Inl (CapacityError ''Session prompt queue is full.'')
           else
             res_bind (validate_identifier new_id ''generated prompt'' 256) (\<lambda>pid.
             res_bind (queue_now clock) (\<lambda>now.
               case insert_row (new_row pid sid ikey pjson psha now) t of
                 None \<Rightarrow>
                   (case select_first (same_key sid ikey) t of
                      None \<Rightarrow> Inl (StorageError ''Could not persist queued prompt.'')
                    | Some existing \<Rightarrow> res_bind (existing_result psha existing) (\<lambda>r. Inr (r, t)))
               | Some t' \<Rightarrow>
                   (case select_first (\<lambda>r. prompt_id r = pid) t' of
                      None \<Rightarrow> Inl (StorageError ''Could not load queued prompt.'')
                    | Some row \<Rightarrow>
                        res_bind (item_from_row row (Some normalized))
                          (\<lambda>i. Inr (\<lparr>res_item = i, res_created = True\<rparr>, t'))))))))"

definition by_session_prompt :: "string \<Rightarrow> string \<Rightarrow> pq_row \<Rightarrow> bool" where
  "by_session_prompt sid pid r = (session_id r = sid \<and> prompt_id r = pid)"

definition get_prompt :: "pyval \<Rightarrow> pyval \<Rightarrow> pq_table \<Rightarrow> pq_error + pq_item option" where
  "get_prompt sid_arg pid_arg t =
     res_bind (validate_identifier sid_arg ''session'' 256) (\<lambda>sid.
     res_bind (validate_identifier pid_arg ''prompt'' 256) (\<lambda>pid.
       case select_first (by_session_prompt sid pid) t of
         None \<Rightarrow> Inr None
       | Some row \<Rightarrow> res_bind (item_from_row row None) (\<lambda>i. Inr (Some i))))"

fun items_from_rows :: "pq_row list \<Rightarrow> pq_error + pq_item list" where
  "items_from_rows [] = Inr []"
| "items_from_rows (r # rs) =
     res_bind (item_from_row r None) (\<lambda>i. res_bind (items_from_rows rs) (\<lambda>is. Inr (i # is)))"

definition list_prompts ::
    "pq_config \<Rightarrow> pyval \<Rightarrow> states_arg \<Rightarrow> pyval \<Rightarrow> pyval \<Rightarrow> pq_table \<Rightarrow> pq_error + pq_item list" where
  "list_prompts cfg sid_arg states limit after_sequence t =
     res_bind (validate_identifier sid_arg ''session'' 256) (\<lambda>sid.
       case limit of
         PInt n \<Rightarrow>
           if n < 1 \<or> n > max_list_limit cfg
           then Inl (ValidationError ''Queue list limit is outside the allowed range.'')
           else (case after_sequence of
               PInt cursor \<Rightarrow>
                 if cursor < 0 then Inl (ValidationError ''Queue cursor cannot be negative.'')
                 else res_bind (normalize_states states) (\<lambda>ss.
                   items_from_rows (take (nat n)
                     (filter (\<lambda>r. session_id r = sid \<and> sequence r > cursor \<and>
                                  (ss = [] \<or> row_state r \<in> set ss)) (rows t))))
             | _ \<Rightarrow> Inl (ValidationError ''Queue cursor must be an integer.''))
       | _ \<Rightarrow> Inl (ValidationError ''Queue list limit must be an integer.''))"

definition lease_expired :: "rat \<Rightarrow> pq_row \<Rightarrow> bool" where
  "lease_expired now r = (case lease_expires_at r of None \<Rightarrow> False | Some e \<Rightarrow> e \<le> now)"

definition lease_live :: "rat \<Rightarrow> pq_row \<Rightarrow> bool" where
  "lease_live now r = (case lease_expires_at r of None \<Rightarrow> False | Some e \<Rightarrow> e > now)"

definition is_reclaimable :: "pyval \<Rightarrow> pyval \<Rightarrow> float_arg \<Rightarrow> pq_table \<Rightarrow> pq_error + bool" where
  "is_reclaimable sid_arg pid_arg clock t =
     res_bind (validate_identifier sid_arg ''session'' 256) (\<lambda>sid.
     res_bind (validate_identifier pid_arg ''prompt'' 256) (\<lambda>pid.
     res_bind (queue_now clock) (\<lambda>now.
       case select_first (by_session_prompt sid pid) t of
         None \<Rightarrow> Inr False
       | Some r \<Rightarrow>
           Inr (row_state r = PENDING \<or> (row_state r = RUNNING \<and> lease_expired now r)))))"

section \<open>Claims and leases\<close>

definition eligible :: "string \<Rightarrow> rat \<Rightarrow> pq_row \<Rightarrow> bool" where
  "eligible sid now r =
     (session_id r = sid \<and>
      (row_state r = PENDING \<or> (row_state r = RUNNING \<and> lease_expired now r)))"

definition live_running :: "string \<Rightarrow> rat \<Rightarrow> pq_row \<Rightarrow> bool" where
  "live_running sid now r = (session_id r = sid \<and> row_state r = RUNNING \<and> lease_live now r)"

definition claimed_row :: "string \<Rightarrow> string \<Rightarrow> string \<Rightarrow> rat \<Rightarrow> rat \<Rightarrow> pq_row \<Rightarrow> pq_row" where
  "claimed_row token owner sid expires now r =
     r\<lparr>row_state := RUNNING, lease_token := Some token, lease_owner := Some owner,
       lease_session_id := Some sid, lease_expires_at := Some expires,
       attempts := attempts r + 1, updated_at := now, terminal_at := None, error_code := None\<rparr>"

definition claim_next ::
    "pyval \<Rightarrow> pyval \<Rightarrow> float_arg \<Rightarrow> float_arg \<Rightarrow> string \<Rightarrow> pq_table \<Rightarrow>
     pq_error + pq_lease option \<times> pq_table" where
  "claim_next sid_arg owner_arg lease_seconds_arg clock token t =
     res_bind (validate_identifier sid_arg ''session'' 256) (\<lambda>sid.
     res_bind (validate_identifier owner_arg ''owner'' 256) (\<lambda>owner.
     res_bind (validate_lease_seconds lease_seconds_arg) (\<lambda>secs.
     res_bind (queue_now clock) (\<lambda>now.
       let expires = now + secs in
       case select_first (live_running sid now) t of
         Some _ \<Rightarrow> Inr (None, t)
       | None \<Rightarrow>
           (case select_first (eligible sid now) t of
              None \<Rightarrow> Inr (None, t)
            | Some row \<Rightarrow>
                res_bind (update_rows (by_sequence (sequence row))
                            (claimed_row token owner sid expires now) t) (\<lambda>t'.
                res_bind (reload (StorageError ''Could not load claimed prompt.'')
                            (sequence row) t') (\<lambda>claimed.
                res_bind (item_from_row claimed None) (\<lambda>i.
                  Inr (Some \<lparr>lease_item = i, lease_tok = token, lease_owner_id = Some owner,
                             lease_expiry = expires\<rparr>, t')))))))))"

text \<open>\<open>_require_live_lease\<close>: the fence every lease operation passes.\<close>

definition require_live_lease ::
    "string \<Rightarrow> string \<Rightarrow> string \<Rightarrow> rat \<Rightarrow> pq_table \<Rightarrow> pq_error + pq_row" where
  "require_live_lease sid pid token now t =
     (case select_first (\<lambda>r. prompt_id r = pid) t of
        None \<Rightarrow> Inl (NotFound ''Queued prompt was not found.'')
      | Some r \<Rightarrow>
          if (sid \<noteq> session_id r \<and> Some sid \<noteq> lease_session_id r)
             \<or> row_state r \<noteq> RUNNING
             \<or> lease_token r \<noteq> Some token
             \<or> \<not> lease_live now r
          then Inl (LeaseLost ''Prompt lease is no longer valid.'')
          else Inr r)"

text \<open>
  The shared shape of the lease operations: validate the identifiers, read the clock, pass
  the fence, update the fenced row and read it back.
\<close>

definition renewed_row :: "rat \<Rightarrow> rat \<Rightarrow> pq_row \<Rightarrow> pq_row" where
  "renewed_row expires now r = r\<lparr>lease_expires_at := Some expires, updated_at := now\<rparr>"

definition renew ::
    "pyval \<Rightarrow> pyval \<Rightarrow> pyval \<Rightarrow> float_arg \<Rightarrow> float_arg \<Rightarrow> pq_table \<Rightarrow>
     pq_error + pq_lease \<times> pq_table" where
  "renew sid_arg pid_arg token_arg lease_seconds_arg clock t =
     res_bind (validate_lease_identifiers sid_arg pid_arg token_arg) (\<lambda>(sid, pid, token).
     res_bind (validate_lease_seconds lease_seconds_arg) (\<lambda>secs.
     res_bind (queue_now clock) (\<lambda>now.
       let expires = now + secs in
       res_bind (require_live_lease sid pid token now t) (\<lambda>row.
       res_bind (update_rows (by_sequence (sequence row)) (renewed_row expires now) t) (\<lambda>t'.
       res_bind (reload AssertionFailed (sequence row) t') (\<lambda>renewed.
       res_bind (item_from_row renewed None) (\<lambda>i.
         Inr (\<lparr>lease_item = i, lease_tok = token, lease_owner_id = lease_owner renewed,
               lease_expiry = expires\<rparr>, t'))))))))"

definition started_row :: "rat \<Rightarrow> pq_row \<Rightarrow> pq_row" where
  "started_row now r = r\<lparr>execution_started_at := Some now, updated_at := now\<rparr>"

definition mark_execution_started ::
    "pyval \<Rightarrow> pyval \<Rightarrow> pyval \<Rightarrow> float_arg \<Rightarrow> pq_table \<Rightarrow> pq_error + pq_item \<times> pq_table" where
  "mark_execution_started sid_arg pid_arg token_arg clock t =
     res_bind (validate_lease_identifiers sid_arg pid_arg token_arg) (\<lambda>(sid, pid, token).
     res_bind (queue_now clock) (\<lambda>now.
     res_bind (require_live_lease sid pid token now t) (\<lambda>row.
       if execution_started_at row \<noteq> None
       then Inl (StateError ''Prompt execution has already started.'')
       else
         res_bind (update_rows (by_sequence (sequence row)) (started_row now) t) (\<lambda>t'.
         res_bind (reload AssertionFailed (sequence row) t') (\<lambda>started.
         res_bind (item_from_row started None) (\<lambda>i. Inr (i, t')))))))"

definition finished_row :: "prompt_state \<Rightarrow> string option \<Rightarrow> rat \<Rightarrow> pq_row \<Rightarrow> pq_row" where
  "finished_row st ec now r =
     r\<lparr>row_state := st, lease_token := None, lease_owner := None, lease_session_id := None,
       lease_expires_at := None, updated_at := now, terminal_at := Some now,
       error_code := ec\<rparr>"

definition finish ::
    "pyval \<Rightarrow> pyval \<Rightarrow> pyval \<Rightarrow> prompt_state \<Rightarrow> string option \<Rightarrow> float_arg \<Rightarrow> pq_table \<Rightarrow>
     pq_error + pq_item \<times> pq_table" where
  "finish sid_arg pid_arg token_arg st ec clock t =
     res_bind (validate_lease_identifiers sid_arg pid_arg token_arg) (\<lambda>(sid, pid, token).
     res_bind (queue_now clock) (\<lambda>now.
     res_bind (require_live_lease sid pid token now t) (\<lambda>row.
     res_bind (update_rows (by_sequence (sequence row)) (finished_row st ec now) t) (\<lambda>t'.
     res_bind (reload AssertionFailed (sequence row) t') (\<lambda>finished.
     res_bind (item_from_row finished None) (\<lambda>i. Inr (i, t')))))))"

definition complete ::
    "pyval \<Rightarrow> pyval \<Rightarrow> pyval \<Rightarrow> float_arg \<Rightarrow> pq_table \<Rightarrow> pq_error + pq_item \<times> pq_table" where
  "complete sid_arg pid_arg token_arg clock t =
     finish sid_arg pid_arg token_arg COMPLETED None clock t"

definition fail_prompt ::
    "pyval \<Rightarrow> pyval \<Rightarrow> pyval \<Rightarrow> pyval \<Rightarrow> float_arg \<Rightarrow> pq_table \<Rightarrow> pq_error + pq_item \<times> pq_table" where
  "fail_prompt sid_arg pid_arg token_arg code_arg clock t =
     (case code_arg of
        PStr ec \<Rightarrow>
          if length ec > 64 \<or> \<not> error_code_re ec
          then Inl (ValidationError ''Prompt failure code is invalid.'')
          else finish sid_arg pid_arg token_arg FAILED (Some ec) clock t
      | _ \<Rightarrow> Inl (ValidationError ''Prompt failure code is invalid.''))"

definition cancel_claimed ::
    "pyval \<Rightarrow> pyval \<Rightarrow> pyval \<Rightarrow> float_arg \<Rightarrow> pq_table \<Rightarrow> pq_error + pq_item \<times> pq_table" where
  "cancel_claimed sid_arg pid_arg token_arg clock t =
     finish sid_arg pid_arg token_arg CANCELLED (Some ''cancelled'') clock t"

definition released_row :: "rat \<Rightarrow> pq_row \<Rightarrow> pq_row" where
  "released_row now r =
     r\<lparr>row_state := PENDING, lease_token := None, lease_owner := None,
       lease_session_id := None, lease_expires_at := None, updated_at := now\<rparr>"

definition release ::
    "pyval \<Rightarrow> pyval \<Rightarrow> pyval \<Rightarrow> float_arg \<Rightarrow> pq_table \<Rightarrow> pq_error + pq_item \<times> pq_table" where
  "release sid_arg pid_arg token_arg clock t =
     res_bind (validate_lease_identifiers sid_arg pid_arg token_arg) (\<lambda>(sid, pid, token).
     res_bind (queue_now clock) (\<lambda>now.
     res_bind (require_live_lease sid pid token now t) (\<lambda>row.
     res_bind (update_rows (by_sequence (sequence row)) (released_row now) t) (\<lambda>t'.
     res_bind (reload AssertionFailed (sequence row) t') (\<lambda>released.
     res_bind (item_from_row released None) (\<lambda>i. Inr (i, t')))))))"

section \<open>Cancelling and rebinding\<close>

definition cancelled_row :: "rat \<Rightarrow> pq_row \<Rightarrow> pq_row" where
  "cancelled_row now r = r\<lparr>row_state := CANCELLED, updated_at := now, terminal_at := Some now\<rparr>"

definition delete_pending ::
    "pyval \<Rightarrow> pyval \<Rightarrow> float_arg \<Rightarrow> pq_table \<Rightarrow> pq_error + pq_item \<times> pq_table" where
  "delete_pending sid_arg pid_arg clock t =
     res_bind (validate_identifier sid_arg ''session'' 256) (\<lambda>sid.
     res_bind (validate_identifier pid_arg ''prompt'' 256) (\<lambda>pid.
     res_bind (queue_now clock) (\<lambda>now.
       case select_first (by_session_prompt sid pid) t of
         None \<Rightarrow> Inl (NotFound ''Queued prompt was not found.'')
       | Some row \<Rightarrow>
           if row_state row \<noteq> PENDING
           then Inl (StateError ''Only pending prompts can be deleted.'')
           else
             res_bind (update_rows (by_sequence (sequence row)) (cancelled_row now) t) (\<lambda>t'.
             res_bind (reload AssertionFailed (sequence row) t') (\<lambda>cancelled.
             res_bind (item_from_row cancelled None) (\<lambda>i. Inr (i, t')))))))"

definition pending_in :: "string \<Rightarrow> pq_row \<Rightarrow> bool" where
  "pending_in sid r = (session_id r = sid \<and> row_state r = PENDING)"

definition cancel_pending_for_session ::
    "pyval \<Rightarrow> float_arg \<Rightarrow> pq_table \<Rightarrow> pq_error + int \<times> pq_table" where
  "cancel_pending_for_session sid_arg clock t =
     res_bind (validate_identifier sid_arg ''session'' 256) (\<lambda>sid.
     res_bind (queue_now clock) (\<lambda>now.
     res_bind (update_rows (pending_in sid) (cancelled_row now) t) (\<lambda>t'.
       Inr (max 0 (count_rows (pending_in sid) t), t'))))"

definition running_in :: "string \<Rightarrow> pq_row \<Rightarrow> bool" where
  "running_in sid r = (session_id r = sid \<and> row_state r = RUNNING)"

definition expired_running :: "string \<Rightarrow> rat \<Rightarrow> pq_row \<Rightarrow> bool" where
  "expired_running sid now r = (running_in sid r \<and> lease_expired now r)"

definition moved_row :: "string \<Rightarrow> rat \<Rightarrow> pq_row \<Rightarrow> pq_row" where
  "moved_row target now r = r\<lparr>session_id := target, updated_at := now\<rparr>"

definition recovered_row :: "string \<Rightarrow> rat \<Rightarrow> pq_row \<Rightarrow> pq_row" where
  "recovered_row target now r =
     r\<lparr>session_id := target, row_state := PENDING, lease_token := None, lease_owner := None,
       lease_session_id := None, lease_expires_at := None, updated_at := now\<rparr>"

record rebind_counts =
  rb_pending :: int
  rb_recovered :: int
  rb_active :: int

definition rebind_conflict :: "string \<Rightarrow> string \<Rightarrow> pq_table \<Rightarrow> bool" where
  "rebind_conflict source target t =
     list_ex (\<lambda>s. outstanding source s \<and>
       list_ex (\<lambda>r. session_id r = target \<and> idempotency_key r = idempotency_key s) (rows t)) (rows t)"

definition rebind_recoverable ::
    "pyval \<Rightarrow> pyval \<Rightarrow> float_arg \<Rightarrow> pq_table \<Rightarrow> pq_error + rebind_counts \<times> pq_table" where
  "rebind_recoverable source_arg target_arg clock t =
     res_bind (validate_identifier source_arg ''source session'' 256) (\<lambda>source.
     res_bind (validate_identifier target_arg ''target session'' 256) (\<lambda>target.
       if source = target then Inr (\<lparr>rb_pending = 0, rb_recovered = 0, rb_active = 0\<rparr>, t)
       else
         res_bind (queue_now clock) (\<lambda>now.
           if rebind_conflict source target t
           then Inl (IdempotencyConflict ''Recoverable session contains a conflicting queued prompt.'')
           else if select_first (running_in target) t \<noteq> None \<and>
                   select_first (running_in source) t \<noteq> None
           then Inl (StateError ''Target session already has active queued work.'')
           else
             res_bind (update_rows (pending_in source) (moved_row target now) t) (\<lambda>t1.
             res_bind (update_rows (expired_running source now) (recovered_row target now) t1) (\<lambda>t2.
             res_bind (update_rows (live_running source now) (moved_row target now) t2) (\<lambda>t3.
               Inr (\<lparr>rb_pending = max 0 (count_rows (pending_in source) t),
                     rb_recovered = max 0 (count_rows (expired_running source now) t1),
                     rb_active = max 0 (count_rows (live_running source now) t2)\<rparr>, t3)))))))"

end
