(* ===== verification/Machines.thy ===== *)
theory Machines
  imports Main
begin

text \<open>
  Interfaces of stateful components. A component is a step function over a list of
  operations; \<open>run\<close> executes a trace. \<open>safe_machine\<close> is the contract of a component with a
  state invariant, \<open>monotone_machine\<close> that of one whose states also only move forward in an
  order (history is kept, decisions are not revoked). The lemmas proved here once are used
  through the interpretations in the component theories.
\<close>

fun run :: "('op \<Rightarrow> 's \<Rightarrow> 's) \<Rightarrow> 'op list \<Rightarrow> 's \<Rightarrow> 's" where
  "run step [] s = s"
| "run step (x # xs) s = run step xs (step x s)"

lemma run_append [simp]: "run step (xs @ ys) s = run step ys (run step xs s)"
  by (induction xs arbitrary: s) auto

locale safe_machine =
  fixes step :: "'op \<Rightarrow> 's \<Rightarrow> 's"
    and ok :: "'op \<Rightarrow> bool"
    and inv :: "'s \<Rightarrow> bool"
  assumes step_inv: "ok x \<Longrightarrow> inv s \<Longrightarrow> inv (step x s)"
begin

lemma run_inv: "list_all ok xs \<Longrightarrow> inv s \<Longrightarrow> inv (run step xs s)"
  by (induction xs arbitrary: s) (auto intro: step_inv)

lemma prefix_inv: "list_all ok xs \<Longrightarrow> inv s \<Longrightarrow> inv (run step (take n xs) s)"
  by (rule run_inv) (auto simp: list_all_iff dest: in_set_takeD)

end

locale monotone_machine = safe_machine +
  fixes le :: "'s \<Rightarrow> 's \<Rightarrow> bool"
  assumes le_refl: "le s s"
    and le_trans: "le s t \<Longrightarrow> le t u \<Longrightarrow> le s u"
    and step_le: "ok x \<Longrightarrow> inv s \<Longrightarrow> le s (step x s)"
begin

lemma run_le: "list_all ok xs \<Longrightarrow> inv s \<Longrightarrow> le s (run step xs s)"
proof (induction xs arbitrary: s)
  case Nil
  then show ?case by (simp add: le_refl)
next
  case (Cons x xs)
  then have "le s (step x s)" and "inv (step x s)"
    by (auto intro: step_le step_inv)
  with Cons show ?case by (auto intro: le_trans)
qed

lemma run_stays:
  assumes "list_all ok (xs @ ys)" "inv s"
  shows "le (run step xs s) (run step (xs @ ys) s)"
  using assms run_le [of ys "run step xs s"] run_inv [of xs s] by simp

end

end
