(* ===== verification/PromptQueueRows.thy ===== *)
theory PromptQueueRows
  imports PromptQueueStore Machines
begin

text \<open>
  How the operations of the prompt queue move a single row: the transition relation
  \<open>row_step\<close>, one rule per UPDATE statement of the code with the guard that protects it, and
  the table-level relation \<open>table_step\<close> (an INSERT of a fresh pending row, or an UPDATE all of
  whose affected rows make a \<open>row_step\<close>). Every operation that commits is a sequence of
  table steps (\<open>..._steps\<close>); the invariants are proved over the relations.
\<close>

section \<open>Row transitions\<close>

inductive row_step :: "pq_row \<Rightarrow> pq_row \<Rightarrow> bool" where
  claimed: "row_state r = PENDING \<or> row_state r = RUNNING \<and> lease_expired now r \<Longrightarrow>
     row_step r (claimed_row token owner sid expires now r)"
| renewed: "row_state r = RUNNING \<Longrightarrow> lease_live now r \<Longrightarrow>
     row_step r (renewed_row expires now r)"
| started: "row_state r = RUNNING \<Longrightarrow> lease_live now r \<Longrightarrow> execution_started_at r = None \<Longrightarrow>
     row_step r (started_row now r)"
| finished: "row_state r = RUNNING \<Longrightarrow> lease_live now r \<Longrightarrow> st \<in> TERMINAL_STATES \<Longrightarrow>
     (ec \<noteq> None \<longrightarrow> st \<noteq> COMPLETED) \<Longrightarrow> row_step r (finished_row st ec now r)"
| released: "row_state r = RUNNING \<Longrightarrow> lease_live now r \<Longrightarrow> row_step r (released_row now r)"
| cancelled: "row_state r = PENDING \<Longrightarrow> row_step r (cancelled_row now r)"
| moved: "row_state r = PENDING \<or> row_state r = RUNNING \<and> lease_live now r \<Longrightarrow>
     row_step r (moved_row target now r)"
| recovered: "row_state r = RUNNING \<Longrightarrow> lease_expired now r \<Longrightarrow>
     row_step r (recovered_row target now r)"

lemmas row_update_defs =
  claimed_row_def renewed_row_def started_row_def finished_row_def released_row_def
  cancelled_row_def moved_row_def recovered_row_def

lemma terminal_no_step: "row_step r r' \<Longrightarrow> row_state r \<notin> TERMINAL_STATES"
  by (induction rule: row_step.induct) (auto simp: TERMINAL_STATES_def)

text \<open>What no transition changes, and what only grows.\<close>

definition row_le :: "pq_row \<Rightarrow> pq_row \<Rightarrow> bool" where
  "row_le r r' \<longleftrightarrow>
     sequence r' = sequence r \<and> prompt_id r' = prompt_id r \<and>
     idempotency_key r' = idempotency_key r \<and> payload_json r' = payload_json r \<and>
     payload_sha256 r' = payload_sha256 r \<and> created_at r' = created_at r \<and>
     attempts r \<le> attempts r' \<and>
     (execution_started_at r \<noteq> None \<longrightarrow> execution_started_at r' = execution_started_at r) \<and>
     (row_state r \<in> TERMINAL_STATES \<longrightarrow> r' = r)"

lemma row_le_refl: "row_le r r"
  by (simp add: row_le_def)

lemma row_le_trans: "row_le r s \<Longrightarrow> row_le s t \<Longrightarrow> row_le r t"
  by (auto simp: row_le_def)

lemma row_step_le: "row_step r r' \<Longrightarrow> row_le r r'"
  by (induction rule: row_step.induct)
    (auto simp: row_le_def row_update_defs TERMINAL_STATES_def)

lemma row_step_sequence: "row_step r r' \<Longrightarrow> sequence r' = sequence r"
  using row_step_le row_le_def by blast

text \<open>The row invariant beyond the schema's CHECKs.\<close>

definition row_inv :: "pq_row \<Rightarrow> bool" where
  "row_inv r \<longleftrightarrow>
     (lease_session_id r \<noteq> None \<longleftrightarrow> row_state r = RUNNING) \<and>
     (terminal_at r \<noteq> None \<longleftrightarrow> row_state r \<in> TERMINAL_STATES) \<and>
     (error_code r \<noteq> None \<longrightarrow> row_state r \<in> {CANCELLED, FAILED}) \<and>
     (row_state r = RUNNING \<or> execution_started_at r \<noteq> None \<longrightarrow> attempts r > 0) \<and>
     attempts r \<ge> 0 \<and>
     (\<exists>d. json_loads (payload_json r) = Some (PDict d))"

lemma row_step_inv: "row_step r r' \<Longrightarrow> row_inv r \<Longrightarrow> row_inv r'"
  by (induction rule: row_step.induct)
    (auto simp: row_inv_def row_update_defs TERMINAL_STATES_def)

section \<open>Table transitions\<close>

inductive table_step :: "pq_table \<Rightarrow> pq_table \<Rightarrow> bool" where
  inserted: "insert_row r t = Some t' \<Longrightarrow> row_inv r \<Longrightarrow> row_state r = PENDING \<Longrightarrow> table_step t t'"
| updated: "update_rows P f t = Inr t' \<Longrightarrow>
     (\<And>r. r \<in> set (rows t) \<Longrightarrow> P r \<Longrightarrow> row_step r (f r)) \<Longrightarrow> table_step t t'"

definition pq_inv :: "pq_table \<Rightarrow> bool" where
  "pq_inv t \<longleftrightarrow>
     constraints_ok (rows t) \<and>
     sorted_wrt (<) (map sequence (rows t)) \<and>
     (\<forall>r\<in>set (rows t). sequence r < next_sequence t \<and> row_inv r)"

definition table_le :: "pq_table \<Rightarrow> pq_table \<Rightarrow> bool" where
  "table_le t t' \<longleftrightarrow> (\<forall>r\<in>set (rows t). \<exists>r'\<in>set (rows t'). row_le r r')"

lemma table_le_refl: "table_le t t"
  using row_le_refl by (auto simp: table_le_def)

lemma table_le_trans: "table_le t u \<Longrightarrow> table_le u v \<Longrightarrow> table_le t v"
  unfolding table_le_def by (meson row_le_trans)

lemma update_rows_eq_Inr:
  "update_rows P f t = Inr t' \<longleftrightarrow>
     constraints_ok (map (\<lambda>r. if P r then f r else r) (rows t)) \<and>
     t' = t\<lparr>rows := map (\<lambda>r. if P r then f r else r) (rows t)\<rparr>"
  by (auto simp: update_rows_def Let_def)

lemma insert_row_eq_Some:
  "insert_row r t = Some t' \<longleftrightarrow>
     constraints_ok (rows t @ [r\<lparr>sequence := next_sequence t\<rparr>]) \<and>
     t' = \<lparr>rows = rows t @ [r\<lparr>sequence := next_sequence t\<rparr>], next_sequence = next_sequence t + 1\<rparr>"
  by (auto simp: insert_row_def Let_def)

lemma table_step_inv: "table_step t t' \<Longrightarrow> pq_inv t \<Longrightarrow> pq_inv t'"
proof (induction rule: table_step.induct)
  case (inserted r t t')
  then have "row_inv (r\<lparr>sequence := next_sequence t\<rparr>)" by (auto simp: row_inv_def)
  with inserted show ?case
    by (auto simp: pq_inv_def insert_row_eq_Some sorted_wrt_append)
next
  case (updated P f t t')
  let ?g = "\<lambda>r. if P r then f r else r"
  have seq: "map sequence (map ?g (rows t)) = map sequence (rows t)"
    using updated.hyps(2) row_step_sequence by auto
  have "\<forall>r\<in>set (rows t). sequence (?g r) < next_sequence t \<and> row_inv (?g r)"
    using updated.hyps(2) updated.prems row_step_inv row_step_sequence
    by (fastforce simp: pq_inv_def)
  moreover have "constraints_ok (map ?g (rows t))" "rows t' = map ?g (rows t)"
    "next_sequence t' = next_sequence t"
    using updated.hyps(1) by (simp_all add: update_rows_eq_Inr)
  moreover have "sorted_wrt (<) (map sequence (map ?g (rows t)))"
    unfolding seq using updated.prems by (simp add: pq_inv_def)
  ultimately show ?case by (auto simp: pq_inv_def split: if_splits)
qed

lemma table_step_le: "table_step t t' \<Longrightarrow> table_le t t'"
proof (induction rule: table_step.induct)
  case (inserted r t t')
  then show ?case using row_le_refl by (auto simp: table_le_def insert_row_eq_Some)
next
  case (updated P f t t')
  then have "\<forall>r\<in>set (rows t). row_le r (if P r then f r else r)"
    using row_step_le row_le_refl by auto
  moreover have "rows t' = map (\<lambda>r. if P r then f r else r) (rows t)"
    using updated.hyps(1) by (simp add: update_rows_eq_Inr)
  ultimately have "\<And>r. r \<in> set (rows t) \<Longrightarrow> \<exists>r'\<in>set (rows t'). row_le r r'"
    by (auto simp del: set_map simp: set_map [of "\<lambda>r. if P r then f r else r"] split: if_splits)
  then show ?case by (simp add: table_le_def)
qed

abbreviation table_steps :: "pq_table \<Rightarrow> pq_table \<Rightarrow> bool" where
  "table_steps \<equiv> table_step\<^sup>*\<^sup>*"

lemma table_steps_inv: "table_steps t t' \<Longrightarrow> pq_inv t \<Longrightarrow> pq_inv t'"
  by (induction rule: rtranclp_induct) (auto intro: table_step_inv)

lemma table_steps_le: "table_steps t t' \<Longrightarrow> table_le t t'"
  by (induction rule: rtranclp_induct) (auto intro: table_le_refl table_le_trans table_step_le)

section \<open>Selecting and re-reading rows\<close>

lemma select_first_SomeD: "select_first P t = Some r \<Longrightarrow> r \<in> set (rows t) \<and> P r"
  by (auto simp: select_first_def find_Some_iff)

lemma select_first_None: "select_first P t = None \<longleftrightarrow> (\<forall>r\<in>set (rows t). \<not> P r)"
  by (auto simp: select_first_def find_None_iff)

lemma distinct_map_inj: "distinct (map f xs) \<Longrightarrow> x \<in> set xs \<Longrightarrow> y \<in> set xs \<Longrightarrow> f x = f y \<Longrightarrow> x = y"
  by (metis distinct_map inj_onD)

lemma select_unique:
  "distinct (map f (rows t)) \<Longrightarrow> r \<in> set (rows t) \<Longrightarrow> select_first (\<lambda>x. f x = f r) t = Some r"
  using distinct_map_inj [of f "rows t"]
  by (cases "select_first (\<lambda>x. f x = f r) t") (auto simp: select_first_None dest!: select_first_SomeD)

lemma by_sequence_unique:
  "constraints_ok (rows t) \<Longrightarrow> r \<in> set (rows t) \<Longrightarrow> x \<in> set (rows t) \<Longrightarrow>
   by_sequence (sequence r) x \<longleftrightarrow> x = r"
  unfolding constraints_ok_def by_sequence_def by (metis distinct_map_inj)

text \<open>
  The contract of a table with point updates, as the lease operations use it: reading a row by
  its key, and updating the row with a given key.
\<close>

locale point_table =
  fixes lookup :: "int \<Rightarrow> 't \<Rightarrow> 'r option"
    and update :: "int \<Rightarrow> ('r \<Rightarrow> 'r) \<Rightarrow> 't \<Rightarrow> 'e + 't"
    and key_safe :: "('r \<Rightarrow> 'r) \<Rightarrow> bool"
    and valid :: "'t \<Rightarrow> bool"
  assumes lookup_update: "valid t \<Longrightarrow> key_safe f \<Longrightarrow> update k f t = Inr t' \<Longrightarrow>
      lookup k' t' = (if k' = k then map_option f (lookup k t) else lookup k' t)"
    and update_valid: "valid t \<Longrightarrow> key_safe f \<Longrightarrow> update k f t = Inr t' \<Longrightarrow> valid t'"
begin

lemma lookup_updated: "valid t \<Longrightarrow> key_safe f \<Longrightarrow> update k f t = Inr t' \<Longrightarrow> lookup k t = Some r \<Longrightarrow>
    lookup k t' = Some (f r)"
  by (simp add: lookup_update)

lemma lookup_frame: "valid t \<Longrightarrow> key_safe f \<Longrightarrow> update k f t = Inr t' \<Longrightarrow> k' \<noteq> k \<Longrightarrow>
    lookup k' t' = lookup k' t"
  by (simp add: lookup_update)

lemma lookup_update_update:
  assumes "valid t" "key_safe f" "key_safe g"
    and "update k f t = Inr t'" "update k g t' = Inr t''" "lookup k t = Some r"
  shows "lookup k t'' = Some (g (f r))"
proof -
  have "valid t'" using assms(1,2,4) by (rule update_valid)
  moreover have "lookup k t' = Some (f r)" using assms by (simp add: lookup_updated)
  ultimately show ?thesis using assms(3,5) by (simp add: lookup_updated)
qed

end

definition row_by_sequence :: "int \<Rightarrow> pq_table \<Rightarrow> pq_row option" where
  "row_by_sequence s t = select_first (by_sequence s) t"

definition update_by_sequence ::
    "int \<Rightarrow> (pq_row \<Rightarrow> pq_row) \<Rightarrow> pq_table \<Rightarrow> pq_error + pq_table" where
  "update_by_sequence s f t = update_rows (by_sequence s) f t"

definition keeps_sequence :: "(pq_row \<Rightarrow> pq_row) \<Rightarrow> bool" where
  "keeps_sequence f \<longleftrightarrow> (\<forall>r. sequence (f r) = sequence r)"

lemma find_map_if:
  assumes "\<And>r. sequence (f r) = sequence r"
  shows "find (by_sequence k') (map (\<lambda>r. if by_sequence k r then f r else r) rs) =
         (if k' = k then map_option f (find (by_sequence k) rs) else find (by_sequence k') rs)"
  using assms by (induction rs) (auto simp: by_sequence_def)

interpretation tbl: point_table row_by_sequence update_by_sequence keeps_sequence
    "\<lambda>t. constraints_ok (rows t)"
  by unfold_locales
    (auto simp: row_by_sequence_def update_by_sequence_def keeps_sequence_def select_first_def
      update_rows_eq_Inr find_map_if)

lemma keeps_sequence_updates [simp]:
  "keeps_sequence (claimed_row token owner sid expires now)"
  "keeps_sequence (renewed_row expires now)" "keeps_sequence (started_row now)"
  "keeps_sequence (finished_row st ec now)" "keeps_sequence (released_row now)"
  "keeps_sequence (cancelled_row now)"
  by (simp_all add: keeps_sequence_def row_update_defs)

lemma row_by_sequence_mem:
  "constraints_ok (rows t) \<Longrightarrow> r \<in> set (rows t) \<Longrightarrow> row_by_sequence (sequence r) t = Some r"
  unfolding row_by_sequence_def by_sequence_def constraints_ok_def by (rule select_unique) simp_all

lemma reload_eq: "reload e s t = (case row_by_sequence s t of None \<Rightarrow> Inl e | Some r \<Rightarrow> Inr r)"
  by (simp add: reload_def row_by_sequence_def)

text \<open>Updating a row and reading it back, the last steps of every lease operation.\<close>

lemma update_then_reload:
  assumes "constraints_ok (rows t)" "r \<in> set (rows t)" "keeps_sequence f"
    and "update_rows (by_sequence (sequence r)) f t = Inr t'"
  shows "reload e (sequence r) t' = Inr (f r)"
  using tbl.lookup_updated [OF assms(1,3), of "sequence r" t' r] assms row_by_sequence_mem [OF assms(1,2)]
  by (simp add: reload_eq update_by_sequence_def)

lemma updated_mem:
  "update_rows (by_sequence (sequence r)) f t = Inr t' \<Longrightarrow> r \<in> set (rows t) \<Longrightarrow> f r \<in> set (rows t')"
  by (auto simp: update_rows_eq_Inr by_sequence_def)

lemma point_step:
  assumes "constraints_ok (rows t)" "r \<in> set (rows t)" "row_step r (f r)"
    and "update_rows (by_sequence (sequence r)) f t = Inr t'"
  shows "table_step t t'"
  using assms(4) by (rule table_step.updated) (use assms by_sequence_unique in blast)

end
