(* ===== verification/PromptQueuePayload.thy ===== *)
theory PromptQueuePayload
  imports PromptQueueInput
begin

text \<open>
  What the queue stores as a payload: normalisation bounds the value, is idempotent, and the
  stored text decodes to the normalised value with its keys in canonical order.
\<close>

section \<open>Size and shape of a normalised payload\<close>

fun json_nodes :: "pyval \<Rightarrow> int" where
  "json_nodes (PList xs) = 1 + sum_list (map json_nodes xs)"
| "json_nodes (PTuple xs) = 1 + sum_list (map json_nodes xs)"
| "json_nodes (PDict kvs) = 1 + sum_list (map (\<lambda>kv. json_nodes (snd kv)) kvs)"
| "json_nodes _ = 1"

definition payload_key_ok :: "pykey \<Rightarrow> bool" where
  "payload_key_ok k =
     (case k of KStr s \<Rightarrow> length s \<le> 512 \<and> \<not> contains_control_character s | _ \<Rightarrow> False)"

text \<open>\<open>json_normal k v\<close>: a JSON value nested at most \<open>k\<close> levels deep, with admissible keys.\<close>

fun json_normal :: "int \<Rightarrow> pyval \<Rightarrow> bool" where
  "json_normal k (PList xs) = (0 \<le> k \<and> list_all (json_normal (k - 1)) xs)"
| "json_normal k (PDict kvs) =
     (0 \<le> k \<and> distinct (map fst kvs) \<and>
      list_all (\<lambda>kv. payload_key_ok (fst kv) \<and> json_normal (k - 1) (snd kv)) kvs)"
| "json_normal k (PFloat f) = (0 \<le> k \<and> (case f of FFin _ \<Rightarrow> True | _ \<Rightarrow> False))"
| "json_normal k (PTuple xs) = False"
| "json_normal k (POther s) = False"
| "json_normal k _ = (0 \<le> k)"

text \<open>Every finite float of a value is spelt the way \<open>float.__repr__\<close> spells one.\<close>

fun floats_ok :: "pyval \<Rightarrow> bool" where
  "floats_ok (PFloat f) = (case f of FFin t \<Rightarrow> json_float_ok t | _ \<Rightarrow> True)"
| "floats_ok (PList xs) = list_all floats_ok xs"
| "floats_ok (PTuple xs) = list_all floats_ok xs"
| "floats_ok (PDict kvs) = list_all (\<lambda>kv. floats_ok (snd kv)) kvs"
| "floats_ok _ = True"

lemma json_nodes_nonneg [simp]: "0 \<le> json_nodes v"
  by (induction v rule: json_nodes.induct) (auto intro!: add_nonneg_nonneg sum_list_nonneg)

lemma json_normal_wf: "json_normal k v \<Longrightarrow> floats_ok v \<Longrightarrow> json_wf v"
proof (induction k v rule: json_normal.induct)
  case (2 k kvs)
  then show ?case
    by (auto simp: list_all_iff payload_key_ok_def is_str_key_def split: pykey.splits)
qed (auto simp: list_all_iff split: pyfloat.splits)

abbreviation items_nodes :: "(pykey \<times> pyval) list \<Rightarrow> int" where
  "items_nodes kvs \<equiv> sum_list (map (\<lambda>kv. json_nodes (snd kv)) kvs)"

lemma items_nodes_put: "items_nodes (alist_put k v kvs) \<le> json_nodes v + items_nodes kvs"
  by (induction k v kvs rule: alist_put.induct) auto

abbreviation items_normal :: "int \<Rightarrow> (pykey \<times> pyval) list \<Rightarrow> bool" where
  "items_normal k kvs \<equiv> distinct (map fst kvs) \<and>
     list_all (\<lambda>kv. payload_key_ok (fst kv) \<and> json_normal k (snd kv)) kvs"

lemma items_normal_put:
  "items_normal k kvs \<Longrightarrow> payload_key_ok key \<Longrightarrow> json_normal k v \<Longrightarrow>
   items_normal k (alist_put key v kvs)"
  by (simp add: alist_put_all)

lemma visit_normal:
  "visit cfg v d n = Inr (r, n') \<Longrightarrow>
     json_normal (max_json_depth cfg - d) r \<and> n + json_nodes r \<le> n' \<and> n' \<le> max_json_nodes cfg"
  "visit_list cfg vs d n = Inr (rs, n') \<Longrightarrow> n \<le> max_json_nodes cfg \<Longrightarrow>
     list_all (json_normal (max_json_depth cfg - d - 1)) rs \<and>
     n + sum_list (map json_nodes rs) \<le> n' \<and> n' \<le> max_json_nodes cfg"
  "visit_items cfg kvs d n acc = Inr (ms, n') \<Longrightarrow> n \<le> max_json_nodes cfg \<Longrightarrow>
     items_normal (max_json_depth cfg - d - 1) acc \<Longrightarrow>
     items_normal (max_json_depth cfg - d - 1) ms \<and>
     n + items_nodes ms \<le> n' + items_nodes acc \<and> n' \<le> max_json_nodes cfg"
proof (induction cfg v d n and cfg vs d n and cfg kvs d n acc
    arbitrary: r n' and rs n' and ms n' rule: visit_visit_list_visit_items.induct)
  case (1 cfg item depth nodes0)
  note step = "1.prems" [unfolded visit.simps [of cfg item] Let_def]
  show ?case
  proof (cases item)
    case (PFloat f)
    then show ?thesis using step by (cases f) (auto split: if_splits)
  next
    case (PList xs)
    then obtain a where c: "\<not> max_json_nodes cfg < nodes0 + 1" "\<not> max_json_depth cfg < depth"
      and a: "visit_list cfg xs depth (nodes0 + 1) = Inr (a, n')" "r = PList a"
      using step by (auto simp: res_simps split: if_splits)
    from "1.IH"(1) [OF refl c PList a(1)] c a(2) show ?thesis by simp
  next
    case (PTuple xs)
    then obtain a where c: "\<not> max_json_nodes cfg < nodes0 + 1" "\<not> max_json_depth cfg < depth"
      and a: "visit_list cfg xs depth (nodes0 + 1) = Inr (a, n')" "r = PList a"
      using step by (auto simp: res_simps split: if_splits)
    from "1.IH"(2) [OF refl c PTuple a(1)] c a(2) show ?thesis by simp
  next
    case (PDict kvs)
    then obtain a where c: "\<not> max_json_nodes cfg < nodes0 + 1" "\<not> max_json_depth cfg < depth"
      and a: "visit_items cfg kvs depth (nodes0 + 1) [] = Inr (a, n')" "r = PDict a"
      using step by (auto simp: res_simps split: if_splits)
    from "1.IH"(3) [OF refl c PDict a(1)] c a(2) show ?thesis by simp
  qed (use step in \<open>auto split: if_splits\<close>)
next
  case (3 cfg x xs depth nodes)
  then obtain y n1 ys where "visit cfg x (depth + 1) nodes = Inr (y, n1)"
    "visit_list cfg xs depth n1 = Inr (ys, n')" "rs = y # ys"
    by (auto simp: res_simps)
  with "3.IH"(1) [of y n1] "3.IH"(2) [of "(y, n1)" y n1 ys n'] show ?case
    by (auto simp: algebra_simps)
next
  case (5 cfg k child kvs depth nodes acc)
  then obtain key v n1 where k: "k = KStr key" "payload_key_ok k"
    and v: "visit cfg child (depth + 1) nodes = Inr (v, n1)"
    and rest: "visit_items cfg kvs depth n1 (alist_put (KStr key) v acc) = Inr (ms, n')"
    by (auto simp: res_simps payload_key_ok_def split: pykey.splits if_splits)
  have a: "json_normal (max_json_depth cfg - depth - 1) v" "nodes + json_nodes v \<le> n1"
    "n1 \<le> max_json_nodes cfg"
    using "5.IH"(1) [OF k(1) _ v] k by (auto simp: payload_key_ok_def algebra_simps)
  have "items_normal (max_json_depth cfg - depth - 1) (alist_put (KStr key) v acc)"
    using items_normal_put "5.prems"(3) k a(1) by blast
  then show ?case
    using "5.IH"(2) [OF k(1) _ v _ rest] k a items_nodes_put [of "KStr key" v acc]
    by (force simp: payload_key_ok_def)
qed auto

lemma visit_floats:
  "visit cfg v d n = Inr (r, n') \<Longrightarrow> floats_ok v \<Longrightarrow> floats_ok r"
  "visit_list cfg vs d n = Inr (rs, n') \<Longrightarrow> list_all floats_ok vs \<Longrightarrow> list_all floats_ok rs"
  "visit_items cfg kvs d n acc = Inr (ms, n') \<Longrightarrow> list_all (\<lambda>kv. floats_ok (snd kv)) kvs \<Longrightarrow>
     list_all (\<lambda>kv. floats_ok (snd kv)) acc \<Longrightarrow> list_all (\<lambda>kv. floats_ok (snd kv)) ms"
proof (induction cfg v d n and cfg vs d n and cfg kvs d n acc
    arbitrary: r n' and rs n' and ms n' rule: visit_visit_list_visit_items.induct)
  case (1 cfg item depth nodes0)
  note step = "1.prems"(1) [unfolded visit.simps [of cfg item] Let_def]
  show ?case
    using step "1.IH" "1.prems"(2)
    by (cases item) (auto simp: res_simps split: if_splits pyfloat.splits)
next
  case (5 cfg k child kvs depth nodes acc)
  then show ?case
    by (fastforce simp: res_simps intro!: alist_put_all split: pykey.splits if_splits)
qed (auto simp: res_simps)

text \<open>Normalising a normal value changes nothing and counts its nodes.\<close>

lemma foldl_put_fresh:
  "distinct (map fst (acc @ kv # kvs)) \<Longrightarrow> alist_put (fst kv) (snd kv) acc = acc @ [kv]"
  using alist_put_new [of "fst kv" acc "snd kv"] by (cases kv) auto

lemma visit_normal_id:
  "json_normal (max_json_depth cfg - d) v \<Longrightarrow> n + json_nodes v \<le> max_json_nodes cfg \<Longrightarrow>
     visit cfg v d n = Inr (v, n + json_nodes v)"
  "list_all (json_normal (max_json_depth cfg - d - 1)) vs \<Longrightarrow>
     n + sum_list (map json_nodes vs) \<le> max_json_nodes cfg \<Longrightarrow>
     visit_list cfg vs d n = Inr (vs, n + sum_list (map json_nodes vs))"
  "list_all (\<lambda>kv. payload_key_ok (fst kv) \<and> json_normal (max_json_depth cfg - d - 1) (snd kv)) kvs \<Longrightarrow>
     distinct (map fst (acc @ kvs)) \<Longrightarrow> n + items_nodes kvs \<le> max_json_nodes cfg \<Longrightarrow>
     visit_items cfg kvs d n acc = Inr (acc @ kvs, n + items_nodes kvs)"
proof (induction cfg v d n and cfg vs d n and cfg kvs d n acc
    rule: visit_visit_list_visit_items.induct)
  case (1 cfg item depth nodes0)
  have nn: "0 \<le> sum_list (map json_nodes xs)" "0 \<le> items_nodes kvs" for xs kvs
    by (auto intro!: sum_list_nonneg)
  show ?case
  proof (cases item)
    case (PList xs)
    then have c: "\<not> max_json_nodes cfg < nodes0 + 1" "\<not> max_json_depth cfg < depth"
      using "1.prems" nn(1) [of xs] by auto
    then show ?thesis using "1.IH"(1) [OF refl c PList] "1.prems" PList
      by (simp add: visit.simps [of cfg "PList xs"] Let_def algebra_simps)
  next
    case (PDict kvs)
    then have c: "\<not> max_json_nodes cfg < nodes0 + 1" "\<not> max_json_depth cfg < depth"
      using "1.prems" nn(2) [of kvs] by auto
    then show ?thesis using "1.IH"(3) [OF refl c PDict] "1.prems" PDict
      by (simp add: visit.simps [of cfg "PDict kvs"] Let_def algebra_simps)
  qed (use "1.prems" in \<open>auto simp: visit.simps [of cfg] Let_def split: pyfloat.splits\<close>)
next
  case (3 cfg x xs depth nodes)
  have "0 \<le> sum_list (map json_nodes xs)" by (auto intro!: sum_list_nonneg)
  then have "visit cfg x (depth + 1) nodes = Inr (x, nodes + json_nodes x)"
    using "3.IH"(1) "3.prems" by (simp add: algebra_simps)
  then show ?case using "3.IH"(2) "3.prems" by (simp add: algebra_simps)
next
  case (5 cfg k child kvs depth nodes acc)
  have "0 \<le> items_nodes kvs" by (auto intro!: sum_list_nonneg)
  moreover obtain key where k: "k = KStr key" "\<not> (length key > 512 \<or> contains_control_character key)"
    using "5.prems"(1) by (auto simp: payload_key_ok_def split: pykey.splits)
  ultimately have v: "visit cfg child (depth + 1) nodes = Inr (child, nodes + json_nodes child)"
    using "5.IH"(1) [OF k] "5.prems" by (simp add: algebra_simps)
  have p: "alist_put (KStr key) child acc = acc @ [(KStr key, child)]"
    using foldl_put_fresh [of acc "(KStr key, child)" kvs] "5.prems"(2) k(1) by simp
  have "visit_items cfg kvs depth (nodes + json_nodes child) (acc @ [(KStr key, child)]) =
      Inr ((acc @ [(KStr key, child)]) @ kvs, nodes + json_nodes child + items_nodes kvs)"
    using "5.IH"(2) [OF k v refl] "5.prems" k(1) p by simp
  then show ?case using k v p by (simp add: algebra_simps)
qed auto

section \<open>The stored text\<close>

lemma json_sort_normal: "json_normal k v \<Longrightarrow> json_normal k (json_sort v)"
  by (induction k v rule: json_normal.induct) (auto simp: list_all_iff o_def)

lemma json_normal_ok: "json_normal k v \<Longrightarrow> json_ok False v"
proof (induction k v rule: json_normal.induct)
  case (2 k kvs)
  then show ?case
    by (auto simp: list_all_iff payload_key_ok_def is_str_key_def split: pykey.splits)
qed (auto simp: list_all_iff split: pyfloat.splits)

lemma serialize_payload_Inr:
  assumes "serialize_payload cfg p = Inr (txt, v)"
  obtains d d' n where "p = PDict d'" "v = PDict d" "visit cfg p 0 0 = Inr (v, n)"
    "txt = json_enc False (json_sort v)" "utf8_length txt \<le> max_payload_bytes cfg"
proof -
  obtain d' where p: "p = PDict d'" using assms by (cases p) (simp_all add: serialize_payload_def)
  then obtain w where w: "normalize_json cfg p = Inr w"
    using assms by (cases "normalize_json cfg p") (simp_all add: serialize_payload_def)
  then obtain d where d: "w = PDict d"
    using assms p by (cases w) (simp_all add: serialize_payload_def)
  have "json_ok False w"
    using assms p w d by (simp add: serialize_payload_def json_dumps_def split: if_splits)
  then have "v = w" "txt = json_enc False (json_sort w)" "utf8_length txt \<le> max_payload_bytes cfg"
    using assms p w d
    by (auto simp: serialize_payload_def json_dumps_def simp del: json_sort.simps json_enc.simps json_ok.simps
        split: if_splits)
  then show thesis using that p d w by (auto simp: normalize_json_def res_simps simp del: json_sort.simps json_enc.simps)
qed

lemma serialize_payload_normal:
  assumes "serialize_payload cfg p = Inr (txt, v)"
  shows "json_normal (max_json_depth cfg) v \<and> json_nodes v \<le> max_json_nodes cfg"
  using assms by (elim serialize_payload_Inr) (use visit_normal(1) in fastforce)

lemma serialize_payload_wf:
  assumes "serialize_payload cfg p = Inr (txt, v)" "floats_ok p"
  shows "json_wf (json_sort v)" "txt = json_enc False (json_sort v)"
  using assms serialize_payload_normal [OF assms(1)]
  by (auto elim!: serialize_payload_Inr dest: visit_floats(1) intro!: json_sort_wf json_normal_wf
      simp del: json_sort.simps)

lemma serialize_payload_loads:
  assumes "serialize_payload cfg p = Inr (txt, v)" "floats_ok p"
  shows "json_loads txt = Some (json_sort v)"
  using serialize_payload_wf [OF assms] json_loads_enc by simp

lemma serialize_payload_again:
  assumes "serialize_payload cfg p = Inr (txt, v)"
  shows "serialize_payload cfg v = Inr (txt, v)"
proof -
  note n = serialize_payload_normal [OF assms]
  have "visit cfg v 0 0 = Inr (v, json_nodes v)" using visit_normal_id(1) [of cfg 0 v 0] n by simp
  then have "normalize_json cfg v = Inr v" by (simp add: normalize_json_def)
  moreover have "json_dumps False False True v = Inr (json_enc False (json_sort v))"
    using json_normal_ok [OF conjunct1 [OF n]] by (simp add: json_dumps_def)
  moreover obtain d where "v = PDict d" "txt = json_enc False (json_sort v)"
    "utf8_length txt \<le> max_payload_bytes cfg" using assms by (elim serialize_payload_Inr)
  ultimately show ?thesis
    by (simp add: serialize_payload_def del: json_sort.simps json_enc.simps)
qed

text \<open>
  A payload the queue accepts is bounded and stable: the normalised value is a JSON object
  within the configured depth and node limits whose keys are at most 512 characters without
  control characters, its text is within the byte limit, the stored text decodes to the
  normalised value (with its keys sorted), and submitting the normalised value again yields
  the same text.
\<close>

theorem payload_bounded_and_stable:
  assumes "serialize_payload cfg p = Inr (txt, v)" and "floats_ok p"
  shows "json_normal (max_json_depth cfg) v \<and> json_nodes v \<le> max_json_nodes cfg \<and>
    utf8_length txt \<le> max_payload_bytes cfg \<and> json_loads txt = Some (json_sort v) \<and>
    serialize_payload cfg v = Inr (txt, v)"
  using serialize_payload_normal [OF assms(1)] serialize_payload_loads [OF assms]
    serialize_payload_again [OF assms(1)] assms(1) by (auto elim: serialize_payload_Inr)

text \<open>
  The stored text is a canonical form: two accepted payloads have the same text exactly
  when they are the same value up to the order of object keys.
\<close>

theorem payload_text_canonical:
  assumes "serialize_payload cfg p = Inr (txt, v)" and "serialize_payload cfg q = Inr (txt', w)"
    and "floats_ok p" and "floats_ok q"
  shows "txt = txt' \<longleftrightarrow> json_sort v = json_sort w"
  using serialize_payload_wf [OF assms(1,3)] serialize_payload_wf [OF assms(2,4)] json_enc_inject
  by metis

definition sample_payload :: pyval where
  "sample_payload = PDict [(KStr ''text'', PStr ''hi''), (KStr ''args'', PTuple [PInt 3, PNone])]"

definition sample_payload2 :: pyval where
  "sample_payload2 = PDict [(KStr ''args'', PList [PInt 3, PNone]), (KStr ''text'', PStr ''hi'')]"

definition sample_text :: string where
  "sample_text = json_enc False (PDict [(KStr ''args'', PList [PInt 3, PNone]), (KStr ''text'', PStr ''hi'')])"

lemma sample_serialized:
  "serialize_payload default_config sample_payload =
     Inr (sample_text, PDict [(KStr ''text'', PStr ''hi''), (KStr ''args'', PList [PInt 3, PNone])])"
  "serialize_payload default_config sample_payload2 = Inr (sample_text, sample_payload2)"
  "floats_ok sample_payload" "floats_ok sample_payload2"
  by code_simp+

theorem payload_bounded_and_stable_witness:
  "json_loads sample_text = Some (json_sort sample_payload2)"
  using payload_bounded_and_stable [OF sample_serialized(2,4)] by simp

theorem payload_text_canonical_witness:
  "json_sort (PDict [(KStr ''text'', PStr ''hi''), (KStr ''args'', PList [PInt 3, PNone])]) =
     json_sort sample_payload2"
  using payload_text_canonical [OF sample_serialized] by simp

end
