(* ===== verification/PromptQueueOps.thy ===== *)
theory PromptQueueOps
  imports PromptQueueRows PromptQueuePayload
begin

text \<open>
  The prompt queue as a machine: an operation list is run against a table, an operation that
  raises leaves it as it was (\<open>_transaction\<close> rolls back), and every operation that commits is
  a sequence of the row transitions of \<open>PromptQueueRows\<close>. The interpretation \<open>pqm\<close> gives the
  reachability invariant and the monotonicity of rows for all traces.
\<close>

section \<open>Transactions and traces\<close>

definition commit :: "pq_table \<Rightarrow> pq_error + 'a \<times> pq_table \<Rightarrow> pq_table" where
  "commit t r = (case r of Inl _ \<Rightarrow> t | Inr (_, t') \<Rightarrow> t')"

lemma commit_simps [simp]: "commit t (Inl e) = t" "commit t (Inr (x, t')) = t'"
  by (simp_all add: commit_def)

datatype pq_op =
    Enqueue pyval pyval pyval pyval float_arg
  | ClaimNext pyval pyval float_arg float_arg string
  | Renew pyval pyval pyval float_arg float_arg
  | MarkStarted pyval pyval pyval float_arg
  | Complete pyval pyval pyval float_arg
  | Fail pyval pyval pyval pyval float_arg
  | CancelClaimed pyval pyval pyval float_arg
  | Release pyval pyval pyval float_arg
  | DeletePending pyval pyval float_arg
  | CancelPending pyval float_arg
  | Rebind pyval pyval float_arg

fun pq_apply :: "pq_config \<Rightarrow> (string \<Rightarrow> string) \<Rightarrow> pq_op \<Rightarrow> pq_table \<Rightarrow> pq_table" where
  "pq_apply cfg sha (Enqueue s k p i c) t = commit t (enqueue cfg sha s k p i c t)"
| "pq_apply cfg sha (ClaimNext s w l c tok) t = commit t (claim_next s w l c tok t)"
| "pq_apply cfg sha (Renew s p k l c) t = commit t (renew s p k l c t)"
| "pq_apply cfg sha (MarkStarted s p k c) t = commit t (mark_execution_started s p k c t)"
| "pq_apply cfg sha (Complete s p k c) t = commit t (complete s p k c t)"
| "pq_apply cfg sha (Fail s p k e c) t = commit t (fail_prompt s p k e c t)"
| "pq_apply cfg sha (CancelClaimed s p k c) t = commit t (cancel_claimed s p k c t)"
| "pq_apply cfg sha (Release s p k c) t = commit t (release s p k c t)"
| "pq_apply cfg sha (DeletePending s p c) t = commit t (delete_pending s p c t)"
| "pq_apply cfg sha (CancelPending s c) t = commit t (cancel_pending_for_session s c t)"
| "pq_apply cfg sha (Rebind a b c) t = commit t (rebind_recoverable a b c t)"

fun pq_op_ok :: "pq_op \<Rightarrow> bool" where
  "pq_op_ok (Enqueue s k p i c) = floats_ok p"
| "pq_op_ok _ = True"

section \<open>What a committed operation did\<close>

lemma require_live_lease_Inr:
  "require_live_lease sid pid token now t = Inr r \<Longrightarrow>
     r \<in> set (rows t) \<and> prompt_id r = pid \<and> row_state r = RUNNING \<and>
     lease_token r = Some token \<and> lease_live now r \<and>
     (sid = session_id r \<or> lease_session_id r = Some sid)"
  by (auto simp: require_live_lease_def split: option.splits if_splits dest!: select_first_SomeD)

text \<open>An update of one fenced row, and the row read back.\<close>

definition fenced_update ::
    "string \<Rightarrow> string \<Rightarrow> rat \<Rightarrow> (pq_row \<Rightarrow> pq_row) \<Rightarrow> pq_table \<Rightarrow> pq_row \<Rightarrow> pq_table \<Rightarrow> bool" where
  "fenced_update pid token now f t r t' \<longleftrightarrow>
     r \<in> set (rows t) \<and> prompt_id r = pid \<and> row_state r = RUNNING \<and>
     lease_token r = Some token \<and> lease_live now r \<and>
     update_rows (by_sequence (sequence r)) f t = Inr t'"

lemma fenced_update_step:
  "fenced_update pid token now f t r t' \<Longrightarrow> constraints_ok (rows t) \<Longrightarrow> row_step r (f r) \<Longrightarrow>
   table_step t t'"
  by (auto simp: fenced_update_def intro: point_step)

lemma validate_lease_identifiers_Inr:
  "validate_lease_identifiers s p l = Inr (sid, pid, token) \<longleftrightarrow>
     validate_identifier s ''session'' 256 = Inr sid \<and> validate_identifier p ''prompt'' 256 = Inr pid \<and>
     validate_identifier l ''lease'' 256 = Inr token"
  by (auto simp: validate_lease_identifiers_def res_simps)

lemma validate_identifier_Inr:
  "validate_identifier v kind n = Inr s \<longleftrightarrow> v = PStr s \<and> s \<noteq> [] \<and> length s \<le> n \<and> identifier_re s"
  by (auto simp: validate_identifier_def split: pyval.splits if_splits)

lemma renew_Inr:
  assumes "renew s p k l c t = Inr (lease, t')"
  obtains pid token secs now r where "p = PStr pid" "k = PStr token"
    "validate_lease_seconds l = Inr secs" "queue_now c = Inr now"
    "fenced_update pid token now (renewed_row (now + secs) now) t r t'"
  using assms
  by (auto simp: renew_def res_simps Let_def validate_lease_identifiers_Inr validate_identifier_Inr
      fenced_update_def dest!: require_live_lease_Inr)

lemma mark_execution_started_Inr:
  assumes "mark_execution_started s p k c t = Inr (item, t')"
  obtains pid token now r where "p = PStr pid" "k = PStr token" "queue_now c = Inr now"
    "fenced_update pid token now (started_row now) t r t'" "execution_started_at r = None"
  using assms
  by (auto simp: mark_execution_started_def res_simps validate_lease_identifiers_Inr
      validate_identifier_Inr fenced_update_def dest!: require_live_lease_Inr split: if_splits)

lemma finish_Inr:
  assumes "finish s p k st ec c t = Inr (item, t')"
  obtains pid token now r where "p = PStr pid" "k = PStr token" "queue_now c = Inr now"
    "fenced_update pid token now (finished_row st ec now) t r t'"
  using assms
  by (auto simp: finish_def res_simps validate_lease_identifiers_Inr
      validate_identifier_Inr fenced_update_def dest!: require_live_lease_Inr)

lemma release_Inr:
  assumes "release s p k c t = Inr (item, t')"
  obtains pid token now r where "p = PStr pid" "k = PStr token" "queue_now c = Inr now"
    "fenced_update pid token now (released_row now) t r t'"
  using assms
  by (auto simp: release_def res_simps validate_lease_identifiers_Inr
      validate_identifier_Inr fenced_update_def dest!: require_live_lease_Inr)

lemma fail_prompt_Inr:
  assumes "fail_prompt s p k e c t = Inr (item, t')"
  obtains ec where "e = PStr ec" "finish s p k FAILED (Some ec) c t = Inr (item, t')"
  using assms by (auto simp: fail_prompt_def split: pyval.splits if_splits)

lemma delete_pending_Inr:
  assumes "delete_pending s p c t = Inr (item, t')"
  obtains r now where "r \<in> set (rows t)" "row_state r = PENDING" "queue_now c = Inr now"
    "s = PStr (session_id r)" "p = PStr (prompt_id r)"
    "update_rows (by_sequence (sequence r)) (cancelled_row now) t = Inr t'"
  using assms
  by (auto simp: delete_pending_def res_simps validate_identifier_Inr by_session_prompt_def
      split: option.splits if_splits dest!: select_first_SomeD)

lemma claim_next_Some:
  assumes "claim_next s w l c tok t = Inr (Some lease, t')"
  obtains sid owner secs now r r' where
    "s = PStr sid" "w = PStr owner" "validate_lease_seconds l = Inr secs" "queue_now c = Inr now"
    "select_first (live_running sid now) t = None" "select_first (eligible sid now) t = Some r"
    "update_rows (by_sequence (sequence r)) (claimed_row tok owner sid (now + secs) now) t = Inr t'"
    "lease_tok lease = tok" "lease_owner_id lease = Some owner" "lease_expiry lease = now + secs"
    "reload (StorageError ''Could not load claimed prompt.'') (sequence r) t' = Inr r'"
    "item_from_row r' None = Inr (lease_item lease)"
  using assms
  by (auto simp: claim_next_def res_simps Let_def validate_identifier_Inr split: option.splits)

lemma claim_next_None:
  assumes "claim_next s w l c tok t = Inr (None, t')"
  shows "t' = t"
  using assms by (auto simp: claim_next_def res_simps Let_def split: option.splits)

lemma enqueue_existing:
  "res_bind (existing_result h r) (\<lambda>x. Inr (x, t)) = Inr (res, t') \<Longrightarrow> t' = t \<and> \<not> res_created res"
  by (auto simp: existing_result_def res_simps split: if_splits)

lemma enqueue_Inr:
  assumes "enqueue cfg sha s k p i c t = Inr (res, t')"
  obtains (existing) "t' = t" "\<not> res_created res"
  | (created) sid ikey pid now body v where
      "s = PStr sid" "k = PStr ikey" "i = PStr pid" "queue_now c = Inr now"
      "serialize_payload cfg p = Inr (body, v)" "res_created res"
      "select_first (same_key sid ikey) t = None"
      "count_rows (outstanding sid) t < max_outstanding_per_session cfg"
      "insert_row (new_row pid sid ikey body (sha body) now) t = Some t'"
proof -
  obtain sid ikey body v where pre: "s = PStr sid" "k = PStr ikey"
      "validate_identifier s ''session'' 256 = Inr sid"
      "validate_identifier k ''idempotency'' 256 = Inr ikey"
      "serialize_payload cfg p = Inr (body, v)"
    using assms by (auto simp: enqueue_def res_simps validate_identifier_Inr)
  note a = assms [unfolded enqueue_def pre(3-5) res_bind_Inr Let_def prod.case]
  show thesis
  proof (cases "select_first (same_key sid ikey) t")
    case (Some r)
    then show ?thesis using a existing enqueue_existing by fastforce
  next
    case None
    then obtain pid now where i: "i = PStr pid" "queue_now c = Inr now"
        "validate_identifier i ''generated prompt'' 256 = Inr pid"
        "count_rows (outstanding sid) t < max_outstanding_per_session cfg"
      using a by (auto simp: res_simps validate_identifier_Inr split: if_splits)
    show ?thesis
    proof (cases "insert_row (new_row pid sid ikey body (sha body) now) t")
      case None
      then show ?thesis
        using a i \<open>select_first (same_key sid ikey) t = None\<close> by simp
    next
      case (Some t2)
      then have "t' = t2" "res_created res"
        using a i None by (auto simp: res_simps split: option.splits)
      then show ?thesis using Some pre i None created by blast
    qed
  qed
qed

lemma new_row_inv:
  "json_loads body = Some (PDict d) \<Longrightarrow> row_inv (new_row pid sid ikey body h now)"
  by (simp add: row_inv_def new_row_def TERMINAL_STATES_def)

section \<open>Committed operations are table steps\<close>

lemma enqueue_steps:
  assumes "enqueue cfg sha s k p i c t = Inr (res, t')" "floats_ok p"
  shows "table_steps t t'"
  using assms(1)
proof (cases rule: enqueue_Inr)
  case (created sid ikey pid now body v)
  from serialize_payload_loads [OF created(5) assms(2)] have "json_loads body = Some (json_sort v)" .
  moreover obtain d where "v = PDict d" using created(5) by (elim serialize_payload_Inr)
  ultimately have "row_inv (new_row pid sid ikey body (sha body) now)"
    by (auto intro: new_row_inv)
  then have "table_step t t'"
    using created(9) by (intro table_step.inserted) (auto simp: new_row_def)
  then show ?thesis by blast
qed simp

lemma claim_next_steps:
  assumes "claim_next s w l c tok t = Inr (res, t')" "constraints_ok (rows t)"
  shows "table_steps t t'"
proof (cases res)
  case None
  then show ?thesis using assms claim_next_None by blast
next
  case (Some lease)
  with assms(1) obtain sid owner secs now r where
    r: "select_first (eligible sid now) t = Some r" and
    u: "update_rows (by_sequence (sequence r)) (claimed_row tok owner sid (now + secs) now) t = Inr t'"
    by (blast elim: claim_next_Some)
  have "r \<in> set (rows t)" "row_state r = PENDING \<or> row_state r = RUNNING \<and> lease_expired now r"
    using select_first_SomeD [OF r] by (auto simp: eligible_def)
  then have "table_step t t'" using assms(2) u row_step.claimed by (intro point_step [OF _ _ _ u])
  then show ?thesis by blast
qed

lemma renew_steps:
  "renew s p k l c t = Inr (lease, t') \<Longrightarrow> constraints_ok (rows t) \<Longrightarrow> table_steps t t'"
  by (elim renew_Inr) (auto intro!: r_into_rtranclp fenced_update_step row_step.renewed
      simp: fenced_update_def)

lemma mark_execution_started_steps:
  "mark_execution_started s p k c t = Inr (item, t') \<Longrightarrow> constraints_ok (rows t) \<Longrightarrow> table_steps t t'"
  by (elim mark_execution_started_Inr)
    (auto intro!: r_into_rtranclp fenced_update_step row_step.started simp: fenced_update_def)

lemma finish_steps:
  assumes "finish s p k st ec c t = Inr (item, t')" "constraints_ok (rows t)"
    and "st \<in> TERMINAL_STATES" "ec \<noteq> None \<longrightarrow> st \<noteq> COMPLETED"
  shows "table_steps t t'"
  using assms
  by (elim finish_Inr)
    (auto intro!: r_into_rtranclp fenced_update_step row_step.finished simp: fenced_update_def)

lemma release_steps:
  "release s p k c t = Inr (item, t') \<Longrightarrow> constraints_ok (rows t) \<Longrightarrow> table_steps t t'"
  by (elim release_Inr)
    (auto intro!: r_into_rtranclp fenced_update_step row_step.released simp: fenced_update_def)

lemma delete_pending_steps:
  "delete_pending s p c t = Inr (item, t') \<Longrightarrow> constraints_ok (rows t) \<Longrightarrow> table_steps t t'"
  by (elim delete_pending_Inr) (blast intro: point_step row_step.cancelled)

lemma cancel_pending_steps:
  "cancel_pending_for_session s c t = Inr (n, t') \<Longrightarrow> table_steps t t'"
  by (auto simp: cancel_pending_for_session_def res_simps pending_in_def
      intro!: r_into_rtranclp table_step.updated row_step.cancelled)

lemma rebind_Inr:
  assumes "rebind_recoverable a b c t = Inr (counts, t')"
  obtains (same) "a = b" "t' = t"
  | (moved) source target now t1 t2 where
      "a = PStr source" "b = PStr target" "source \<noteq> target" "queue_now c = Inr now"
      "\<not> rebind_conflict source target t"
      "select_first (running_in target) t = None \<or> select_first (running_in source) t = None"
      "update_rows (pending_in source) (moved_row target now) t = Inr t1"
      "update_rows (expired_running source now) (recovered_row target now) t1 = Inr t2"
      "update_rows (live_running source now) (moved_row target now) t2 = Inr t'"
      "counts = \<lparr>rb_pending = max 0 (count_rows (pending_in source) t),
         rb_recovered = max 0 (count_rows (expired_running source now) t1),
         rb_active = max 0 (count_rows (live_running source now) t2)\<rparr>"
proof -
  obtain source target where ab: "a = PStr source" "b = PStr target"
      "validate_identifier a ''source session'' 256 = Inr source"
      "validate_identifier b ''target session'' 256 = Inr target"
    using assms by (auto simp: rebind_recoverable_def res_simps validate_identifier_Inr)
  note u = assms [unfolded rebind_recoverable_def ab(3,4) res_bind_Inr]
  show thesis
  proof (cases "source = target")
    case True
    then show ?thesis using u ab same by simp
  next
    case False
    then show ?thesis using u ab moved [of source target]
      by (auto simp: res_simps split: if_splits)
  qed
qed

lemma rebind_steps:
  assumes "rebind_recoverable a b c t = Inr (counts, t')"
  shows "table_steps t t'"
  using assms
proof (cases rule: rebind_Inr)
  case (moved source target now t1 t2)
  have "table_step t t1" using moved(7)
    by (rule table_step.updated) (auto simp: pending_in_def intro: row_step.moved)
  moreover have "table_step t1 t2" using moved(8)
    by (rule table_step.updated) (auto simp: expired_running_def running_in_def intro: row_step.recovered)
  moreover have "table_step t2 t'" using moved(9)
    by (rule table_step.updated) (auto simp: live_running_def intro: row_step.moved)
  ultimately show ?thesis by (meson converse_rtranclp_into_rtranclp rtranclp.rtrancl_refl)
qed simp

lemmas op_steps = enqueue_steps claim_next_steps renew_steps mark_execution_started_steps
  release_steps delete_pending_steps cancel_pending_steps rebind_steps

lemma commit_steps:
  "(\<And>x t'. r = Inr (x, t') \<Longrightarrow> table_steps t t') \<Longrightarrow> table_steps t (commit t r)"
  by (cases r) auto

lemma pq_apply_steps:
  assumes "pq_op_ok x" "constraints_ok (rows t)"
  shows "table_steps t (pq_apply cfg sha x t)"
proof (cases x)
  case (Complete s p k c)
  then show ?thesis using assms finish_steps
    by (auto simp: complete_def TERMINAL_STATES_def intro!: commit_steps)
next
  case (Fail s p k e c)
  then show ?thesis using assms finish_steps
    by (auto simp: TERMINAL_STATES_def intro!: commit_steps elim!: fail_prompt_Inr)
next
  case (CancelClaimed s p k c)
  then show ?thesis using assms finish_steps
    by (auto simp: cancel_claimed_def TERMINAL_STATES_def intro!: commit_steps)
qed (use assms op_steps in \<open>auto intro!: commit_steps\<close>)

interpretation pqm: monotone_machine "pq_apply cfg sha" pq_op_ok pq_inv table_le for cfg sha
proof unfold_locales
  fix x s assume x: "pq_op_ok x" "pq_inv s"
  then have steps: "table_steps s (pq_apply cfg sha x s)"
    by (intro pq_apply_steps) (auto simp: pq_inv_def)
  show "pq_inv (pq_apply cfg sha x s)" using steps x(2) by (rule table_steps_inv)
  show "table_le s (pq_apply cfg sha x s)" using steps by (rule table_steps_le)
qed (rule table_le_refl, rule table_le_trans)

lemma empty_table_inv [simp]: "pq_inv empty_table"
  by (simp add: pq_inv_def empty_table_def constraints_ok_def)

end
