(* ===== verification/PromptQueueProps.thy ===== *)
theory PromptQueueProps
  imports PromptQueueOps
begin

text \<open>
  The promises of the prompt queue, over the operations of \<open>PromptQueueStore\<close> and all
  traces of them from an empty table.
\<close>

section \<open>Order of claims\<close>

lemma select_first_min:
  assumes "select_first P t = Some r" "sorted_wrt (<) (map sequence (rows t))"
    and "x \<in> set (rows t)" "P x"
  shows "sequence r \<le> sequence x"
proof -
  have "find P rs = Some r \<Longrightarrow> sorted_wrt (<) (map sequence rs) \<Longrightarrow> x \<in> set rs \<Longrightarrow>
      sequence r \<le> sequence x" for rs
    using assms(4) by (induction rs) (auto split: if_splits)
  then show ?thesis using assms by (simp add: select_first_def)
qed

lemma running_unique_iff:
  assumes "distinct (map sequence rs)"
  shows "distinct (map session_id (filter is_running rs)) \<longleftrightarrow>
    (\<forall>x\<in>set rs. \<forall>y\<in>set rs. is_running x \<longrightarrow> is_running y \<longrightarrow> session_id x = session_id y \<longrightarrow> x = y)"
  using assms by (auto simp: distinct_map inj_on_def)

lemma constraints_running:
  "constraints_ok (rows t) \<Longrightarrow> x \<in> set (rows t) \<Longrightarrow> y \<in> set (rows t) \<Longrightarrow>
   row_state x = RUNNING \<Longrightarrow> row_state y = RUNNING \<Longrightarrow> session_id x = session_id y \<Longrightarrow> x = y"
  unfolding constraints_ok_def using running_unique_iff [of "rows t"] by (auto simp: is_running_def)

lemma constraints_prompt:
  "constraints_ok (rows t) \<Longrightarrow> x \<in> set (rows t) \<Longrightarrow> y \<in> set (rows t) \<Longrightarrow>
   prompt_id x = prompt_id y \<Longrightarrow> x = y"
  unfolding constraints_ok_def by (blast dest: distinct_map_inj)

lemma select_prompt:
  "constraints_ok (rows t) \<Longrightarrow> r \<in> set (rows t) \<Longrightarrow>
   select_first (\<lambda>x. prompt_id x = prompt_id r) t = Some r"
  unfolding constraints_ok_def by (blast intro: select_unique)

text \<open>
  \<open>fifo t\<close>: in every session the running prompt is older than all pending ones. Every operation
  but \<open>rebind_recoverable\<close> keeps it.
\<close>

definition fifo :: "pq_table \<Rightarrow> bool" where
  "fifo t \<longleftrightarrow> (\<forall>x\<in>set (rows t). \<forall>y\<in>set (rows t).
     row_state x = RUNNING \<longrightarrow> row_state y = PENDING \<longrightarrow> session_id x = session_id y \<longrightarrow>
     sequence x < sequence y)"

lemma fifoD:
  "fifo t \<Longrightarrow> x \<in> set (rows t) \<Longrightarrow> y \<in> set (rows t) \<Longrightarrow> row_state x = RUNNING \<Longrightarrow>
   row_state y = PENDING \<Longrightarrow> session_id x = session_id y \<Longrightarrow> sequence x < sequence y"
  by (auto simp: fifo_def)

text \<open>An update that starts nothing and requeues nothing keeps the order.\<close>

lemma fifo_update:
  assumes "update_rows P f t = Inr t'" "fifo t"
    and "\<And>r. r \<in> set (rows t) \<Longrightarrow> P r \<Longrightarrow>
      session_id (f r) = session_id r \<and> sequence (f r) = sequence r \<and>
      (row_state (f r) = row_state r \<or> row_state (f r) \<in> TERMINAL_STATES)"
  shows "fifo t'"
proof -
  let ?g = "\<lambda>r. if P r then f r else r"
  have g: "session_id (?g r) = session_id r" "sequence (?g r) = sequence r"
    "row_state (?g r) \<in> {PENDING, RUNNING} \<Longrightarrow> row_state r = row_state (?g r)"
    if "r \<in> set (rows t)" for r
    using assms(3) [OF that] by (auto simp: TERMINAL_STATES_def)
  have "sequence (?g x) < sequence (?g y)"
    if "x \<in> set (rows t)" "y \<in> set (rows t)" "row_state (?g x) = RUNNING"
      "row_state (?g y) = PENDING" "session_id (?g x) = session_id (?g y)" for x y
    using g(1,2,3) [OF that(1)] g(1,2,3) [OF that(2)] that fifoD [OF assms(2) that(1,2)] by simp
  moreover have "rows t' = map ?g (rows t)" using assms(1) by (simp add: update_rows_eq_Inr)
  ultimately show ?thesis unfolding fifo_def set_map [of ?g] \<open>rows t' = _\<close> by blast
qed

text \<open>Updates of one row: what the new table holds.\<close>

lemma point_rows:
  assumes "update_rows (by_sequence (sequence r)) f t = Inr t'" "constraints_ok (rows t)"
    and "r \<in> set (rows t)"
  shows "x \<in> set (rows t') \<longleftrightarrow> x = f r \<or> x \<in> set (rows t) \<and> x \<noteq> r"
proof -
  have "rows t' = map (\<lambda>x. if by_sequence (sequence r) x then f x else x) (rows t)"
    using assms(1) by (simp add: update_rows_eq_Inr)
  also have "\<dots> = map (\<lambda>x. if x = r then f x else x) (rows t)"
    using by_sequence_unique [OF assms(2,3)] by simp
  finally show ?thesis using assms(3) by auto
qed

lemma fifo_released:
  assumes "fenced_update pid token now (released_row now) t r t'" "fifo t" "constraints_ok (rows t)"
  shows "fifo t'"
proof -
  note u = assms(1) [unfolded fenced_update_def]
  have m: "x \<in> set (rows t') \<longleftrightarrow> x = released_row now r \<or> x \<in> set (rows t) \<and> x \<noteq> r" for x
    using u assms(3) by (intro point_rows) auto
  show ?thesis
    unfolding fifo_def
  proof (intro ballI impI)
    fix x y assume h: "x \<in> set (rows t')" "y \<in> set (rows t')" "row_state x = RUNNING"
      "row_state y = PENDING" "session_id x = session_id y"
    have "x \<noteq> released_row now r" using h(3) by (auto simp: released_row_def)
    then have x: "x \<in> set (rows t)" "x \<noteq> r" using h(1) m by blast+
    show "sequence x < sequence y"
    proof (cases "y = released_row now r")
      case True
      then have "session_id x = session_id r" using h(5) by (simp add: released_row_def)
      then show ?thesis using x u h(3) constraints_running [OF assms(3)] by blast
    next
      case False
      then show ?thesis using x h m fifoD [OF assms(2)] by blast
    qed
  qed
qed

lemma fifo_claimed:
  assumes "select_first (eligible sid now) t = Some r" "pq_inv t" "fifo t"
    and "update_rows (by_sequence (sequence r)) (claimed_row tok owner sid e now) t = Inr t'"
  shows "fifo t'"
proof -
  have r: "r \<in> set (rows t)" "session_id r = sid"
    using select_first_SomeD [OF assms(1)] by (auto simp: eligible_def)
  have m: "x \<in> set (rows t') \<longleftrightarrow> x = claimed_row tok owner sid e now r \<or> x \<in> set (rows t) \<and> x \<noteq> r" for x
    using assms(2,4) r by (intro point_rows) (auto simp: pq_inv_def)
  have min: "sequence r < sequence y" if "y \<in> set (rows t)" "y \<noteq> r" "row_state y = PENDING"
      "session_id y = sid" for y
  proof -
    have "sequence r \<le> sequence y"
      using assms(2) that by (intro select_first_min [OF assms(1)]) (auto simp: pq_inv_def eligible_def)
    moreover have "sequence r \<noteq> sequence y"
      using that r assms(2) by_sequence_unique [of t r y] by (auto simp: pq_inv_def by_sequence_def)
    ultimately show ?thesis by simp
  qed
  show ?thesis
    unfolding fifo_def
  proof (intro ballI impI)
    fix x y assume h: "x \<in> set (rows t')" "y \<in> set (rows t')" "row_state x = RUNNING"
      "row_state y = PENDING" "session_id x = session_id y"
    have "y \<noteq> claimed_row tok owner sid e now r" using h(4) by (auto simp: claimed_row_def)
    then have y: "y \<in> set (rows t)" "y \<noteq> r" using h(2) m by blast+
    show "sequence x < sequence y"
    proof (cases "x = claimed_row tok owner sid e now r")
      case True
      then show ?thesis using min [OF y h(4)] h(5) r by (simp add: claimed_row_def)
    next
      case False
      then show ?thesis using y h m fifoD [OF assms(3)] by blast
    qed
  qed
qed

lemma fifo_inserted:
  assumes "insert_row r t = Some t'" "fifo t" "pq_inv t" "row_state r = PENDING"
  shows "fifo t'"
  using assms by (auto simp: fifo_def insert_row_eq_Some pq_inv_def)

fun no_rebind :: "pq_op \<Rightarrow> bool" where
  "no_rebind (Rebind a b c) = False"
| "no_rebind _ = True"

lemma commit_fifo: "fifo t \<Longrightarrow> (\<And>x t'. r = Inr (x, t') \<Longrightarrow> fifo t') \<Longrightarrow> fifo (commit t r)"
  by (cases r) auto

lemma finish_fifo:
  "finish s p k st ec c t = Inr (item, t') \<Longrightarrow> st \<in> TERMINAL_STATES \<Longrightarrow> fifo t \<Longrightarrow> fifo t'"
  by (elim finish_Inr, unfold fenced_update_def) (auto simp: finished_row_def elim!: fifo_update)

lemma enqueue_fifo:
  "enqueue cfg sha s k p i c t = Inr (res, t') \<Longrightarrow> pq_inv t \<Longrightarrow> fifo t \<Longrightarrow> fifo t'"
  by (erule enqueue_Inr) (auto intro: fifo_inserted simp: new_row_def)

lemma claim_next_fifo:
  assumes "claim_next s w l c tok t = Inr (res, t')" "pq_inv t" "fifo t"
  shows "fifo t'"
proof (cases res)
  case None
  then show ?thesis using assms claim_next_None by blast
next
  case (Some lease)
  then show ?thesis using assms by (blast elim!: claim_next_Some intro: fifo_claimed)
qed

lemma renew_fifo: "renew s p k l c t = Inr (lease, t') \<Longrightarrow> fifo t \<Longrightarrow> fifo t'"
  by (elim renew_Inr, unfold fenced_update_def) (auto simp: renewed_row_def elim!: fifo_update)

lemma mark_execution_started_fifo:
  "mark_execution_started s p k c t = Inr (item, t') \<Longrightarrow> fifo t \<Longrightarrow> fifo t'"
  by (elim mark_execution_started_Inr, unfold fenced_update_def)
    (auto simp: started_row_def elim!: fifo_update)

lemma release_fifo:
  "release s p k c t = Inr (item, t') \<Longrightarrow> pq_inv t \<Longrightarrow> fifo t \<Longrightarrow> fifo t'"
  by (elim release_Inr) (auto intro: fifo_released simp: pq_inv_def)

lemma cancel_fifo: "update_rows P (cancelled_row now) t = Inr t' \<Longrightarrow> fifo t \<Longrightarrow> fifo t'"
  by (erule fifo_update) (auto simp: cancelled_row_def TERMINAL_STATES_def)

lemma delete_pending_fifo: "delete_pending s p c t = Inr (item, t') \<Longrightarrow> fifo t \<Longrightarrow> fifo t'"
  by (elim delete_pending_Inr) (blast intro: cancel_fifo)

lemma cancel_pending_fifo:
  "cancel_pending_for_session s c t = Inr (n, t') \<Longrightarrow> fifo t \<Longrightarrow> fifo t'"
  by (auto simp: cancel_pending_for_session_def res_simps intro: cancel_fifo)

lemmas op_fifo = enqueue_fifo claim_next_fifo renew_fifo mark_execution_started_fifo
  release_fifo delete_pending_fifo cancel_pending_fifo

lemma pq_apply_fifo:
  assumes "no_rebind x" "pq_inv t" "fifo t"
  shows "fifo (pq_apply cfg sha x t)"
proof (cases x)
  case (Complete s p k c)
  then show ?thesis using assms finish_fifo
    by (auto simp: complete_def TERMINAL_STATES_def intro!: commit_fifo)
next
  case (Fail s p k e c)
  then show ?thesis using assms finish_fifo
    by (auto simp: TERMINAL_STATES_def intro!: commit_fifo elim!: fail_prompt_Inr)
next
  case (CancelClaimed s p k c)
  then show ?thesis using assms finish_fifo
    by (auto simp: cancel_claimed_def TERMINAL_STATES_def intro!: commit_fifo)
qed (use assms op_fifo in \<open>auto intro!: commit_fifo\<close>)

interpretation pqf: safe_machine "pq_apply cfg sha" "\<lambda>x. pq_op_ok x \<and> no_rebind x"
    "\<lambda>t. pq_inv t \<and> fifo t" for cfg sha
  by unfold_locales (auto intro: pqm.step_inv pq_apply_fifo)

lemma empty_table_fifo [simp]: "fifo empty_table"
  by (simp add: fifo_def empty_table_def)

section \<open>Progress of claims\<close>

lemma distinct_mapI:
  "distinct xs \<Longrightarrow> (\<And>x y. x \<in> set xs \<Longrightarrow> y \<in> set xs \<Longrightarrow> g x = g y \<Longrightarrow> x = y) \<Longrightarrow> distinct (map g xs)"
  by (auto simp: distinct_map inj_on_def)

lemma map_point_eq:
  "(\<And>x. x \<in> set xs \<Longrightarrow> k (if P x then f x else x) = k x) \<Longrightarrow>
   map k (map (\<lambda>x. if P x then f x else x) xs) = map k xs"
  by auto

text \<open>Starting a row of a session where nothing else runs violates no constraint.\<close>

lemma claimed_constraints:
  assumes ok: "constraints_ok (rows t)" and r: "r \<in> set (rows t)" "session_id r = sid"
    and alone: "\<And>x. x \<in> set (rows t) \<Longrightarrow> session_id x = sid \<Longrightarrow> row_state x = RUNNING \<Longrightarrow> x = r"
  shows "\<exists>t'. update_rows (by_sequence (sequence r)) (claimed_row tok owner sid e now) t = Inr t'"
proof -
  let ?f = "claimed_row tok owner sid e now"
  let ?g = "\<lambda>x. if by_sequence (sequence r) x then ?f x else x"
  have k: "map sequence (map ?g (rows t)) = map sequence (rows t)"
    "map prompt_id (map ?g (rows t)) = map prompt_id (rows t)"
    "map (\<lambda>r. (session_id r, idempotency_key r)) (map ?g (rows t)) =
       map (\<lambda>r. (session_id r, idempotency_key r)) (rows t)"
    by (rule map_point_eq, simp add: claimed_row_def)+
  have one: "x = y" if "x \<in> set (rows t)" "y \<in> set (rows t)" "is_running (?g x)" "is_running (?g y)"
      "session_id (?g x) = session_id (?g y)" for x y
  proof -
    have s: "session_id (?g z) = session_id z" for z by (simp add: claimed_row_def)
    have st: "row_state (?g z) = RUNNING \<Longrightarrow> z \<noteq> r \<Longrightarrow> z \<in> set (rows t) \<Longrightarrow> row_state z = RUNNING" for z
      using by_sequence_unique [OF ok r(1)] by auto
    show ?thesis
      using that s st alone r(2) constraints_running [OF ok that(1,2)]
      by (metis is_running_def)
  qed
  have "list_all row_check (map ?g (rows t))"
    using ok by (auto simp: constraints_ok_def list_all_iff row_check_def claimed_row_def)
  moreover have "distinct (map session_id (filter is_running (map ?g (rows t))))"
  proof -
    have d: "distinct (map sequence (map ?g (rows t)))"
      using ok unfolding k(1) by (simp add: constraints_ok_def)
    have "x = y" if h: "x \<in> ?g ` set (rows t)" "y \<in> ?g ` set (rows t)" "is_running x" "is_running y"
        "session_id x = session_id y" for x y
    proof -
      from h(1,2) obtain a b where ab: "x = ?g a" "a \<in> set (rows t)" "y = ?g b" "b \<in> set (rows t)"
        by (elim imageE)
      have "a = b" using one [OF ab(2,4)] h(3-5) unfolding ab(1,3) by blast
      then show ?thesis using ab by simp
    qed
    then show ?thesis unfolding running_unique_iff [OF d] set_map by blast
  qed
  ultimately have "constraints_ok (map ?g (rows t))"
    using ok k by (simp only: constraints_ok_def)
  then show ?thesis by (simp add: update_rows_def Let_def)
qed

lemma row_item:
  "row_inv r \<Longrightarrow> \<exists>i. item_from_row r None = Inr i \<and> item_prompt_id i = prompt_id r \<and>
     item_state i = row_state r \<and> item_attempts i = attempts r"
  by (auto simp: row_inv_def item_from_row_def item_with_payload_def)

lemma claimed_row_inv:
  "row_inv r \<Longrightarrow> row_inv (claimed_row tok owner sid e now r)"
  by (auto simp: row_inv_def claimed_row_def TERMINAL_STATES_def)

lemma claim_next_commits:
  assumes "pq_inv t" "validate_identifier s ''session'' 256 = Inr sid"
    "validate_identifier w ''owner'' 256 = Inr owner" "validate_lease_seconds l = Inr secs"
    "queue_now c = Inr now"
    and live: "select_first (live_running sid now) t = None"
    and first: "select_first (eligible sid now) t = Some r"
    and alone: "\<And>x. x \<in> set (rows t) \<Longrightarrow> session_id x = sid \<Longrightarrow> row_state x = RUNNING \<Longrightarrow> x = r"
  shows "\<exists>lease t'. claim_next s w l c tok t = Inr (Some lease, t') \<and>
      item_prompt_id (lease_item lease) = prompt_id r \<and> lease_tok lease = tok"
proof -
  let ?f = "claimed_row tok owner sid (now + secs) now"
  have ok: "constraints_ok (rows t)" and r: "r \<in> set (rows t)" "session_id r = sid" "row_inv r"
    using assms(1) select_first_SomeD [OF first] by (auto simp: pq_inv_def eligible_def)
  obtain t' where u: "update_rows (by_sequence (sequence r)) ?f t = Inr t'"
    using claimed_constraints [OF ok r(1,2) alone] by blast
  obtain i where i: "item_from_row (?f r) None = Inr i" "item_prompt_id i = prompt_id (?f r)"
    using row_item [OF claimed_row_inv [OF r(3)]] by blast
  have "reload e (sequence r) t' = Inr (?f r)" for e
    using update_then_reload [OF ok r(1) _ u] by simp
  then show ?thesis
    using assms(2-5) live first u i
    by (simp add: claim_next_def Let_def) (simp add: claimed_row_def)
qed

lemma running_live_or_expired:
  "constraints_ok (rows t) \<Longrightarrow> x \<in> set (rows t) \<Longrightarrow> row_state x = RUNNING \<Longrightarrow>
   lease_expired now x \<noteq> lease_live now x"
  by (cases "lease_expires_at x")
    (auto simp: constraints_ok_def list_all_iff row_check_def lease_expired_def lease_live_def)

lemma fifo_claim_alone:
  assumes "pq_inv t" "fifo t" "select_first (live_running sid now) t = None"
    and "select_first (eligible sid now) t = Some r"
    and x: "x \<in> set (rows t)" "session_id x = sid" "row_state x = RUNNING"
  shows "x = r"
proof -
  have ok: "constraints_ok (rows t)" and r: "r \<in> set (rows t)" "eligible sid now r"
    using assms(1) select_first_SomeD [OF assms(4)] by (auto simp: pq_inv_def)
  have e: "eligible sid now x"
    using running_live_or_expired [OF ok x(1,3), of now] assms(3) x
    by (auto simp: select_first_None live_running_def eligible_def)
  then have "sequence r \<le> sequence x"
    using assms(1) x by (intro select_first_min [OF assms(4)]) (auto simp: pq_inv_def)
  then have "row_state r \<noteq> PENDING"
    using fifoD [OF assms(2) x(1) r(1) x(3)] x(2) r(2) by (auto simp: eligible_def)
  then show ?thesis
    using constraints_running [OF ok x(1) r(1) x(3)] x(2) r(2) by (auto simp: eligible_def)
qed

text \<open>
  C25. Claims make progress in every queue that was never rebound: after any run of the other
  operations, whenever nothing in the session runs under a live lease and some prompt is
  pending or has an expired lease, \<open>claim_next\<close> with valid arguments returns a lease, on the
  oldest such prompt, under the fresh token.
\<close>

theorem claim_progress:
  assumes "list_all (\<lambda>x. pq_op_ok x \<and> no_rebind x) ops"
    and "t = run (pq_apply cfg sha) ops empty_table"
    and "validate_identifier s ''session'' 256 = Inr sid"
    and "validate_identifier w ''owner'' 256 = Inr owner"
    and "validate_lease_seconds l = Inr secs" and "queue_now c = Inr now"
    and "select_first (live_running sid now) t = None"
    and "x \<in> set (rows t)" and "eligible sid now x"
  shows "\<exists>lease t' r. claim_next s w l c tok t = Inr (Some lease, t') \<and>
      select_first (eligible sid now) t = Some r \<and> sequence r \<le> sequence x \<and>
      item_prompt_id (lease_item lease) = prompt_id r \<and> lease_tok lease = tok"
proof -
  have inv: "pq_inv t" "fifo t"
    using pqf.run_inv [OF assms(1), of empty_table cfg sha] assms(2) by auto
  obtain r where r: "select_first (eligible sid now) t = Some r"
    using assms(8,9) by (cases "select_first (eligible sid now) t") (auto simp: select_first_None)
  have "sequence r \<le> sequence x"
    using inv(1) assms(8,9) by (intro select_first_min [OF r]) (auto simp: pq_inv_def)
  moreover note claim_next_commits [OF inv(1) assms(3-7) r fifo_claim_alone [OF inv assms(7) r]]
  ultimately show ?thesis using r by blast
qed

definition sample_ops :: "pq_op list" where
  "sample_ops =
     [Enqueue (PStr ''s'') (PStr ''k1'') sample_payload (PStr ''p1'') (ArgFinite 0),
      Enqueue (PStr ''s'') (PStr ''k2'') sample_payload (PStr ''p2'') (ArgFinite 1)]"

definition sample_queue :: pq_table where
  "sample_queue = run (pq_apply default_config id) sample_ops empty_table"

definition sample_first :: pq_row where
  "sample_first = new_row ''p1'' ''s'' ''k1'' sample_text sample_text 0\<lparr>sequence := 1\<rparr>"

lemma sample_ops_ok: "list_all (\<lambda>x. pq_op_ok x \<and> no_rebind x) sample_ops"
  by code_simp

lemma sample_queue_rows: "rows sample_queue =
    [sample_first, new_row ''p2'' ''s'' ''k2'' sample_text sample_text 1\<lparr>sequence := 2\<rparr>]"
  by code_simp

lemma sample_queue_idle: "select_first (live_running ''s'' 5) sample_queue = None"
  by (simp add: select_first_None sample_queue_rows live_running_def sample_first_def new_row_def)

lemma sample_args:
  "validate_identifier (PStr ''s'') kind 256 = Inr ''s''"
  "validate_identifier (PStr ''w'') kind 256 = Inr ''w''"
  "validate_lease_seconds (ArgFinite 60) = Inr 60" "queue_now (ArgFinite 5) = Inr 5"
  by (simp_all add: validate_identifier_Inr) (code_simp+)

theorem claim_progress_witness:
  "\<exists>lease t' r. claim_next (PStr ''s'') (PStr ''w'') (ArgFinite 60) (ArgFinite 5) ''tok'' sample_queue =
        Inr (Some lease, t') \<and>
      select_first (eligible ''s'' 5) sample_queue = Some r \<and> sequence r \<le> sequence sample_first \<and>
      item_prompt_id (lease_item lease) = prompt_id r \<and> lease_tok lease = ''tok''"
  by (rule claim_progress [OF sample_ops_ok sample_queue_def sample_args sample_queue_idle])
    (auto simp: sample_queue_rows eligible_def sample_first_def new_row_def)

end
