(* ===== verification/PromptQueueLeases.thy ===== *)
theory PromptQueueLeases
  imports PromptQueueProps
begin

text \<open>
  Leases, fencing, idempotent submission, capacity and rebinding: what single operations and
  pairs of operations of the prompt queue guarantee in every state that satisfies \<open>pq_inv\<close>.
\<close>

section \<open>Reachable queues\<close>

text \<open>
  C1. In every queue reached from the empty one the schema's constraints hold (unique prompt ids,
  unique idempotency keys per session, at most one running prompt per session), rows are in
  strictly increasing sequence order, and every row is consistent: a lease exactly when running, a
  terminal time exactly when terminal, an error code only on cancelled or failed prompts, at least
  one attempt once running or started, and a stored payload that decodes to an object.
\<close>

theorem prompt_queue_invariant:
  assumes "list_all pq_op_ok ops" and "t = run (pq_apply cfg sha) ops empty_table"
  shows "constraints_ok (rows t) \<and> sorted_wrt (<) (map sequence (rows t)) \<and>
    list_all row_inv (rows t)"
proof -
  have "pq_inv t" using pqm.run_inv [OF assms(1), of empty_table cfg sha] assms(2) by simp
  then show ?thesis by (simp add: pq_inv_def list_all_iff)
qed

lemma sample_ops_ok': "list_all pq_op_ok sample_ops"
  by code_simp

theorem prompt_queue_invariant_witness:
  "constraints_ok (rows sample_queue) \<and> sorted_wrt (<) (map sequence (rows sample_queue)) \<and>
    list_all row_inv (rows sample_queue)"
  by (rule prompt_queue_invariant [OF sample_ops_ok' sample_queue_def])

text \<open>
  No prompt is lost and history is never rewritten: whatever operations follow, each row is
  still there with its identity, key, payload and creation time; its attempts do not decrease, its
  execution start is never cleared or moved, and a terminal row is not changed at all.
\<close>

theorem prompt_history_kept:
  assumes "list_all pq_op_ok (xs @ ys)"
    and "r \<in> set (rows (run (pq_apply cfg sha) xs empty_table))"
  shows "\<exists>r'\<in>set (rows (run (pq_apply cfg sha) (xs @ ys) empty_table)).
    sequence r' = sequence r \<and> prompt_id r' = prompt_id r \<and> idempotency_key r' = idempotency_key r \<and>
    payload_json r' = payload_json r \<and> created_at r' = created_at r \<and> attempts r \<le> attempts r' \<and>
    (execution_started_at r \<noteq> None \<longrightarrow> execution_started_at r' = execution_started_at r) \<and>
    (row_state r \<in> TERMINAL_STATES \<longrightarrow> r' = r)"
  using pqm.run_stays [OF assms(1) empty_table_inv, of cfg sha] assms(2)
  unfolding table_le_def row_le_def by blast

definition later_ops :: "pq_op list" where
  "later_ops = [ClaimNext (PStr ''s'') (PStr ''w'') (ArgFinite 60) (ArgFinite 5) ''tok1'',
     Complete (PStr ''s'') (PStr ''p1'') (PStr ''tok1'') (ArgFinite 7),
     DeletePending (PStr ''s'') (PStr ''p2'') (ArgFinite 8)]"

theorem prompt_history_kept_witness:
  "\<exists>r'\<in>set (rows (run (pq_apply default_config id) (sample_ops @ later_ops) empty_table)).
    prompt_id r' = ''p1'' \<and> 0 \<le> attempts r'"
proof -
  have "list_all pq_op_ok (sample_ops @ later_ops)" by code_simp
  moreover have "sample_first \<in> set (rows (run (pq_apply default_config id) sample_ops empty_table))"
    using sample_queue_rows by (simp add: sample_queue_def)
  ultimately show ?thesis
    using prompt_history_kept [of sample_ops later_ops sample_first default_config id]
    by (auto simp: sample_first_def new_row_def)
qed

section \<open>Claims, exclusion and fencing\<close>

lemma pq_inv_constraints: "pq_inv t \<Longrightarrow> constraints_ok (rows t)"
  by (simp add: pq_inv_def)

lemma pq_inv_row: "pq_inv t \<Longrightarrow> r \<in> set (rows t) \<Longrightarrow> row_inv r"
  by (simp add: pq_inv_def)

lemma item_from_row_fields:
  assumes "item_from_row r p = Inr i"
  shows "item_prompt_id i = prompt_id r" "item_state i = row_state r"
    "item_session_id i = session_id r" "item_sequence i = sequence r"
proof -
  obtain v where "i = item_with_payload r v"
    using assms by (auto simp: item_from_row_def split: option.splits pyval.splits)
  then show "item_prompt_id i = prompt_id r" "item_state i = row_state r"
      "item_session_id i = session_id r" "item_sequence i = sequence r"
    by (simp_all add: item_with_payload_def)
qed

text \<open>The row a successful claim leaves behind.\<close>

lemma claim_next_row:
  assumes "claim_next s w l c tok t = Inr (Some lease, t')" "pq_inv t"
  obtains sid now r row where "s = PStr sid" "queue_now c = Inr now"
    "validate_identifier s ''session'' 256 = Inr sid"
    "select_first (eligible sid now) t = Some r"
    "select_first (live_running sid now) t = None"
    "row \<in> set (rows t')" "prompt_id row = prompt_id r" "session_id row = sid"
    "row_state row = RUNNING" "lease_token row = Some tok" "lease_session_id row = Some sid"
    "lease_expires_at row = Some (lease_expiry lease)" "attempts row = attempts r + 1"
    "item_prompt_id (lease_item lease) = prompt_id row" "lease_tok lease = tok"
    "execution_started_at row = execution_started_at r" "r \<in> set (rows t)"
  using assms(1)
proof (rule claim_next_Some)
  fix sid owner secs now r r'
  let ?f = "claimed_row tok owner sid (now + secs) now"
  assume a: "s = PStr sid" "w = PStr owner" "validate_lease_seconds l = Inr secs"
    "queue_now c = Inr now" "select_first (live_running sid now) t = None"
    "select_first (eligible sid now) t = Some r"
    "update_rows (by_sequence (sequence r)) ?f t = Inr t'"
    "lease_tok lease = tok" "lease_owner_id lease = Some owner" "lease_expiry lease = now + secs"
    "reload (StorageError ''Could not load claimed prompt.'') (sequence r) t' = Inr r'"
    "item_from_row r' None = Inr (lease_item lease)"
  have v: "validate_identifier s ''session'' 256 = Inr sid"
    using assms(1) a(1) by (auto simp: claim_next_def res_simps validate_identifier_Inr)
  have r: "r \<in> set (rows t)" "session_id r = sid"
    using select_first_SomeD [OF a(6)] by (auto simp: eligible_def)
  have "r' = ?f r"
    using update_then_reload [OF _ r(1) _ a(7), of "StorageError ''Could not load claimed prompt.''"]
      a(11) assms(2) by (simp add: pq_inv_def)
  then have "item_prompt_id (lease_item lease) = prompt_id (?f r)"
    using item_from_row_fields(1) [OF a(12)] by simp
  then show thesis
    using that [of sid now r "?f r"] a v r updated_mem [OF a(7) r(1)] by (simp add: claimed_row_def)
qed

lemma claim_next_keeps_inv:
  assumes "claim_next s w l c tok t = Inr (x, t')" "pq_inv t"
  shows "pq_inv t'"
  using table_steps_inv [OF claim_next_steps [OF assms(1)] assms(2)] pq_inv_constraints assms(2)
  by blast

text \<open>
  A lease excludes others: after a successful claim, no claim for the session hands out
  anything before the lease expires; it reports that nothing is available and leaves the queue
  as it is.
\<close>

theorem lease_excludes_other_claims:
  assumes "pq_inv t" and "claim_next s w l c tok t = Inr (Some lease, t')"
    and "validate_identifier w2 ''owner'' 256 = Inr owner2"
    and "validate_lease_seconds l2 = Inr secs2"
    and "queue_now c2 = Inr now2" and "now2 < lease_expiry lease"
  shows "claim_next s w2 l2 c2 tok2 t' = Inr (None, t')"
proof -
  from assms(2,1) obtain sid row where row: "validate_identifier s ''session'' 256 = Inr sid"
      "row \<in> set (rows t')" "session_id row = sid" "row_state row = RUNNING"
      "lease_expires_at row = Some (lease_expiry lease)"
    by (rule claim_next_row)
  then have "live_running sid now2 row"
    using assms(6) by (simp add: live_running_def lease_live_def)
  then have "select_first (live_running sid now2) t' \<noteq> None"
    using row(2) by (auto simp: select_first_None)
  then show ?thesis
    using assms(3-5) row(1) by (auto simp: claim_next_def Let_def)
qed

lemma fenced_token:
  assumes "fenced_update pid token now f t r t'" "constraints_ok (rows t)"
    and "row \<in> set (rows t)" "prompt_id row = pid"
  shows "lease_token row = Some token"
  using assms constraints_prompt [OF assms(2)] by (auto simp: fenced_update_def)

text \<open>
  C16. Fencing: once a prompt has been claimed under a token, every lease operation on it that
  presents another token fails (renewing, starting, completing, failing, cancelling, releasing),
  whatever session, clock reading or other arguments it uses.
\<close>

theorem stale_tokens_are_fenced:
  assumes "pq_inv t" and "claim_next s w l c tok t = Inr (Some lease, t')"
    and "p = PStr (item_prompt_id (lease_item lease))" and "k \<noteq> PStr tok"
  shows "\<not> is_ok (renew s2 p k l2 c2 t') \<and> \<not> is_ok (mark_execution_started s2 p k c2 t') \<and>
    \<not> is_ok (complete s2 p k c2 t') \<and> \<not> is_ok (fail_prompt s2 p k e c2 t') \<and>
    \<not> is_ok (cancel_claimed s2 p k c2 t') \<and> \<not> is_ok (release s2 p k c2 t')"
proof -
  from assms(2,1) obtain row where row: "row \<in> set (rows t')" "p = PStr (prompt_id row)"
      "lease_token row = Some tok"
    using assms(3) by (auto elim: claim_next_row)
  have ok: "constraints_ok (rows t')"
    using claim_next_keeps_inv [OF assms(2,1)] by (rule pq_inv_constraints)
  have no: "\<not> fenced_update (prompt_id row) token now f t' r t2" if "k = PStr token"
      for token now f r t2
    using fenced_token [OF _ ok row(1)] row(3) assms(4) that by fastforce
  have fin: "\<not> is_ok (finish s2 p k st ec c2 t')" for st ec
    using no row(2) by (force simp: is_ok_iff elim!: finish_Inr)
  show ?thesis
    using no row(2) fin
    by (auto simp: is_ok_iff complete_def cancel_claimed_def
        elim!: renew_Inr mark_execution_started_Inr release_Inr fail_prompt_Inr)
qed

text \<open>A claimed sample queue, for concrete instances.\<close>

lemma sample_queue_inv: "pq_inv sample_queue"
  unfolding sample_queue_def using pqm.run_inv [OF sample_ops_ok' empty_table_inv] .

definition sample_claimed :: pq_table where
  "sample_claimed = commit sample_queue
     (claim_next (PStr ''s'') (PStr ''w'') (ArgFinite 60) (ArgFinite 5) ''tok1'' sample_queue)"

definition sample_item :: pq_item where
  "sample_item = item_with_payload
     (claimed_row ''tok1'' ''w'' ''s'' 65 5 sample_first) (json_sort sample_payload2)"

definition sample_lease :: pq_lease where
  "sample_lease = \<lparr>lease_item = sample_item, lease_tok = ''tok1'', lease_owner_id = Some ''w'',
     lease_expiry = 65\<rparr>"

lemma sample_claim:
  "claim_next (PStr ''s'') (PStr ''w'') (ArgFinite 60) (ArgFinite 5) ''tok1'' sample_queue =
     Inr (Some sample_lease, sample_claimed)"
  by code_simp

theorem lease_excludes_other_claims_witness:
  "claim_next (PStr ''s'') (PStr ''w'') (ArgFinite 60) (ArgFinite 5) ''tok2'' sample_claimed =
     Inr (None, sample_claimed)"
  by (rule lease_excludes_other_claims [OF sample_queue_inv sample_claim sample_args(2-4)])
    (simp add: sample_lease_def)

theorem stale_tokens_are_fenced_witness:
  "\<not> is_ok (complete (PStr ''s'') (PStr ''p1'') (PStr ''tok0'') (ArgFinite 6) sample_claimed)"
  using stale_tokens_are_fenced [OF sample_queue_inv sample_claim, of "PStr ''p1''" "PStr ''tok0''"]
  by (auto simp: sample_lease_def sample_item_def item_with_payload_def claimed_row_def
      sample_first_def new_row_def)

section \<open>Finishing and starting\<close>

lemma fence_passes:
  assumes "constraints_ok (rows t)" "row \<in> set (rows t)" "row_state row = RUNNING"
    "lease_token row = Some token" "lease_live now row"
    "session_id row = sid \<or> lease_session_id row = Some sid"
  shows "require_live_lease sid (prompt_id row) token now t = Inr row"
  using assms select_prompt [OF assms(1,2)] by (auto simp: require_live_lease_def)

text \<open>An update of one row that keeps keys and leaves the running state violates no constraint.\<close>

lemma point_update_ok:
  assumes ok: "constraints_ok (rows t)" and r: "r \<in> set (rows t)"
    and keep: "\<And>x. sequence (f x) = sequence x \<and> prompt_id (f x) = prompt_id x \<and>
      session_id (f x) = session_id x \<and> idempotency_key (f x) = idempotency_key x"
    and f: "row_check (f r)" "row_state (f r) = RUNNING \<longrightarrow> row_state r = RUNNING"
  shows "\<exists>t'. update_rows (by_sequence (sequence r)) f t = Inr t'"
proof -
  let ?g = "\<lambda>x. if by_sequence (sequence r) x then f x else x"
  have k: "map sequence (map ?g (rows t)) = map sequence (rows t)"
    "map prompt_id (map ?g (rows t)) = map prompt_id (rows t)"
    "map (\<lambda>r. (session_id r, idempotency_key r)) (map ?g (rows t)) =
       map (\<lambda>r. (session_id r, idempotency_key r)) (rows t)"
    by (rule map_point_eq, simp add: keep)+
  have d: "distinct (map sequence (map ?g (rows t)))"
    using ok unfolding k(1) by (simp add: constraints_ok_def)
  have run: "is_running x" if "is_running (?g x)" "x \<in> set (rows t)" for x
    using that f(2) by_sequence_unique [OF ok r that(2)] by (auto simp: is_running_def split: if_splits)
  have ses: "session_id (?g x) = session_id x" for x using keep by simp
  have "x = y" if h: "x \<in> ?g ` set (rows t)" "y \<in> ?g ` set (rows t)" "is_running x" "is_running y"
      "session_id x = session_id y" for x y
  proof -
    from h(1,2) obtain a b where ab: "x = ?g a" "a \<in> set (rows t)" "y = ?g b" "b \<in> set (rows t)"
      by (elim imageE)
    have "is_running a" "is_running b" "session_id a = session_id b"
      using run h(3-5) ses ab by metis+
    then have "a = b"
      using constraints_running [OF ok ab(2,4)] by (simp add: is_running_def)
    then show ?thesis using ab by simp
  qed
  then have "distinct (map session_id (filter is_running (map ?g (rows t))))"
    unfolding running_unique_iff [OF d] set_map by blast
  moreover have "list_all row_check (map ?g (rows t))"
    using ok f(1) by_sequence_unique [OF ok r] by (auto simp: constraints_ok_def list_all_iff)
  ultimately have "constraints_ok (map ?g (rows t))"
    using ok k by (simp only: constraints_ok_def)
  then show ?thesis by (simp add: update_rows_def Let_def)
qed

text \<open>
  The holder of a live lease can always finish: completing with the lease's own session,
  prompt and token before the expiry succeeds, the prompt is then completed with no lease, no
  other row changes, and every later lease operation on it is refused.
\<close>

theorem holder_completes:
  assumes "pq_inv t" and "row \<in> set (rows t)" and "row_state row = RUNNING"
    and "lease_token row = Some token" and "lease_session_id row = Some sid"
    and "lease_live now row" and "queue_now c = Inr now"
    and "validate_lease_identifiers s p k = Inr (sid, prompt_id row, token)"
  shows "\<exists>item t'. complete s p k c t = Inr (item, t') \<and>
    item_prompt_id item = prompt_id row \<and> item_state item = COMPLETED \<and>
    (\<forall>x. x \<in> set (rows t') \<longleftrightarrow> x = finished_row COMPLETED None now row \<or> x \<in> set (rows t) \<and> x \<noteq> row) \<and>
    \<not> is_ok (renew s p k l2 c2 t') \<and> \<not> is_ok (mark_execution_started s p k c2 t') \<and>
    \<not> is_ok (fail_prompt s p k e c2 t') \<and> \<not> is_ok (release s p k c2 t')"
proof -
  let ?f = "finished_row COMPLETED None now"
  note ok = pq_inv_constraints [OF assms(1)]
  have fence: "require_live_lease sid (prompt_id row) token now t = Inr row"
    using assms(2-6) by (intro fence_passes [OF ok]) auto
  obtain t' where u: "update_rows (by_sequence (sequence row)) ?f t = Inr t'"
    using ok assms(2) point_update_ok [of t row ?f]
    by (auto simp: finished_row_def row_check_def constraints_ok_def list_all_iff)
  have "row_inv (?f row)"
    using row_step_inv [OF row_step.finished] pq_inv_row [OF assms(1,2)] assms(3,6)
    by (auto simp: TERMINAL_STATES_def)
  then obtain i where i: "item_from_row (?f row) None = Inr i" "item_prompt_id i = prompt_id row"
      "item_state i = COMPLETED"
    using row_item by (fastforce simp: finished_row_def)
  have step: "complete s p k c t = Inr (i, t')"
    using assms(7,8) fence u i update_then_reload [OF ok assms(2) _ u, of AssertionFailed]
    by (simp add: complete_def finish_def)
  have ok': "constraints_ok (rows t')" using u by (simp add: update_rows_eq_Inr)
  have mem: "?f row \<in> set (rows t')" using updated_mem [OF u assms(2)] .
  have p: "p = PStr (prompt_id row)"
    using assms(8) by (auto simp: validate_lease_identifiers_Inr validate_identifier_Inr)
  have no: "\<not> fenced_update (prompt_id row) token' now' g t' r t2" for token' now' g r t2
    using fenced_token [OF _ ok' mem] by (fastforce simp: finished_row_def)
  have "\<not> is_ok (finish s p k st ec c2 t')" for st ec
    using no p by (force simp: is_ok_iff elim!: finish_Inr)
  then show ?thesis
    using step i p no point_rows [OF u ok assms(2)]
    by (auto simp: is_ok_iff elim!: renew_Inr mark_execution_started_Inr release_Inr fail_prompt_Inr)
qed

lemma sample_running:
  "claimed_row ''tok1'' ''w'' ''s'' 65 5 sample_first \<in> set (rows sample_claimed)"
  by code_simp

lemma sample_claimed_inv: "pq_inv sample_claimed"
  using claim_next_keeps_inv [OF sample_claim sample_queue_inv] .

theorem holder_completes_witness:
  "\<exists>item t'. complete (PStr ''s'') (PStr ''p1'') (PStr ''tok1'') (ArgFinite 5) sample_claimed =
       Inr (item, t') \<and> item_state item = COMPLETED"
proof -
  have "validate_lease_identifiers (PStr ''s'') (PStr ''p1'') (PStr ''tok1'') =
      Inr (''s'', prompt_id (claimed_row ''tok1'' ''w'' ''s'' 65 5 sample_first), ''tok1'')"
    by (simp add: validate_lease_identifiers_Inr validate_identifier_Inr claimed_row_def
        sample_first_def new_row_def) code_simp
  then show ?thesis
    using holder_completes [OF sample_claimed_inv sample_running, of "''tok1''" "''s''" 5 "ArgFinite 5"]
      sample_args(4)
    by (fastforce simp: claimed_row_def lease_live_def)
qed

text \<open>
  Execution of a prompt starts at most once: after \<open>mark_execution_started\<close> has succeeded for a
  prompt id, no later \<open>mark_execution_started\<close> for it succeeds, under any lease and after any
  operations, not even when the lease expired and the prompt was claimed again.
\<close>

theorem execution_starts_once:
  assumes "pq_inv t" and "mark_execution_started s p k c t = Inr (item, t')"
    and "list_all pq_op_ok ops"
  shows "\<not> is_ok (mark_execution_started s2 p k2 c2 (run (pq_apply cfg sha) ops t'))"
proof -
  let ?u = "run (pq_apply cfg sha) ops t'"
  obtain pid token now r where r: "p = PStr pid"
      "fenced_update pid token now (started_row now) t r t'"
    using assms(2) by (elim mark_execution_started_Inr)
  have inv: "pq_inv t'"
    using table_steps_inv [OF mark_execution_started_steps [OF assms(2)] assms(1)]
      pq_inv_constraints [OF assms(1)] .
  have "started_row now r \<in> set (rows t')"
    using r(2) by (auto simp: fenced_update_def intro: updated_mem)
  then obtain r' where r': "r' \<in> set (rows ?u)" "row_le (started_row now r) r'"
    using pqm.run_le [OF assms(3) inv, of cfg sha] by (auto simp: table_le_def)
  then have already: "prompt_id r' = pid" "execution_started_at r' \<noteq> None"
    using r(2) by (auto simp: row_le_def started_row_def fenced_update_def)
  have ok: "constraints_ok (rows ?u)"
    using pqm.run_inv [OF assms(3) inv] by (rule pq_inv_constraints)
  have "False" if "mark_execution_started s2 p k2 c2 ?u = Inr (i, u')" for i u'
    using that
  proof (rule mark_execution_started_Inr)
    fix pid' token' now' x
    assume "p = PStr pid'" "fenced_update pid' token' now' (started_row now') ?u x u'"
      "execution_started_at x = None"
    then show False
      using constraints_prompt [OF ok _ r'(1), of x] already r(1) by (auto simp: fenced_update_def)
  qed
  then show ?thesis by (auto simp: is_ok_iff)
qed

theorem execution_starts_once_witness:
  "\<not> is_ok (mark_execution_started (PStr ''s'') (PStr ''p1'') (PStr ''tok9'') (ArgFinite 90)
     (run (pq_apply default_config id)
       [ClaimNext (PStr ''s'') (PStr ''w'') (ArgFinite 60) (ArgFinite 80) ''tok9'']
       (commit sample_claimed (mark_execution_started (PStr ''s'') (PStr ''p1'') (PStr ''tok1'')
          (ArgFinite 6) sample_claimed))))"
proof -
  have "is_ok (mark_execution_started (PStr ''s'') (PStr ''p1'') (PStr ''tok1'') (ArgFinite 6) sample_claimed)"
    by code_simp
  then obtain item t' where m: "mark_execution_started (PStr ''s'') (PStr ''p1'') (PStr ''tok1'')
      (ArgFinite 6) sample_claimed = Inr (item, t')"
    by (auto simp: is_ok_iff)
  show ?thesis
    unfolding m commit_simps by (rule execution_starts_once [OF sample_claimed_inv m]) simp
qed

end
