(* ===== verification/PromptQueueSessions.thy ===== *)
theory PromptQueueSessions
  imports PromptQueueLeases
begin

text \<open>
  Submission and rebinding: idempotency keys, the capacity limit, and what
  \<open>rebind_recoverable\<close> does to the two sessions it joins.
\<close>

section \<open>Submitting prompts\<close>

text \<open>
  Submission is idempotent: when a session already has a prompt with the idempotency key, the
  queue does not change; the caller gets that prompt back, marked as not created, if the payload
  has the stored digest, and an idempotency conflict otherwise.
\<close>

theorem enqueue_is_idempotent:
  assumes "pq_inv t" and "r \<in> set (rows t)" and "same_key sid ikey r"
    and "validate_identifier s ''session'' 256 = Inr sid"
    and "validate_identifier k ''idempotency'' 256 = Inr ikey"
    and "serialize_payload cfg p = Inr (body, v)"
  shows "\<exists>i. item_prompt_id i = prompt_id r \<and> item_state i = row_state r \<and>
    enqueue cfg sha s k p new_id c t =
      (if sha body = payload_sha256 r then Inr (\<lparr>res_item = i, res_created = False\<rparr>, t)
       else Inl (IdempotencyConflict ''Idempotency key was already used for a different prompt.''))"
proof -
  have "select_first (same_key sid ikey) t = Some r"
    using select_unique [of "\<lambda>r. (session_id r, idempotency_key r)" t r] assms(1-3)
    by (simp add: same_key_def [abs_def] pq_inv_def constraints_ok_def)
  moreover obtain i where "item_from_row r None = Inr i" "item_prompt_id i = prompt_id r"
      "item_state i = row_state r"
    using row_item [of r] assms(1,2) by (auto simp: pq_inv_def)
  ultimately show ?thesis
    using assms(4-6) by (auto simp: enqueue_def existing_result_def Let_def)
qed

theorem enqueue_is_idempotent_witness:
  "\<exists>i. item_prompt_id i = ''p1'' \<and> item_state i = PENDING \<and>
    enqueue default_config id (PStr ''s'') (PStr ''k1'') sample_payload2 (PStr ''p9'') (ArgFinite 9)
      sample_queue = Inr (\<lparr>res_item = i, res_created = False\<rparr>, sample_queue)"
proof -
  have inv: "pq_inv sample_queue"
    unfolding sample_queue_def by (rule pqm.run_inv [OF _ empty_table_inv]) code_simp
  have mem: "sample_first \<in> set (rows sample_queue)" by (simp add: sample_queue_rows)
  have key: "same_key ''s'' ''k1'' sample_first"
    by (simp add: same_key_def sample_first_def new_row_def)
  have ids: "validate_identifier (PStr ''s'') ''session'' 256 = Inr ''s''"
    "validate_identifier (PStr ''k1'') ''idempotency'' 256 = Inr ''k1''"
    by code_simp+
  from enqueue_is_idempotent [OF inv mem key ids sample_serialized(2), of id "PStr ''p9''" "ArgFinite 9"]
  show ?thesis by (simp add: sample_first_def new_row_def)
qed

text \<open>
  Submitting a new prompt appends one pending row at the end of the queue, with a fresh
  sequence number and no attempts, changes no other row, and only while fewer than the configured
  number of prompts of the session are pending or running; so it never exceeds that limit.
\<close>

theorem enqueue_appends_within_capacity:
  assumes "enqueue cfg sha s k p i c t = Inr (res, t')" and "res_created res" and "pq_inv t"
  shows "\<exists>r sid. s = PStr sid \<and> rows t' = rows t @ [r] \<and> session_id r = sid \<and>
    row_state r = PENDING \<and> attempts r = 0 \<and> lease_token r = None \<and>
    k = PStr (idempotency_key r) \<and> i = PStr (prompt_id r) \<and>
    payload_sha256 r = sha (payload_json r) \<and> (\<forall>x\<in>set (rows t). sequence x < sequence r) \<and>
    count_rows (outstanding sid) t' = count_rows (outstanding sid) t + 1 \<and>
    count_rows (outstanding sid) t' \<le> max_outstanding_per_session cfg"
  using assms(1)
proof (cases rule: enqueue_Inr)
  case (created sid ikey pid now body v)
  then show ?thesis
    using assms(3)
    by (auto simp: insert_row_eq_Some new_row_def count_rows_def outstanding_def pq_inv_def)
qed (use assms(2) in simp)

theorem enqueue_appends_within_capacity_witness:
  "\<exists>r. rows sample_queue = rows (run (pq_apply default_config id) [hd sample_ops] empty_table) @ [r] \<and>
    row_state r = PENDING \<and> count_rows (outstanding ''s'') sample_queue \<le> 100"
proof -
  let ?t = "run (pq_apply default_config id) [hd sample_ops] empty_table"
  let ?e = "enqueue default_config id (PStr ''s'') (PStr ''k2'') sample_payload (PStr ''p2'')
     (ArgFinite 1) ?t"
  have inv: "pq_inv ?t" by (rule pqm.run_inv [OF _ empty_table_inv]) code_simp
  have "(case ?e of Inl _ \<Rightarrow> False | Inr (res, t') \<Rightarrow> res_created res)" by code_simp
  then obtain res t' where e: "?e = Inr (res, t')" "res_created res"
    by (auto split: sum.splits)
  moreover have "sample_queue = t'"
    using e(1) by (simp add: sample_queue_def sample_ops_def)
  ultimately show ?thesis
    using enqueue_appends_within_capacity [OF e inv] by (auto simp: default_config_def)
qed

text \<open>
  A full session refuses new prompts: with at least the configured number of outstanding
  prompts and an unused key, submission raises the capacity error and changes nothing.
\<close>

theorem enqueue_refuses_when_full:
  assumes "validate_identifier s ''session'' 256 = Inr sid"
    and "validate_identifier k ''idempotency'' 256 = Inr ikey"
    and "serialize_payload cfg p = Inr (body, v)"
    and "\<forall>r\<in>set (rows t). \<not> same_key sid ikey r"
    and "max_outstanding_per_session cfg \<le> count_rows (outstanding sid) t"
  shows "enqueue cfg sha s k p i c t = Inl (CapacityError ''Session prompt queue is full.'') \<and>
    pq_apply cfg sha (Enqueue s k p i c) t = t"
proof -
  have "select_first (same_key sid ikey) t = None" using assms(4) by (simp add: select_first_None)
  then show ?thesis using assms by (simp add: enqueue_def Let_def)
qed

theorem enqueue_refuses_when_full_witness:
  "enqueue (default_config\<lparr>max_outstanding_per_session := 2\<rparr>) id (PStr ''s'') (PStr ''k3'')
     sample_payload (PStr ''p3'') (ArgFinite 3) sample_queue =
     Inl (CapacityError ''Session prompt queue is full.'')"
proof -
  let ?cfg = "default_config\<lparr>max_outstanding_per_session := 2\<rparr>"
  have ids: "validate_identifier (PStr ''s'') ''session'' 256 = Inr ''s''"
    "validate_identifier (PStr ''k3'') ''idempotency'' 256 = Inr ''k3''"
    by code_simp+
  have "is_ok (serialize_payload ?cfg sample_payload)" by code_simp
  then obtain body v where pl: "serialize_payload ?cfg sample_payload = Inr (body, v)"
    by (auto simp: is_ok_iff)
  have "\<forall>r\<in>set (rows sample_queue). \<not> same_key ''s'' ''k3'' r"
    by (simp add: sample_queue_rows same_key_def sample_first_def new_row_def)
  moreover have "max_outstanding_per_session ?cfg \<le> count_rows (outstanding ''s'') sample_queue"
    by (simp add: sample_queue_rows count_rows_def outstanding_def sample_first_def new_row_def)
  ultimately show ?thesis
    using enqueue_refuses_when_full [OF ids pl] by blast
qed

section \<open>Rebinding a session\<close>

text \<open>The three UPDATE statements, as one function of a row.\<close>

definition rebind_row :: "string \<Rightarrow> string \<Rightarrow> rat \<Rightarrow> pq_row \<Rightarrow> pq_row" where
  "rebind_row source target now r =
     (if session_id r \<noteq> source then r
      else if row_state r = PENDING then moved_row target now r
      else if row_state r = RUNNING
      then (if lease_expired now r then recovered_row target now r else moved_row target now r)
      else r)"

lemmas session_defs = pending_in_def expired_running_def live_running_def running_in_def
  outstanding_def moved_row_def recovered_row_def lease_expired_def lease_live_def

definition after_pending :: "string \<Rightarrow> string \<Rightarrow> rat \<Rightarrow> pq_row \<Rightarrow> pq_row" where
  "after_pending source target now r =
     (if pending_in source r then moved_row target now r else r)"

definition after_expired :: "string \<Rightarrow> string \<Rightarrow> rat \<Rightarrow> pq_row \<Rightarrow> pq_row" where
  "after_expired source target now r =
     (let a = after_pending source target now r in
      if expired_running source now a then recovered_row target now a else a)"

lemma rebind_row_steps:
  assumes "row_state r = RUNNING \<longrightarrow> lease_expires_at r \<noteq> None" "source \<noteq> target"
  shows "rebind_row source target now r =
      (let b = after_expired source target now r in
       if live_running source now b then moved_row target now b else b)"
    and "of_bool (pending_in source r) + of_bool (expired_running source now (after_pending source target now r)) +
       of_bool (live_running source now (after_expired source target now r)) =
       (of_bool (outstanding source r) :: int)"
  using assms
  by (cases "session_id r = source"; cases "row_state r"; cases "lease_expires_at r";
      simp add: session_defs after_pending_def after_expired_def rebind_row_def Let_def; fail)+

lemma running_has_expiry:
  "constraints_ok (rows t) \<Longrightarrow> r \<in> set (rows t) \<Longrightarrow>
   row_state r = RUNNING \<longrightarrow> lease_expires_at r \<noteq> None"
  by (auto simp: constraints_ok_def list_all_iff row_check_def)

lemma rebind_tables:
  assumes "update_rows (pending_in source) (moved_row target now) t = Inr t1"
    and "update_rows (expired_running source now) (recovered_row target now) t1 = Inr t2"
  shows "rows t1 = map (after_pending source target now) (rows t)"
    "rows t2 = map (after_expired source target now) (rows t)"
  using assms by (simp_all add: update_rows_eq_Inr after_pending_def after_expired_def o_def Let_def)

lemma rebind_rows:
  assumes "constraints_ok (rows t)" "source \<noteq> target"
    and u1: "update_rows (pending_in source) (moved_row target now) t = Inr t1"
    and u2: "update_rows (expired_running source now) (recovered_row target now) t1 = Inr t2"
    and u3: "update_rows (live_running source now) (moved_row target now) t2 = Inr t'"
  shows "rows t' = map (rebind_row source target now) (rows t)"
proof -
  have "rows t' = map (\<lambda>r. let b = after_expired source target now r in
       if live_running source now b then moved_row target now b else b) (rows t)"
    using u3 rebind_tables [OF u1 u2] by (simp add: update_rows_eq_Inr o_def Let_def)
  also have "\<dots> = map (rebind_row source target now) (rows t)"
    using rebind_row_steps(1) [OF running_has_expiry [OF assms(1)] assms(2)]
    by (intro map_cong refl) simp
  finally show ?thesis .
qed

lemma count_as_sum: "int (length (filter P (map f xs))) = (\<Sum>x\<leftarrow>xs. of_bool (P (f x)))"
  by (induction xs) auto

lemma rebind_counts_sum:
  assumes "constraints_ok (rows t)" "source \<noteq> target"
    and u1: "update_rows (pending_in source) (moved_row target now) t = Inr t1"
    and u2: "update_rows (expired_running source now) (recovered_row target now) t1 = Inr t2"
  shows "count_rows (pending_in source) t + count_rows (expired_running source now) t1 +
     count_rows (live_running source now) t2 = count_rows (outstanding source) t"
proof -
  have "(\<Sum>r\<leftarrow>rows t. of_bool (pending_in source r) +
       of_bool (expired_running source now (after_pending source target now r)) +
       of_bool (live_running source now (after_expired source target now r)) :: int) =
     (\<Sum>r\<leftarrow>rows t. of_bool (outstanding source r))"
    using rebind_row_steps(2) [OF running_has_expiry [OF assms(1)] assms(2)]
    by (intro arg_cong [of _ _ sum_list] map_cong refl) blast
  then show ?thesis
    using count_as_sum [of _ "\<lambda>r. r" "rows t"]
    by (simp add: count_rows_def rebind_tables [OF u1 u2] count_as_sum sum_list_addf
        del: filter_map length_map)
qed

text \<open>
  Rebinding moves everything recoverable and nothing else: every pending and running prompt
  of the source session ends in the target session (running prompts with an expired lease become
  pending without a lease, live ones stay running), no outstanding prompt is left in the source,
  terminal prompts and other sessions' prompts are untouched, and the reported counts add up to
  the number of outstanding prompts of the source.
\<close>

theorem rebind_moves_outstanding:
  assumes "pq_inv t" and "rebind_recoverable a b c t = Inr (counts, t')" and "a \<noteq> b"
  shows "\<exists>source target now. a = PStr source \<and> b = PStr target \<and> queue_now c = Inr now \<and>
    rows t' = map (rebind_row source target now) (rows t) \<and>
    (\<forall>r\<in>set (rows t'). \<not> outstanding source r) \<and>
    rb_pending counts + rb_recovered counts + rb_active counts = count_rows (outstanding source) t"
  using assms(2)
proof (cases rule: rebind_Inr)
  case (moved source target now t1 t2)
  have ok: "constraints_ok (rows t)" using assms(1) by (simp add: pq_inv_def)
  have rows': "rows t' = map (rebind_row source target now) (rows t)"
    using rebind_rows [OF ok moved(3) moved(7-9)] .
  have "\<not> outstanding source (rebind_row source target now r)" for r
    using moved(3) by (auto simp: outstanding_def rebind_row_def moved_row_def recovered_row_def)
  then have "\<forall>r\<in>set (rows t'). \<not> outstanding source r" using rows' by auto
  moreover have "rb_pending counts + rb_recovered counts + rb_active counts =
      count_rows (outstanding source) t"
    using moved(10) rebind_counts_sum [OF ok moved(3) moved(7,8)] by (simp add: count_rows_def)
  ultimately show ?thesis using moved rows' by blast
qed (use assms(3) in simp)

definition sample_rebound :: "pq_error + rebind_counts \<times> pq_table" where
  "sample_rebound = rebind_recoverable (PStr ''s'') (PStr ''u'') (ArgFinite 6) sample_claimed"

lemma sample_rebound_ok: "is_ok sample_rebound"
  by code_simp

theorem rebind_moves_outstanding_witness:
  "\<exists>counts t'. rebind_recoverable (PStr ''s'') (PStr ''u'') (ArgFinite 6) sample_claimed = Inr (counts, t') \<and>
    (\<forall>r\<in>set (rows t'). \<not> outstanding ''s'' r) \<and>
    rb_pending counts + rb_recovered counts + rb_active counts = count_rows (outstanding ''s'') sample_claimed"
proof -
  obtain counts t' where u: "rebind_recoverable (PStr ''s'') (PStr ''u'') (ArgFinite 6) sample_claimed =
      Inr (counts, t')"
    using sample_rebound_ok by (auto simp: is_ok_iff sample_rebound_def)
  show ?thesis using rebind_moves_outstanding [OF sample_claimed_inv u] u by auto
qed

text \<open>
  Rebinding does not break a running worker: a holder that passes the lease fence under the
  session it claimed in still passes it after the source session was rebound, as long as its lease
  is live, now for the prompt in the target session.
\<close>

theorem rebind_keeps_live_fence:
  assumes "pq_inv t" and "rebind_recoverable a b c t = Inr (counts, t')"
    and "queue_now c = Inr now" and "now \<le> now'"
    and "require_live_lease sid pid token now' t = Inr r" and "lease_session_id r = Some sid"
  shows "\<exists>r'. require_live_lease sid pid token now' t' = Inr r' \<and>
    sequence r' = sequence r \<and> lease_expires_at r' = lease_expires_at r \<and> row_state r' = RUNNING"
  using assms(2)
proof (cases rule: rebind_Inr)
  case same
  then show ?thesis using assms(5) by (auto dest: require_live_lease_Inr)
next
  case (moved source target n t1 t2)
  have ok: "constraints_ok (rows t)" using assms(1) by (simp add: pq_inv_def)
  have n: "n = now" using moved(4) assms(3) by simp
  note r = require_live_lease_Inr [OF assms(5)]
  let ?r = "rebind_row source target now r"
  have live: "lease_live now' r" "\<not> lease_expired now r"
    using r assms(4) by (auto simp: lease_live_def lease_expired_def split: option.splits)
  have r': "?r = r \<or> ?r = moved_row target now r"
    using r live by (auto simp: rebind_row_def)
  have "rows t' = map (rebind_row source target now) (rows t)"
    using rebind_rows [OF ok moved(3) moved(7-9)] n by simp
  then have mem: "?r \<in> set (rows t')" using r by auto
  have ok': "constraints_ok (rows t')" using moved(9) by (simp add: update_rows_eq_Inr)
  have "require_live_lease sid (prompt_id ?r) token now' t' = Inr ?r"
    using r' r live(1) assms(6) select_prompt [OF ok' mem]
    by (auto simp: require_live_lease_def moved_row_def lease_live_def)
  then show ?thesis using r' r by (auto simp: moved_row_def)
qed

theorem rebind_keeps_live_fence_witness:
  "\<exists>counts t' r'. sample_rebound = Inr (counts, t') \<and>
    require_live_lease ''s'' ''p1'' ''tok1'' 7 t' = Inr r' \<and> row_state r' = RUNNING"
proof -
  obtain counts t' where u: "rebind_recoverable (PStr ''s'') (PStr ''u'') (ArgFinite 6) sample_claimed =
      Inr (counts, t')"
    using sample_rebound_ok by (auto simp: is_ok_iff sample_rebound_def)
  let ?r = "claimed_row ''tok1'' ''w'' ''s'' 65 5 sample_first"
  have f: "require_live_lease ''s'' ''p1'' ''tok1'' 7 sample_claimed = Inr ?r"
    using fence_passes [OF pq_inv_constraints [OF sample_claimed_inv] sample_running]
    by (simp add: claimed_row_def sample_first_def new_row_def lease_live_def)
  have "queue_now (ArgFinite 6) = Inr 6" by code_simp
  from rebind_keeps_live_fence [OF sample_claimed_inv u this _ f] u show ?thesis
    by (auto simp: sample_rebound_def claimed_row_def)
qed

text \<open>
  After a rebind the target session can hold an older pending prompt beside a running prompt
  whose lease expired. The table below is such a queue: session \<open>a\<close> submitted \<open>p1\<close>, session \<open>b\<close>
  submitted \<open>p2\<close> and claimed it until time 1, and \<open>a\<close> was rebound to \<open>b\<close> at time 5.
\<close>

definition blocked_ops :: "pq_op list" where
  "blocked_ops =
     [Enqueue (PStr ''a'') (PStr ''k1'') sample_payload (PStr ''p1'') (ArgFinite 0),
      Enqueue (PStr ''b'') (PStr ''k2'') sample_payload (PStr ''p2'') (ArgFinite 0),
      ClaimNext (PStr ''b'') (PStr ''w'') (ArgFinite 1) (ArgFinite 0) ''tok1'',
      Rebind (PStr ''a'') (PStr ''b'') (ArgFinite 5)]"

definition blocked_queue :: pq_table where
  "blocked_queue = run (pq_apply default_config id) blocked_ops empty_table"

lemma blocked_rows: "rows blocked_queue =
    [moved_row ''b'' 5 (new_row ''p1'' ''a'' ''k1'' sample_text sample_text 0\<lparr>sequence := 1\<rparr>),
     claimed_row ''tok1'' ''w'' ''b'' 1 0
       (new_row ''p2'' ''b'' ''k2'' sample_text sample_text 0\<lparr>sequence := 2\<rparr>)]"
  by code_simp

lemmas blocked_defs = blocked_rows moved_row_def claimed_row_def new_row_def

text \<open>
  C33. In that queue the session is stuck: at every later time both prompts are reported
  reclaimable, yet every claim for the session fails with a storage error, because it picks the
  older pending prompt and starting it would give the session two running rows.
\<close>

theorem claim_blocked_after_rebind:
  assumes "validate_identifier w ''owner'' 256 = Inr owner"
    and "validate_lease_seconds l = Inr secs" and "queue_now c = Inr now" and "1 \<le> now"
  shows "is_reclaimable (PStr ''b'') (PStr ''p1'') c blocked_queue = Inr True \<and>
    is_reclaimable (PStr ''b'') (PStr ''p2'') c blocked_queue = Inr True \<and>
    claim_next (PStr ''b'') w l c tok blocked_queue = Inl (StorageError ''Prompt queue operation failed.'')"
proof -
  have ids: "validate_identifier (PStr ''b'') kind 256 = Inr ''b''"
    "validate_identifier (PStr ''p1'') kind 256 = Inr ''p1''"
    "validate_identifier (PStr ''p2'') kind 256 = Inr ''p2''" for kind
    by (simp_all add: validate_identifier_Inr) (code_simp+)
  have "select_first (live_running ''b'' now) blocked_queue = None"
    using assms(4) by (simp add: select_first_None blocked_defs live_running_def lease_live_def)
  moreover have "select_first (eligible ''b'' now) blocked_queue = Some (hd (rows blocked_queue))"
    by (simp add: select_first_def blocked_defs eligible_def)
  moreover have "update_rows (by_sequence (sequence (hd (rows blocked_queue))))
      (claimed_row tok owner ''b'' (now + secs) now) blocked_queue =
      Inl (StorageError ''Prompt queue operation failed.'')"
    by (simp add: update_rows_def Let_def constraints_ok_def by_sequence_def is_running_def blocked_defs)
  ultimately have "claim_next (PStr ''b'') w l c tok blocked_queue =
      Inl (StorageError ''Prompt queue operation failed.'')"
    using assms ids by (simp add: claim_next_def Let_def)
  then show ?thesis
    using assms(3,4) ids
    by (simp add: is_reclaimable_def select_first_def by_session_prompt_def lease_expired_def blocked_defs)
qed

theorem claim_blocked_after_rebind_witness:
  "is_reclaimable (PStr ''b'') (PStr ''p1'') (ArgFinite 5) blocked_queue = Inr True \<and>
   claim_next (PStr ''b'') (PStr ''w'') (ArgFinite 60) (ArgFinite 5) ''tok2'' blocked_queue =
     Inl (StorageError ''Prompt queue operation failed.'')"
  using claim_blocked_after_rebind [OF sample_args(2-4), of "''tok2''"] by simp

end
