(* ===== verification/JsonRpc.thy ===== *)
theory JsonRpc
  imports PyJson
begin

text \<open>
  The JSON-RPC 2.0 envelope layer of the MCP client, \<open>mcp/jsonrpc.py\<close>: validation of ids and
  methods, construction of request, notification, result and error envelopes, the line
  encoder, and the parser that classifies an incoming line or batch.
\<close>

datatype rpc_error = RpcProtocolError string | RpcMalformedJson

datatype rpc_id = IdInt int | IdStr string

definition rpc_id_val :: "rpc_id \<Rightarrow> pyval" where
  "rpc_id_val i = (case i of IdInt n \<Rightarrow> PInt n | IdStr s \<Rightarrow> PStr s)"

section \<open>Validation\<close>

definition validate_request_id :: "string \<Rightarrow> pyval \<Rightarrow> rpc_error + rpc_id" where
  "validate_request_id field_name v =
     (case v of
        PBool _ \<Rightarrow> Inl (RpcProtocolError (''JSON-RPC '' @ field_name @ '' must be a string or integer.''))
      | PInt i \<Rightarrow> Inr (IdInt i)
      | PStr s \<Rightarrow>
          (let cleaned = py_strip s in
           if cleaned = [] then Inl (RpcProtocolError (''JSON-RPC '' @ field_name @ '' cannot be empty.''))
           else Inr (IdStr cleaned))
      | _ \<Rightarrow> Inl (RpcProtocolError (''JSON-RPC '' @ field_name @ '' must be a string or integer.'')))"

definition validate_method :: "pyval \<Rightarrow> rpc_error + string" where
  "validate_method v =
     (case v of
        PStr s \<Rightarrow>
          (let cleaned = py_strip s in
           if cleaned = [] then Inl (RpcProtocolError ''JSON-RPC method cannot be empty.'')
           else Inr cleaned)
      | _ \<Rightarrow> Inl (RpcProtocolError ''JSON-RPC method must be a string.''))"

definition quoted :: "string \<Rightarrow> string" where
  "quoted s = CHR 0x27 # s @ [CHR 0x27]"

definition validate_envelope_version :: "(pykey \<times> pyval) list \<Rightarrow> rpc_error + unit" where
  "validate_envelope_version payload =
     guard_res (dget payload ''jsonrpc'' = PStr ''2.0'')
       (RpcProtocolError (''JSON-RPC envelope must include jsonrpc='' @ quoted ''2.0'' @ ''.''))"

section \<open>Error objects and messages\<close>

record rpc_error_object =
  eo_code :: int
  eo_message :: string
  eo_data :: pyval

definition error_object_from_payload :: "pyval \<Rightarrow> rpc_error + rpc_error_object" where
  "error_object_from_payload payload =
     (case payload of
        PDict d \<Rightarrow>
          (case dget d ''code'' of
             PInt c \<Rightarrow>
               (case dget d ''message'' of
                  PStr m \<Rightarrow>
                    if py_strip m = [] then
                      Inl (RpcProtocolError ''JSON-RPC error.message must be a non-empty string.'')
                    else Inr \<lparr>eo_code = c, eo_message = py_strip m, eo_data = dget d ''data''\<rparr>
                | _ \<Rightarrow> Inl (RpcProtocolError ''JSON-RPC error.message must be a non-empty string.''))
           | _ \<Rightarrow> Inl (RpcProtocolError ''JSON-RPC error.code must be an integer.''))
      | _ \<Rightarrow> Inl (RpcProtocolError ''JSON-RPC error payload must be an object.''))"

definition error_object_as_payload :: "rpc_error_object \<Rightarrow> pyval" where
  "error_object_as_payload e =
     PDict ([(KStr ''code'', PInt (eo_code e)), (KStr ''message'', PStr (eo_message e))] @
            (if eo_data e \<noteq> PNone then [(KStr ''data'', eo_data e)] else []))"

datatype rpc_message =
    Request rpc_id string pyval
  | Notification string pyval
  | Response rpc_id pyval "rpc_error_object option"

section \<open>Ids and construction\<close>

text \<open>\<open>JsonRpcIdGenerator.next\<close>: the counter is the state.\<close>

definition id_generator_next :: "int \<Rightarrow> int \<times> int" where
  "id_generator_next next_id = (next_id, next_id + 1)"

fun id_generator_run :: "nat \<Rightarrow> int \<Rightarrow> int list" where
  "id_generator_run 0 next_id = []"
| "id_generator_run (Suc n) next_id =
     (let (i, st) = id_generator_next next_id in i # id_generator_run n st)"

definition encode_jsonrpc_message :: "pyval \<Rightarrow> py_exc + string" where
  "encode_jsonrpc_message payload = json_dumps True True False payload"

definition build_jsonrpc_request :: "pyval \<Rightarrow> pyval \<Rightarrow> pyval \<Rightarrow> rpc_error + pyval" where
  "build_jsonrpc_request request_id method params =
     res_bind (validate_request_id ''id'' request_id) (\<lambda>i.
     res_bind (validate_method method) (\<lambda>m.
       Inr (PDict ([(KStr ''jsonrpc'', PStr ''2.0''), (KStr ''id'', rpc_id_val i),
                    (KStr ''method'', PStr m)] @
                   (if params \<noteq> PNone then [(KStr ''params'', params)] else [])))))"

definition build_jsonrpc_notification :: "pyval \<Rightarrow> pyval \<Rightarrow> rpc_error + pyval" where
  "build_jsonrpc_notification method params =
     res_bind (validate_method method) (\<lambda>m.
       Inr (PDict ([(KStr ''jsonrpc'', PStr ''2.0''), (KStr ''method'', PStr m)] @
                   (if params \<noteq> PNone then [(KStr ''params'', params)] else []))))"

definition build_jsonrpc_result_response :: "pyval \<Rightarrow> pyval \<Rightarrow> rpc_error + pyval" where
  "build_jsonrpc_result_response request_id result =
     res_bind (validate_request_id ''id'' request_id) (\<lambda>i.
       Inr (PDict [(KStr ''jsonrpc'', PStr ''2.0''), (KStr ''id'', rpc_id_val i),
                   (KStr ''result'', result)]))"

definition build_jsonrpc_error_response ::
    "pyval \<Rightarrow> int \<Rightarrow> pyval \<Rightarrow> pyval \<Rightarrow> rpc_error + pyval" where
  "build_jsonrpc_error_response request_id c message data =
     res_bind (validate_request_id ''id'' request_id) (\<lambda>i.
       Inr (PDict [(KStr ''jsonrpc'', PStr ''2.0''), (KStr ''id'', rpc_id_val i),
                   (KStr ''error'', error_object_as_payload
                      \<lparr>eo_code = c, eo_message = py_strip (py_str message), eo_data = data\<rparr>)]))"

section \<open>Parsing\<close>

definition parse_jsonrpc_message :: "pyval \<Rightarrow> rpc_error + rpc_message" where
  "parse_jsonrpc_message payload =
     (case payload of
        PDict d \<Rightarrow>
          res_bind (validate_envelope_version d) (\<lambda>_.
            let has_method = dhas d ''method'';
                has_id = dhas d ''id'';
                has_result = dhas d ''result'';
                has_error = dhas d ''error''
            in if has_method then
                 res_bind (validate_method (dget d ''method'')) (\<lambda>method.
                   if has_result \<or> has_error then
                     Inl (RpcProtocolError
                       ''JSON-RPC request/notification cannot include result or error fields.'')
                   else if has_id then
                     res_bind (validate_request_id ''id'' (dget d ''id''))
                       (\<lambda>i. Inr (Request i method (dget d ''params'')))
                   else Inr (Notification method (dget d ''params'')))
               else if \<not> has_id then
                 Inl (RpcProtocolError ''JSON-RPC response must include an id field.'')
               else if has_result = has_error then
                 Inl (RpcProtocolError
                   ''JSON-RPC response must include exactly one of result or error.'')
               else
                 res_bind (validate_request_id ''id'' (dget d ''id'')) (\<lambda>i.
                   if has_error then
                     res_bind (error_object_from_payload (dget d ''error''))
                       (\<lambda>e. Inr (Response i PNone (Some e)))
                   else Inr (Response i (dget d ''result'') None)))
      | _ \<Rightarrow> Inl (RpcProtocolError ''JSON-RPC message must be an object.''))"

fun res_map_list :: "('a \<Rightarrow> 'e + 'b) \<Rightarrow> 'a list \<Rightarrow> 'e + 'b list" where
  "res_map_list f [] = Inr []"
| "res_map_list f (x # xs) =
     res_bind (f x) (\<lambda>y. res_bind (res_map_list f xs) (\<lambda>ys. Inr (y # ys)))"

definition parse_jsonrpc_line :: "string \<Rightarrow> rpc_error + rpc_message list" where
  "parse_jsonrpc_line raw_line =
     (let txt = py_strip raw_line in
      if txt = [] then Inl (RpcProtocolError ''JSON-RPC line cannot be empty.'')
      else (case json_loads txt of
          None \<Rightarrow> Inl RpcMalformedJson
        | Some payload \<Rightarrow>
            (case payload of
               PList [] \<Rightarrow> Inl (RpcProtocolError ''JSON-RPC batch payload cannot be empty.'')
             | PList items \<Rightarrow> res_map_list parse_jsonrpc_message items
             | _ \<Rightarrow> res_bind (parse_jsonrpc_message payload) (\<lambda>m. Inr [m]))))"

section \<open>Framing and round trips\<close>

text \<open>Encoded lines hold printable ASCII only, so a line break never splits a message.\<close>

definition printable :: "char \<Rightarrow> bool" where
  "printable c = (32 \<le> code c \<and> code c \<le> 126)"

lemma printable_simps [simp]:
  "printable CHR 0x22" "printable CHR 0x5C" "printable CHR '',''" "printable CHR '':''"
  "printable CHR ''[''" "printable CHR '']''" "printable CHR ''{''" "printable CHR ''}''"
  "printable CHR ''n''" "printable CHR ''r''" "printable CHR ''t''" "printable CHR ''f''"
  "printable CHR ''b''" "printable CHR ''u''" "printable CHR ''0''" "printable CHR ''l''"
  "printable CHR ''e''" "printable CHR ''a''" "printable CHR ''s''" "printable CHR ''N''"
  "printable CHR ''I''" "printable CHR ''i''" "printable CHR ''y''" "printable CHR ''-''"
  by (simp_all add: printable_def code_def)

lemma printable_hex [simp]: "d < 16 \<Longrightarrow> printable (hex_digit d)"
  by (auto simp: printable_def hex_digit_def)

lemma printable_num_char: "is_num_char c \<Longrightarrow> printable c"
  by (auto simp: is_num_char_def printable_def is_digit_def code_def)

lemma code_div_16 [simp]: "code c div 16 < 16"
  using code_less_256 [of c] by linarith

lemma printable_enc_char: "c' \<in> set (json_enc_char True c) \<Longrightarrow> printable c'"
  by (auto simp: json_enc_char_def hex4_def split: if_splits)
    (auto simp: printable_def)

lemma printable_enc_str: "c \<in> set (json_enc_str True s) \<Longrightarrow> printable c"
  by (auto simp: json_enc_str_def dest: printable_enc_char)

lemma json_enc_printable:
  "json_wf v \<Longrightarrow> c \<in> set (json_enc True v) \<Longrightarrow> printable c"
  "list_all json_wf vs \<Longrightarrow> c \<in> set (json_enc_list True vs) \<Longrightarrow> printable c"
  "list_all (\<lambda>kv. json_wf (snd kv)) kvs \<Longrightarrow> c \<in> set (json_enc_items True kvs) \<Longrightarrow> printable c"
proof (induction True v and True vs and True kvs
    rule: json_enc_json_enc_list_json_enc_items.induct)
  case (3 i)
  then show ?case using show_int_num_chars printable_num_char by auto
next
  case (4 t)
  then show ?case by (auto simp: json_float_ok_def list_all_iff intro: printable_num_char)
next
  case (11 kvs)
  then show ?case by (auto simp: list_all_iff)
qed (auto split: if_splits dest: printable_enc_str)

lemma py_strip_enc_dict:
  "py_strip (json_enc asc (PDict kvs)) = json_enc asc (PDict kvs)"
  by (simp add: py_strip_def py_lstrip_def py_rstrip_def py_is_space_def code_def)

lemma json_wf_ok: "json_wf v \<Longrightarrow> json_ok True v"
  by (induction v rule: json_wf.induct) (auto simp: list_all_iff)

lemma res_map_list_all:
  "res_map_list f xs = Inr ys \<Longrightarrow> (\<And>x y. f x = Inr y \<Longrightarrow> P y) \<Longrightarrow>
   length ys = length xs \<and> (\<forall>y\<in>set ys. P y)"
  by (induction xs arbitrary: ys) (auto simp: res_simps)

lemma encode_ok:
  "json_wf (PDict d) \<Longrightarrow> encode_jsonrpc_message (PDict d) = Inr (json_enc True (PDict d))"
  using json_wf_ok [of "PDict d"] by (simp add: encode_jsonrpc_message_def json_dumps_def)

lemma parse_line_enc:
  assumes "json_wf (PDict d)"
  shows "parse_jsonrpc_line (json_enc True (PDict d)) =
           res_bind (parse_jsonrpc_message (PDict d)) (\<lambda>m. Inr [m])"
  using json_loads_enc [OF assms, of True]
  by (simp add: parse_jsonrpc_line_def py_strip_enc_dict del: json_enc.simps)
    (simp add: json_enc.simps)

lemma json_wf_id [simp]: "json_wf (rpc_id_val i)"
  by (cases i) (simp_all add: rpc_id_val_def)

lemma validate_request_id_clean:
  "validate_request_id f v = Inr i \<Longrightarrow> validate_request_id g (rpc_id_val i) = Inr i"
  by (auto simp: validate_request_id_def rpc_id_val_def Let_def split: pyval.splits if_splits)

lemma validate_method_clean:
  "validate_method v = Inr m \<Longrightarrow> validate_method (PStr m) = Inr m \<and> m \<noteq> [] \<and> py_strip m = m"
  by (auto simp: validate_method_def Let_def split: pyval.splits if_splits)

lemma error_object_roundtrip:
  "eo_message e \<noteq> [] \<Longrightarrow> py_strip (eo_message e) = eo_message e \<Longrightarrow>
   error_object_from_payload (error_object_as_payload e) = Inr e"
  by (cases e) (auto simp: error_object_from_payload_def error_object_as_payload_def)

text \<open>
  A request the builder accepts survives the wire: its encoding is one line of printable
  ASCII, and the parser reads back exactly one request with the validated id and method and
  the same parameters.
\<close>

theorem jsonrpc_request_roundtrip:
  assumes "validate_request_id ''id'' rid = Inr i" and "validate_method meth = Inr m"
    and "json_wf params"
  shows "\<exists>p line. build_jsonrpc_request rid meth params = Inr p \<and>
      encode_jsonrpc_message p = Inr line \<and> (\<forall>c\<in>set line. printable c) \<and>
      parse_jsonrpc_line line = Inr [Request i m params]"
proof -
  let ?d = "[(KStr ''jsonrpc'', PStr ''2.0''), (KStr ''id'', rpc_id_val i),
             (KStr ''method'', PStr m)] @ (if params \<noteq> PNone then [(KStr ''params'', params)] else [])"
  have wf: "json_wf (PDict ?d)" using assms(3) by (simp add: is_str_key_def)
  have "parse_jsonrpc_message (PDict ?d) = Inr (Request i m params)"
    using validate_method_clean [OF assms(2)] validate_request_id_clean [OF assms(1), of "''id''"]
    by (simp add: parse_jsonrpc_message_def validate_envelope_version_def)
  then have "parse_jsonrpc_line (json_enc True (PDict ?d)) = Inr [Request i m params]"
    using parse_line_enc [OF wf] by simp
  moreover have "\<forall>c\<in>set (json_enc True (PDict ?d)). printable c"
    using json_enc_printable(1) [OF wf] by blast
  ultimately show ?thesis
    using assms(1,2) encode_ok [OF wf] by (simp add: build_jsonrpc_request_def)
qed

theorem jsonrpc_request_roundtrip_witness:
  "\<exists>p line. build_jsonrpc_request (PStr '' a7 '') (PStr ''tools/list '') (PList [PInt 1]) = Inr p \<and>
      encode_jsonrpc_message p = Inr line \<and> (\<forall>c\<in>set line. printable c) \<and>
      parse_jsonrpc_line line = Inr [Request (IdStr ''a7'') ''tools/list'' (PList [PInt 1])]"
  by (rule jsonrpc_request_roundtrip) (code_simp, code_simp, simp)

text \<open>
  Responses survive the wire: a result response parses back to the same id and result, and
  an error response with a non-blank message to the same id, code, trimmed message and data.
\<close>

theorem jsonrpc_response_roundtrip:
  assumes "validate_request_id ''id'' rid = Inr i" and "json_wf payload"
    and "py_strip (py_str message) \<noteq> []"
  shows "(\<exists>p line. build_jsonrpc_result_response rid payload = Inr p \<and>
            encode_jsonrpc_message p = Inr line \<and>
            parse_jsonrpc_line line = Inr [Response i payload None]) \<and>
         (\<exists>p line. build_jsonrpc_error_response rid c message payload = Inr p \<and>
            encode_jsonrpc_message p = Inr line \<and>
            parse_jsonrpc_line line = Inr [Response i PNone (Some
              \<lparr>eo_code = c, eo_message = py_strip (py_str message), eo_data = payload\<rparr>)])"
proof -
  let ?e = "\<lparr>eo_code = c, eo_message = py_strip (py_str message), eo_data = payload\<rparr>"
  let ?r = "[(KStr ''jsonrpc'', PStr ''2.0''), (KStr ''id'', rpc_id_val i), (KStr ''result'', payload)]"
  let ?f = "[(KStr ''jsonrpc'', PStr ''2.0''), (KStr ''id'', rpc_id_val i),
             (KStr ''error'', error_object_as_payload ?e)]"
  note id = validate_request_id_clean [OF assms(1), of "''id''"]
  have wr: "json_wf (PDict ?r)" using assms(2) by (simp add: is_str_key_def)
  have wf: "json_wf (PDict ?f)"
    using assms(2) by (simp add: is_str_key_def error_object_as_payload_def)
  have "parse_jsonrpc_message (PDict ?r) = Inr (Response i payload None)"
    using id by (simp add: parse_jsonrpc_message_def validate_envelope_version_def)
  moreover have "parse_jsonrpc_message (PDict ?f) = Inr (Response i PNone (Some ?e))"
    using id error_object_roundtrip [of ?e] assms(3)
    by (simp add: parse_jsonrpc_message_def validate_envelope_version_def)
  ultimately show ?thesis
    using parse_line_enc [OF wr] parse_line_enc [OF wf] encode_ok [OF wr] encode_ok [OF wf] assms(1)
    by (simp add: build_jsonrpc_result_response_def build_jsonrpc_error_response_def
        del: json_enc.simps)
qed

theorem jsonrpc_response_roundtrip_witness:
  "(\<exists>p line. build_jsonrpc_result_response (PInt 4) PNone = Inr p \<and>
      encode_jsonrpc_message p = Inr line \<and>
      parse_jsonrpc_line line = Inr [Response (IdInt 4) PNone None]) \<and>
   (\<exists>p line. build_jsonrpc_error_response (PInt 4) (-32601) (PStr '' no method'') PNone = Inr p \<and>
      encode_jsonrpc_message p = Inr line \<and>
      parse_jsonrpc_line line = Inr [Response (IdInt 4) PNone (Some
        \<lparr>eo_code = -32601, eo_message = py_strip (py_str (PStr '' no method'')), eo_data = PNone\<rparr>)])"
  by (rule jsonrpc_response_roundtrip) (code_simp, simp, code_simp)

definition rpc_id_clean :: "rpc_id \<Rightarrow> bool" where
  "rpc_id_clean i = (case i of IdInt _ \<Rightarrow> True | IdStr s \<Rightarrow> s \<noteq> [] \<and> py_strip s = s)"

fun rpc_message_clean :: "rpc_message \<Rightarrow> bool" where
  "rpc_message_clean (Request i m p) = (rpc_id_clean i \<and> m \<noteq> [] \<and> py_strip m = m)"
| "rpc_message_clean (Notification m p) = (m \<noteq> [] \<and> py_strip m = m)"
| "rpc_message_clean (Response i r e) =
     (rpc_id_clean i \<and> (case e of None \<Rightarrow> True
        | Some eo \<Rightarrow> r = PNone \<and> eo_message eo \<noteq> [] \<and> py_strip (eo_message eo) = eo_message eo))"

lemma validate_request_id_is_clean: "validate_request_id f v = Inr i \<Longrightarrow> rpc_id_clean i"
  by (auto simp: validate_request_id_def rpc_id_clean_def Let_def split: pyval.splits if_splits)

lemma error_object_is_clean:
  "error_object_from_payload v = Inr e \<Longrightarrow> eo_message e \<noteq> [] \<and> py_strip (eo_message e) = eo_message e"
  by (auto simp: error_object_from_payload_def split: pyval.splits if_splits)

lemma parse_message_clean:
  "parse_jsonrpc_message v = Inr m \<Longrightarrow> rpc_message_clean m"
  by (cases v) (auto simp: parse_jsonrpc_message_def Let_def res_simps
      split: if_splits dest: validate_method_clean validate_request_id_is_clean error_object_is_clean)

text \<open>
  What the parser lets through is normalised: ids are integers or non-empty trimmed text,
  methods are non-empty and trimmed, an error response has no result and a non-empty
  trimmed message, and an accepted line holds at least one message.
\<close>

theorem jsonrpc_parsed_messages_clean:
  assumes "parse_jsonrpc_line raw = Inr ms"
  shows "ms \<noteq> [] \<and> (\<forall>m\<in>set ms. rpc_message_clean m)"
proof -
  obtain v where v: "json_loads (py_strip raw) = Some v"
    using assms by (auto simp: parse_jsonrpc_line_def Let_def split: if_splits option.splits)
  have one: "res_bind (parse_jsonrpc_message v) (\<lambda>m. Inr [m]) = Inr ms \<Longrightarrow> ?thesis"
    by (auto simp: res_simps dest: parse_message_clean)
  show ?thesis
  proof (cases v)
    case (PList items)
    then obtain x xs where "items = x # xs" "res_map_list parse_jsonrpc_message items = Inr ms"
      using assms v by (cases items) (auto simp: parse_jsonrpc_line_def Let_def split: if_splits)
    then have "length ms = length items \<and> (\<forall>m\<in>set ms. rpc_message_clean m)"
      by (intro res_map_list_all) (auto dest: parse_message_clean)
    then show ?thesis using \<open>items = x # xs\<close> by auto
  qed (use assms v one in \<open>auto simp: parse_jsonrpc_line_def Let_def split: if_splits\<close>)
qed

theorem jsonrpc_parsed_messages_clean_witness:
  "list_all rpc_message_clean [Notification ''ping'' PNone]"
proof -
  have "parse_jsonrpc_line (CHR 0x7B # json_enc_items True [(KStr ''jsonrpc'', PStr ''2.0''),
          (KStr ''method'', PStr '' ping'')] @ [CHR 0x7D, CHR 0x20]) = Inr [Notification ''ping'' PNone]"
    by code_simp
  from jsonrpc_parsed_messages_clean [OF this] show ?thesis by (simp add: list_all_iff)
qed

text \<open>The id generator hands out consecutive, hence distinct, ids.\<close>

lemma id_generator_run_nth:
  "k < n \<Longrightarrow> id_generator_run n st ! k = st + int k"
  by (induction n arbitrary: k st) (auto simp: id_generator_next_def nth_Cons split: nat.splits)

lemma length_id_generator_run [simp]: "length (id_generator_run n st) = n"
  by (induction n arbitrary: st) (auto simp: id_generator_next_def)

lemma id_generator_distinct: "distinct (id_generator_run n st)"
  by (auto simp: distinct_conv_nth id_generator_run_nth)

end
