(* ===== verification/ApprovalScope.thy ===== *)
theory ApprovalScope
  imports PyJson
begin

text \<open>
  Session scopes of approvals, \<open>approval_scope.py\<close>: which later requests an "allow for session"
  answer covers. A request is a record of its attributes; an attribute that \<open>getattr\<close> does not
  find has the default of that call. \<open>sha\<close> is the SHA-256 hex digest of a text (\<open>hashlib\<close>),
  \<open>env\<close> the value of \<open>ALYSIS_APPROVAL_DIR_GRANTS\<close>.
\<close>

record approval_request =
  rq_kind :: pyval
  rq_files :: pyval
  rq_command :: pyval
  rq_metadata :: pyval
  rq_scope :: pyval

definition SCOPE_EXACT_COMMAND_HASH :: string where
  "SCOPE_EXACT_COMMAND_HASH = ''exact_command_hash''"

definition SCOPE_EXACT_FILE_SET :: string where
  "SCOPE_EXACT_FILE_SET = ''exact_file_set''"

definition SCOPE_EXACT_VERIFY_COMMAND_SET :: string where
  "SCOPE_EXACT_VERIFY_COMMAND_SET = ''exact_verify_command_set''"

definition SCOPE_EXPLICIT_BACKEND_SAFE_KIND :: string where
  "SCOPE_EXPLICIT_BACKEND_SAFE_KIND = ''explicit_backend_safe_kind''"

lemmas scope_type_defs = SCOPE_EXACT_COMMAND_HASH_def SCOPE_EXACT_FILE_SET_def
  SCOPE_EXACT_VERIFY_COMMAND_SET_def SCOPE_EXPLICIT_BACKEND_SAFE_KIND_def

definition SUPPORTED_APPROVAL_SCOPES :: "string list" where
  "SUPPORTED_APPROVAL_SCOPES = [SCOPE_EXACT_COMMAND_HASH, SCOPE_EXACT_FILE_SET,
     SCOPE_EXACT_VERIFY_COMMAND_SET, SCOPE_EXPLICIT_BACKEND_SAFE_KIND]"

definition FILE_SCOPE_KINDS :: "string list" where
  "FILE_SCOPE_KINDS = [''fs_write'', ''fs_edit'', ''fs_move'', ''fs_copy'', ''fs_delete'',
     ''fs_mkdir'', ''git_apply_patch'']"

definition COMMAND_SCOPE_KINDS :: "string list" where
  "COMMAND_SCOPE_KINDS = [''shell_run'', ''shell_background'']"

definition DIR_GRANT_KINDS :: "string list" where
  "DIR_GRANT_KINDS = [''fs_delete'']"

text \<open>\<open>^[a-f0-9]{64}$\<close>, matched against the whole text.\<close>

definition sha256_pattern :: "string \<Rightarrow> bool" where
  "sha256_pattern s =
     (length s = 64 \<and> list_all (\<lambda>c. is_digit c \<or> (97 \<le> code c \<and> code c \<le> 102)) s)"

section \<open>File lists\<close>

definition normalize_file :: "pyval \<Rightarrow> string" where
  "normalize_file f = py_replace_char CHR 0x5C CHR ''/'' (py_strip (py_str f))"

definition normalize_files :: "pyval list \<Rightarrow> string list" where
  "normalize_files files = sort (dedup (filter (\<lambda>t. t \<noteq> []) (map normalize_file files)))"

definition plain_relative_file_path :: "string \<Rightarrow> bool" where
  "plain_relative_file_path t =
     (t \<noteq> [] \<and> \<not> py_startswith t ''/'' \<and>
      list_all (\<lambda>segment. segment \<notin> {'''', ''.'', ''..''}) (py_split CHR ''/'' t))"

text \<open>\<open>text.rsplit("/", 1)[0] if "/" in text else ""\<close>.\<close>

definition parent_dir :: "string \<Rightarrow> string" where
  "parent_dir t =
     (if CHR ''/'' \<in> set t then rev (tl (dropWhile (\<lambda>c. c \<noteq> CHR ''/'') (rev t))) else [])"

section \<open>Directory grants\<close>

definition dir_grants_enabled :: "string \<Rightarrow> bool" where
  "dir_grants_enabled env = (py_lower (py_strip env) \<notin> {''0'', ''false'', ''off'', ''no''})"

definition session_disabled :: "approval_request \<Rightarrow> bool" where
  "session_disabled rq =
     (case rq_metadata rq of PDict d \<Rightarrow> py_truthy (dget d ''allow_for_session_disabled'') | _ \<Rightarrow> False)"

definition approval_dir_grant_candidate :: "string \<Rightarrow> approval_request \<Rightarrow> string option" where
  "approval_dir_grant_candidate env rq =
     (if \<not> dir_grants_enabled env then None
      else if str_or (rq_kind rq) [] \<notin> set DIR_GRANT_KINDS then None
      else if session_disabled rq then None
      else
        let normalized = normalize_files (elems_of (rq_files rq)) in
        if normalized = [] then None
        else if \<not> list_all plain_relative_file_path normalized then None
        else (case dedup (map parent_dir normalized) of
            [directory] \<Rightarrow> if directory = [] then None else Some (directory @ ''/'')
          | _ \<Rightarrow> None))"

definition request_matches_dir_grants ::
    "string \<Rightarrow> approval_request \<Rightarrow> (string \<times> string) list \<Rightarrow> bool" where
  "request_matches_dir_grants env rq grants =
     (if \<not> dir_grants_enabled env then False
      else
        let kind = str_or (rq_kind rq) [] in
        if kind \<notin> set DIR_GRANT_KINDS then False
        else if session_disabled rq then False
        else
          let normalized = normalize_files (elems_of (rq_files rq)) in
          if normalized = [] then False
          else
            let applicable = map snd (filter (\<lambda>g. fst g = kind) grants) in
            if applicable = [] then False
            else list_all (\<lambda>t. plain_relative_file_path t \<and>
                   list_ex (\<lambda>directory. py_startswith t directory) applicable) normalized)"

section \<open>Scope constructors\<close>

definition sha256_json :: "(string \<Rightarrow> string) \<Rightarrow> string list \<Rightarrow> string" where
  "sha256_json sha xs = sha (json_enc True (PList (map PStr xs)))"

definition exact_command_scope ::
    "(string \<Rightarrow> string) \<Rightarrow> string \<Rightarrow> string \<Rightarrow> (pykey \<times> pyval) list" where
  "exact_command_scope sha command kind =
     [(KStr ''type'', PStr SCOPE_EXACT_COMMAND_HASH), (KStr ''algorithm'', PStr ''sha256''),
      (KStr ''command_hash'', PStr (sha command))] @
     (if kind \<noteq> [] then [(KStr ''kind'', PStr kind)] else [])"

definition exact_file_set_scope ::
    "(string \<Rightarrow> string) \<Rightarrow> pyval list \<Rightarrow> string \<Rightarrow> (pykey \<times> pyval) list" where
  "exact_file_set_scope sha files operation =
     (let normalized = normalize_files files in
      [(KStr ''type'', PStr SCOPE_EXACT_FILE_SET), (KStr ''algorithm'', PStr ''sha256''),
       (KStr ''files_hash'', PStr (sha256_json sha normalized)),
       (KStr ''file_count'', PInt (int (length normalized))),
       (KStr ''files'', PList (map PStr normalized))] @
      (if operation \<noteq> [] then [(KStr ''operation'', PStr operation)] else []))"

definition exact_verify_command_set_scope ::
    "(string \<Rightarrow> string) \<Rightarrow> pyval list \<Rightarrow> (pykey \<times> pyval) list" where
  "exact_verify_command_set_scope sha commands =
     (let normalized = map py_str commands in
      [(KStr ''type'', PStr SCOPE_EXACT_VERIFY_COMMAND_SET), (KStr ''algorithm'', PStr ''sha256''),
       (KStr ''commands_hash'', PStr (sha256_json sha normalized)),
       (KStr ''command_count'', PInt (int (length normalized)))])"

definition explicit_backend_safe_kind_scope :: "string \<Rightarrow> (pykey \<times> pyval) list" where
  "explicit_backend_safe_kind_scope kind =
     [(KStr ''type'', PStr SCOPE_EXPLICIT_BACKEND_SAFE_KIND), (KStr ''safe_kind'', PStr kind),
      (KStr ''backend_owned'', PBool True)]"

section \<open>The scope of a request\<close>

record session_scope =
  sc_supported :: bool
  sc_scope :: "pyval option"
  sc_key :: "string option"
  sc_warning :: "string option"

definition supported_scope :: "(pykey \<times> pyval) list \<Rightarrow> session_scope" where
  "supported_scope d = \<lparr>sc_supported = True, sc_scope = Some (PDict d),
     sc_key = Some (json_enc True (json_sort (PDict d))), sc_warning = None\<rparr>"

definition unsupported :: "string \<Rightarrow> session_scope" where
  "unsupported w = \<lparr>sc_supported = False, sc_scope = None, sc_key = None,
     sc_warning = Some (''Allow for session is unavailable because '' @ w)\<rparr>"

text \<open>\<open>int(value)\<close> may also raise \<open>OverflowError\<close>, which the code does not catch.\<close>

definition positive_int :: "pyval \<Rightarrow> py_exc + int option" where
  "positive_int v =
     (case v of
        PBool _ \<Rightarrow> Inr None
      | _ \<Rightarrow>
          (case py_int v of
             Inl OverflowError \<Rightarrow> Inl OverflowError
           | Inl _ \<Rightarrow> Inr None
           | Inr n \<Rightarrow> Inr (if n > 0 then Some n else None)))"

definition command_hash_scope ::
    "(string \<Rightarrow> string) \<Rightarrow> string \<Rightarrow> (pykey \<times> pyval) list \<Rightarrow> pyval \<Rightarrow> session_scope" where
  "command_hash_scope sha kind raw command =
     (let command_hash = py_lower (py_strip (str_or (dget raw ''command_hash'') [])) in
      if \<not> sha256_pattern command_hash then unsupported ''the command scope is malformed.''
      else if command \<noteq> PNone \<and> sha (py_str command) \<noteq> command_hash then
        unsupported ''the command scope does not match the approval request.''
      else supported_scope
        [(KStr ''type'', PStr SCOPE_EXACT_COMMAND_HASH), (KStr ''algorithm'', PStr ''sha256''),
         (KStr ''kind'', PStr kind), (KStr ''command_hash'', PStr command_hash)])"

definition file_set_scope ::
    "(string \<Rightarrow> string) \<Rightarrow> string \<Rightarrow> (pykey \<times> pyval) list \<Rightarrow> pyval \<Rightarrow> session_scope" where
  "file_set_scope sha kind raw files =
     (let files_hash = py_lower (py_strip (str_or (dget raw ''files_hash'') []));
          normalized = normalize_files (elems_of files) in
      if \<not> sha256_pattern files_hash then unsupported ''the file scope is malformed.''
      else if normalized = [] then
        unsupported ''file approvals require at least one scoped file.''
      else if sha256_json sha normalized \<noteq> files_hash then
        unsupported ''the file scope does not match the approval request.''
      else supported_scope
        [(KStr ''type'', PStr SCOPE_EXACT_FILE_SET), (KStr ''algorithm'', PStr ''sha256''),
         (KStr ''kind'', PStr kind), (KStr ''operation'', PStr (str_or (dget raw ''operation'') kind)),
         (KStr ''files_hash'', PStr files_hash), (KStr ''file_count'', PInt (int (length normalized))),
         (KStr ''files'', PList (map PStr normalized))])"

definition verify_command_set_scope ::
    "string \<Rightarrow> (pykey \<times> pyval) list \<Rightarrow> py_exc + session_scope" where
  "verify_command_set_scope kind raw =
     (let commands_hash = py_lower (py_strip (str_or (dget raw ''commands_hash'') [])) in
      if \<not> sha256_pattern commands_hash
      then Inr (unsupported ''the verification scope is malformed.'')
      else res_bind (positive_int (dget raw ''command_count'')) (\<lambda>count.
        case count of
          None \<Rightarrow> Inr (unsupported ''the verification scope is missing its command count.'')
        | Some n \<Rightarrow> Inr (supported_scope
            [(KStr ''type'', PStr SCOPE_EXACT_VERIFY_COMMAND_SET), (KStr ''algorithm'', PStr ''sha256''),
             (KStr ''kind'', PStr kind), (KStr ''commands_hash'', PStr commands_hash),
             (KStr ''command_count'', PInt n)])))"

definition backend_safe_kind_scope :: "string \<Rightarrow> (pykey \<times> pyval) list \<Rightarrow> session_scope" where
  "backend_safe_kind_scope kind raw =
     (let safe_kind = py_strip (str_or (dget raw ''safe_kind'') []) in
      if safe_kind \<noteq> kind \<or> dget raw ''backend_owned'' \<noteq> PBool True then
        unsupported ''the backend safe-kind scope is malformed.''
      else supported_scope
        [(KStr ''type'', PStr SCOPE_EXPLICIT_BACKEND_SAFE_KIND), (KStr ''kind'', PStr kind),
         (KStr ''safe_kind'', PStr safe_kind)])"

definition is_command_like_kind :: "string \<Rightarrow> bool" where
  "is_command_like_kind kind =
     (kind \<in> set COMMAND_SCOPE_KINDS \<or> py_startswith kind ''custom_tool_run:'' \<or>
      py_startswith kind ''mcp_'' \<or> py_startswith kind ''mcp_tool_run:'')"

text \<open>The attribute, or the metadata entry when the attribute is \<open>None\<close>.\<close>

definition raw_scope_of :: "approval_request \<Rightarrow> pyval" where
  "raw_scope_of rq =
     (if rq_scope rq = PNone
      then (case rq_metadata rq of
              PDict d \<Rightarrow> (case dget d ''allow_for_session_scope'' of PDict c \<Rightarrow> PDict c | _ \<Rightarrow> PNone)
            | _ \<Rightarrow> PNone)
      else rq_scope rq)"

definition scope_type_of :: "(pykey \<times> pyval) list \<Rightarrow> string" where
  "scope_type_of raw =
     py_strip (if py_truthy (dget raw ''type'') then py_str (dget raw ''type'')
               else str_or (dget raw ''scope_type'') [])"

definition request_kind :: "approval_request \<Rightarrow> string" where
  "request_kind rq = str_or (rq_kind rq) ''approval''"

text \<open>The scope type a kind of request admits; the answer is the refusal of any other type.\<close>

definition scope_type_refusal :: "string \<Rightarrow> string \<Rightarrow> string option" where
  "scope_type_refusal kind scope_type =
     (if is_command_like_kind kind then
        (if scope_type \<noteq> SCOPE_EXACT_COMMAND_HASH
         then Some ''command approvals require an exact command hash scope.'' else None)
      else if kind = ''verify_run'' then
        (if scope_type \<noteq> SCOPE_EXACT_VERIFY_COMMAND_SET
         then Some ''verification approvals require an exact verification command set scope.'' else None)
      else if kind \<in> set FILE_SCOPE_KINDS then
        (if scope_type \<noteq> SCOPE_EXACT_FILE_SET
         then Some ''file approvals require an exact file set scope.'' else None)
      else if scope_type \<noteq> SCOPE_EXPLICIT_BACKEND_SAFE_KIND
      then Some ''this approval kind is not backend-marked as session safe.''
      else None)"

definition approval_session_scope_for_request ::
    "(string \<Rightarrow> string) \<Rightarrow> approval_request \<Rightarrow> py_exc + session_scope" where
  "approval_session_scope_for_request sha rq =
     (let kind = request_kind rq in
      case raw_scope_of rq of
        PDict raw \<Rightarrow>
          (let scope_type = scope_type_of raw in
           if scope_type \<notin> set SUPPORTED_APPROVAL_SCOPES then
             Inr (unsupported ''the approval scope is unsupported.'')
           else (case scope_type_refusal kind scope_type of
               Some w \<Rightarrow> Inr (unsupported w)
             | None \<Rightarrow>
                 if scope_type = SCOPE_EXACT_COMMAND_HASH then
                   Inr (command_hash_scope sha kind raw (rq_command rq))
                 else if scope_type = SCOPE_EXACT_FILE_SET then
                   Inr (file_set_scope sha kind raw (rq_files rq))
                 else if scope_type = SCOPE_EXACT_VERIFY_COMMAND_SET then
                   verify_command_set_scope kind raw
                 else Inr (backend_safe_kind_scope kind raw)))
      | _ \<Rightarrow> Inr (unsupported ''this approval did not include an exact safe scope.''))"

section \<open>What a key identifies\<close>

lemma json_sort_items_eq:
  assumes "json_sort (PDict a) = json_sort (PDict b)"
    and "distinct (map fst a)" "distinct (map fst b)"
  shows "json_sort (dget a k) = json_sort (dget b k)"
proof -
  let ?g = "\<lambda>kv. (fst kv, json_sort (snd kv))"
  let ?f = "\<lambda>kv. key_text (fst kv)"
  have "set (sort_key ?f (map ?g a)) = set (sort_key ?f (map ?g b))"
    using assms(1) by (simp only: json_sort.simps pyval.inject)
  then have "set (map ?g a) = set (map ?g b)" by (simp only: set_sort)
  moreover have "distinct (map fst (map ?g a))" "distinct (map fst (map ?g b))"
    using assms(2,3) by (simp_all add: o_def)
  ultimately have "map_of (map ?g a) = map_of (map ?g b)"
    by (simp only: map_of_inject_set)
  then have m: "map_of (map ?g a) (KStr k) = map_of (map ?g b) (KStr k)" by simp
  have g: "map_of (map ?g d) (KStr k) = map_option json_sort (map_of d (KStr k))" for d
    by (induction d) auto
  show ?thesis using m unfolding g dget_def by (auto split: option.splits)
qed

lemma scope_key_fields:
  assumes "json_enc True (json_sort (PDict a)) = json_enc True (json_sort (PDict b))"
    and "json_wf (PDict a)" "json_wf (PDict b)"
  shows "json_sort (dget a k) = json_sort (dget b k)"
proof (rule json_sort_items_eq)
  show "json_sort (PDict a) = json_sort (PDict b)"
    using assms(1) json_enc_inject [OF json_sort_wf [OF assms(2)] json_sort_wf [OF assms(3)]] by blast
qed (use assms(2,3) in simp_all)

lemma json_sort_strs [simp]: "map (json_sort \<circ> PStr) xs = map PStr xs"
  by simp

lemma map_PStr_inject: "map PStr xs = map PStr ys \<longleftrightarrow> xs = ys"
  by (metis list.inj_map_strong pyval.inject(4))

text \<open>The fields of the four supported scopes.\<close>

lemma unsupported_not [simp]: "\<not> sc_supported (unsupported w)"
  by (simp add: unsupported_def)

definition command_scope_dict :: "string \<Rightarrow> string \<Rightarrow> (pykey \<times> pyval) list" where
  "command_scope_dict kind h =
     [(KStr ''type'', PStr SCOPE_EXACT_COMMAND_HASH), (KStr ''algorithm'', PStr ''sha256''),
      (KStr ''kind'', PStr kind), (KStr ''command_hash'', PStr h)]"

definition file_scope_dict ::
    "string \<Rightarrow> string \<Rightarrow> string \<Rightarrow> string list \<Rightarrow> (pykey \<times> pyval) list" where
  "file_scope_dict kind operation h files =
     [(KStr ''type'', PStr SCOPE_EXACT_FILE_SET), (KStr ''algorithm'', PStr ''sha256''),
      (KStr ''kind'', PStr kind), (KStr ''operation'', PStr operation),
      (KStr ''files_hash'', PStr h), (KStr ''file_count'', PInt (int (length files))),
      (KStr ''files'', PList (map PStr files))]"

definition verify_scope_dict :: "string \<Rightarrow> string \<Rightarrow> int \<Rightarrow> (pykey \<times> pyval) list" where
  "verify_scope_dict kind h n =
     [(KStr ''type'', PStr SCOPE_EXACT_VERIFY_COMMAND_SET), (KStr ''algorithm'', PStr ''sha256''),
      (KStr ''kind'', PStr kind), (KStr ''commands_hash'', PStr h), (KStr ''command_count'', PInt n)]"

definition safe_kind_scope_dict :: "string \<Rightarrow> (pykey \<times> pyval) list" where
  "safe_kind_scope_dict kind =
     [(KStr ''type'', PStr SCOPE_EXPLICIT_BACKEND_SAFE_KIND), (KStr ''kind'', PStr kind),
      (KStr ''safe_kind'', PStr kind)]"

lemmas scope_dict_defs = command_scope_dict_def file_scope_dict_def verify_scope_dict_def
  safe_kind_scope_dict_def

lemma scope_dicts_wf [simp]:
  "json_wf (PDict (command_scope_dict kind h))" "json_wf (PDict (file_scope_dict kind op h files))"
  "json_wf (PDict (verify_scope_dict kind h n))" "json_wf (PDict (safe_kind_scope_dict kind))"
  by (simp_all add: scope_dict_defs is_str_key_def list_all_iff)

lemma scope_dicts_kind [simp]:
  "dget (command_scope_dict kind h) ''kind'' = PStr kind"
  "dget (file_scope_dict kind op h files) ''kind'' = PStr kind"
  "dget (verify_scope_dict kind h n) ''kind'' = PStr kind"
  "dget (safe_kind_scope_dict kind) ''kind'' = PStr kind"
  by (simp_all add: scope_dict_defs)

lemma scope_dicts_type [simp]:
  "dget (command_scope_dict kind h) ''type'' = PStr SCOPE_EXACT_COMMAND_HASH"
  "dget (file_scope_dict kind op h files) ''type'' = PStr SCOPE_EXACT_FILE_SET"
  "dget (verify_scope_dict kind h n) ''type'' = PStr SCOPE_EXACT_VERIFY_COMMAND_SET"
  "dget (safe_kind_scope_dict kind) ''type'' = PStr SCOPE_EXPLICIT_BACKEND_SAFE_KIND"
  by (simp_all add: scope_dict_defs)

lemma command_hash_scope_supported:
  assumes "sc_supported (command_hash_scope sha kind raw command)"
  shows "\<exists>h. command_hash_scope sha kind raw command = supported_scope (command_scope_dict kind h) \<and>
    (command \<noteq> PNone \<longrightarrow> h = sha (py_str command))"
  using assms by (auto simp: command_hash_scope_def Let_def scope_dict_defs split: if_splits)

lemma file_set_scope_supported:
  assumes "sc_supported (file_set_scope sha kind raw files)"
  shows "\<exists>op h. file_set_scope sha kind raw files =
      supported_scope (file_scope_dict kind op h (normalize_files (elems_of files))) \<and>
    normalize_files (elems_of files) \<noteq> [] \<and> h = sha256_json sha (normalize_files (elems_of files))"
  using assms by (auto simp: file_set_scope_def Let_def scope_dict_defs split: if_splits)

lemma verify_command_set_scope_supported:
  assumes "verify_command_set_scope kind raw = Inr s" "sc_supported s"
  shows "\<exists>h n. s = supported_scope (verify_scope_dict kind h n) \<and> 0 < n"
proof -
  have pos: "positive_int v = Inr (Some n) \<Longrightarrow> 0 < n" for v n
    by (auto simp: positive_int_def split: pyval.splits sum.splits py_exc.splits if_splits)
  show ?thesis
    using assms
    by (auto simp: verify_command_set_scope_def Let_def scope_dict_defs res_simps dest!: pos
        split: if_splits option.splits)
qed

lemma backend_safe_kind_scope_supported:
  assumes "sc_supported (backend_safe_kind_scope kind raw)"
  shows "backend_safe_kind_scope kind raw = supported_scope (safe_kind_scope_dict kind)"
  using assms by (auto simp: backend_safe_kind_scope_def Let_def scope_dict_defs split: if_splits)

text \<open>Every supported scope is one of four, chosen by the kind of the request.\<close>

lemma approval_scope_supported:
  assumes "approval_session_scope_for_request sha rq = Inr s" "sc_supported s"
  obtains (command) h where "is_command_like_kind (request_kind rq)"
      "s = supported_scope (command_scope_dict (request_kind rq) h)"
      "rq_command rq \<noteq> PNone \<Longrightarrow> h = sha (py_str (rq_command rq))"
  | (verify) h n where "\<not> is_command_like_kind (request_kind rq)" "request_kind rq = ''verify_run''"
      "s = supported_scope (verify_scope_dict (request_kind rq) h n)" "0 < n"
  | (fileset) op h where "\<not> is_command_like_kind (request_kind rq)" "request_kind rq \<noteq> ''verify_run''"
      "request_kind rq \<in> set FILE_SCOPE_KINDS"
      "normalize_files (elems_of (rq_files rq)) \<noteq> []"
      "s = supported_scope (file_scope_dict (request_kind rq) op h (normalize_files (elems_of (rq_files rq))))"
  | (safe_kind) "\<not> is_command_like_kind (request_kind rq)" "request_kind rq \<noteq> ''verify_run''"
      "request_kind rq \<notin> set FILE_SCOPE_KINDS"
      "s = supported_scope (safe_kind_scope_dict (request_kind rq))"
proof -
  let ?k = "request_kind rq"
  obtain raw where raw: "raw_scope_of rq = PDict raw"
    using assms by (cases "raw_scope_of rq") (auto simp: approval_session_scope_for_request_def Let_def)
  let ?t = "scope_type_of raw"
  have t: "?t \<in> set SUPPORTED_APPROVAL_SCOPES" "scope_type_refusal ?k ?t = None"
    using assms raw
    by (auto simp: approval_session_scope_for_request_def Let_def split: if_splits option.splits)
  note s = assms(1) [unfolded approval_session_scope_for_request_def raw Let_def pyval.case]
  consider (c1) "is_command_like_kind ?k" "?t = SCOPE_EXACT_COMMAND_HASH"
    | (c2) "\<not> is_command_like_kind ?k" "?k = ''verify_run''" "?t = SCOPE_EXACT_VERIFY_COMMAND_SET"
    | (c3) "\<not> is_command_like_kind ?k" "?k \<noteq> ''verify_run''" "?k \<in> set FILE_SCOPE_KINDS"
        "?t = SCOPE_EXACT_FILE_SET"
    | (c4) "\<not> is_command_like_kind ?k" "?k \<noteq> ''verify_run''" "?k \<notin> set FILE_SCOPE_KINDS"
        "?t = SCOPE_EXPLICIT_BACKEND_SAFE_KIND"
    using t(2) by (auto simp: scope_type_refusal_def split: if_splits)
  then show thesis
  proof cases
    case c1
    then have "command_hash_scope sha ?k raw (rq_command rq) = s"
      using s t by (simp split: if_splits)
    then show ?thesis
      using assms(2) command_hash_scope_supported [of sha ?k raw "rq_command rq"] command c1 by auto
  next
    case c2
    then have "verify_command_set_scope ?k raw = Inr s"
      using s t by (simp add: scope_type_defs)
    then show ?thesis
      using assms(2) verify_command_set_scope_supported verify c2 by blast
  next
    case c3
    then have "file_set_scope sha ?k raw (rq_files rq) = s"
      using s t by (simp add: scope_type_defs)
    then show ?thesis
      using assms(2) file_set_scope_supported [of sha ?k raw "rq_files rq"] fileset c3 by auto
  next
    case c4
    then have "backend_safe_kind_scope ?k raw = s"
      using s t by (simp add: scope_type_defs)
    then show ?thesis
      using assms(2) backend_safe_kind_scope_supported [of ?k raw] safe_kind c4 by auto
  qed
qed

lemma scope_kind_classes:
  "kind \<in> set FILE_SCOPE_KINDS \<Longrightarrow> \<not> is_command_like_kind kind \<and> kind \<noteq> ''verify_run''"
  "\<not> is_command_like_kind ''verify_run''"
  by (auto simp: FILE_SCOPE_KINDS_def is_command_like_kind_def COMMAND_SCOPE_KINDS_def)

lemma approval_key_dict:
  assumes "approval_session_scope_for_request sha rq = Inr s" "sc_supported s"
  obtains d where "sc_key s = Some (json_enc True (json_sort (PDict d)))" "json_wf (PDict d)"
    "dget d ''kind'' = PStr (request_kind rq)"
    "request_kind rq \<in> set FILE_SCOPE_KINDS \<longrightarrow>
       dget d ''files'' = PList (map PStr (normalize_files (elems_of (rq_files rq))))"
    "is_command_like_kind (request_kind rq) \<and> rq_command rq \<noteq> PNone \<longrightarrow>
       dget d ''command_hash'' = PStr (sha (py_str (rq_command rq)))"
  using assms
proof (cases rule: approval_scope_supported)
  case (command h)
  then show ?thesis
    using that [of "command_scope_dict (request_kind rq) h"] scope_kind_classes
    by (auto simp: supported_scope_def command_scope_dict_def is_str_key_def simp del: json_sort.simps json_enc.simps)
next
  case (verify h n)
  then show ?thesis
    using that [of "verify_scope_dict (request_kind rq) h n"] scope_kind_classes
    by (simp add: supported_scope_def FILE_SCOPE_KINDS_def del: json_sort.simps json_enc.simps json_wf.simps)
next
  case (fileset op h)
  then show ?thesis
    using that [of "file_scope_dict (request_kind rq) op h (normalize_files (elems_of (rq_files rq)))"]
    by (simp add: supported_scope_def del: json_sort.simps json_enc.simps json_wf.simps)
      (simp add: file_scope_dict_def)
next
  case safe_kind
  then show ?thesis
    using that [of "safe_kind_scope_dict (request_kind rq)"]
    by (simp add: supported_scope_def del: json_sort.simps json_enc.simps json_wf.simps)
qed

text \<open>
  A remembered "allow for session" never widens to other files: when two requests get
  supported scopes with the same key, they have the same kind, and if that is a file kind they
  name the same set of files.
\<close>

theorem session_key_binds_files:
  assumes "approval_session_scope_for_request sha rq1 = Inr s1" and "sc_supported s1"
    and "approval_session_scope_for_request sha rq2 = Inr s2" and "sc_supported s2"
    and "sc_key s1 = sc_key s2"
  shows "request_kind rq1 = request_kind rq2 \<and>
    (request_kind rq1 \<in> set FILE_SCOPE_KINDS \<longrightarrow>
       normalize_files (elems_of (rq_files rq1)) = normalize_files (elems_of (rq_files rq2)))"
proof -
  obtain a where a: "sc_key s1 = Some (json_enc True (json_sort (PDict a)))" "json_wf (PDict a)"
      "dget a ''kind'' = PStr (request_kind rq1)"
      "request_kind rq1 \<in> set FILE_SCOPE_KINDS \<longrightarrow>
         dget a ''files'' = PList (map PStr (normalize_files (elems_of (rq_files rq1))))"
    using assms(1,2) by (rule approval_key_dict) blast
  obtain b where b: "sc_key s2 = Some (json_enc True (json_sort (PDict b)))" "json_wf (PDict b)"
      "dget b ''kind'' = PStr (request_kind rq2)"
      "request_kind rq2 \<in> set FILE_SCOPE_KINDS \<longrightarrow>
         dget b ''files'' = PList (map PStr (normalize_files (elems_of (rq_files rq2))))"
    using assms(3,4) by (rule approval_key_dict) blast
  have eq: "json_sort (dget a k) = json_sort (dget b k)" for k
    using a(1) b(1) assms(5) by (intro scope_key_fields [OF _ a(2) b(2)]) simp
  have k: "request_kind rq1 = request_kind rq2" using eq [of "''kind''"] a(3) b(3) by simp
  show ?thesis using k eq [of "''files''"] a(4) b(4) by (auto simp: map_PStr_inject)
qed

text \<open>
  A remembered "allow for session" never covers another command: two command requests with
  the same key are of the same kind and, where both carry a command text, the two texts have the same
  SHA-256 digest.
\<close>

theorem session_key_binds_command:
  assumes "approval_session_scope_for_request sha rq1 = Inr s1" and "sc_supported s1"
    and "approval_session_scope_for_request sha rq2 = Inr s2" and "sc_supported s2"
    and "sc_key s1 = sc_key s2" and "is_command_like_kind (request_kind rq1)"
    and "rq_command rq1 \<noteq> PNone"
  shows "request_kind rq1 = request_kind rq2 \<and>
    (rq_command rq2 \<noteq> PNone \<longrightarrow> sha (py_str (rq_command rq1)) = sha (py_str (rq_command rq2)))"
proof -
  obtain a where a: "sc_key s1 = Some (json_enc True (json_sort (PDict a)))" "json_wf (PDict a)"
      "dget a ''kind'' = PStr (request_kind rq1)"
      "is_command_like_kind (request_kind rq1) \<and> rq_command rq1 \<noteq> PNone \<longrightarrow>
         dget a ''command_hash'' = PStr (sha (py_str (rq_command rq1)))"
    using assms(1,2) by (rule approval_key_dict) blast
  obtain b where b: "sc_key s2 = Some (json_enc True (json_sort (PDict b)))" "json_wf (PDict b)"
      "dget b ''kind'' = PStr (request_kind rq2)"
      "is_command_like_kind (request_kind rq2) \<and> rq_command rq2 \<noteq> PNone \<longrightarrow>
         dget b ''command_hash'' = PStr (sha (py_str (rq_command rq2)))"
    using assms(3,4) by (rule approval_key_dict) blast
  have eq: "json_sort (dget a k) = json_sort (dget b k)" for k
    using a(1) b(1) assms(5) by (intro scope_key_fields [OF _ a(2) b(2)]) simp
  have k: "request_kind rq1 = request_kind rq2" using eq [of "''kind''"] a(3) b(3) by simp
  then show ?thesis using eq [of "''command_hash''"] a(4) b(4) assms(6,7) by auto
qed

text \<open>Concrete requests; the digest is a hexadecimal stand-in of the right shape.\<close>

definition sample_sha :: "string \<Rightarrow> string" where
  "sample_sha s = take 64 (concat (map (\<lambda>c. [hex_digit (code c div 16), hex_digit (code c mod 16)]) s)
     @ replicate 64 CHR ''0'')"

definition delete_request :: "pyval list \<Rightarrow> approval_request" where
  "delete_request files = \<lparr>rq_kind = PStr ''fs_delete'', rq_files = PList files, rq_command = PNone,
     rq_metadata = PDict [], rq_scope = PDict (exact_file_set_scope sample_sha files ''fs_delete'')\<rparr>"

definition shell_request :: "string \<Rightarrow> string \<Rightarrow> approval_request" where
  "shell_request command reason = \<lparr>rq_kind = PStr ''shell_run'', rq_files = PList [],
     rq_command = PStr command, rq_metadata = PDict [(KStr ''reason'', PStr reason)],
     rq_scope = PDict (exact_command_scope sample_sha command ''shell_run'')\<rparr>"

definition same_session_key :: "approval_request \<Rightarrow> approval_request \<Rightarrow> bool" where
  "same_session_key a b =
     (case (approval_session_scope_for_request sample_sha a, approval_session_scope_for_request sample_sha b) of
        (Inr s, Inr s') \<Rightarrow> sc_supported s \<and> sc_supported s' \<and> sc_key s = sc_key s'
      | _ \<Rightarrow> False)"

lemma same_session_keyD:
  assumes "same_session_key a b"
  obtains s s' where "approval_session_scope_for_request sample_sha a = Inr s" "sc_supported s"
    "approval_session_scope_for_request sample_sha b = Inr s'" "sc_supported s'" "sc_key s = sc_key s'"
  using assms by (auto simp: same_session_key_def split: sum.splits)

theorem session_key_binds_files_witness:
  "normalize_files [PStr ''a/x.txt'', PStr ''b'', PStr '' b''] =
   normalize_files [PStr ''b'', PStr (''a'' @ [CHR 0x5C] @ ''x.txt'')]"
proof -
  have "same_session_key (delete_request [PStr ''a/x.txt'', PStr ''b'', PStr '' b''])
      (delete_request [PStr ''b'', PStr (''a'' @ [CHR 0x5C] @ ''x.txt'')])"
    by code_simp
  then obtain s s' where s: "approval_session_scope_for_request sample_sha
        (delete_request [PStr ''a/x.txt'', PStr ''b'', PStr '' b'']) = Inr s" "sc_supported s"
      "approval_session_scope_for_request sample_sha
        (delete_request [PStr ''b'', PStr (''a'' @ [CHR 0x5C] @ ''x.txt'')]) = Inr s'" "sc_supported s'"
      "sc_key s = sc_key s'"
    by (rule same_session_keyD)
  show ?thesis
    using session_key_binds_files [OF s]
    by (simp add: delete_request_def request_kind_def str_or_def py_str_def FILE_SCOPE_KINDS_def)
qed

theorem session_key_binds_command_witness:
  "request_kind (shell_request ''ls -l'' ''a'') = request_kind (shell_request ''ls -l'' ''b'')"
proof -
  have "same_session_key (shell_request ''ls -l'' ''a'') (shell_request ''ls -l'' ''b'')"
    by code_simp
  then obtain s s' where s: "approval_session_scope_for_request sample_sha
        (shell_request ''ls -l'' ''a'') = Inr s" "sc_supported s"
      "approval_session_scope_for_request sample_sha (shell_request ''ls -l'' ''b'') = Inr s'"
      "sc_supported s'" "sc_key s = sc_key s'"
    by (rule same_session_keyD)
  have "is_command_like_kind (request_kind (shell_request ''ls -l'' ''a''))" by code_simp
  then show ?thesis
    using session_key_binds_command [OF s] by (simp add: shell_request_def)
qed

section \<open>Scopes the backend builds are accepted\<close>

lemma hex_strip_lower: "sha256_pattern h \<Longrightarrow> py_lower (py_strip h) = h \<and> h \<noteq> []"
proof -
  assume h: "sha256_pattern h"
  have c: "\<not> py_is_space c \<and> lower_char c = c" if "c \<in> set h" for c
    using h that by (auto simp: sha256_pattern_def list_all_iff is_digit_def py_is_space_def
        lower_char_def Let_def)
  have d: "dropWhile py_is_space xs = xs" if "\<forall>x\<in>set xs. \<not> py_is_space x" for xs
    using that by (cases xs) auto
  have "py_strip h = h" using c by (simp add: py_strip_def py_lstrip_def py_rstrip_def d)
  moreover have "map lower_char h = h" using c by (simp add: map_idI)
  ultimately show ?thesis using h by (auto simp: py_lower_def sha256_pattern_def)
qed

text \<open>
  A request that carries the scope the backend builds for its own command, or for its own
  files, is session-approvable: the scope is supported and its key depends only on the request.
  (SHA-256 hex digests are 64 lower-case hexadecimal digits.)
\<close>

theorem exact_scopes_are_supported:
  assumes "sha256_pattern (sha command)"
    and "sha256_pattern (sha256_json sha (normalize_files files))"
    and "normalize_files files \<noteq> []"
  shows "(\<forall>kind. is_command_like_kind kind \<longrightarrow>
      approval_session_scope_for_request sha
        \<lparr>rq_kind = PStr kind, rq_files = PList [], rq_command = PStr command, rq_metadata = PDict [],
         rq_scope = PDict (exact_command_scope sha command kind)\<rparr> =
      Inr (supported_scope (command_scope_dict kind (sha command)))) \<and>
    (\<forall>kind\<in>set FILE_SCOPE_KINDS.
      approval_session_scope_for_request sha
        \<lparr>rq_kind = PStr kind, rq_files = PList files, rq_command = PNone, rq_metadata = PDict [],
         rq_scope = PDict (exact_file_set_scope sha files kind)\<rparr> =
      Inr (supported_scope (file_scope_dict kind kind
        (sha256_json sha (normalize_files files)) (normalize_files files))))"
proof -
  have t: "py_strip SCOPE_EXACT_COMMAND_HASH = SCOPE_EXACT_COMMAND_HASH"
    "py_strip SCOPE_EXACT_FILE_SET = SCOPE_EXACT_FILE_SET"
    "SCOPE_EXACT_COMMAND_HASH \<noteq> []" "SCOPE_EXACT_FILE_SET \<noteq> []"
    by code_simp+
  have ne: "kind \<noteq> []" if "is_command_like_kind kind \<or> kind \<in> set FILE_SCOPE_KINDS" for kind
    using that by (auto simp: is_command_like_kind_def COMMAND_SCOPE_KINDS_def FILE_SCOPE_KINDS_def)
  have strs: "str_or (PStr s) d = (if s = [] then d else s)" for s d
    by (simp add: str_or_def py_str_def)
  show ?thesis
    using hex_strip_lower [OF assms(1)] hex_strip_lower [OF assms(2)] assms ne t scope_kind_classes
    by (auto simp: approval_session_scope_for_request_def Let_def raw_scope_of_def scope_type_of_def
        exact_command_scope_def exact_file_set_scope_def request_kind_def strs py_str_def
        scope_type_refusal_def SUPPORTED_APPROVAL_SCOPES_def command_hash_scope_def file_set_scope_def
        scope_dict_defs) (auto simp: scope_type_defs)
qed

section \<open>Directory grants confine\<close>

lemma parent_dir_prefix:
  assumes "CHR ''/'' \<in> set t"
  shows "\<exists>name. t = parent_dir t @ CHR ''/'' # name \<and> CHR ''/'' \<notin> set name"
proof -
  let ?tw = "takeWhile (\<lambda>c. c \<noteq> CHR ''/'') (rev t)"
  let ?dw = "dropWhile (\<lambda>c. c \<noteq> CHR ''/'') (rev t)"
  have dw: "?dw \<noteq> []" "hd ?dw = CHR ''/''"
    using assms hd_dropWhile [of "\<lambda>c. c \<noteq> CHR ''/''" "rev t"] by (auto simp: dropWhile_eq_Nil_conv)
  have "rev t = ?tw @ CHR ''/'' # tl ?dw"
    using dw takeWhile_dropWhile_id [of "\<lambda>c. c \<noteq> CHR ''/''" "rev t"]
    by (cases ?dw) simp_all
  then have "rev (rev t) = rev (?tw @ CHR ''/'' # tl ?dw)" by (rule arg_cong)
  then have "t = rev (tl ?dw) @ CHR ''/'' # rev ?tw" by simp
  moreover have "CHR ''/'' \<notin> set (rev ?tw)" by (auto dest: set_takeWhileD)
  moreover have "parent_dir t = rev (tl ?dw)" using assms by (simp add: parent_dir_def)
  ultimately show ?thesis by metis
qed

text \<open>A path under a directory, without leaving it: its segments extend the directory's.\<close>

definition under_dir :: "string \<Rightarrow> string \<Rightarrow> bool" where
  "under_dir directory t \<longleftrightarrow>
     (\<exists>segs. py_split CHR ''/'' t = py_split CHR ''/'' directory @ segs \<and> segs \<noteq> [] \<and>
       list_all (\<lambda>g. g \<notin> {'''', ''.'', ''..''}) (py_split CHR ''/'' directory @ segs))"

lemma under_dirI: "plain_relative_file_path (d @ CHR ''/'' # r) \<Longrightarrow> under_dir d (d @ CHR ''/'' # r)"
  by (auto simp: under_dir_def plain_relative_file_path_def py_split_append)

text \<open>
  A folder grant covers exactly what was shown: the directory offered for a request is not the
  workspace root and holds every file of that request directly; and a later request that matches
  stored grants is of a grantable kind, was not marked as excluded, and each of its files lies
  under the directory of a grant for its own kind, with no empty, dot or dot-dot segments.
\<close>

theorem dir_grants_confine:
  assumes "approval_dir_grant_candidate env rq = Some g"
    and "request_matches_dir_grants env2 rq2 ((str_or (rq_kind rq) [], g) # grants)"
    and "\<And>x. x \<in> set grants \<Longrightarrow> \<exists>d. snd x = d @ ''/''"
  shows "(\<exists>d. d \<noteq> [] \<and> g = d @ ''/'' \<and>
      (\<forall>t\<in>set (normalize_files (elems_of (rq_files rq))). parent_dir t = d \<and> under_dir d t)) \<and>
    str_or (rq_kind rq2) [] \<in> set DIR_GRANT_KINDS \<and> \<not> session_disabled rq2 \<and>
    (\<forall>t\<in>set (normalize_files (elems_of (rq_files rq2))). \<exists>x d.
       x \<in> set ((str_or (rq_kind rq) [], g) # grants) \<and> fst x = str_or (rq_kind rq2) [] \<and>
       snd x = d @ ''/'' \<and> under_dir d t)"
proof -
  let ?n = "normalize_files (elems_of (rq_files rq))"
  let ?gs = "(str_or (rq_kind rq) [], g) # grants"
  obtain d where d: "g = d @ ''/''" "d \<noteq> []" "dedup (map parent_dir ?n) = [d]"
      "list_all plain_relative_file_path ?n"
    using assms(1)
    by (auto simp: approval_dir_grant_candidate_def Let_def split: if_splits list.splits)
  have one: "parent_dir t = d \<and> under_dir d t" if t: "t \<in> set ?n" for t
  proof -
    have "parent_dir t \<in> set (dedup (map parent_dir ?n))" using t by simp
    then have p: "parent_dir t = d" using d(3) by simp
    then have "CHR ''/'' \<in> set t" using d(2) by (auto simp: parent_dir_def split: if_splits)
    then obtain name where "t = d @ CHR ''/'' # name" using parent_dir_prefix p by blast
    then show ?thesis using under_dirI d(4) t p by (auto simp: list_all_iff)
  qed
  have k: "str_or (rq_kind rq2) [] \<in> set DIR_GRANT_KINDS" "\<not> session_disabled rq2"
    using assms(2) unfolding request_matches_dir_grants_def Let_def by (auto split: if_splits)
  have m: "list_all (\<lambda>t. plain_relative_file_path t \<and> list_ex (py_startswith t)
      (map snd (filter (\<lambda>g. fst g = str_or (rq_kind rq2) []) ?gs))) (normalize_files (elems_of (rq_files rq2)))"
    using assms(2) unfolding request_matches_dir_grants_def Let_def
    by (simp only: if_False if_True split: if_split_asm)
  have two: "\<exists>x d. x \<in> set ?gs \<and> fst x = str_or (rq_kind rq2) [] \<and> snd x = d @ ''/'' \<and> under_dir d t"
    if t: "t \<in> set (normalize_files (elems_of (rq_files rq2)))" for t
  proof -
    have t2: "plain_relative_file_path t"
        "list_ex (py_startswith t) (map snd (filter (\<lambda>g. fst g = str_or (rq_kind rq2) []) ?gs))"
      using m t by (simp_all only: list_all_iff)
    then obtain x where x: "x \<in> set ?gs" "fst x = str_or (rq_kind rq2) []" "py_startswith t (snd x)"
      unfolding list_ex_iff set_map set_filter by blast
    moreover have "\<exists>e. snd x = e @ ''/''" using x(1) assms(3) d(1) by (metis set_ConsD snd_conv)
    then obtain e where e: "snd x = e @ ''/''" by blast
    moreover obtain r where "t = e @ CHR ''/'' # r"
      using x(3) e by (auto simp: py_startswith_append)
    ultimately show ?thesis using under_dirI t2(1) by blast
  qed
  show ?thesis using d(1,2) one k two by blast
qed

theorem exact_scopes_are_supported_witness:
  "approval_session_scope_for_request sample_sha (shell_request ''ls'' []\<lparr>rq_metadata := PDict []\<rparr>) =
     Inr (supported_scope (command_scope_dict ''shell_run'' (sample_sha ''ls'')))"
proof -
  have "sha256_pattern (sample_sha ''ls'')"
    "sha256_pattern (sha256_json sample_sha (normalize_files [PStr ''a'']))"
    "normalize_files [PStr ''a''] \<noteq> []" "is_command_like_kind ''shell_run''"
    by code_simp+
  then show ?thesis
    using exact_scopes_are_supported [of sample_sha "''ls''" "[PStr ''a'']"]
    by (simp add: shell_request_def)
qed

theorem dir_grants_confine_witness:
  "\<exists>d. d \<noteq> [] \<and> ''build/out/'' = d @ ''/''"
proof -
  have a: "approval_dir_grant_candidate '''' (delete_request [PStr ''build/out/a.o'', PStr ''build/out/b.o'']) =
      Some ''build/out/''"
    by code_simp
  have k: "str_or (rq_kind (delete_request fs)) [] = ''fs_delete''" for fs
    by (simp add: delete_request_def str_or_def py_str_def)
  have b: "request_matches_dir_grants ''1'' (delete_request [PStr ''build/out/x/c.o''])
      [(''fs_delete'', ''build/out/'')]"
    by code_simp
  show ?thesis using dir_grants_confine [OF a, of "''1''" _ "[]"] b unfolding k by auto
qed

end
