(* ===== verification/ApprovalBroker.thy ===== *)
theory ApprovalBroker
  imports ApprovalScope Machines
begin

text \<open>
  The approval broker of the IDE bridge, \<open>ApprovalBroker\<close> of \<open>ide/approvals.py\<close>.

  A \<open>PendingApproval\<close> is an object that the broker's table, the thread waiting in \<open>request\<close> and
  the thread calling \<open>resolve\<close> share, and the waiter keeps it after the table dropped it. So the
  objects live in a store: \<open>objects\<close> is the list of all objects created, a reference is an index,
  \<open>approvals\<close> is the table from ids to references in insertion order, \<open>allowances\<close> the set of
  remembered (session, key) pairs. Each block under the lock is one function; \<open>request\<close> is split
  where it releases the lock. Clock readings are arguments. The text shown to the user (previews,
  redaction) is not part of the state and is left out.
\<close>

record approval_decision =
  dec_allow :: bool
  dec_session :: bool

definition deny :: approval_decision where
  "deny = \<lparr>dec_allow = False, dec_session = False\<rparr>"

datatype approval_state = Pending | Resolved | Expired

record pending_approval =
  pa_id :: string
  pa_session :: string
  pa_deadline :: rat
  pa_done :: bool
  pa_decision :: "approval_decision option"
  pa_state :: approval_state
  pa_supported :: bool
  pa_scope :: "pyval option"
  pa_key :: "string option"
  pa_warning :: "string option"
  pa_resolved_at :: "rat option"

record broker =
  timeout_seconds :: rat
  retention_seconds :: rat
  max_resolved :: int
  objects :: "pending_approval list"
  approvals :: "(string \<times> nat) list"
  allowances :: "(string \<times> string) list"

definition new_broker :: "rat \<Rightarrow> rat \<Rightarrow> int \<Rightarrow> broker" where
  "new_broker timeout retention max_res =
     \<lparr>timeout_seconds = max (1 / 100) timeout, retention_seconds = max 0 retention,
      max_resolved = max 0 max_res, objects = [], approvals = [], allowances = []\<rparr>"

datatype protocol_error = ProtocolError string string

definition approval_id_ok :: "string \<Rightarrow> bool" where
  "approval_id_ok s = (s \<noteq> [] \<and> length s \<le> 128 \<and>
     list_all (\<lambda>c. is_ascii_alnum c \<or> c \<in> set ''_.:-'') s)"

definition validate_approval_id :: "string \<Rightarrow> protocol_error + unit" where
  "validate_approval_id s =
     (if s = [] \<or> length s > 128
      then Inl (ProtocolError ''invalid_approval_id'' ''approval_id length is invalid.'')
      else if \<not> list_all (\<lambda>c. is_ascii_alnum c \<or> c \<in> set ''_.:-'') s
      then Inl (ProtocolError ''invalid_approval_id'' ''approval_id contains unsupported characters.'')
      else Inr ())"

definition allowance_key :: "string \<Rightarrow> session_scope \<Rightarrow> (string \<times> string) option" where
  "allowance_key sid info =
     (if \<not> sc_supported info then None
      else case sc_key info of None \<Rightarrow> None | Some k \<Rightarrow> Some (sid, k))"

definition set_object :: "nat \<Rightarrow> pending_approval \<Rightarrow> broker \<Rightarrow> broker" where
  "set_object r p b = b\<lparr>objects := (objects b)[r := p]\<rparr>"

definition add_allowance :: "string \<times> string \<Rightarrow> broker \<Rightarrow> broker" where
  "add_allowance a b = (if a \<in> set (allowances b) then b else b\<lparr>allowances := a # allowances b\<rparr>)"

section \<open>Pruning\<close>

definition is_pending :: "broker \<Rightarrow> nat \<Rightarrow> bool" where
  "is_pending b r = (pa_state (objects b ! r) = Pending)"

definition prune_stale :: "rat \<Rightarrow> broker \<Rightarrow> broker" where
  "prune_stale now b =
     (if retention_seconds b > 0
      then b\<lparr>approvals := filter (\<lambda>(i, r). is_pending b r \<or>
             (case pa_resolved_at (objects b ! r) of
                None \<Rightarrow> True | Some tm \<Rightarrow> \<not> tm < now - retention_seconds b)) (approvals b)\<rparr>
      else b)"

text \<open>\<open>pending.resolved_at or now\<close>: zero counts as missing.\<close>

definition resolved_time :: "rat \<Rightarrow> pending_approval \<Rightarrow> rat" where
  "resolved_time now p =
     (case pa_resolved_at p of None \<Rightarrow> now | Some tm \<Rightarrow> if tm = 0 then now else tm)"

definition resolved_entries :: "rat \<Rightarrow> broker \<Rightarrow> (rat \<times> string) list" where
  "resolved_entries now b =
     map (\<lambda>(i, r). (resolved_time now (objects b ! r), i))
       (filter (\<lambda>(i, r). \<not> is_pending b r) (approvals b))"

definition prune_overflow :: "rat \<Rightarrow> broker \<Rightarrow> broker" where
  "prune_overflow now b =
     (let resolved = resolved_entries now b;
          overflow = int (length resolved) - max_resolved b in
      if overflow \<le> 0 then b
      else (let doomed = map snd (take (nat overflow) (sort resolved)) in
            b\<lparr>approvals := filter (\<lambda>(i, r). i \<notin> set doomed) (approvals b)\<rparr>))"

definition prune_locked :: "rat \<Rightarrow> broker \<Rightarrow> broker" where
  "prune_locked now b = prune_overflow now (prune_stale now b)"

section \<open>Requests\<close>

text \<open>The first locked block of \<open>request\<close>: an existing allowance answers at once.\<close>

definition request_check ::
    "string \<Rightarrow> session_scope \<Rightarrow> rat \<Rightarrow> broker \<Rightarrow> approval_decision option \<times> broker" where
  "request_check sid info now b =
     (let b' = prune_locked now b in
      case allowance_key sid info of
        None \<Rightarrow> (None, b')
      | Some a \<Rightarrow>
          (if a \<in> set (allowances b')
           then (Some \<lparr>dec_allow = True, dec_session = True\<rparr>, b') else (None, b')))"

text \<open>Creating the pending object and entering it in the table.\<close>

definition request_register ::
    "string \<Rightarrow> string \<Rightarrow> session_scope \<Rightarrow> rat \<Rightarrow> broker \<Rightarrow> nat \<times> broker" where
  "request_register approval_id sid info now b =
     (let r = length (objects b);
          p = \<lparr>pa_id = approval_id, pa_session = sid, pa_deadline = now + timeout_seconds b,
               pa_done = False, pa_decision = None, pa_state = Pending,
               pa_supported = sc_supported info, pa_scope = sc_scope info, pa_key = sc_key info,
               pa_warning = sc_warning info, pa_resolved_at = None\<rparr> in
      (r, b\<lparr>objects := objects b @ [p], approvals := alist_put approval_id r (approvals b)\<rparr>))"

text \<open>
  The locked block after the wait timed out. Another thread may have decided the object since, so
  its state is looked at again; the caller gets a denial either way.
\<close>

definition finish_timeout :: "nat \<Rightarrow> rat \<Rightarrow> broker \<Rightarrow> approval_decision \<times> broker" where
  "finish_timeout r now b =
     (let p = objects b ! r in
      (deny,
       if pa_state p = Pending
       then prune_locked now (set_object r
              (p\<lparr>pa_state := Expired, pa_decision := Some deny, pa_resolved_at := Some now\<rparr>) b)
       else b))"

text \<open>The locked block after the wait was signalled.\<close>

definition finish_done :: "nat \<Rightarrow> rat \<Rightarrow> broker \<Rightarrow> approval_decision \<times> broker" where
  "finish_done r now b =
     (let p = objects b ! r;
          decision = (case pa_decision p of None \<Rightarrow> deny | Some d \<Rightarrow> d);
          b1 = (case pa_key p of
                  Some k \<Rightarrow> if dec_allow decision \<and> dec_session decision
                           then add_allowance (pa_session p, k) b else b
                | None \<Rightarrow> b);
          tm = (case pa_resolved_at p of None \<Rightarrow> now | Some a \<Rightarrow> a);
          b2 = set_object r (p\<lparr>pa_resolved_at := Some tm\<rparr>) b1 in
      (decision, prune_locked tm b2))"

section \<open>Resolving and clearing\<close>

record resolution =
  rs_allow :: bool
  rs_session :: bool
  rs_supported :: bool
  rs_scope :: "pyval option"
  rs_warning :: "string option"

definition downgrade_warning :: string where
  "downgrade_warning = ''Allow for session was downgraded to allow once because this approval does not have a supported exact scope.''"

text \<open>
  \<open>resolve\<close>; expiring the object is kept although the call raises. \<open>now\<close> is the reading compared
  with the deadline, \<open>now'\<close> the one recorded.
\<close>

definition resolve ::
    "string \<Rightarrow> string \<Rightarrow> bool \<Rightarrow> bool \<Rightarrow> rat \<Rightarrow> rat \<Rightarrow> broker \<Rightarrow>
     (protocol_error + resolution) \<times> broker" where
  "resolve sid approval_id allow allow_for_session now now' b =
     (case validate_approval_id approval_id of
        Inl e \<Rightarrow> (Inl e, b)
      | Inr _ \<Rightarrow>
     (case map_of (approvals b) approval_id of
        None \<Rightarrow> (Inl (ProtocolError ''approval_not_found'' ''Approval id is not pending.''), b)
      | Some r \<Rightarrow>
          let p = objects b ! r in
          if pa_session p \<noteq> sid then
            (Inl (ProtocolError ''approval_not_found'' ''Approval id is not pending for this session.''), b)
          else if pa_state p = Resolved then
            (Inl (ProtocolError ''approval_already_resolved'' ''Approval id was already resolved.''), b)
          else if pa_state p = Expired \<or> now > pa_deadline p then
            (Inl (ProtocolError ''approval_expired'' ''Approval id has expired.''),
             set_object r (p\<lparr>pa_state := Expired, pa_decision := Some deny,
                              pa_resolved_at := Some now', pa_done := True\<rparr>) b)
          else
            let effective = (allow \<and> allow_for_session \<and> pa_supported p \<and> pa_key p \<noteq> None);
                warning = (if allow \<and> allow_for_session \<and> \<not> effective
                           then (case pa_warning p of
                                   Some w \<Rightarrow> if w \<noteq> [] then Some w else Some downgrade_warning
                                 | None \<Rightarrow> Some downgrade_warning)
                           else pa_warning p);
                p' = p\<lparr>pa_warning := warning, pa_state := Resolved,
                       pa_decision := Some \<lparr>dec_allow = allow, dec_session = effective\<rparr>,
                       pa_resolved_at := Some now', pa_done := True\<rparr>;
                b1 = set_object r p' b;
                b2 = (if allow \<and> effective
                      then add_allowance (sid, case pa_key p of None \<Rightarrow> [] | Some k \<Rightarrow> k) b1 else b1) in
            (Inr \<lparr>rs_allow = allow, rs_session = effective, rs_supported = pa_supported p,
                  rs_scope = pa_scope p, rs_warning = warning\<rparr>, prune_locked now' b2)))"

definition clear_entry :: "string \<Rightarrow> rat \<Rightarrow> string \<times> nat \<Rightarrow> broker \<Rightarrow> broker" where
  "clear_entry sid now e b =
     (let p = objects b ! snd e in
      if pa_session p \<noteq> sid then b
      else
        let p' = (if pa_state p = Pending
                  then p\<lparr>pa_state := Expired, pa_decision := Some deny,
                         pa_resolved_at := Some now, pa_done := True\<rparr>
                  else p)
        in (set_object (snd e) p' b)\<lparr>approvals := alist_pop (fst e) (approvals b)\<rparr>)"

fun clear_entries :: "string \<Rightarrow> rat \<Rightarrow> (string \<times> nat) list \<Rightarrow> broker \<Rightarrow> broker" where
  "clear_entries sid now [] b = b"
| "clear_entries sid now (e # es) b = clear_entries sid now es (clear_entry sid now e b)"

definition clear_session :: "string \<Rightarrow> rat \<Rightarrow> broker \<Rightarrow> broker" where
  "clear_session sid now b =
     (let b1 = b\<lparr>allowances := filter (\<lambda>a. fst a \<noteq> sid) (allowances b)\<rparr> in
      clear_entries sid now (approvals b1) b1)"

section \<open>Interleavings\<close>

datatype broker_op =
    RequestCheck string session_scope rat
  | RequestRegister string string session_scope rat
  | FinishTimeout nat rat
  | FinishDone nat rat
  | Resolve string string bool bool rat rat
  | ClearSession string rat

text \<open>A waiter only returns from the wait normally once its object was signalled.\<close>

fun broker_apply :: "broker_op \<Rightarrow> broker \<Rightarrow> broker" where
  "broker_apply (RequestCheck sid info now) b = snd (request_check sid info now b)"
| "broker_apply (RequestRegister i sid info now) b = snd (request_register i sid info now b)"
| "broker_apply (FinishTimeout r now) b =
     (if r < length (objects b) then snd (finish_timeout r now b) else b)"
| "broker_apply (FinishDone r now) b =
     (if r < length (objects b) \<and> pa_done (objects b ! r) then snd (finish_done r now b) else b)"
| "broker_apply (Resolve sid i a s now now') b = snd (resolve sid i a s now now' b)"
| "broker_apply (ClearSession sid now) b = clear_session sid now b"

section \<open>Invariant and order\<close>

definition object_inv :: "pending_approval \<Rightarrow> bool" where
  "object_inv p =
     (case pa_state p of
        Pending \<Rightarrow> \<not> pa_done p \<and> pa_decision p = None \<and> pa_resolved_at p = None
      | Expired \<Rightarrow> pa_decision p = Some deny
      | Resolved \<Rightarrow> pa_done p \<and> pa_resolved_at p \<noteq> None \<and>
          (case pa_decision p of None \<Rightarrow> False
           | Some d \<Rightarrow> dec_session d \<longrightarrow> dec_allow d \<and> pa_supported p \<and> pa_key p \<noteq> None))"

text \<open>An object only ever moves from pending to a verdict, and keeps the verdict.\<close>

definition object_le :: "pending_approval \<Rightarrow> pending_approval \<Rightarrow> bool" where
  "object_le p p' \<longleftrightarrow>
     pa_id p' = pa_id p \<and> pa_session p' = pa_session p \<and> pa_deadline p' = pa_deadline p \<and>
     pa_supported p' = pa_supported p \<and> pa_scope p' = pa_scope p \<and> pa_key p' = pa_key p \<and>
     (pa_done p \<longrightarrow> pa_done p') \<and>
     (pa_state p \<noteq> Pending \<longrightarrow> pa_state p' = pa_state p \<and> pa_decision p' = pa_decision p)"

lemma object_le_refl: "object_le p p"
  by (simp add: object_le_def)

lemma object_le_trans: "object_le p q \<Longrightarrow> object_le q r \<Longrightarrow> object_le p r"
  by (auto simp: object_le_def)

definition broker_le :: "broker \<Rightarrow> broker \<Rightarrow> bool" where
  "broker_le b b' \<longleftrightarrow> length (objects b) \<le> length (objects b') \<and>
     (\<forall>r<length (objects b). object_le (objects b ! r) (objects b' ! r))"

lemma broker_le_refl: "broker_le b b"
  by (simp add: broker_le_def object_le_refl)

lemma broker_le_trans: "broker_le a b \<Longrightarrow> broker_le b c \<Longrightarrow> broker_le a c"
  unfolding broker_le_def by (meson object_le_trans order_less_le_trans order_trans)

text \<open>An allowance is backed by an approval that was resolved for the session.\<close>

definition backs :: "pending_approval \<Rightarrow> string \<times> string \<Rightarrow> bool" where
  "backs p a \<longleftrightarrow> pa_session p = fst a \<and> pa_key p = Some (snd a) \<and> pa_supported p \<and>
     pa_state p = Resolved \<and> pa_decision p = Some \<lparr>dec_allow = True, dec_session = True\<rparr>"

definition granted :: "broker \<Rightarrow> string \<times> string \<Rightarrow> bool" where
  "granted b a \<longleftrightarrow> (\<exists>r<length (objects b). backs (objects b ! r) a)"

lemma granted_mono:
  assumes "broker_le b b'" "granted b a"
  shows "granted b' a"
proof -
  obtain r where r: "r < length (objects b)" "backs (objects b ! r) a"
    using assms(2) by (auto simp: granted_def)
  then have "object_le (objects b ! r) (objects b' ! r)" "r < length (objects b')"
    using assms(1) by (auto simp: broker_le_def)
  then show ?thesis using r(2) by (auto simp: granted_def backs_def object_le_def intro!: exI [of _ r])
qed

definition broker_inv :: "broker \<Rightarrow> bool" where
  "broker_inv b \<longleftrightarrow>
     distinct (map fst (approvals b)) \<and>
     (\<forall>(i, r)\<in>set (approvals b). r < length (objects b)) \<and>
     list_all object_inv (objects b) \<and>
     (\<forall>a\<in>set (allowances b). granted b a)"

lemma broker_inv_object: "broker_inv b \<Longrightarrow> r < length (objects b) \<Longrightarrow> object_inv (objects b ! r)"
  by (simp add: broker_inv_def list_all_length)

lemma broker_inv_ref: "broker_inv b \<Longrightarrow> map_of (approvals b) i = Some r \<Longrightarrow> r < length (objects b)"
  unfolding broker_inv_def by (auto dest: map_of_SomeD)

lemma objects_set_object [simp]: "objects (set_object r p b) = (objects b)[r := p]"
  by (simp add: set_object_def)

lemma set_object_frame [simp]:
  "approvals (set_object r p b) = approvals b" "allowances (set_object r p b) = allowances b"
  by (simp_all add: set_object_def)

lemma set_object_le:
  "object_le (objects b ! r) p \<Longrightarrow> broker_le b (set_object r p b)"
  unfolding broker_le_def objects_set_object length_list_update
  by (metis nth_list_update_eq nth_list_update_neq object_le_refl order_refl)

lemma set_object_inv:
  assumes "broker_inv b" "object_inv p" "object_le (objects b ! r) p"
  shows "broker_inv (set_object r p b)"
proof -
  have "list_all object_inv ((objects b)[r := p])"
    using assms(1,2) by (auto simp: broker_inv_def list_all_iff dest: set_update_subset_insert [THEN subsetD])
  moreover have "\<forall>a\<in>set (allowances b). granted (set_object r p b) a"
    using assms(1) granted_mono [OF set_object_le [OF assms(3)]] by (auto simp: broker_inv_def)
  ultimately show ?thesis using assms(1) by (simp add: broker_inv_def)
qed

lemma add_allowance_inv: "broker_inv b \<Longrightarrow> granted b a \<Longrightarrow> broker_inv (add_allowance a b)"
  by (auto simp: broker_inv_def add_allowance_def granted_def)

lemma add_allowance_objects [simp]:
  "objects (add_allowance a b) = objects b" "approvals (add_allowance a b) = approvals b"
  by (simp_all add: add_allowance_def)

lemma filter_inv:
  "broker_inv b \<Longrightarrow> broker_inv (b\<lparr>approvals := filter P (approvals b)\<rparr>)"
  by (auto simp: broker_inv_def granted_def distinct_map_filter)

lemma prune_objects [simp]: "objects (prune_locked now b) = objects b"
  by (simp add: prune_locked_def prune_overflow_def prune_stale_def Let_def)

lemma prune_allowances [simp]: "allowances (prune_locked now b) = allowances b"
  by (simp add: prune_locked_def prune_overflow_def prune_stale_def Let_def)

lemma prune_inv: "broker_inv b \<Longrightarrow> broker_inv (prune_locked now b)"
  by (simp add: prune_locked_def prune_overflow_def prune_stale_def Let_def filter_inv)

lemma broker_le_prune [simp]: "broker_le b (prune_locked now c) = broker_le b c"
  by (simp add: broker_le_def)

lemma same_objects_le: "objects b' = objects b \<Longrightarrow> broker_le b b'"
  by (simp add: broker_le_def object_le_refl)

section \<open>Every block keeps the invariant and the order\<close>

lemma request_check_step:
  "broker_inv b \<Longrightarrow> broker_inv (snd (request_check sid info now b)) \<and>
     broker_le b (snd (request_check sid info now b))"
  by (auto simp: request_check_def Let_def prune_inv same_objects_le split: option.splits)

lemma request_register_step:
  assumes "broker_inv b"
  shows "broker_inv (snd (request_register i sid info now b)) \<and>
    broker_le b (snd (request_register i sid info now b))"
proof -
  let ?b = "snd (request_register i sid info now b)"
  have le: "broker_le b ?b"
    by (simp add: request_register_def Let_def broker_le_def nth_append object_le_refl)
  have "\<forall>(j, r)\<in>set (alist_put i (length (objects b)) (approvals b)). r < Suc (length (objects b))"
  proof -
    have "list_all (\<lambda>(j, r). r < Suc (length (objects b))) (approvals b)"
      using assms by (fastforce simp: broker_inv_def list_all_iff)
    then have "list_all (\<lambda>(j, r). r < Suc (length (objects b)))
        (alist_put i (length (objects b)) (approvals b))"
      by (rule alist_put_all) simp
    then show ?thesis by (simp add: list_all_iff)
  qed
  moreover have "\<forall>a\<in>set (allowances ?b). granted ?b a"
    using assms granted_mono [OF le] by (auto simp: broker_inv_def request_register_def Let_def)
  ultimately have "broker_inv ?b"
    using assms by (simp add: broker_inv_def request_register_def Let_def object_inv_def)
  then show ?thesis using le ..
qed

lemma finish_timeout_step:
  assumes "broker_inv b" "r < length (objects b)"
  shows "broker_inv (snd (finish_timeout r now b)) \<and> broker_le b (snd (finish_timeout r now b))"
proof (cases "pa_state (objects b ! r) = Pending")
  case True
  let ?p = "(objects b ! r)\<lparr>pa_state := Expired, pa_decision := Some deny, pa_resolved_at := Some now\<rparr>"
  have "object_le (objects b ! r) ?p" using True by (simp add: object_le_def)
  moreover have "object_inv ?p" by (simp add: object_inv_def)
  ultimately show ?thesis
    using True assms set_object_inv [of b ?p r] set_object_le [of b r ?p]
    by (auto simp: finish_timeout_def Let_def prune_inv)
qed (simp add: finish_timeout_def Let_def assms broker_le_refl)

lemma finish_done_step:
  assumes "broker_inv b" "r < length (objects b)" "pa_done (objects b ! r)"
  shows "broker_inv (snd (finish_done r now b)) \<and> broker_le b (snd (finish_done r now b))"
proof -
  let ?p = "objects b ! r"
  have p: "object_inv ?p" using assms(1,2) by (rule broker_inv_object)
  have dec: "pa_decision ?p \<noteq> None" "pa_state ?p \<noteq> Pending"
    using p assms(3) by (auto simp: object_inv_def split: approval_state.splits option.splits)
  let ?d = "case pa_decision ?p of None \<Rightarrow> deny | Some d \<Rightarrow> d"
  let ?b1 = "case pa_key ?p of Some k \<Rightarrow> if dec_allow ?d \<and> dec_session ?d
               then add_allowance (pa_session ?p, k) b else b | None \<Rightarrow> b"
  have "granted b (pa_session ?p, k)" if "pa_key ?p = Some k" "dec_allow ?d" "dec_session ?d" for k
    using that p dec assms(2)
    by (cases ?d) (auto simp: granted_def backs_def object_inv_def deny_def
        split: approval_state.splits option.splits intro!: exI [of _ r])
  then have b1: "broker_inv ?b1" "objects ?b1 = objects b"
    using assms(1) by (auto split: option.splits intro: add_allowance_inv)
  let ?q = "?p\<lparr>pa_resolved_at := Some (case pa_resolved_at ?p of None \<Rightarrow> now | Some a \<Rightarrow> a)\<rparr>"
  have q: "object_le (objects ?b1 ! r) ?q" "object_inv ?q"
    using p dec b1(2) by (auto simp: object_le_def object_inv_def split: approval_state.splits)
  have "broker_inv (set_object r ?q ?b1)" using b1(1) q(2,1) by (rule set_object_inv)
  moreover have "broker_le b (set_object r ?q ?b1)"
    using broker_le_trans [OF same_objects_le [OF b1(2)] set_object_le [OF q(1)]] .
  moreover have "snd (finish_done r now b) =
      prune_locked (case pa_resolved_at ?p of None \<Rightarrow> now | Some a \<Rightarrow> a) (set_object r ?q ?b1)"
    by (simp add: finish_done_def Let_def)
  ultimately show ?thesis by (simp add: prune_inv)
qed

lemma resolve_step:
  assumes "broker_inv b"
  shows "broker_inv (snd (resolve sid i allow afs now now' b)) \<and>
    broker_le b (snd (resolve sid i allow afs now now' b))"
proof (cases "map_of (approvals b) i")
  case None
  then show ?thesis
    using assms by (cases "validate_approval_id i") (simp_all add: resolve_def broker_le_refl)
next
  case (Some r)
  let ?p = "objects b ! r"
  have r: "r < length (objects b)" using assms Some by (rule broker_inv_ref)
  have p: "object_inv ?p" using assms r by (rule broker_inv_object)
  show ?thesis
  proof (cases "is_ok (validate_approval_id i) \<and> pa_session ?p = sid \<and> pa_state ?p \<noteq> Resolved")
    case False
    then show ?thesis
      using assms Some by (cases "validate_approval_id i") (auto simp: resolve_def Let_def broker_le_refl)
  next
    case True
    then obtain u where v: "validate_approval_id i = Inr u" by (auto simp: is_ok_iff)
    show ?thesis
    proof (cases "pa_state ?p = Expired \<or> now > pa_deadline ?p")
      case expired: True
      let ?q = "?p\<lparr>pa_state := Expired, pa_decision := Some deny, pa_resolved_at := Some now', pa_done := True\<rparr>"
      have "object_le ?p ?q" "object_inv ?q"
        using True p by (auto simp: object_le_def object_inv_def split: approval_state.splits)
      moreover have "snd (resolve sid i allow afs now now' b) = set_object r ?q b"
        using expired True Some v by (simp add: resolve_def Let_def)
      ultimately show ?thesis using assms by (simp add: set_object_inv set_object_le)
    next
      case False
      then have pend: "pa_state ?p = Pending" using True by (cases "pa_state ?p") auto
      let ?eff = "allow \<and> afs \<and> pa_supported ?p \<and> pa_key ?p \<noteq> None"
      obtain w where w: "snd (resolve sid i allow afs now now' b) =
        prune_locked now'
          (let b1 = set_object r (?p\<lparr>pa_warning := w, pa_state := Resolved,
               pa_decision := Some \<lparr>dec_allow = allow, dec_session = ?eff\<rparr>,
               pa_resolved_at := Some now', pa_done := True\<rparr>) b in
           if allow \<and> ?eff then add_allowance (sid, case pa_key ?p of None \<Rightarrow> [] | Some k \<Rightarrow> k) b1 else b1)"
        using False True Some v by (simp add: resolve_def Let_def)
      let ?q = "?p\<lparr>pa_warning := w, pa_state := Resolved,
               pa_decision := Some \<lparr>dec_allow = allow, dec_session = ?eff\<rparr>,
               pa_resolved_at := Some now', pa_done := True\<rparr>"
      have q: "object_le ?p ?q" "object_inv ?q"
        using pend by (auto simp: object_le_def object_inv_def)
      have b1: "broker_inv (set_object r ?q b)" "broker_le b (set_object r ?q b)"
        using assms q by (simp_all add: set_object_inv set_object_le)
      have "granted (set_object r ?q b) (sid, case pa_key ?p of None \<Rightarrow> [] | Some k \<Rightarrow> k)" if "allow \<and> ?eff"
        using that r True by (auto simp: granted_def backs_def intro!: exI [of _ r])
      then show ?thesis
        using b1 unfolding w Let_def
        by (auto intro!: prune_inv add_allowance_inv simp: broker_le_def)
    qed
  qed
qed

lemma clear_entry_step:
  assumes "broker_inv b" "snd e < length (objects b)"
  shows "broker_inv (clear_entry sid now e b) \<and> broker_le b (clear_entry sid now e b)"
proof (cases "pa_session (objects b ! snd e) = sid")
  case True
  let ?p = "objects b ! snd e"
  let ?q = "if pa_state ?p = Pending
            then ?p\<lparr>pa_state := Expired, pa_decision := Some deny, pa_resolved_at := Some now, pa_done := True\<rparr>
            else ?p"
  let ?b1 = "set_object (snd e) ?q b"
  let ?b2 = "?b1\<lparr>approvals := alist_pop (fst e) (approvals b)\<rparr>"
  have "object_inv ?p" using assms by (rule broker_inv_object)
  then have q: "object_inv ?q" "object_le ?p ?q" by (auto simp: object_inv_def object_le_def)
  have "broker_inv (?b1\<lparr>approvals := filter (\<lambda>kv. fst kv \<noteq> fst e) (approvals ?b1)\<rparr>)"
    by (rule filter_inv [OF set_object_inv [OF assms(1) q]])
  then have "broker_inv ?b2" by (simp only: alist_pop_def set_object_frame)
  moreover have "broker_le b ?b2"
    by (rule broker_le_trans [OF set_object_le [OF q(2)] same_objects_le]) simp
  moreover have "clear_entry sid now e b = ?b2" using True by (simp add: clear_entry_def Let_def)
  ultimately show ?thesis by simp
next
  case False
  then show ?thesis using assms(1) by (simp add: clear_entry_def Let_def broker_le_refl)
qed

lemma clear_entry_length [simp]: "length (objects (clear_entry sid now e b)) = length (objects b)"
  by (simp add: clear_entry_def Let_def)

lemma clear_entries_step:
  assumes "broker_inv b" "\<forall>e\<in>set es. snd e < length (objects b)"
  shows "broker_inv (clear_entries sid now es b) \<and> broker_le b (clear_entries sid now es b)"
  using assms
proof (induction es arbitrary: b)
  case (Cons e es)
  have "broker_inv (clear_entry sid now e b) \<and> broker_le b (clear_entry sid now e b)"
    using Cons.prems by (intro clear_entry_step) auto
  moreover have "\<forall>x\<in>set es. snd x < length (objects (clear_entry sid now e b))"
    using Cons.prems(2) by simp
  ultimately show ?case using Cons.IH broker_le_trans by (metis clear_entries.simps(2))
qed (simp add: broker_le_refl)

lemma clear_session_step:
  assumes "broker_inv b"
  shows "broker_inv (clear_session sid now b) \<and> broker_le b (clear_session sid now b)"
proof -
  let ?b1 = "b\<lparr>allowances := filter (\<lambda>a. fst a \<noteq> sid) (allowances b)\<rparr>"
  have "broker_inv ?b1" using assms by (simp add: broker_inv_def granted_def)
  moreover have "\<forall>e\<in>set (approvals ?b1). snd e < length (objects ?b1)"
    using assms by (auto simp: broker_inv_def)
  ultimately show ?thesis
    using clear_entries_step [of ?b1 "approvals ?b1" sid now] broker_le_trans [OF same_objects_le [of ?b1 b]]
    by (simp add: clear_session_def)
qed

interpretation brk: monotone_machine broker_apply "\<lambda>_. True" broker_inv broker_le
proof unfold_locales
  fix x b assume "broker_inv b"
  then show "broker_inv (broker_apply x b)" "broker_le b (broker_apply x b)"
    using request_check_step request_register_step finish_timeout_step finish_done_step
      resolve_step clear_session_step
    by (cases x; simp add: broker_le_refl)+
qed (rule broker_le_refl, rule broker_le_trans)

lemma new_broker_inv [simp]: "broker_inv (new_broker timeout retention m)"
  by (simp add: new_broker_def broker_inv_def)

end
