(* ===== verification/ApprovalProps.thy ===== *)
theory ApprovalProps
  imports ApprovalBroker "HOL-Library.Multiset"
begin

text \<open>
  What the approval broker guarantees over all interleavings of requesting, resolving and
  clearing threads.
\<close>

section \<open>Where verdicts come from\<close>

lemma prune_verdict [simp]: "pa_state (objects (prune_locked now b) ! r) = pa_state (objects b ! r)"
  by simp

lemma clear_entry_state:
  "pa_state (objects (clear_entry sid now e b) ! r) = Resolved \<Longrightarrow> r < length (objects b) \<Longrightarrow>
   pa_state (objects b ! r) = Resolved"
  by (cases "snd e = r") (auto simp: clear_entry_def Let_def split: if_splits)

lemma clear_entries_state:
  "pa_state (objects (clear_entries sid now es b) ! r) = Resolved \<Longrightarrow> r < length (objects b) \<Longrightarrow>
   pa_state (objects b ! r) = Resolved"
proof (induction es arbitrary: b)
  case (Cons e es)
  then show ?case using clear_entry_state [of sid now e b r] by simp
qed simp

lemma clear_entries_length [simp]: "length (objects (clear_entries sid now es b)) = length (objects b)"
  by (induction es arbitrary: b) simp_all

text \<open>
  An object turns resolved only in a successful \<open>resolve\<close> of its own session for an id the table
  leads to it, in time.
\<close>

lemma becomes_resolved:
  assumes "pa_state (objects (broker_apply x b) ! r) = Resolved" "r < length (objects (broker_apply x b))"
    and "\<not> (r < length (objects b) \<and> pa_state (objects b ! r) = Resolved)" "broker_inv b"
  shows "\<exists>i allow afs now now' rs. x = Resolve (pa_session (objects (broker_apply x b) ! r)) i allow afs now now' \<and>
    fst (resolve (pa_session (objects (broker_apply x b) ! r)) i allow afs now now' b) = Inr rs \<and>
    map_of (approvals b) i = Some r \<and>
    rs_session rs = (allow \<and> afs \<and> pa_supported (objects (broker_apply x b) ! r) \<and>
      pa_key (objects (broker_apply x b) ! r) \<noteq> None) \<and>
    now \<le> pa_deadline (objects (broker_apply x b) ! r) \<and>
    pa_decision (objects (broker_apply x b) ! r) = Some \<lparr>dec_allow = allow, dec_session = rs_session rs\<rparr>"
proof (cases x)
  case (RequestCheck sid info now)
  then show ?thesis
    using assms(1-3) by (auto simp: request_check_def Let_def split: option.splits if_splits)
next
  case (RequestRegister i sid info now)
  then show ?thesis
    using assms(1-3) by (auto simp: request_register_def Let_def nth_append split: if_splits)
next
  case (FinishTimeout q now)
  then show ?thesis
    using assms(1-3)
    by (cases "q = r") (auto simp: finish_timeout_def Let_def split: if_splits)
next
  case (FinishDone q now)
  then have "r < length (objects b)"
    using assms(2) by (auto simp: finish_done_def Let_def split: if_splits option.splits)
  then show ?thesis
    using FinishDone assms(1,3)
    by (cases "q = r") (auto simp: finish_done_def Let_def split: if_splits option.splits)
next
  case (ClearSession sid now)
  then show ?thesis
    using assms(1-3) clear_entries_state [of sid now "approvals b"
        "b\<lparr>allowances := filter (\<lambda>a. fst a \<noteq> sid) (allowances b)\<rparr>" r]
    by (auto simp: clear_session_def)
next
  case (Resolve sid i allow afs now now')
  show ?thesis
  proof (cases "map_of (approvals b) i")
    case None
    then show ?thesis
      using Resolve assms(1-3) by (cases "validate_approval_id i") (auto simp: resolve_def)
  next
    case (Some q)
    have q: "q < length (objects b)" using assms(4) Some by (rule broker_inv_ref)
    have st: "pa_state p \<noteq> Resolved \<Longrightarrow> \<not> (pa_state p = Expired \<or> z) \<Longrightarrow> pa_state p = Pending" for p :: pending_approval and z
      by (cases "pa_state p") auto
    show ?thesis
      using Resolve assms(1-3) Some q
      by (cases "validate_approval_id i"; cases "q = r")
        (auto simp: resolve_def Let_def split: if_splits)
  qed
qed

text \<open>
  Who gets a yes: a request is answered from memory only if an earlier approval of the same
  session with the same scope key was resolved as allowed for the session; a wait that was signalled
  answers yes only for an object resolved as allowed; a wait that timed out never answers yes.
\<close>

theorem approvals_are_authorized:
  assumes "b = run broker_apply ops (new_broker timeout retention m)"
  shows "(\<forall>sid info now d. fst (request_check sid info now b) = Some d \<longrightarrow>
      (\<exists>r<length (objects b). pa_session (objects b ! r) = sid \<and> pa_key (objects b ! r) = sc_key info \<and>
         sc_key info \<noteq> None \<and> pa_state (objects b ! r) = Resolved \<and>
         pa_decision (objects b ! r) = Some \<lparr>dec_allow = True, dec_session = True\<rparr>)) \<and>
    (\<forall>r now. r < length (objects b) \<and> pa_done (objects b ! r) \<and> dec_allow (fst (finish_done r now b)) \<longrightarrow>
       pa_state (objects b ! r) = Resolved \<and> pa_decision (objects b ! r) = Some (fst (finish_done r now b))) \<and>
    (\<forall>r now. fst (finish_timeout r now b) = deny)"
proof -
  have inv: "broker_inv b" unfolding assms by (rule brk.run_inv) (simp_all add: list_all_iff)
  have g: "granted b a" if "a \<in> set (allowances b)" for a
    using inv that by (simp add: broker_inv_def)
  have "\<exists>r<length (objects b). backs (objects b ! r) (sid, k)"
    if "(sid, k) \<in> set (allowances b)" for sid k
    using g [OF that] by (simp add: granted_def)
  moreover have "pa_state (objects b ! r) = Resolved \<and> pa_decision (objects b ! r) = Some (fst (finish_done r now b))"
    if "r < length (objects b)" "pa_done (objects b ! r)" "dec_allow (fst (finish_done r now b))" for r now
    using broker_inv_object [OF inv that(1)] that
    by (auto simp: finish_done_def Let_def object_inv_def deny_def
        split: approval_state.splits option.splits)
  ultimately show ?thesis
    by (auto simp: request_check_def allowance_key_def Let_def finish_timeout_def backs_def
        split: option.splits if_splits)
qed

section \<open>Final verdicts\<close>

lemma filter_map_of:
  "distinct (map fst xs) \<Longrightarrow> map_of (filter P xs) i = Some r \<Longrightarrow> map_of xs i = Some r"
  by (metis (no_types, lifting) distinct_map_filter filter_is_subset map_of_SomeD map_of_eq_Some_iff subsetD)

text \<open>Except for registration, the table of pending approvals only loses entries.\<close>

definition shrinks :: "broker \<Rightarrow> broker \<Rightarrow> bool" where
  "shrinks b c \<longleftrightarrow> (\<exists>P. approvals c = filter P (approvals b))"

lemma shrinks_same: "approvals c = approvals b \<Longrightarrow> shrinks b c"
  unfolding shrinks_def by (intro exI [of _ "\<lambda>_. True"]) simp

lemma shrinks_filter: "approvals c = filter P (approvals b) \<Longrightarrow> shrinks b c"
  unfolding shrinks_def by blast

lemma shrinks_trans: "shrinks a b \<Longrightarrow> shrinks b c \<Longrightarrow> shrinks a c"
  unfolding shrinks_def by (metis filter_filter)

lemma shrinks_prune: "shrinks b (prune_locked now b)"
proof -
  have s: "shrinks c (prune_stale now c)" for c
    by (cases "retention_seconds c > 0")
      (auto simp: prune_stale_def intro: shrinks_same shrinks_filter)
  have o: "shrinks c (prune_overflow now c)" for c
    by (cases "int (length (resolved_entries now c)) - max_resolved c \<le> 0")
      (auto simp: prune_overflow_def Let_def intro: shrinks_same shrinks_filter)
  show ?thesis unfolding prune_locked_def using s o by (rule shrinks_trans)
qed

lemma shrinks_pruned: "approvals c = approvals b \<Longrightarrow> shrinks b (prune_locked now c)"
  using shrinks_trans [OF shrinks_same shrinks_prune] .

lemma shrinks_map_of:
  assumes "shrinks b c" "distinct (map fst (approvals b))" "map_of (approvals c) i = Some r"
  shows "map_of (approvals b) i = Some r"
  using assms filter_map_of unfolding shrinks_def by metis

lemma clear_entry_shrinks: "shrinks b (clear_entry sid now e b)"
  by (cases "pa_session (objects b ! snd e) = sid")
    (auto simp: clear_entry_def Let_def alist_pop_def intro: shrinks_same shrinks_filter)

lemma clear_entries_shrinks: "shrinks b (clear_entries sid now es b)"
proof (induction es arbitrary: b)
  case (Cons e es)
  show ?case unfolding clear_entries.simps by (rule shrinks_trans [OF clear_entry_shrinks Cons.IH])
qed (simp add: shrinks_same)

fun not_registering :: "string \<Rightarrow> broker_op \<Rightarrow> bool" where
  "not_registering i (RequestRegister j sid info now) = (j \<noteq> i)"
| "not_registering i _ = True"

lemma resolve_shrinks: "shrinks b (snd (resolve sid j allow afs now now' b))"
proof (cases "is_ok (validate_approval_id j) \<and> map_of (approvals b) j \<noteq> None")
  case False
  then show ?thesis
    by (cases "validate_approval_id j"; cases "map_of (approvals b) j")
      (auto simp: resolve_def intro: shrinks_same)
next
  case True
  then obtain u r where "validate_approval_id j = Inr u" "map_of (approvals b) j = Some r"
    by (auto simp: is_ok_iff)
  then show ?thesis
    by (simp add: resolve_def Let_def shrinks_same shrinks_pruned)
qed

lemma request_check_shrinks: "shrinks b (snd (request_check sid info now b))"
proof -
  have "snd (request_check sid info now b) = prune_locked now b"
    by (simp add: request_check_def Let_def split: option.split)
  then show ?thesis using shrinks_prune by metis
qed

lemma finish_timeout_shrinks: "shrinks b (snd (finish_timeout r now b))"
  by (cases "pa_state (objects b ! r) = Pending")
    (simp_all add: finish_timeout_def Let_def shrinks_same shrinks_pruned)

lemma finish_done_shrinks: "shrinks b (snd (finish_done r now b))"
proof -
  obtain tm c where "snd (finish_done r now b) = prune_locked tm c" "approvals c = approvals b"
    by (cases "pa_key (objects b ! r)") (auto simp: finish_done_def Let_def)
  then show ?thesis using shrinks_pruned by metis
qed

lemma clear_session_shrinks: "shrinks b (clear_session sid now b)"
  unfolding clear_session_def Let_def by (rule shrinks_trans [OF shrinks_same clear_entries_shrinks]) simp

lemma apply_shrinks:
  assumes "\<And>j sid info now. x \<noteq> RequestRegister j sid info now"
  shows "shrinks b (broker_apply x b)"
proof (cases x)
  case (RequestRegister j sid info now)
  then show ?thesis using assms by blast
qed (simp_all add: request_check_shrinks finish_timeout_shrinks finish_done_shrinks resolve_shrinks
    clear_session_shrinks shrinks_same)

lemma apply_map_of:
  assumes "not_registering i x" "broker_inv b" "map_of (approvals (broker_apply x b)) i = Some r"
  shows "map_of (approvals b) i = Some r"
proof (cases "\<exists>j sid info now. x = RequestRegister j sid info now")
  case True
  then obtain j sid info now where x: "x = RequestRegister j sid info now" by blast
  have a: "approvals (broker_apply x b) = alist_put j (length (objects b)) (approvals b)"
    unfolding x by (simp add: request_register_def Let_def)
  show ?thesis using assms(1,3) unfolding a by (simp add: x)
next
  case False
  then have "shrinks b (broker_apply x b)" by (intro apply_shrinks) blast
  moreover have "distinct (map fst (approvals b))" using assms(2) by (simp add: broker_inv_def)
  ultimately show ?thesis using assms(3) by (rule shrinks_map_of)
qed

lemma run_map_of:
  "list_all (not_registering i) ops \<Longrightarrow> broker_inv b \<Longrightarrow>
   map_of (approvals (run broker_apply ops b)) i = Some r \<Longrightarrow> map_of (approvals b) i = Some r"
proof (induction ops arbitrary: b)
  case (Cons x ops)
  have inv: "broker_inv (broker_apply x b)" using brk.step_inv Cons.prems(2) by blast
  have "map_of (approvals (broker_apply x b)) i = Some r"
    using Cons.IH [OF _ inv] Cons.prems by simp
  then show ?case using apply_map_of [of i x b r] Cons.prems by simp
qed simp

lemma resolve_Inr:
  assumes "fst (resolve sid i allow afs now now' b) = Inr rs"
  obtains r where "map_of (approvals b) i = Some r" "pa_session (objects b ! r) = sid"
    "pa_state (objects b ! r) \<noteq> Resolved" "pa_state (objects b ! r) \<noteq> Expired"
    "now \<le> pa_deadline (objects b ! r)"
    "r < length (objects b) \<longrightarrow> pa_state (objects (snd (resolve sid i allow afs now now' b)) ! r) = Resolved"
proof (cases "map_of (approvals b) i")
  case None
  then show ?thesis using assms by (cases "validate_approval_id i") (auto simp: resolve_def)
next
  case (Some r)
  then show ?thesis
    using assms that [of r]
    by (cases "validate_approval_id i") (auto simp: resolve_def Let_def split: if_splits)
qed

section \<open>Ids lead to their own objects\<close>

definition ids_ok :: "broker \<Rightarrow> bool" where
  "ids_ok b \<longleftrightarrow> (\<forall>(i, r)\<in>set (approvals b). r < length (objects b) \<and> pa_id (objects b ! r) = i)"

lemma ids_ok_shrinks:
  assumes "ids_ok b" "shrinks b c" "broker_le b c"
  shows "ids_ok c"
proof -
  have "r < length (objects c) \<and> pa_id (objects c ! r) = i" if "(i, r) \<in> set (approvals c)" for i r
  proof -
    have "(i, r) \<in> set (approvals b)" using that assms(2) by (auto simp: shrinks_def)
    then have r: "r < length (objects b)" "pa_id (objects b ! r) = i" using assms(1) by (auto simp: ids_ok_def)
    then have "object_le (objects b ! r) (objects c ! r)" using assms(3) by (simp add: broker_le_def)
    then show ?thesis using r assms(3) by (simp add: object_le_def broker_le_def)
  qed
  then show ?thesis by (auto simp: ids_ok_def)
qed

lemma ids_ok_register:
  assumes "ids_ok b"
  shows "ids_ok (snd (request_register i sid info now b))"
proof -
  let ?c = "snd (request_register i sid info now b)"
  have "list_all (\<lambda>(j, r). r < length (objects ?c) \<and> pa_id (objects ?c ! r) = j) (approvals b)"
    using assms by (auto simp: ids_ok_def list_all_iff request_register_def Let_def nth_append)
  then have "list_all (\<lambda>(j, r). r < length (objects ?c) \<and> pa_id (objects ?c ! r) = j)
      (alist_put i (length (objects b)) (approvals b))"
    by (rule alist_put_all) (simp add: request_register_def Let_def)
  then show ?thesis by (simp add: ids_ok_def list_all_iff request_register_def Let_def)
qed

lemma ids_ok_step:
  assumes "broker_inv b" "ids_ok b"
  shows "ids_ok (broker_apply x b)"
proof (cases "\<exists>j sid info now. x = RequestRegister j sid info now")
  case True
  then show ?thesis using ids_ok_register [OF assms(2)] by auto
next
  case False
  then have "shrinks b (broker_apply x b)" by (intro apply_shrinks) blast
  then show ?thesis using ids_ok_shrinks assms brk.step_le by blast
qed

lemma new_broker_ids [simp]: "ids_ok (new_broker timeout retention m)"
  by (simp add: new_broker_def ids_ok_def)

lemma run_ids_ok: "broker_inv b \<Longrightarrow> ids_ok b \<Longrightarrow> ids_ok (run broker_apply ops b)"
proof (induction ops arbitrary: b)
  case (Cons x ops)
  have "broker_inv (broker_apply x b)" using brk.step_inv Cons.prems(1) by blast
  then show ?case using Cons.IH ids_ok_step Cons.prems by simp
qed simp

lemma resolved_in_trace:
  assumes "b = run broker_apply ops (new_broker timeout retention m)"
    and "r < length (objects b)" and "pa_state (objects b ! r) = Resolved"
  shows "\<exists>xs ys i allow afs now now' rs.
    ops = xs @ Resolve (pa_session (objects b ! r)) i allow afs now now' # ys \<and>
    fst (resolve (pa_session (objects b ! r)) i allow afs now now'
      (run broker_apply xs (new_broker timeout retention m))) = Inr rs \<and>
    i = pa_id (objects b ! r) \<and>
    map_of (approvals (run broker_apply xs (new_broker timeout retention m))) i = Some r \<and>
    pa_state (objects (run broker_apply xs (new_broker timeout retention m)) ! r) = Pending \<and>
    now \<le> pa_deadline (objects b ! r) \<and>
    pa_decision (objects b ! r) = Some \<lparr>dec_allow = allow, dec_session =
      (allow \<and> afs \<and> pa_supported (objects b ! r) \<and> pa_key (objects b ! r) \<noteq> None)\<rparr>"
  using assms
proof (induction ops arbitrary: b rule: rev_induct)
  case Nil
  then show ?case by (simp add: new_broker_def)
next
  case (snoc x ops)
  let ?b0 = "new_broker timeout retention m"
  let ?c = "run broker_apply ops ?b0"
  have b: "b = broker_apply x ?c" using snoc.prems(1) by simp
  have inv: "broker_inv ?c" by (rule brk.run_inv) (simp_all add: list_all_iff)
  have le: "broker_le ?c b" using brk.step_le [OF _ inv] b by simp
  show ?case
  proof (cases "r < length (objects ?c) \<and> pa_state (objects ?c ! r) = Resolved")
    case True
    then have "object_le (objects ?c ! r) (objects b ! r)" using le by (simp add: broker_le_def)
    then have same: "pa_session (objects b ! r) = pa_session (objects ?c ! r)"
      "pa_deadline (objects b ! r) = pa_deadline (objects ?c ! r)"
      "pa_decision (objects b ! r) = pa_decision (objects ?c ! r)"
      "pa_id (objects b ! r) = pa_id (objects ?c ! r)"
      "pa_supported (objects b ! r) = pa_supported (objects ?c ! r)"
      "pa_key (objects b ! r) = pa_key (objects ?c ! r)"
      using True by (auto simp: object_le_def)
    have "r < length (objects ?c)" "pa_state (objects ?c ! r) = Resolved" using True by auto
    from snoc.IH [OF refl this] show ?thesis unfolding same by (metis append.assoc append_Cons)
  next
    case False
    from becomes_resolved [of x ?c r] snoc.prems(2,3) b False inv obtain i allow afs now now' rs where
      x: "x = Resolve (pa_session (objects b ! r)) i allow afs now now'"
        "fst (resolve (pa_session (objects b ! r)) i allow afs now now' ?c) = Inr rs"
        "map_of (approvals ?c) i = Some r" "now \<le> pa_deadline (objects b ! r)"
        "rs_session rs = (allow \<and> afs \<and> pa_supported (objects b ! r) \<and> pa_key (objects b ! r) \<noteq> None)"
        "pa_decision (objects b ! r) = Some \<lparr>dec_allow = allow, dec_session = rs_session rs\<rparr>"
      by metis
    have "ids_ok ?c" by (rule run_ids_ok) simp_all
    then have r: "r < length (objects ?c)" "pa_id (objects ?c ! r) = i"
      using map_of_SomeD [OF x(3)] by (auto simp: ids_ok_def)
    then have "pa_id (objects b ! r) = i" using le by (simp add: broker_le_def object_le_def)
    moreover have "pa_state (objects ?c ! r) = Pending"
      using x(2,3) False r(1) by (elim resolve_Inr) (cases "pa_state (objects ?c ! r)"; simp)
    ultimately show ?thesis using x by (intro exI [of _ ops] exI [of _ "[]"] exI conjI) simp_all
  qed
qed

text \<open>
  C10. Nothing is approved that was not approved: in every interleaving, an approval object that is
  resolved got its verdict from one successful \<open>resolve\<close> call, which named the object's own session and
  the object's own approval id while the table led from that id to this very object, still pending and no
  later than its deadline. The decision is what that call said, and it holds for the session exactly if
  the call asked for that with a yes and the approval has a supported scope with a key.
\<close>

theorem verdicts_come_from_resolve:
  assumes "b = run broker_apply ops (new_broker timeout retention m)"
    and "r < length (objects b)" and "pa_state (objects b ! r) = Resolved"
  shows "\<exists>xs ys i allow afs now now' rs.
    ops = xs @ Resolve (pa_session (objects b ! r)) i allow afs now now' # ys \<and>
    fst (resolve (pa_session (objects b ! r)) i allow afs now now'
      (run broker_apply xs (new_broker timeout retention m))) = Inr rs \<and>
    i = pa_id (objects b ! r) \<and>
    map_of (approvals (run broker_apply xs (new_broker timeout retention m))) i = Some r \<and>
    pa_state (objects (run broker_apply xs (new_broker timeout retention m)) ! r) = Pending \<and>
    now \<le> pa_deadline (objects b ! r) \<and>
    pa_decision (objects b ! r) = Some \<lparr>dec_allow = allow, dec_session =
      (allow \<and> afs \<and> pa_supported (objects b ! r) \<and> pa_key (objects b ! r) \<noteq> None)\<rparr>"
  using resolved_in_trace [OF assms] .

section \<open>Where remembered answers come from\<close>

lemma clear_session_length: "length (objects (clear_session sid now b)) = length (objects b)"
  by (simp add: clear_session_def)

lemma resolve_length: "length (objects (snd (resolve sid i allow afs now now' b))) = length (objects b)"
  by (simp add: resolve_def Let_def split: sum.split option.split)

lemma request_check_length: "length (objects (snd (request_check sid info now b))) = length (objects b)"
  by (simp add: request_check_def Let_def split: option.split)

lemma finish_done_length: "length (objects (snd (finish_done r now b))) = length (objects b)"
  by (simp add: finish_done_def Let_def split: option.split)

lemma finish_timeout_length: "length (objects (snd (finish_timeout r now b))) = length (objects b)"
  by (simp add: finish_timeout_def Let_def)

lemma apply_length:
  "length (objects (broker_apply x b)) \<noteq> length (objects b) \<Longrightarrow> \<exists>i sid info now. x = RequestRegister i sid info now"
  by (cases x) (simp_all add: clear_session_length resolve_length request_check_length finish_done_length
      finish_timeout_length split: if_splits)

text \<open>Every object was created by one registration, and keeps what it was registered with.\<close>

lemma object_registered:
  assumes "r < length (objects (run broker_apply ops (new_broker timeout retention m)))"
  shows "\<exists>xs i sid info now ys. ops = xs @ RequestRegister i sid info now # ys \<and>
    pa_id (objects (run broker_apply ops (new_broker timeout retention m)) ! r) = i \<and>
    pa_session (objects (run broker_apply ops (new_broker timeout retention m)) ! r) = sid \<and>
    pa_key (objects (run broker_apply ops (new_broker timeout retention m)) ! r) = sc_key info \<and>
    pa_supported (objects (run broker_apply ops (new_broker timeout retention m)) ! r) = sc_supported info"
  using assms
proof (induction ops rule: rev_induct)
  case Nil
  then show ?case by (simp add: new_broker_def)
next
  case (snoc x ops)
  let ?c = "run broker_apply ops (new_broker timeout retention m)"
  have inv: "broker_inv ?c" by (rule brk.run_inv) (simp_all add: list_all_iff)
  show ?case
  proof (cases "r < length (objects ?c)")
    case True
    have "broker_le ?c (broker_apply x ?c)" using brk.step_le [OF _ inv] by simp
    then have same: "pa_id (objects (broker_apply x ?c) ! r) = pa_id (objects ?c ! r)"
      "pa_session (objects (broker_apply x ?c) ! r) = pa_session (objects ?c ! r)"
      "pa_key (objects (broker_apply x ?c) ! r) = pa_key (objects ?c ! r)"
      "pa_supported (objects (broker_apply x ?c) ! r) = pa_supported (objects ?c ! r)"
      using True by (simp_all add: broker_le_def object_le_def)
    from snoc.IH [OF True] obtain xs i sid info now ys where "ops = xs @ RequestRegister i sid info now # ys"
      "pa_id (objects ?c ! r) = i" "pa_session (objects ?c ! r) = sid" "pa_key (objects ?c ! r) = sc_key info"
      "pa_supported (objects ?c ! r) = sc_supported info" by blast
    then show ?thesis using same
      by (intro exI [of _ xs] exI [of _ i] exI [of _ sid] exI [of _ info] exI [of _ now] exI [of _ "ys @ [x]"]) simp
  next
    case False
    then obtain i sid info now where x: "x = RequestRegister i sid info now"
      using apply_length [of x ?c] snoc.prems by auto
    then have "r = length (objects ?c)" using False snoc.prems by (simp add: request_register_def Let_def)
    then show ?thesis unfolding x
      by (intro exI [of _ ops] exI [of _ i] exI [of _ sid] exI [of _ info] exI [of _ now] exI [of _ "[]"])
        (simp add: request_register_def Let_def)
  qed
qed

text \<open>An answer from memory goes back to a yes for the session to a request with the same key.\<close>

lemma remembered_yes_traced:
  assumes "fst (request_check sid info now (run broker_apply ops (new_broker timeout retention m))) = Some d"
  obtains us i info' t0 vs t1 t2 ys where
    "ops = us @ RequestRegister i sid info' t0 # vs @ Resolve sid i True True t1 t2 # ys"
    "is_ok (fst (resolve sid i True True t1 t2
       (run broker_apply (us @ RequestRegister i sid info' t0 # vs) (new_broker timeout retention m))))"
    "sc_key info' = sc_key info" "sc_supported info'"
proof -
  let ?b = "run broker_apply ops (new_broker timeout retention m)"
  obtain r where r: "r < length (objects ?b)" "pa_session (objects ?b ! r) = sid" "pa_key (objects ?b ! r) = sc_key info"
      "pa_state (objects ?b ! r) = Resolved" "pa_decision (objects ?b ! r) = Some \<lparr>dec_allow = True, dec_session = True\<rparr>"
    using approvals_are_authorized [OF refl] assms by blast
  obtain xs ys i allow afs t1 t2 rs where
    v: "ops = xs @ Resolve sid i allow afs t1 t2 # ys" "i = pa_id (objects ?b ! r)"
      "fst (resolve sid i allow afs t1 t2 (run broker_apply xs (new_broker timeout retention m))) = Inr rs"
      "map_of (approvals (run broker_apply xs (new_broker timeout retention m))) i = Some r"
      "pa_decision (objects ?b ! r) = Some \<lparr>dec_allow = allow, dec_session =
        (allow \<and> afs \<and> pa_supported (objects ?b ! r) \<and> pa_key (objects ?b ! r) \<noteq> None)\<rparr>"
    using resolved_in_trace [OF refl r(1,4)] unfolding r(2) by (elim exE conjE) (rule that)
  then have yes: "allow" "afs" "pa_supported (objects ?b ! r)" using r(5) by simp_all
  then have "allow = True" "afs = True" by simp_all
  note t = v(1-4) [unfolded this]
  let ?c = "run broker_apply xs (new_broker timeout retention m)"
  have inv: "broker_inv ?c" by (rule brk.run_inv) (simp_all add: list_all_iff)
  have rc: "r < length (objects ?c)" using broker_inv_ref [OF inv t(4)] .
  have "?b = run broker_apply (Resolve sid i True True t1 t2 # ys) ?c" unfolding t(1) run_append ..
  moreover have "broker_le ?c (run broker_apply (Resolve sid i True True t1 t2 # ys) ?c)"
    by (rule brk.run_le [OF _ inv]) (simp add: list_all_iff)
  ultimately have "object_le (objects ?c ! r) (objects ?b ! r)" using rc by (metis broker_le_def)
  then have same: "pa_id (objects ?c ! r) = i" "pa_session (objects ?c ! r) = sid"
      "pa_key (objects ?c ! r) = sc_key info" "pa_supported (objects ?c ! r)"
    using r(2,3) t(2) yes(3) by (simp_all add: object_le_def)
  obtain us info' t0 vs where
    "xs = us @ RequestRegister i sid info' t0 # vs" "sc_key info' = sc_key info" "sc_supported info'"
    using object_registered [OF rc] unfolding same(1-3) by (elim exE conjE) (use same(4) that in metis)
  with t(1,3) show thesis by (intro that [of us i info' t0 vs t1 t2 ys]) simp_all
qed

text \<open>
  A verdict is final: whatever happens later, an object that was resolved or expired keeps its
  state and decision, and no second \<open>resolve\<close> for the id of a resolved approval succeeds unless the
  id is registered anew.
\<close>

theorem verdicts_are_final:
  assumes "broker_inv b" and "fst (resolve sid i allow afs now now' b) = Inr rs"
    and "list_all (not_registering i) ops"
    and "c = run broker_apply ops (snd (resolve sid i allow afs now now' b))"
  shows "\<not> is_ok (fst (resolve sid2 i allow2 afs2 now2 now2' c)) \<and>
    (\<exists>r. map_of (approvals b) i = Some r \<and> pa_state (objects c ! r) = Resolved \<and>
      pa_decision (objects c ! r) = pa_decision (objects (snd (resolve sid i allow afs now now' b)) ! r))"
proof -
  let ?b1 = "snd (resolve sid i allow afs now now' b)"
  have step: "broker_inv ?b1" "broker_le b ?b1" using resolve_step [OF assms(1)] by auto
  obtain r where r: "map_of (approvals b) i = Some r"
      "r < length (objects b) \<longrightarrow> pa_state (objects ?b1 ! r) = Resolved"
    using assms(2) by (rule resolve_Inr)
  have len: "r < length (objects b)" using assms(1) r(1) by (rule broker_inv_ref)
  have "broker_le ?b1 c" unfolding assms(4) by (rule brk.run_le) (simp_all add: list_all_iff step)
  then have "object_le (objects ?b1 ! r) (objects c ! r)"
    using len step(2) unfolding broker_le_def by (metis order_less_le_trans)
  then have c: "pa_state (objects c ! r) = Resolved"
      "pa_decision (objects c ! r) = pa_decision (objects ?b1 ! r)"
    using r(2) len by (auto simp: object_le_def)
  have "False" if "fst (resolve sid2 i allow2 afs2 now2 now2' c) = Inr rs2" for rs2
  proof -
    from that obtain r' where r': "map_of (approvals c) i = Some r'" "pa_state (objects c ! r') \<noteq> Resolved"
      by (rule resolve_Inr)
    have "map_of (approvals ?b1) i = Some r'"
      using run_map_of [OF assms(3) step(1)] r'(1) assms(4) by simp
    then have "map_of (approvals b) i = Some r'"
      using apply_map_of [of i "Resolve sid i allow afs now now'" b r'] assms(1) by simp
    then show False using r r'(2) c(1) by simp
  qed
  then show ?thesis using r(1) c by (auto simp: is_ok_iff)
qed

section \<open>Deadlines, clearing and retention\<close>

text \<open>
  An answer that comes too late is no approval: resolving after the deadline raises
  \<open>approval_expired\<close>, wakes the waiter with a denial and grants nothing to the session.
\<close>

theorem late_resolve_denies:
  assumes "validate_approval_id i = Inr ()" and "map_of (approvals b) i = Some r"
    and "broker_inv b" and "pa_session (objects b ! r) = sid"
    and "pa_state (objects b ! r) \<noteq> Resolved" and "now > pa_deadline (objects b ! r)"
  shows "fst (resolve sid i allow afs now now' b) =
      Inl (ProtocolError ''approval_expired'' ''Approval id has expired.'') \<and>
    pa_state (objects (snd (resolve sid i allow afs now now' b)) ! r) = Expired \<and>
    pa_done (objects (snd (resolve sid i allow afs now now' b)) ! r) \<and>
    fst (finish_done r later (snd (resolve sid i allow afs now now' b))) = deny \<and>
    allowances (snd (resolve sid i allow afs now now' b)) = allowances b"
  using assms broker_inv_ref [OF assms(3,2)]
  by (simp add: resolve_def Let_def finish_done_def)

lemma clear_entry_expired:
  assumes "r < length (objects b)" "pa_session (objects b ! r) = sid"
    "pa_state (objects b ! r) = Expired" "pa_done (objects b ! r)"
  shows "pa_session (objects (clear_entry sid now e b) ! r) = sid \<and>
    pa_state (objects (clear_entry sid now e b) ! r) = Expired \<and> pa_done (objects (clear_entry sid now e b) ! r)"
  using assms by (cases "snd e = r") (auto simp: clear_entry_def Let_def)

lemma clear_entries_expired:
  "r < length (objects b) \<Longrightarrow> pa_session (objects b ! r) = sid \<Longrightarrow>
   pa_state (objects b ! r) = Expired \<Longrightarrow> pa_done (objects b ! r) \<Longrightarrow>
   pa_state (objects (clear_entries sid now es b) ! r) = Expired \<and>
   pa_done (objects (clear_entries sid now es b) ! r)"
proof (induction es arbitrary: b)
  case (Cons e es)
  then show ?case using clear_entry_expired [OF Cons.prems] by simp
qed simp

lemma clear_entry_session [simp]:
  "pa_session (objects (clear_entry sid now e b) ! q) = pa_session (objects b ! q)"
  by (cases "snd e = q"; cases "q < length (objects b)")
    (auto simp: clear_entry_def Let_def list_update_beyond)

lemma clear_entry_keeps_pending:
  "pa_state (objects b ! r) = Pending \<Longrightarrow> snd e \<noteq> r \<Longrightarrow>
   pa_state (objects (clear_entry sid now e b) ! r) = Pending"
  by (auto simp: clear_entry_def Let_def)

lemma clear_entries_pending:
  assumes "(i, r) \<in> set es" "r < length (objects b)" "pa_session (objects b ! r) = sid"
    "pa_state (objects b ! r) = Pending"
  shows "pa_state (objects (clear_entries sid now es b) ! r) = Expired \<and>
    pa_done (objects (clear_entries sid now es b) ! r)"
  using assms
proof (induction es arbitrary: b)
  case (Cons e es)
  show ?case
  proof (cases "snd e = r")
    case True
    then have "pa_state (objects (clear_entry sid now e b) ! r) = Expired"
      "pa_done (objects (clear_entry sid now e b) ! r)"
      using Cons.prems by (auto simp: clear_entry_def Let_def)
    then show ?thesis using Cons.prems clear_entries_expired [of r "clear_entry sid now e b" sid] by simp
  next
    case False
    then have "(i, r) \<in> set es" using Cons.prems(1) by auto
    then show ?thesis
      using Cons.IH [of "clear_entry sid now e b"] Cons.prems clear_entry_keeps_pending [OF _ False] by simp
  qed
qed simp

lemma clear_entry_approvals:
  "set (approvals (clear_entry sid now e b)) =
     (if pa_session (objects b ! snd e) = sid
      then {x \<in> set (approvals b). fst x \<noteq> fst e} else set (approvals b))"
  by (auto simp: clear_entry_def Let_def alist_pop_def)

lemma clear_entries_approvals:
  "x \<in> set (approvals (clear_entries sid now es b)) \<Longrightarrow> x \<in> set (approvals b) \<and>
     (x \<in> set es \<longrightarrow> pa_session (objects b ! snd x) \<noteq> sid)"
proof (induction es arbitrary: b)
  case (Cons e es)
  then show ?case
    using Cons.IH [of "clear_entry sid now e b"]
    by (auto simp: clear_entry_approvals split: if_splits)
qed simp

lemma clear_entries_allowances [simp]: "allowances (clear_entries sid now es b) = allowances b"
  by (induction es arbitrary: b) (simp_all add: clear_entry_def Let_def)

text \<open>
  Clearing a session leaves nothing of it behind in the broker: no remembered allowance of the
  session, no entry of it in the table, and every approval of it that was pending is denied and its
  waiter woken; other sessions keep their allowances.
\<close>

theorem clear_session_clears:
  assumes "broker_inv b"
  shows "(\<forall>k. (sid, k) \<notin> set (allowances (clear_session sid now b))) \<and>
    (\<forall>s k. s \<noteq> sid \<longrightarrow> (s, k) \<in> set (allowances b) \<longrightarrow> (s, k) \<in> set (allowances (clear_session sid now b))) \<and>
    (\<forall>x\<in>set (approvals (clear_session sid now b)). pa_session (objects b ! snd x) \<noteq> sid) \<and>
    (\<forall>i r. (i, r) \<in> set (approvals b) \<and> pa_session (objects b ! r) = sid \<and> pa_state (objects b ! r) = Pending \<longrightarrow>
       pa_done (objects (clear_session sid now b) ! r) \<and>
       fst (finish_done r later (clear_session sid now b)) = deny)"
proof -
  let ?b1 = "b\<lparr>allowances := filter (\<lambda>a. fst a \<noteq> sid) (allowances b)\<rparr>"
  let ?c = "clear_session sid now b"
  have c: "?c = clear_entries sid now (approvals b) ?b1" by (simp add: clear_session_def)
  have "pa_session (objects b ! snd x) \<noteq> sid" if "x \<in> set (approvals ?c)" for x
    using clear_entries_approvals [of x sid now "approvals b" ?b1] that c by auto
  moreover have "pa_done (objects ?c ! r) \<and> fst (finish_done r later ?c) = deny"
    if "(i, r) \<in> set (approvals b)" "pa_session (objects b ! r) = sid" "pa_state (objects b ! r) = Pending" for i r
  proof -
    have r: "r < length (objects b)" using assms that(1) by (auto simp: broker_inv_def)
    have e: "pa_state (objects ?c ! r) = Expired" "pa_done (objects ?c ! r)"
      using clear_entries_pending [OF that(1), of ?b1 sid now] that r c by auto
    have "broker_inv ?c" using clear_session_step [OF assms] by blast
    moreover have "r < length (objects ?c)" using r c by simp
    ultimately have "object_inv (objects ?c ! r)" by (rule broker_inv_object)
    then show ?thesis using e by (auto simp: finish_done_def Let_def object_inv_def)
  qed
  ultimately show ?thesis by (auto simp: c)
qed

lemma sort_perm_filter:
  assumes "distinct (map snd (xs :: ('a::linorder \<times> 'b::linorder) list))"
  shows "length (filter (\<lambda>x. snd x \<notin> set (map snd (take k (sort xs)))) xs) = length xs - k"
proof -
  let ?ys = "sort xs"
  have len: "length (filter P ?ys) = length (filter P xs)" for P
    by (metis mset_filter mset_sort size_mset)
  have d: "distinct (map snd ?ys)"
    using assms by (simp add: distinct_map)
  have "filter (\<lambda>x. snd x \<notin> set (map snd (take k ?ys))) (take k ?ys @ drop k ?ys) = drop k ?ys"
  proof -
    have disj: "set (map snd (take k ?ys)) \<inter> set (map snd (drop k ?ys)) = {}"
      using d by (metis append_take_drop_id distinct_append map_append)
    then have "filter (\<lambda>x. snd x \<notin> set (map snd (take k ?ys))) (drop k ?ys) = drop k ?ys"
      by (intro filter_True) auto
    moreover have "filter (\<lambda>x. snd x \<notin> set (map snd (take k ?ys))) (take k ?ys) = []"
      by (intro filter_False) auto
    ultimately show ?thesis by (simp only: filter_append append_Nil)
  qed
  then have "filter (\<lambda>x. snd x \<notin> set (map snd (take k ?ys))) ?ys = drop k ?ys"
    unfolding append_take_drop_id .
  then show ?thesis using len by (metis length_drop length_sort)
qed

text \<open>
  Retention is bounded: after pruning, the table keeps every pending approval and at most the
  configured number of decided ones.
\<close>

theorem prune_bounds_table:
  assumes "broker_inv b" and "0 \<le> max_resolved b"
  shows "int (length (filter (\<lambda>x. \<not> is_pending b (snd x)) (approvals (prune_locked now b)))) \<le> max_resolved b \<and>
    filter (\<lambda>x. is_pending b (snd x)) (approvals (prune_locked now b)) =
      filter (\<lambda>x. is_pending b (snd x)) (approvals b)"
proof -
  let ?c = "prune_stale now b"
  have same: "is_pending ?c = is_pending b" "objects ?c = objects b" "max_resolved ?c = max_resolved b"
    by (auto simp: prune_stale_def is_pending_def fun_eq_iff)
  have keep: "filter (\<lambda>x. is_pending b (snd x)) (approvals ?c) = filter (\<lambda>x. is_pending b (snd x)) (approvals b)"
    by (auto simp: prune_stale_def case_prod_beta intro!: filter_cong)
  have d: "distinct (map fst (approvals ?c))"
    using assms(1) by (auto simp: prune_stale_def broker_inv_def distinct_map_filter)
  let ?es = "resolved_entries now ?c"
  have ids: "map snd ?es = map fst (filter (\<lambda>x. \<not> is_pending b (snd x)) (approvals ?c))"
    by (simp add: resolved_entries_def same case_prod_unfold o_def)
  have dist: "distinct (map snd ?es)" unfolding ids using d by (simp add: distinct_map_filter)
  show ?thesis
  proof (cases "int (length ?es) - max_resolved b \<le> 0")
    case True
    then show ?thesis
      using keep ids by (simp add: prune_locked_def prune_overflow_def Let_def same) (metis length_map)
  next
    case False
    let ?k = "nat (int (length ?es) - max_resolved b)"
    let ?doomed = "set (map snd (take ?k (sort ?es)))"
    have ap: "approvals (prune_locked now b) = filter (\<lambda>x. fst x \<notin> ?doomed) (approvals ?c)"
      using False by (simp add: prune_locked_def prune_overflow_def Let_def same case_prod_unfold)
    have pend: "fst x \<notin> ?doomed" if "x \<in> set (approvals ?c)" "is_pending b (snd x)" for x
    proof
      assume "fst x \<in> ?doomed"
      then have "fst x \<in> set (map snd ?es)" by (force dest: in_set_takeD)
      then obtain y where "y \<in> set (approvals ?c)" "fst y = fst x" "\<not> is_pending b (snd y)"
        unfolding ids by auto
      then show False using that d by (metis distinct_map inj_onD)
    qed
    have "length (filter (\<lambda>x. \<not> is_pending b (snd x)) (approvals (prune_locked now b))) =
        length (filter (\<lambda>i. i \<notin> ?doomed) (map snd ?es))"
      unfolding ap ids filter_map length_map o_def filter_filter
      by (simp add: conj_commute)
    also have "\<dots> = length (filter (\<lambda>x. snd x \<notin> ?doomed) ?es)"
      by (simp only: filter_map length_map o_def)
    also have "\<dots> = length ?es - ?k" by (rule sort_perm_filter [OF dist])
    finally have "int (length (filter (\<lambda>x. \<not> is_pending b (snd x)) (approvals (prune_locked now b)))) \<le> max_resolved b"
      using False assms(2) by linarith
    moreover have "filter (\<lambda>x. is_pending b (snd x)) (approvals (prune_locked now b)) =
        filter (\<lambda>x. is_pending b (snd x)) (approvals ?c)"
      unfolding ap filter_filter using pend by (intro filter_cong refl) auto
    ultimately show ?thesis using keep by simp
  qed
qed

section \<open>Concrete runs\<close>

definition shell_scope :: session_scope where
  "shell_scope = supported_scope (command_scope_dict ''shell_run'' (sample_sha ''ls''))"

definition fresh_broker :: broker where
  "fresh_broker = new_broker 120 300 512"

definition asked_ops :: "broker_op list" where
  "asked_ops = [RequestCheck ''s'' shell_scope 1, RequestRegister ''a1'' ''s'' shell_scope 1]"

definition allowed_ops :: "broker_op list" where
  "allowed_ops = asked_ops @ [Resolve ''s'' ''a1'' True True 5 5]"

definition asked :: broker where
  "asked = run broker_apply asked_ops fresh_broker"

definition allowed :: broker where
  "allowed = run broker_apply allowed_ops fresh_broker"

lemma asked_inv: "broker_inv asked"
  unfolding asked_def fresh_broker_def by (rule brk.run_inv) (simp_all add: list_all_iff)

lemma allowed_inv: "broker_inv allowed"
  unfolding allowed_def fresh_broker_def by (rule brk.run_inv) (simp_all add: list_all_iff)

lemma sample_id [simp]: "validate_approval_id ''a1'' = Inr ()"
  by code_simp

lemmas sample_run_defs = asked_def allowed_def asked_ops_def allowed_ops_def fresh_broker_def
  new_broker_def request_check_def request_register_def prune_locked_def prune_stale_def
  prune_overflow_def resolved_entries_def shell_scope_def supported_scope_def allowance_key_def

lemma asked_objects: "approvals asked = [(''a1'', 0)] \<and> length (objects asked) = 1 \<and>
    pa_session (objects asked ! 0) = ''s'' \<and> pa_state (objects asked ! 0) = Pending \<and>
    pa_deadline (objects asked ! 0) = 121 \<and> pa_supported (objects asked ! 0) \<and>
    pa_key (objects asked ! 0) = sc_key shell_scope \<and> sc_key shell_scope \<noteq> None"
  by (simp add: sample_run_defs Let_def)

lemma allowed_step: "allowed = snd (resolve ''s'' ''a1'' True True 5 5 asked)"
  by (simp add: allowed_def allowed_ops_def asked_def)

lemma allowed_resolved: "is_ok (fst (resolve ''s'' ''a1'' True True 5 5 asked)) \<and>
    pa_state (objects allowed ! 0) = Resolved \<and> length (objects allowed) = 1 \<and>
    pa_session (objects allowed ! 0) = ''s''"
  using asked_objects unfolding allowed_step by (simp add: resolve_def Let_def)

theorem verdicts_come_from_resolve_witness:
  "\<exists>xs ys allow afs now now' rs. allowed_ops = xs @ Resolve ''s'' ''a1'' allow afs now now' # ys \<and>
     fst (resolve ''s'' ''a1'' allow afs now now' (run broker_apply xs fresh_broker)) = Inr rs \<and>
     map_of (approvals (run broker_apply xs fresh_broker)) ''a1'' = Some 0"
proof -
  have "pa_id (objects asked ! 0) = ''a1''" by (simp add: sample_run_defs Let_def)
  then have "pa_id (objects allowed ! 0) = ''a1''"
    using asked_objects unfolding allowed_step by (simp add: resolve_def Let_def)
  moreover
  have "0 < length (objects allowed)" "pa_state (objects allowed ! 0) = Resolved"
    "pa_session (objects allowed ! 0) = ''s''"
    using allowed_resolved by auto
  ultimately show ?thesis
    using verdicts_come_from_resolve [OF allowed_def [unfolded fresh_broker_def], of 0]
    unfolding fresh_broker_def by metis
qed

theorem approvals_are_authorized_witness:
  "fst (finish_timeout 0 130 allowed) = deny"
  using approvals_are_authorized [OF allowed_def [unfolded fresh_broker_def]] by blast

theorem verdicts_are_final_witness:
  "\<not> is_ok (fst (resolve ''s'' ''a1'' False False 9 9 allowed))"
proof -
  obtain rs where rs: "fst (resolve ''s'' ''a1'' True True 5 5 asked) = Inr rs"
    using allowed_resolved by (auto simp: is_ok_iff)
  show ?thesis
    using verdicts_are_final [OF asked_inv rs, of "[]" allowed "''s''" False False 9 9] by (simp add: allowed_step)
qed

theorem late_resolve_denies_witness:
  "fst (resolve ''s'' ''a1'' True True 500 500 asked) =
     Inl (ProtocolError ''approval_expired'' ''Approval id has expired.'')"
  using late_resolve_denies [OF sample_id _ asked_inv, of 0 "''s''" 500] asked_objects by simp

theorem clear_session_clears_witness:
  "\<forall>k. (''s'', k) \<notin> set (allowances (clear_session ''s'' 9 allowed))"
  using clear_session_clears [OF allowed_inv] by blast

theorem prune_bounds_table_witness:
  "int (length (filter (\<lambda>x. \<not> is_pending allowed (snd x)) (approvals (prune_locked 900 allowed)))) \<le>
     max_resolved allowed"
proof -
  have "0 \<le> max_resolved allowed" by code_simp
  then show ?thesis using prune_bounds_table [OF allowed_inv] by blast
qed

section \<open>A cleared session can come back\<close>

text \<open>
  C34. Clearing a session does not stop a waiter that was already told yes: if the session is
  cleared after its approval was resolved and before the requesting thread runs again, that thread
  remembers the allowance again, and the next request with the same scope is approved unasked.
\<close>

theorem cleared_allowance_returns:
  assumes "broker_inv b" and "r < length (objects b)" and "pa_session (objects b ! r) = sid"
    and "pa_state (objects b ! r) = Resolved"
    and "pa_decision (objects b ! r) = Some \<lparr>dec_allow = True, dec_session = True\<rparr>"
    and "sc_supported info" and "sc_key info = pa_key (objects b ! r)"
  shows "(\<forall>k. (sid, k) \<notin> set (allowances (clear_session sid now b))) \<and>
    fst (request_check sid info now3 (snd (finish_done r now2 (clear_session sid now b)))) =
      Some \<lparr>dec_allow = True, dec_session = True\<rparr>"
proof -
  let ?c = "clear_session sid now b"
  have "object_inv (objects b ! r)" using assms(1,2) by (rule broker_inv_object)
  then obtain k where k: "pa_key (objects b ! r) = Some k"
    using assms(4,5) by (auto simp: object_inv_def)
  have "broker_le b ?c" using clear_session_step [OF assms(1)] by blast
  then have "object_le (objects b ! r) (objects ?c ! r)" using assms(2) by (simp add: broker_le_def)
  then have c: "pa_decision (objects ?c ! r) = Some \<lparr>dec_allow = True, dec_session = True\<rparr>"
      "pa_key (objects ?c ! r) = Some k" "pa_session (objects ?c ! r) = sid"
    using assms(3-5) k by (auto simp: object_le_def)
  have "(sid, k) \<in> set (allowances (snd (finish_done r now2 ?c)))"
    using c by (simp add: finish_done_def Let_def add_allowance_def)
  then have "fst (request_check sid info now3 (snd (finish_done r now2 ?c))) =
      Some \<lparr>dec_allow = True, dec_session = True\<rparr>"
    using assms(6,7) k by (simp add: request_check_def allowance_key_def Let_def)
  then show ?thesis using clear_session_clears [OF assms(1)] by blast
qed

theorem cleared_allowance_returns_witness:
  "fst (request_check ''s'' shell_scope 8 (snd (finish_done 0 7 (clear_session ''s'' 6 allowed)))) =
     Some \<lparr>dec_allow = True, dec_session = True\<rparr>"
proof -
  have "pa_decision (objects allowed ! 0) = Some \<lparr>dec_allow = True, dec_session = True\<rparr>"
    "pa_key (objects allowed ! 0) = sc_key shell_scope"
    using asked_objects unfolding allowed_step by (auto simp: resolve_def Let_def)
  then show ?thesis
    using cleared_allowance_returns [OF allowed_inv, of 0 "''s''" shell_scope] allowed_resolved
    by (simp add: shell_scope_def supported_scope_def)
qed

end
