(* ===== verification/PyObjects.thy ===== *)
theory PyObjects
  imports PyJson
begin

text \<open>
  Operations on dynamically typed values beyond the conversions: iteration, equality,
  hashability, \<open>d.get(k, default)\<close>, and \<open>json.dumps\<close> with its default separators.
\<close>

section \<open>Iteration and lookup\<close>

definition key_val :: "pykey \<Rightarrow> pyval" where
  "key_val k = (case k of KNone \<Rightarrow> PNone | KBool b \<Rightarrow> PBool b | KInt i \<Rightarrow> PInt i
     | KStr s \<Rightarrow> PStr s | KOther s \<Rightarrow> POther s)"

text \<open>The elements \<open>for x in v\<close> runs over.\<close>

definition py_iter :: "pyval \<Rightarrow> py_exc + pyval list" where
  "py_iter v =
     (case v of
        PList xs \<Rightarrow> Inr xs
      | PTuple xs \<Rightarrow> Inr xs
      | PDict kvs \<Rightarrow> Inr (map (\<lambda>kv. key_val (fst kv)) kvs)
      | PStr s \<Rightarrow> Inr (map (\<lambda>c. PStr [c]) s)
      | _ \<Rightarrow> Inl TypeError)"

definition dget_or :: "(pykey \<times> pyval) list \<Rightarrow> string \<Rightarrow> pyval \<Rightarrow> pyval" where
  "dget_or d k v = (if dhas d k then dget d k else v)"

text \<open>An \<open>int\<close> in the sense of \<open>isinstance\<close>: booleans are integers.\<close>

definition int_instance :: "pyval \<Rightarrow> int option" where
  "int_instance v = (case v of PInt i \<Rightarrow> Some i | PBool b \<Rightarrow> Some (if b then 1 else 0) | _ \<Rightarrow> None)"

text \<open>Lists and dictionaries cannot be looked up in a set.\<close>

fun hashable :: "pyval \<Rightarrow> bool" where
  "hashable (PList _) = False"
| "hashable (PDict _) = False"
| "hashable (PTuple xs) = list_all hashable xs"
| "hashable _ = True"

section \<open>Equality\<close>

text \<open>
  Python equality of JSON values: objects compare without regard to order, booleans are
  integers. (A finite float is compared by its text, so a float is never equal to an integer
  here; the compared values hold no floats.)
\<close>

fun py_eq :: "pyval \<Rightarrow> pyval \<Rightarrow> bool" where
  "py_eq (PList xs) w = (case w of PList ys \<Rightarrow> list_all2 py_eq xs ys | _ \<Rightarrow> False)"
| "py_eq (PTuple xs) w = (case w of PTuple ys \<Rightarrow> list_all2 py_eq xs ys | _ \<Rightarrow> False)"
| "py_eq (PDict a) w =
     (case w of
        PDict b \<Rightarrow> length a = length b \<and>
          list_all (\<lambda>kv. case map_of b (fst kv) of None \<Rightarrow> False | Some y \<Rightarrow> py_eq (snd kv) y) a
      | _ \<Rightarrow> False)"
| "py_eq (PBool p) w = (case w of PBool q \<Rightarrow> p = q | PInt j \<Rightarrow> (if p then 1 else 0) = j | _ \<Rightarrow> False)"
| "py_eq (PInt i) w = (case w of PBool q \<Rightarrow> i = (if q then 1 else 0) | PInt j \<Rightarrow> i = j | _ \<Rightarrow> False)"
| "py_eq v w = (v = w)"

lemma py_iter_simps [simp]:
  "py_iter (PList xs) = Inr xs" "py_iter (PTuple xs) = Inr xs"
  by (simp_all add: py_iter_def)

lemma int_instance_PInt [simp]: "int_instance (PInt i) = Some i"
  by (simp add: int_instance_def)

lemma py_eq_PStr: "py_eq (PStr s) w \<longleftrightarrow> w = PStr s"
  by (cases w) auto

lemma py_eq_PInt: "py_eq (PInt i) w \<longleftrightarrow> int_instance w = Some i"
  by (cases w) (auto simp: int_instance_def)

lemma py_eq_PBool_truthy: "py_eq (PBool b) w \<Longrightarrow> py_truthy w = b"
  by (cases w) (auto split: if_splits)

lemma py_eq_PDict_dget:
  assumes "py_eq (PDict a) (PDict b)" "dhas a k"
  shows "dhas b k \<and> py_eq (dget a k) (dget b k)"
proof -
  obtain v where v: "map_of a (KStr k) = Some v" using assms(2) by (auto simp: dhas_def)
  then have "(KStr k, v) \<in> set a" by (rule map_of_SomeD)
  moreover have "list_all (\<lambda>kv. case map_of b (fst kv) of None \<Rightarrow> False | Some y \<Rightarrow> py_eq (snd kv) y) a"
    using assms(1) by simp
  ultimately have "case map_of b (fst (KStr k, v)) of None \<Rightarrow> False | Some y \<Rightarrow> py_eq (snd (KStr k, v)) y"
    unfolding list_all_iff by (rule bspec [rotated])
  then show ?thesis using v by (auto simp: dhas_def dget_def split: option.splits)
qed

section \<open>Encoding with the default separators\<close>

fun json_wide :: "pyval \<Rightarrow> string"
and json_wide_list :: "pyval list \<Rightarrow> string"
and json_wide_items :: "(pykey \<times> pyval) list \<Rightarrow> string" where
  "json_wide (PList xs) = CHR ''['' # json_wide_list xs @ '']''"
| "json_wide (PTuple xs) = CHR ''['' # json_wide_list xs @ '']''"
| "json_wide (PDict kvs) = CHR ''{'' # json_wide_items kvs @ ''}''"
| "json_wide v = json_enc True v"
| "json_wide_list [] = []"
| "json_wide_list (v # vs) = json_wide v @ (if vs = [] then [] else '', '' @ json_wide_list vs)"
| "json_wide_items [] = []"
| "json_wide_items ((k, v) # kvs) =
     json_enc_str True (key_text k) @ '': '' @ json_wide v @
       (if kvs = [] then [] else '', '' @ json_wide_items kvs)"

text \<open>\<open>json.dumps(v)\<close> with no options.\<close>

definition json_dumps_default :: "pyval \<Rightarrow> py_exc + string" where
  "json_dumps_default v = (if json_ok True v then Inr (json_wide v) else Inl TypeError)"

end
