(* ===== verification/RunState.thy ===== *)
theory RunState
  imports PyObjects Machines
begin

text \<open>
  The lifecycle state of a Forge run, \<open>run_state.py\<close>: the status machine kept in the run
  pointer, crash reconciliation, and plan fingerprints with their comparison.

  Pointers, plans and fingerprints are JSON objects (lists of items with text keys). \<open>stamp\<close> is
  what \<open>at or _now_iso()\<close> gives, \<open>sha\<close> the SHA-256 hex digest of a text.
\<close>

section \<open>Statuses\<close>

datatype run_status = DRAFT | APPROVED | RUNNING_RUN | INTERRUPTED | COMPLETED_RUN | FAILED_RUN

definition RUN_STATUSES :: "run_status list" where
  "RUN_STATUSES = [DRAFT, APPROVED, RUNNING_RUN, INTERRUPTED, COMPLETED_RUN, FAILED_RUN]"

definition run_status_text :: "run_status \<Rightarrow> string" where
  "run_status_text s = (case s of DRAFT \<Rightarrow> ''draft'' | APPROVED \<Rightarrow> ''approved''
     | RUNNING_RUN \<Rightarrow> ''running'' | INTERRUPTED \<Rightarrow> ''interrupted''
     | COMPLETED_RUN \<Rightarrow> ''completed'' | FAILED_RUN \<Rightarrow> ''failed'')"

definition RESUMABLE_RUN_STATUSES :: "run_status set" where
  "RESUMABLE_RUN_STATUSES = {INTERRUPTED, FAILED_RUN}"

definition TERMINAL_RUN_STATUSES :: "run_status set" where
  "TERMINAL_RUN_STATUSES = {COMPLETED_RUN, FAILED_RUN}"

definition STATUS_HISTORY_LIMIT :: nat where
  "STATUS_HISTORY_LIMIT = 24"

definition normalize_run_status :: "pyval \<Rightarrow> run_status option" where
  "normalize_run_status v =
     find (\<lambda>s. run_status_text s = py_lower (py_strip (str_or v []))) RUN_STATUSES"

definition pointer_status :: "(pykey \<times> pyval) list option \<Rightarrow> run_status" where
  "pointer_status pointer =
     (case pointer of None \<Rightarrow> DRAFT
      | Some p \<Rightarrow> (case normalize_run_status (dget p ''status'') of None \<Rightarrow> DRAFT | Some s \<Rightarrow> s))"

definition status_is_resumable :: "pyval \<Rightarrow> bool" where
  "status_is_resumable v =
     (case normalize_run_status v of None \<Rightarrow> False | Some s \<Rightarrow> s \<in> RESUMABLE_RUN_STATUSES)"

definition status_is_terminal :: "pyval \<Rightarrow> bool" where
  "status_is_terminal v =
     (case normalize_run_status v of None \<Rightarrow> False | Some s \<Rightarrow> s \<in> TERMINAL_RUN_STATUSES)"

definition describe_run_status :: "pyval \<Rightarrow> string" where
  "describe_run_status v =
     (case (case normalize_run_status v of None \<Rightarrow> DRAFT | Some s \<Rightarrow> s) of
        DRAFT \<Rightarrow> ''plan is not execution-ready yet''
      | APPROVED \<Rightarrow> ''plan is execution-ready and not started''
      | RUNNING_RUN \<Rightarrow> ''a process is executing this plan''
      | INTERRUPTED \<Rightarrow> ''execution stopped without finishing''
      | COMPLETED_RUN \<Rightarrow> ''execution finished and the work was accepted''
      | FAILED_RUN \<Rightarrow> ''execution finished and the work was not accepted'')"

definition build_run_owner ::
    "int \<Rightarrow> string \<Rightarrow> string \<Rightarrow> string \<Rightarrow> string option \<Rightarrow> (pykey \<times> pyval) list" where
  "build_run_owner pid hostname mode stamp sid =
     [(KStr ''pid'', PInt pid), (KStr ''hostname'', PStr hostname), (KStr ''mode'', PStr mode),
      (KStr ''started_at'', PStr stamp),
      (KStr ''session_id'', case sid of Some s \<Rightarrow> if s \<noteq> [] then PStr s else PNone | None \<Rightarrow> PNone)]"

section \<open>Transitions\<close>

text \<open>\<open>list(v or [])\<close>.\<close>

definition list_or_empty :: "pyval \<Rightarrow> py_exc + pyval list" where
  "list_or_empty v = (if \<not> py_truthy v then Inr [] else py_iter v)"

text \<open>The pointer fields of a transition but the history, then the history entry.\<close>

definition status_fields ::
    "(pykey \<times> pyval) list \<Rightarrow> run_status \<Rightarrow> string \<Rightarrow> (pykey \<times> pyval) list option \<Rightarrow>
     (pykey \<times> pyval) list option \<Rightarrow> string \<Rightarrow> (pykey \<times> pyval) list" where
  "status_fields updated normalized reason owner fingerprint stamp =
     (let u1 = dput ''status'' (PStr (run_status_text normalized)) updated;
          u2 = dput ''status_updated_at'' (PStr stamp) u1;
          u3 = (if reason \<noteq> [] then dput ''status_reason'' (PStr reason) u2
                else dpop ''status_reason'' u2);
          u4 = (if normalized = RUNNING_RUN
                then (case owner of Some ow \<Rightarrow> dput ''run_owner'' (PDict ow) u3 | None \<Rightarrow> u3)
                else dpop ''run_owner'' u3)
      in case fingerprint of Some fp \<Rightarrow> dput ''plan_fingerprint'' (PDict fp) u4 | None \<Rightarrow> u4)"

definition history_entry ::
    "run_status \<Rightarrow> run_status option \<Rightarrow> string \<Rightarrow> string \<Rightarrow> (pykey \<times> pyval) list" where
  "history_entry normalized previous reason stamp =
     [(KStr ''status'', PStr (run_status_text normalized)), (KStr ''at'', PStr stamp)] @
     (case previous of
        Some s \<Rightarrow> if s \<noteq> normalized then [(KStr ''from'', PStr (run_status_text s))] else []
      | None \<Rightarrow> []) @
     (if reason \<noteq> [] then [(KStr ''reason'', PStr reason)] else [])"

definition apply_run_status ::
    "(pykey \<times> pyval) list option \<Rightarrow> pyval \<Rightarrow> string \<Rightarrow> (pykey \<times> pyval) list option \<Rightarrow>
     (pykey \<times> pyval) list option \<Rightarrow> string \<Rightarrow> py_exc + (pykey \<times> pyval) list" where
  "apply_run_status pointer status reason owner fingerprint stamp =
     (case normalize_run_status status of
        None \<Rightarrow> Inl ValueError
      | Some normalized \<Rightarrow>
          let start = (case pointer of None \<Rightarrow> [] | Some p \<Rightarrow> p);
              previous = (if start \<noteq> [] then Some (pointer_status pointer) else None);
              updated = status_fields start normalized reason owner fingerprint stamp
          in res_bind (list_or_empty (dget updated ''status_history'')) (\<lambda>history.
               Inr (dput ''status_history''
                 (PList (take_last STATUS_HISTORY_LIMIT
                    (history @ [PDict (history_entry normalized previous reason stamp)]))) updated)))"

definition owner_detail :: "pyval \<Rightarrow> string" where
  "owner_detail owner =
     (case owner of
        PDict d \<Rightarrow>
          if py_truthy (dget d ''pid'') \<and> py_truthy (dget d ''hostname'')
          then '' (owner pid '' @ py_str (dget d ''pid'') @ '' on '' @ py_str (dget d ''hostname'') @ '' is gone)''
          else []
      | _ \<Rightarrow> [])"

text \<open>\<open>None\<close> when the pointer is left as it is.\<close>

definition reconcile_status_after_crash ::
    "(pykey \<times> pyval) list option \<Rightarrow> bool \<Rightarrow> string \<Rightarrow> py_exc + (pykey \<times> pyval) list option" where
  "reconcile_status_after_crash pointer lock_is_live stamp =
     (case pointer of
        None \<Rightarrow> Inr None
      | Some p \<Rightarrow>
          if pointer_status pointer \<noteq> RUNNING_RUN then Inr None
          else if lock_is_live then Inr None
          else res_bind (apply_run_status pointer (PStr (run_status_text INTERRUPTED))
                 (''run was marked running but no execution holds the workspace lock'' @
                  owner_detail (dget p ''run_owner'')) None None stamp)
               (\<lambda>u. Inr (Some u)))"

section \<open>Plan fingerprints\<close>

definition TASK_DEFINITION_KEYS :: "string list" where
  "TASK_DEFINITION_KEYS = [''title'', ''description'', ''acceptance_criteria'', ''dependencies'',
     ''estimated_files'', ''write_scope'', ''task_kind'', ''mcp_scope'']"

definition digest_json :: "(string \<Rightarrow> string) \<Rightarrow> pyval \<Rightarrow> py_exc + pyval" where
  "digest_json sha payload =
     res_bind (json_dumps False True True payload) (\<lambda>canonical. Inr (PStr (take 32 (sha canonical))))"

definition task_id :: "(pykey \<times> pyval) list \<Rightarrow> string" where
  "task_id task = py_strip (str_or (dget task ''id'') [])"

text \<open>The elements of a \<open>Sequence\<close>; text is one, of its characters.\<close>

definition sequence_elems :: "pyval \<Rightarrow> pyval list option" where
  "sequence_elems v =
     (case v of PList xs \<Rightarrow> Some xs | PTuple xs \<Rightarrow> Some xs
      | PStr s \<Rightarrow> Some (map (\<lambda>c. PStr [c]) s) | _ \<Rightarrow> None)"

definition plan_tasks :: "(pykey \<times> pyval) list \<Rightarrow> (pykey \<times> pyval) list list" where
  "plan_tasks plan =
     (case sequence_elems (dget plan ''tasks'') of
        None \<Rightarrow> []
      | Some xs \<Rightarrow> filter (\<lambda>t. task_id t \<noteq> []) (map items_of (filter is_dict xs)))"

definition requirement_of_item :: "(pykey \<times> pyval) list \<Rightarrow> string list" where
  "requirement_of_item item =
     (case find (\<lambda>k. case dget item k of PStr s \<Rightarrow> py_strip s \<noteq> [] | _ \<Rightarrow> False)
             [''text'', ''requirement'', ''title'', ''description'', ''content''] of
        None \<Rightarrow> []
      | Some k \<Rightarrow> [py_strip (py_str (dget item k))])"

definition requirement_texts :: "(pykey \<times> pyval) list \<Rightarrow> string list" where
  "requirement_texts plan =
     (case sequence_elems (dget plan ''requirements'') of
        None \<Rightarrow> []
      | Some xs \<Rightarrow> concat (map (\<lambda>item. case item of
            PDict d \<Rightarrow> requirement_of_item d
          | _ \<Rightarrow> (let t = py_strip (py_str item) in if t \<noteq> [] then [t] else [])) xs))"

fun digest_fields ::
    "(string \<Rightarrow> string) \<Rightarrow> (pykey \<times> pyval) list \<Rightarrow> string list \<Rightarrow> py_exc + (pykey \<times> pyval) list" where
  "digest_fields sha task [] = Inr []"
| "digest_fields sha task (k # ks) =
     (if dhas task k
      then res_bind (digest_json sha (dget task k)) (\<lambda>d.
           res_bind (digest_fields sha task ks) (\<lambda>ds. Inr ((KStr k, d) # ds)))
      else digest_fields sha task ks)"

fun task_digests ::
    "(string \<Rightarrow> string) \<Rightarrow> (pykey \<times> pyval) list list \<Rightarrow> (pykey \<times> pyval) list \<Rightarrow>
     py_exc + (pykey \<times> pyval) list" where
  "task_digests sha [] acc = Inr acc"
| "task_digests sha (t # ts) acc =
     res_bind (digest_fields sha t TASK_DEFINITION_KEYS) (\<lambda>fields.
       task_digests sha ts (dput (task_id t) (PDict fields) acc))"

definition plan_fingerprint ::
    "(string \<Rightarrow> string) \<Rightarrow> (pykey \<times> pyval) list \<Rightarrow> py_exc + (pykey \<times> pyval) list" where
  "plan_fingerprint sha plan =
     res_bind (task_digests sha (plan_tasks plan) []) (\<lambda>tasks.
     res_bind (digest_json sha (PStr (py_strip (str_or (dget plan ''project_goal'') [])))) (\<lambda>goal.
     res_bind (digest_json sha (PStr (py_strip (str_or (dget plan ''summary'') [])))) (\<lambda>summary.
     res_bind (digest_json sha (PList (map PStr (requirement_texts plan)))) (\<lambda>reqs.
       let body = [(KStr ''project_goal'', goal), (KStr ''summary'', summary),
                   (KStr ''requirements'', reqs),
                   (KStr ''task_order'', PList (map (\<lambda>t. PStr (task_id t)) (plan_tasks plan))),
                   (KStr ''tasks'', PDict tasks)]
       in res_bind (digest_json sha (PDict body)) (\<lambda>d.
            Inr ((KStr ''schema_version'', PInt 1) # body @ [(KStr ''digest'', d)]))))))"

section \<open>Drift\<close>

record plan_drift =
  changed :: bool
  goal_changed :: bool
  summary_changed :: bool
  requirements_changed :: bool
  order_changed :: bool
  tasks_added :: "string list"
  tasks_removed :: "string list"
  tasks_changed :: "(string \<times> string list) list"
  comparable :: bool

definition no_drift :: plan_drift where
  "no_drift = \<lparr>changed = False, goal_changed = False, summary_changed = False,
     requirements_changed = False, order_changed = False, tasks_added = [], tasks_removed = [],
     tasks_changed = [], comparable = True\<rparr>"

definition text_keys :: "(pykey \<times> pyval) list \<Rightarrow> string list" where
  "text_keys d = map (\<lambda>kv. key_text (fst kv)) d"

definition changed_fields :: "(pykey \<times> pyval) list \<Rightarrow> (pykey \<times> pyval) list \<Rightarrow> string list" where
  "changed_fields before after =
     sort (filter (\<lambda>k. \<not> py_eq (dget before k) (dget after k))
       (dedup (text_keys before @ text_keys after)))"

definition changed_tasks ::
    "(pykey \<times> pyval) list \<Rightarrow> (pykey \<times> pyval) list \<Rightarrow> (string \<times> string list) list" where
  "changed_tasks recorded current =
     concat (map (\<lambda>i. case (dget recorded i, dget current i) of
         (PDict before, PDict after) \<Rightarrow>
           (let fields = changed_fields before after in if fields \<noteq> [] then [(i, fields)] else [])
       | _ \<Rightarrow> [])
       (sort (filter (\<lambda>i. i \<in> set (text_keys current)) (text_keys recorded))))"

definition compare_plan_fingerprints ::
    "pyval \<Rightarrow> (pykey \<times> pyval) list \<Rightarrow> py_exc + plan_drift" where
  "compare_plan_fingerprints recorded current =
     (case recorded of
        PDict r \<Rightarrow>
          if \<not> py_truthy (dget r ''digest'')
          then Inr (no_drift\<lparr>changed := True, comparable := False\<rparr>)
          else if py_eq (dget r ''digest'') (dget current ''digest'') then Inr no_drift
          else
            let rt = items_of (dget r ''tasks''); ct = items_of (dget current ''tasks'') in
            res_bind (list_or_empty (dget r ''task_order'')) (\<lambda>ro.
            res_bind (list_or_empty (dget current ''task_order'')) (\<lambda>co.
              Inr \<lparr>changed = True,
                goal_changed = (\<not> py_eq (dget r ''project_goal'') (dget current ''project_goal'')),
                summary_changed = (\<not> py_eq (dget r ''summary'') (dget current ''summary'')),
                requirements_changed = (\<not> py_eq (dget r ''requirements'') (dget current ''requirements'')),
                order_changed = (\<not> list_all2 py_eq ro co),
                tasks_added = sort (filter (\<lambda>i. i \<notin> set (text_keys rt)) (text_keys ct)),
                tasks_removed = sort (filter (\<lambda>i. i \<notin> set (text_keys ct)) (text_keys rt)),
                tasks_changed = changed_tasks rt ct, comparable = True\<rparr>))
      | _ \<Rightarrow> Inr (no_drift\<lparr>changed := True, comparable := False\<rparr>))"

definition field_label :: "string \<Rightarrow> string" where
  "field_label name =
     (if name = ''acceptance_criteria'' then ''acceptance criteria''
      else if name = ''estimated_files'' then ''estimated files''
      else if name = ''write_scope'' then ''write scope''
      else if name = ''task_kind'' then ''task kind''
      else if name = ''mcp_scope'' then ''MCP scope''
      else name)"

definition drift_reasons :: "plan_drift \<Rightarrow> string list" where
  "drift_reasons d =
     (if \<not> comparable d then [''this run has no recorded plan fingerprint to compare against'']
      else
        (if goal_changed d then [''project goal changed''] else []) @
        (if summary_changed d then [''plan summary changed''] else []) @
        (if requirements_changed d then [''requirements changed''] else []) @
        (if tasks_added d \<noteq> [] then [''tasks added: '' @ py_join '', '' (tasks_added d)] else []) @
        (if tasks_removed d \<noteq> [] then [''tasks removed: '' @ py_join '', '' (tasks_removed d)] else []) @
        map (\<lambda>(i, fields). i @ '' changed: '' @ py_join '', '' (map field_label fields)) (tasks_changed d) @
        (if order_changed d \<and> \<not> (tasks_added d \<noteq> [] \<or> tasks_removed d \<noteq> [])
         then [''task order changed''] else []))"

definition drift_to_json :: "plan_drift \<Rightarrow> pyval" where
  "drift_to_json d =
     PDict [(KStr ''changed'', PBool (changed d)), (KStr ''comparable'', PBool (comparable d)),
       (KStr ''goal_changed'', PBool (goal_changed d)), (KStr ''summary_changed'', PBool (summary_changed d)),
       (KStr ''requirements_changed'', PBool (requirements_changed d)),
       (KStr ''order_changed'', PBool (order_changed d)),
       (KStr ''tasks_added'', PList (map PStr (tasks_added d))),
       (KStr ''tasks_removed'', PList (map PStr (tasks_removed d))),
       (KStr ''tasks_changed'', PList (map (\<lambda>(i, fields).
          PDict [(KStr ''task_id'', PStr i), (KStr ''fields'', PList (map PStr fields))]) (tasks_changed d))),
       (KStr ''reasons'', PList (map PStr (drift_reasons d)))]"

section \<open>The status machine\<close>

lemma normalize_run_status_text [simp]: "normalize_run_status (PStr (run_status_text s)) = Some s"
proof -
  have "normalize_run_status (PStr (run_status_text DRAFT)) = Some DRAFT"
    "normalize_run_status (PStr (run_status_text APPROVED)) = Some APPROVED"
    "normalize_run_status (PStr (run_status_text RUNNING_RUN)) = Some RUNNING_RUN"
    "normalize_run_status (PStr (run_status_text INTERRUPTED)) = Some INTERRUPTED"
    "normalize_run_status (PStr (run_status_text COMPLETED_RUN)) = Some COMPLETED_RUN"
    "normalize_run_status (PStr (run_status_text FAILED_RUN)) = Some FAILED_RUN"
    by code_simp+
  then show ?thesis by (cases s) simp_all
qed

lemma status_fields_get:
  "dget (status_fields d s reason owner fp stamp) ''status'' = PStr (run_status_text s)"
  "dget (status_fields d s reason owner fp stamp) ''status_updated_at'' = PStr stamp"
  "s \<noteq> RUNNING_RUN \<Longrightarrow> \<not> dhas (status_fields d s reason owner fp stamp) ''run_owner''"
  "dget (status_fields d RUNNING_RUN reason (Some ow) fp stamp) ''run_owner'' = PDict ow"
  by (simp_all add: status_fields_def Let_def split: option.split)

lemma status_fields_frame:
  "k \<noteq> ''status'' \<Longrightarrow> k \<noteq> ''status_updated_at'' \<Longrightarrow> k \<noteq> ''status_reason'' \<Longrightarrow>
   k \<noteq> ''run_owner'' \<Longrightarrow> k \<noteq> ''plan_fingerprint'' \<Longrightarrow>
   dget (status_fields d s reason owner fp stamp) k = dget d k"
  by (simp add: status_fields_def Let_def split: option.split)

lemma history_entry_get:
  "dget (history_entry s prev reason stamp) ''status'' = PStr (run_status_text s)"
  "dget (history_entry s prev reason stamp) ''at'' = PStr stamp"
  by (simp_all add: history_entry_def)

lemma apply_run_status_Inr:
  assumes "apply_run_status pointer status reason owner fp stamp = Inr u"
  obtains s hist prev where "normalize_run_status status = Some s"
    "u = dput ''status_history'' (PList (take_last STATUS_HISTORY_LIMIT
           (hist @ [PDict (history_entry s prev reason stamp)])))
         (status_fields (case pointer of None \<Rightarrow> [] | Some p \<Rightarrow> p) s reason owner fp stamp)"
  using assms
  by (cases "normalize_run_status status") (auto simp: apply_run_status_def Let_def res_simps)

lemma history_tail:
  "\<exists>h. take_last STATUS_HISTORY_LIMIT (hist @ [x]) = h @ [x] \<and> length (h @ [x]) \<le> 24"
  using take_last_snoc [of STATUS_HISTORY_LIMIT hist x] length_take_last [of STATUS_HISTORY_LIMIT "hist @ [x]"]
  by (auto simp: STATUS_HISTORY_LIMIT_def)

text \<open>
  A status transition records itself: the new pointer has the requested status and time stamp,
  publishes an owner only while running, keeps every unrelated field, and ends its history, of at
  most 24 entries, with this transition.
\<close>

theorem status_transition_recorded:
  assumes "apply_run_status pointer status reason owner fingerprint stamp = Inr u"
  shows "\<exists>s h e. normalize_run_status status = Some s \<and> pointer_status (Some u) = s \<and>
    dget u ''status_updated_at'' = PStr stamp \<and>
    (s \<noteq> RUNNING_RUN \<longrightarrow> \<not> dhas u ''run_owner'') \<and>
    (\<forall>ow. s = RUNNING_RUN \<and> owner = Some ow \<longrightarrow> dget u ''run_owner'' = PDict ow) \<and>
    (\<forall>k. k \<notin> {''status'', ''status_updated_at'', ''status_reason'', ''run_owner'',
               ''plan_fingerprint'', ''status_history''} \<longrightarrow>
       dget u k = dget (case pointer of None \<Rightarrow> [] | Some p \<Rightarrow> p) k) \<and>
    dget u ''status_history'' = PList (h @ [PDict e]) \<and> length (h @ [PDict e]) \<le> 24 \<and>
    dget e ''status'' = PStr (run_status_text s) \<and> dget e ''at'' = PStr stamp"
  using assms
proof (rule apply_run_status_Inr)
  fix s hist prev
  let ?e = "history_entry s prev reason stamp"
  let ?b = "status_fields (case pointer of None \<Rightarrow> [] | Some p \<Rightarrow> p) s reason owner fingerprint stamp"
  assume s: "normalize_run_status status = Some s" and
    u: "u = dput ''status_history'' (PList (take_last STATUS_HISTORY_LIMIT (hist @ [PDict ?e]))) ?b"
  from history_tail [of hist "PDict ?e"]
  obtain h where h: "take_last STATUS_HISTORY_LIMIT (hist @ [PDict ?e]) = h @ [PDict ?e]"
      "length (h @ [PDict ?e]) \<le> 24" by (elim exE conjE)
  show ?thesis
  proof (intro exI [of _ s] exI [of _ h] exI [of _ ?e] conjI allI impI)
    show "normalize_run_status status = Some s" by (rule s)
    show "pointer_status (Some u) = s" by (simp add: u pointer_status_def status_fields_get)
    show "dget u ''status_updated_at'' = PStr stamp" by (simp add: u status_fields_get)
    show "\<not> dhas u ''run_owner''" if "s \<noteq> RUNNING_RUN"
      using that by (simp add: u status_fields_get)
    show "dget u ''run_owner'' = PDict ow" if "s = RUNNING_RUN \<and> owner = Some ow" for ow
      using that by (simp add: u status_fields_get)
    show "dget u k = dget (case pointer of None \<Rightarrow> [] | Some p \<Rightarrow> p) k"
      if "k \<notin> {''status'', ''status_updated_at'', ''status_reason'', ''run_owner'',
               ''plan_fingerprint'', ''status_history''}" for k
    proof -
      from that have n: "k \<noteq> ''status''" "k \<noteq> ''status_updated_at''" "k \<noteq> ''status_reason''"
          "k \<noteq> ''run_owner''" "k \<noteq> ''plan_fingerprint''" "k \<noteq> ''status_history''"
        by simp_all
      show ?thesis unfolding u dget_dput using n by (simp add: status_fields_frame)
    qed
    show "dget u ''status_history'' = PList (h @ [PDict ?e])" unfolding u dget_dput h(1) by simp
    show "length (h @ [PDict ?e]) \<le> 24" by (rule h(2))
  qed (rule history_entry_get)+
qed

theorem status_transition_recorded_witness:
  "\<exists>u. apply_run_status None (PStr '' Running'') ''go'' None None ''t1'' = Inr u \<and>
     pointer_status (Some u) = RUNNING_RUN"
proof -
  have "is_ok (apply_run_status None (PStr '' Running'') ''go'' None None ''t1'')" by code_simp
  then obtain u where u: "apply_run_status None (PStr '' Running'') ''go'' None None ''t1'' = Inr u"
    by (auto simp: is_ok_iff)
  have "normalize_run_status (PStr '' Running'') = Some RUNNING_RUN" by code_simp
  then show ?thesis using status_transition_recorded [OF u] u by auto
qed

section \<open>Crash reconciliation\<close>

lemma status_transition_recorded_aux:
  assumes "apply_run_status pointer status reason owner fp stamp = Inr u"
    and "normalize_run_status status = Some s"
  shows "pointer_status (Some u) = s" "s \<noteq> RUNNING_RUN \<longrightarrow> \<not> dhas u ''run_owner''"
  using assms by (auto elim!: apply_run_status_Inr simp: pointer_status_def status_fields_get)

text \<open>
  Crash reconciliation touches exactly the phantom runs: it changes a pointer only if it says
  running while no live lock exists, never otherwise; the changed pointer is interrupted, resumable,
  names no owner, and reconciling it again changes nothing.
\<close>

theorem reconcile_only_phantoms:
  assumes "reconcile_status_after_crash pointer live stamp = Inr res"
  shows "(res = None \<longleftrightarrow> pointer_status pointer \<noteq> RUNNING_RUN \<or> live) \<and>
    (\<forall>u. res = Some u \<longrightarrow> pointer_status (Some u) = INTERRUPTED \<and>
       status_is_resumable (dget u ''status'') \<and> \<not> dhas u ''run_owner'' \<and>
       (\<forall>live' stamp'. reconcile_status_after_crash (Some u) live' stamp' = Inr None))"
proof (cases pointer)
  case None
  then show ?thesis
    using assms by (auto simp: reconcile_status_after_crash_def pointer_status_def)
next
  case (Some p)
  show ?thesis
  proof (cases "pointer_status pointer = RUNNING_RUN \<and> \<not> live")
    case False
    then show ?thesis
      using assms Some by (auto simp: reconcile_status_after_crash_def split: if_splits)
  next
    case True
    let ?why = "''run was marked running but no execution holds the workspace lock'' @
        owner_detail (dget p ''run_owner'')"
    obtain u where u: "apply_run_status pointer (PStr (run_status_text INTERRUPTED)) ?why None None stamp = Inr u"
        "res = Some u"
      using assms Some True by (auto simp: reconcile_status_after_crash_def res_simps)
    have f: "pointer_status (Some u) = INTERRUPTED" "\<not> dhas u ''run_owner''"
      using status_transition_recorded_aux [OF u(1)] by auto
    have "dget u ''status'' = PStr (run_status_text INTERRUPTED)"
      using u(1) by (rule apply_run_status_Inr) (simp add: status_fields_get)
    then have "status_is_resumable (dget u ''status'')"
      by (simp add: status_is_resumable_def RESUMABLE_RUN_STATUSES_def)
    then show ?thesis using True u(2) f by (simp add: reconcile_status_after_crash_def)
  qed
qed

definition phantom_pointer :: "(pykey \<times> pyval) list" where
  "phantom_pointer = [(KStr ''status'', PStr ''running''), (KStr ''run_owner'', PDict [(KStr ''pid'', PInt 7)])]"

theorem reconcile_only_phantoms_witness:
  "\<exists>u. reconcile_status_after_crash (Some phantom_pointer) False ''t2'' = Inr (Some u) \<and>
     pointer_status (Some u) = INTERRUPTED"
proof -
  have "(case reconcile_status_after_crash (Some phantom_pointer) False ''t2'' of
      Inr (Some u) \<Rightarrow> True | _ \<Rightarrow> False)"
    by code_simp
  then obtain u where u: "reconcile_status_after_crash (Some phantom_pointer) False ''t2'' = Inr (Some u)"
    by (auto split: sum.splits option.splits)
  show ?thesis using reconcile_only_phantoms [OF u] u by auto
qed

section \<open>Fingerprints and drift\<close>

text \<open>Two task records with the same authored definition, whatever else they hold.\<close>

definition same_definition :: "(pykey \<times> pyval) list \<Rightarrow> (pykey \<times> pyval) list \<Rightarrow> bool" where
  "same_definition t t' \<longleftrightarrow> dget t ''id'' = dget t' ''id'' \<and>
     (\<forall>k\<in>set TASK_DEFINITION_KEYS. dhas t k = dhas t' k \<and> dget t k = dget t' k)"

lemma same_definition_id: "same_definition t t' \<Longrightarrow> task_id t' = task_id t"
  by (simp add: same_definition_def task_id_def)

lemma digest_fields_cong:
  "\<forall>k\<in>set ks. dhas t k = dhas t' k \<and> dget t k = dget t' k \<Longrightarrow>
   digest_fields sha t ks = digest_fields sha t' ks"
  by (induction ks) auto

lemma task_digests_cong:
  "list_all2 same_definition ts ts' \<Longrightarrow> task_digests sha ts acc = task_digests sha ts' acc"
proof (induction arbitrary: acc rule: list_all2_induct)
  case (Cons t ts t' ts')
  then have "digest_fields sha t TASK_DEFINITION_KEYS = digest_fields sha t' TASK_DEFINITION_KEYS"
    by (intro digest_fields_cong) (simp add: same_definition_def)
  then show ?case using Cons same_definition_id [OF Cons.hyps(1)] by simp
qed simp

lemma plan_tasks_list: "dget plan ''tasks'' = PList (map PDict ts) \<Longrightarrow>
    plan_tasks plan = filter (\<lambda>t. task_id t \<noteq> []) ts"
  by (simp add: plan_tasks_def sequence_elems_def filter_map o_def)

lemma same_definition_filter:
  "list_all2 same_definition ts ts' \<Longrightarrow>
   list_all2 same_definition (filter (\<lambda>t. task_id t \<noteq> []) ts) (filter (\<lambda>t. task_id t \<noteq> []) ts')"
  by (induction rule: list_all2_induct) (auto dest: same_definition_id)

lemma same_definition_ids:
  "list_all2 same_definition ts ts' \<Longrightarrow> map (\<lambda>t. PStr (task_id t)) ts' = map (\<lambda>t. PStr (task_id t)) ts"
  by (induction rule: list_all2_induct) (auto dest: same_definition_id)

lemma fingerprint_cong:
  assumes "dget plan' ''project_goal'' = dget plan ''project_goal''"
    and "dget plan' ''summary'' = dget plan ''summary''"
    and "dget plan' ''requirements'' = dget plan ''requirements''"
    and "dget plan ''tasks'' = PList (map PDict ts)" and "dget plan' ''tasks'' = PList (map PDict ts')"
    and "list_all2 same_definition ts ts'"
  shows "plan_fingerprint sha plan' = plan_fingerprint sha plan"
proof -
  note f = same_definition_filter [OF assms(6)]
  have "requirement_texts plan' = requirement_texts plan"
    using assms(3) by (simp add: requirement_texts_def)
  then show ?thesis
    using assms(1,2) task_digests_cong [OF f] same_definition_ids [OF f]
    unfolding plan_fingerprint_def plan_tasks_list [OF assms(4)] plan_tasks_list [OF assms(5)] by simp
qed

lemma fingerprint_digest:
  assumes "plan_fingerprint sha plan = Inr fp" "\<And>x. sha x \<noteq> []"
  shows "\<exists>d. dget fp ''digest'' = PStr d \<and> d \<noteq> []"
  using assms
  by (auto simp: plan_fingerprint_def res_simps Let_def digest_json_def)

text \<open>
  Execution never reads as an edit: if two plans have the same goal, summary, requirements and
  task definitions in the same order, and differ only in other task fields (status, attempts,
  branch), their fingerprints are equal, and comparing the fingerprint recorded for one with the
  one of the other reports no drift. (A SHA-256 hex digest is never empty.)
\<close>

theorem fingerprint_ignores_execution:
  assumes "dget plan' ''project_goal'' = dget plan ''project_goal''"
    and "dget plan' ''summary'' = dget plan ''summary''"
    and "dget plan' ''requirements'' = dget plan ''requirements''"
    and "dget plan ''tasks'' = PList (map PDict ts)" and "dget plan' ''tasks'' = PList (map PDict ts')"
    and "list_all2 same_definition ts ts'"
    and "\<And>x. sha x \<noteq> []" and "plan_fingerprint sha plan = Inr fp"
  shows "plan_fingerprint sha plan' = Inr fp \<and> compare_plan_fingerprints (PDict fp) fp = Inr no_drift"
proof -
  obtain d where "dget fp ''digest'' = PStr d" "d \<noteq> []"
    using fingerprint_digest [OF assms(8,7)] by blast
  then show ?thesis
    using fingerprint_cong [OF assms(1-6)] assms(8) by (simp add: compare_plan_fingerprints_def)
qed

definition sample_task :: "string \<Rightarrow> int \<Rightarrow> (pykey \<times> pyval) list" where
  "sample_task st n = [(KStr ''id'', PStr ''T01''), (KStr ''title'', PStr ''Parse''),
     (KStr ''dependencies'', PList []), (KStr ''status'', PStr st), (KStr ''attempts'', PInt n)]"

definition sample_plan :: "string \<Rightarrow> int \<Rightarrow> (pykey \<times> pyval) list" where
  "sample_plan st n = [(KStr ''project_goal'', PStr ''A tool''),
     (KStr ''tasks'', PList [PDict (sample_task st n)])]"

definition sample_digest :: "string \<Rightarrow> string" where
  "sample_digest s = CHR ''h'' # s"

theorem fingerprint_ignores_execution_witness:
  "\<exists>fp. plan_fingerprint sample_digest (sample_plan ''pending'' 0) = Inr fp \<and>
     plan_fingerprint sample_digest (sample_plan ''done'' 2) = Inr fp \<and>
     compare_plan_fingerprints (PDict fp) fp = Inr no_drift"
proof -
  have "is_ok (plan_fingerprint sample_digest (sample_plan ''pending'' 0))" by code_simp
  then obtain fp where fp: "plan_fingerprint sample_digest (sample_plan ''pending'' 0) = Inr fp"
    by (auto simp: is_ok_iff)
  have t: "dget (sample_plan st n) ''tasks'' = PList (map PDict [sample_task st n])" for st n
    by (simp add: sample_plan_def)
  have s: "list_all2 same_definition [sample_task ''pending'' 0] [sample_task ''done'' 2]"
    by (simp add: same_definition_def sample_task_def TASK_DEFINITION_KEYS_def)
  have "sample_digest x \<noteq> []" for x by (simp add: sample_digest_def)
  then show ?thesis
    using fingerprint_ignores_execution [OF _ _ _ t t s _ fp] fp by (simp add: sample_plan_def)
qed

text \<open>
  Drift is never overlooked: a recorded fingerprint without a digest is reported as changed and
  not comparable, and otherwise the comparison says unchanged only if the digests are equal; the
  tasks it calls added and removed are exactly those on one side only, each once, in order.
\<close>

theorem drift_is_reported:
  assumes "compare_plan_fingerprints (PDict r) current = Inr d"
  shows "(\<not> py_truthy (dget r ''digest'') \<longrightarrow> changed d \<and> \<not> comparable d) \<and>
    (\<not> changed d \<longrightarrow> py_eq (dget r ''digest'') (dget current ''digest'')) \<and>
    (changed d \<and> comparable d \<and> items_of (dget r ''tasks'') = rt \<and> items_of (dget current ''tasks'') = ct \<longrightarrow>
       set (tasks_added d) = set (text_keys ct) - set (text_keys rt) \<and>
       set (tasks_removed d) = set (text_keys rt) - set (text_keys ct) \<and>
       sorted (tasks_added d) \<and> sorted (tasks_removed d) \<and>
       (distinct (text_keys ct) \<longrightarrow> distinct (tasks_added d)))"
  using assms
  by (auto simp: compare_plan_fingerprints_def Let_def res_simps no_drift_def split: if_splits)

theorem drift_is_reported_witness:
  "\<exists>d. compare_plan_fingerprints (PDict [(KStr ''digest'', PStr ''a''),
        (KStr ''tasks'', PDict [(KStr ''T1'', PDict []), (KStr ''T2'', PDict [])])])
      [(KStr ''digest'', PStr ''b''), (KStr ''tasks'', PDict [(KStr ''T2'', PDict []), (KStr ''T3'', PDict [])])] =
      Inr d \<and> set (tasks_added d) = {''T3''}"
proof -
  let ?r = "[(KStr ''digest'', PStr ''a''), (KStr ''tasks'', PDict [(KStr ''T1'', PDict []), (KStr ''T2'', PDict [])])]"
  let ?c = "[(KStr ''digest'', PStr ''b''), (KStr ''tasks'', PDict [(KStr ''T2'', PDict []), (KStr ''T3'', PDict [])])]"
  have "(case compare_plan_fingerprints (PDict ?r) ?c of Inr d \<Rightarrow> changed d \<and> comparable d | _ \<Rightarrow> False)"
    by code_simp
  then obtain d where d: "compare_plan_fingerprints (PDict ?r) ?c = Inr d" "changed d" "comparable d"
    by (auto split: sum.splits)
  then show ?thesis
    using drift_is_reported [OF d(1), of "items_of (dget ?r ''tasks'')" "items_of (dget ?c ''tasks'')"]
    by (auto simp: text_keys_def key_text_def)
qed

end
