(* ===== verification/LineRanges.thy ===== *)
theory LineRanges
  imports PyObjects
begin

text \<open>
  Line ranges and physical lines, the pure part of \<open>agent/read_ledger.py\<close>: merging and
  subtracting inclusive ranges, their texts, and slicing delivered text by line.

  A range list stands for a set of line numbers, \<open>lines_of\<close>. Merging does not change that set
  and subtracting is set difference (\<open>lines_of_merge\<close>, \<open>lines_of_subtract\<close>), also for the
  empty ranges a caller may pass.
\<close>

type_synonym line_range = "int \<times> int"

definition lines_of :: "line_range list \<Rightarrow> int set" where
  "lines_of rs = (\<Union>r\<in>set rs. {fst r..snd r})"

section \<open>Operations on ranges\<close>

definition merge_step :: "line_range list \<Rightarrow> line_range \<Rightarrow> line_range list" where
  "merge_step merged r =
     (if merged = [] \<or> fst r > snd (last merged) + 1 then merged @ [r]
      else butlast merged @ [(fst (last merged), max (snd (last merged)) (snd r))])"

definition merge_ranges :: "line_range list \<Rightarrow> line_range list" where
  "merge_ranges rs = foldl merge_step [] (sort rs)"

definition subtract_one :: "line_range \<Rightarrow> line_range \<Rightarrow> line_range list" where
  "subtract_one c r =
     (if snd c < fst r \<or> fst c > snd r then [r]
      else (if fst r < fst c then [(fst r, fst c - 1)] else []) @
           (if snd c < snd r then [(snd c + 1, snd r)] else []))"

definition subtract_ranges :: "line_range \<Rightarrow> line_range list \<Rightarrow> line_range list" where
  "subtract_ranges target covered =
     foldl (\<lambda>remaining c. concat (map (subtract_one c) remaining)) [target] (merge_ranges covered)"

definition range_text :: "line_range list \<Rightarrow> string" where
  "range_text rs =
     py_join '', '' (map (\<lambda>(s, e). if s = e then show_int s else show_int s @ ''-'' @ show_int e) rs)"

definition range_payloads :: "line_range list \<Rightarrow> pyval" where
  "range_payloads rs =
     PList (map (\<lambda>(s, e). PDict [(KStr ''start_line'', PInt s), (KStr ''end_line'', PInt e)]) rs)"

definition ledger_notice :: "string \<Rightarrow> line_range list \<Rightarrow> line_range list \<Rightarrow> string" where
  "ledger_notice path skipped previous =
     ''lines '' @ range_text skipped @ '' of '' @ path @
     '' were already returned in this session (unchanged); re-read skipped; request outside '' @
     range_text (merge_ranges previous) @ '' or set force=true''"

text \<open>A range \<open>(a, b)\<close> read from a snapshot: a pair of integers with \<open>0 < a \<le> b\<close>.\<close>

definition snapshot_range :: "pyval \<Rightarrow> line_range option" where
  "snapshot_range item =
     (case elems_of item of
        [x, y] \<Rightarrow> (case (int_instance x, int_instance y) of
            (Some a, Some b) \<Rightarrow> if 0 < a \<and> a \<le> b then Some (a, b) else None
          | _ \<Rightarrow> None)
      | _ \<Rightarrow> None)"

definition snapshot_ranges :: "pyval \<Rightarrow> line_range list" where
  "snapshot_ranges raw =
     (case raw of PList items \<Rightarrow> merge_ranges (List.map_filter snapshot_range items) | _ \<Rightarrow> [])"

section \<open>Physical lines\<close>

text \<open>\<open>list(io.StringIO(s, newline=""))\<close>: lines with their endings, at LF, CR and CRLF.\<close>

fun phys_lines :: "string \<Rightarrow> string list" where
  "phys_lines [] = []"
| "phys_lines (c # cs) =
     (if code c = 10 then [c] # phys_lines cs
      else if code c = 13 then
        (case cs of
           [] \<Rightarrow> [[c]]
         | d # ds \<Rightarrow> if code d = 10 then [c, d] # phys_lines ds else [c] # phys_lines cs)
      else (case phys_lines cs of [] \<Rightarrow> [[c]] | l # ls \<Rightarrow> (c # l) # ls))"

definition py_slice :: "int \<Rightarrow> int \<Rightarrow> 'a list \<Rightarrow> 'a list" where
  "py_slice first stop xs = take (nat stop - nat first) (drop (nat first) xs)"

definition slice_content :: "string \<Rightarrow> int \<Rightarrow> line_range list \<Rightarrow> string" where
  "slice_content content returned_start unread =
     concat (concat (map (\<lambda>(s, e).
       let first = max 0 (s - returned_start); stop = max first (e - returned_start + 1)
       in py_slice first stop (phys_lines content)) unread))"

text \<open>\<open>[number for start, end in ranges for number in range(start, end + 1)]\<close>.\<close>

definition range_numbers :: "line_range list \<Rightarrow> int list" where
  "range_numbers rs = concat (map (\<lambda>(s, e). [s..e]) rs)"

section \<open>The set of lines\<close>

lemma lines_of_simps [simp]:
  "lines_of [] = {}" "lines_of (r # rs) = {fst r..snd r} \<union> lines_of rs"
  "lines_of (rs @ ss) = lines_of rs \<union> lines_of ss"
  by (auto simp: lines_of_def)

lemma lines_of_set: "set rs = set ss \<Longrightarrow> lines_of rs = lines_of ss"
  by (simp add: lines_of_def)

lemma set_range_numbers [simp]: "set (range_numbers rs) = lines_of rs"
  by (induction rs) (auto simp: range_numbers_def)

lemma lines_of_points: "lines_of (map (\<lambda>n. (n, n)) ns) = set ns"
  by (induction ns) auto

text \<open>The running invariant of the merge loop: the last range starts no later than the next.\<close>

lemma merge_step_lines:
  assumes "merged \<noteq> [] \<Longrightarrow> fst (last merged) \<le> fst r"
  shows "lines_of (merge_step merged r) = lines_of merged \<union> {fst r..snd r}"
proof (cases "merged = [] \<or> fst r > snd (last merged) + 1")
  case True
  then show ?thesis by (simp add: merge_step_def)
next
  case False
  define l where "l = last merged"
  have m: "merged = butlast merged @ [l]" using False by (simp add: l_def)
  have "lines_of merged = lines_of (butlast merged) \<union> {fst l..snd l}" by (subst m) simp
  moreover have "{fst l..max (snd l) (snd r)} = {fst l..snd l} \<union> {fst r..snd r}"
    using False assms by (auto simp: l_def)
  ultimately show ?thesis using False by (auto simp: merge_step_def l_def)
qed

lemma merge_step_last: "merge_step merged r \<noteq> [] \<and> fst (last (merge_step merged r)) \<le> max (fst r) (if merged = [] then fst r else fst (last merged))"
  by (simp add: merge_step_def)

lemma merge_loop_lines:
  assumes "sorted rs" "merged \<noteq> [] \<Longrightarrow> \<forall>r\<in>set rs. fst (last merged) \<le> fst r"
  shows "lines_of (foldl merge_step merged rs) = lines_of merged \<union> lines_of rs"
  using assms
proof (induction rs arbitrary: merged)
  case (Cons r rs)
  have "\<forall>q\<in>set rs. fst (last (merge_step merged r)) \<le> fst q"
  proof
    fix q assume q: "q \<in> set rs"
    then have "r \<le> q" using Cons.prems(1) by simp
    then have "fst r \<le> fst q" by (auto simp: less_eq_prod_def)
    with q Cons.prems(2) show "fst (last (merge_step merged r)) \<le> fst q"
      by (auto simp: merge_step_def)
  qed
  with Cons show ?case by (simp add: merge_step_lines Un_assoc)
qed simp

lemma lines_of_merge [simp]: "lines_of (merge_ranges rs) = lines_of rs"
  unfolding merge_ranges_def
  by (simp add: merge_loop_lines lines_of_set [of "sort rs" rs])

lemma lines_of_subtract_one: "lines_of (subtract_one c r) = {fst r..snd r} - {fst c..snd c}"
  by (auto simp: subtract_one_def)

lemma lines_of_concat: "lines_of (concat (map f rs)) = (\<Union>r\<in>set rs. lines_of (f r))"
  by (induction rs) auto

lemma subtract_loop_lines:
  "lines_of (foldl (\<lambda>rem c. concat (map (subtract_one c) rem)) rem cs) = lines_of rem - lines_of cs"
proof (induction cs arbitrary: rem)
  case (Cons c cs)
  have "lines_of (concat (map (subtract_one c) rem)) = lines_of rem - {fst c..snd c}"
    by (simp only: lines_of_concat lines_of_subtract_one) (auto simp: lines_of_def)
  then show ?case by (auto simp: Cons.IH)
qed simp

lemma lines_of_subtract [simp]:
  "lines_of (subtract_ranges t cs) = {fst t..snd t} - lines_of cs"
  by (simp add: subtract_ranges_def subtract_loop_lines)

section \<open>Ordered pieces\<close>

text \<open>The pieces of a subtraction are non-empty, in order and disjoint, inside the target.\<close>

fun ordered_ranges :: "int \<Rightarrow> line_range list \<Rightarrow> bool" where
  "ordered_ranges lo [] = True"
| "ordered_ranges lo (r # rs) = (lo \<le> fst r \<and> fst r \<le> snd r \<and> ordered_ranges (snd r + 1) rs)"

lemma ordered_mono: "ordered_ranges lo rs \<Longrightarrow> lo' \<le> lo \<Longrightarrow> ordered_ranges lo' rs"
  by (cases rs) auto

lemma ordered_append:
  "ordered_ranges lo (rs @ ss) \<longleftrightarrow> ordered_ranges lo rs \<and>
     ordered_ranges (if rs = [] then lo else snd (last rs) + 1) ss"
  by (induction rs arbitrary: lo) auto

lemma subtract_one_ordered:
  assumes "fst r \<le> snd r" "fst c \<le> snd c"
  shows "ordered_ranges (fst r) (subtract_one c r)"
    and "subtract_one c r \<noteq> [] \<Longrightarrow> snd (last (subtract_one c r)) \<le> snd r"
  using assms by (auto simp: subtract_one_def)

lemma subtract_all_ordered:
  "ordered_ranges lo rem \<Longrightarrow> fst c \<le> snd c \<Longrightarrow>
   ordered_ranges lo (concat (map (subtract_one c) rem))"
proof (induction rem arbitrary: lo)
  case (Cons r rem)
  have r: "lo \<le> fst r" "fst r \<le> snd r" using Cons.prems by auto
  have "ordered_ranges (snd r + 1) (concat (map (subtract_one c) rem))"
    using Cons by simp
  then have "ordered_ranges (if subtract_one c r = [] then lo else snd (last (subtract_one c r)) + 1)
      (concat (map (subtract_one c) rem))"
    using subtract_one_ordered(2) [OF r(2) Cons.prems(2)] r
    by (auto elim!: ordered_mono)
  moreover have "ordered_ranges lo (subtract_one c r)"
    using subtract_one_ordered(1) [OF r(2) Cons.prems(2)] r(1) by (rule ordered_mono)
  ultimately show ?case by (simp add: ordered_append)
qed simp


lemma merge_step_valid:
  "list_all (\<lambda>r. fst r \<le> snd r) merged \<Longrightarrow> fst r \<le> snd r \<Longrightarrow>
   list_all (\<lambda>r. fst r \<le> snd r) (merge_step merged r)"
  by (cases merged rule: rev_cases) (auto simp: merge_step_def)

lemma merge_ranges_valid:
  assumes "list_all (\<lambda>r. fst r \<le> snd r) rs"
  shows "list_all (\<lambda>r. fst r \<le> snd r) (merge_ranges rs)"
proof -
  have "list_all (\<lambda>r. fst r \<le> snd r) merged \<Longrightarrow> list_all (\<lambda>r. fst r \<le> snd r) ss \<Longrightarrow>
      list_all (\<lambda>r. fst r \<le> snd r) (foldl merge_step merged ss)" for merged ss
    by (induction ss arbitrary: merged) (auto simp: merge_step_valid)
  from this [of "[]" "sort rs"] assms show ?thesis by (simp add: merge_ranges_def list_all_iff)
qed

lemma subtract_ordered:
  assumes "fst t \<le> snd t" "list_all (\<lambda>r. fst r \<le> snd r) cs"
  shows "ordered_ranges (fst t) (subtract_ranges t cs)"
proof -
  have "ordered_ranges lo rem \<Longrightarrow> list_all (\<lambda>r. fst r \<le> snd r) ds \<Longrightarrow>
      ordered_ranges lo (foldl (\<lambda>rem c. concat (map (subtract_one c) rem)) rem ds)" for lo rem ds
    by (induction ds arbitrary: rem) (auto simp: subtract_all_ordered)
  with assms merge_ranges_valid [OF assms(2)] show ?thesis by (simp add: subtract_ranges_def)
qed

lemma snapshot_ranges_valid: "list_all (\<lambda>r. 0 < fst r \<and> fst r \<le> snd r) (snapshot_ranges raw)"
proof -
  have pos: "list_all (\<lambda>r. 0 < fst r) merged \<Longrightarrow> list_all (\<lambda>r. 0 < fst r) ss \<Longrightarrow>
      list_all (\<lambda>r. 0 < fst r) (foldl merge_step merged ss)" for merged ss
  proof (induction ss arbitrary: merged)
    case (Cons r ss)
    then have "list_all (\<lambda>r. 0 < fst r) (merge_step merged r)"
      by (cases merged rule: rev_cases) (auto simp: merge_step_def)
    with Cons show ?case by simp
  qed simp
  have one: "snapshot_range x = Some r \<Longrightarrow> 0 < fst r \<and> fst r \<le> snd r" for x r
    by (auto simp: snapshot_range_def split: list.splits option.splits if_splits)
  have all: "list_all (\<lambda>r. 0 < fst r \<and> fst r \<le> snd r) (List.map_filter snapshot_range xs)" for xs
    by (induction xs) (auto simp: one split: option.splits)
  have "list_all (\<lambda>r. 0 < fst r) (merge_ranges (List.map_filter snapshot_range xs))" for xs
    using all [of xs] pos [of "[]" "sort (List.map_filter snapshot_range xs)"]
    by (simp add: merge_ranges_def list_all_iff)
  moreover have "list_all (\<lambda>r. fst r \<le> snd r) (merge_ranges (List.map_filter snapshot_range xs))" for xs
    using all [of xs] by (intro merge_ranges_valid) (simp add: list_all_iff)
  ultimately have "list_all (\<lambda>r. 0 < fst r \<and> fst r \<le> snd r) (merge_ranges (List.map_filter snapshot_range xs))" for xs
    by (simp add: list_all_iff)
  then show ?thesis by (cases raw) (auto simp: snapshot_ranges_def list_all_iff)
qed

section \<open>Slicing\<close>

text \<open>The lines of a text numbered from \<open>a\<close>.\<close>

fun numbered_lines :: "int \<Rightarrow> string list \<Rightarrow> (int \<times> string) list" where
  "numbered_lines a [] = []"
| "numbered_lines a (l # ls) = (a, l) # numbered_lines (a + 1) ls"

lemma numbered_lines_ge: "p \<in> set (numbered_lines a ls) \<Longrightarrow> a \<le> fst p"
  by (induction a ls rule: numbered_lines.induct) fastforce+

lemma concat_phys_lines [simp]: "concat (phys_lines s) = s"
proof (induction s rule: phys_lines.induct)
  case (2 c cs)
  show ?case
  proof (cases "code c = 10 \<or> code c = 13")
    case True
    with 2 show ?thesis by (cases cs) auto
  next
    case False
    with 2 have "concat (phys_lines cs) = cs" by blast
    with False show ?thesis by (cases "phys_lines cs") auto
  qed
qed simp

lemma slice_filter:
  "take (nat (e + 1 - a) - nat (s - a)) (drop (nat (s - a)) ls) =
     map snd (filter (\<lambda>p. s \<le> fst p \<and> fst p \<le> e) (numbered_lines a ls))"
proof (induction a ls rule: numbered_lines.induct)
  case (2 a l ls)
  show ?case
  proof (cases "a < s")
    case True
    then have "nat (s - a) = Suc (nat (s - (a + 1)))" "nat (e + 1 - a) - nat (s - a) = nat (e + 1 - (a + 1)) - nat (s - (a + 1))"
      by auto
    with 2 True show ?thesis by simp
  next
    case False
    then have z: "nat (s - a) = 0" "nat (s - (a + 1)) = 0" by auto
    show ?thesis
    proof (cases "a \<le> e")
      case True
      then have "nat (e + 1 - a) = Suc (nat (e + 1 - (a + 1)))" by simp
      with 2 False True z show ?thesis by simp
    next
      case gt: False
      then have "nat (e + 1 - a) = 0" "nat (e + 1 - (a + 1)) = 0" by auto
      with 2 gt z show ?thesis by simp
    qed
  qed
qed simp

lemma filter_two_blocks:
  "(\<And>x y. x \<in> A \<Longrightarrow> y \<in> B \<Longrightarrow> x < y) \<Longrightarrow>
   filter (\<lambda>p. fst p \<in> A \<or> fst p \<in> B) (numbered_lines a ls) =
   filter (\<lambda>p. fst p \<in> A) (numbered_lines a ls) @ filter (\<lambda>p. fst p \<in> B) (numbered_lines a ls)"
proof (induction a ls rule: numbered_lines.induct)
  case (2 a l ls)
  have none: "filter (\<lambda>p. fst p \<in> A) (numbered_lines (a + 1) ls) = []" if "a \<in> B"
    using that numbered_lines_ge [of _ "a + 1" ls] "2.prems" [of _ a]
    by (fastforce simp: filter_empty_conv)
  show ?case
  proof (cases "a \<in> B")
    case True
    then have "a \<notin> A" using "2.prems" by blast
    with 2 True none show ?thesis by simp
  next
    case False
    with 2 show ?thesis by simp
  qed
qed simp

lemma ordered_lines_ge: "ordered_ranges lo rs \<Longrightarrow> n \<in> lines_of rs \<Longrightarrow> lo \<le> n"
  by (induction lo rs rule: ordered_ranges.induct) fastforce+

lemma slice_content_lines:
  assumes "ordered_ranges lo unread"
  shows "slice_content content a unread =
    concat (map snd (filter (\<lambda>p. fst p \<in> lines_of unread) (numbered_lines a (phys_lines content))))"
  using assms
proof (induction unread arbitrary: lo)
  case (Cons r rs)
  obtain s e where r: "r = (s, e)" by (cases r)
  have ord: "ordered_ranges (e + 1) rs" using Cons.prems r by simp
  have "filter (\<lambda>p. fst p \<in> lines_of (r # rs)) (numbered_lines a (phys_lines content)) =
      filter (\<lambda>p. fst p \<in> {s..e}) (numbered_lines a (phys_lines content)) @
      filter (\<lambda>p. fst p \<in> lines_of rs) (numbered_lines a (phys_lines content))"
    using filter_two_blocks [of "{s..e}" "lines_of rs" a "phys_lines content"] ordered_lines_ge [OF ord]
    by (fastforce simp: r)
  moreover have "py_slice (max 0 (s - a)) (max (max 0 (s - a)) (e - a + 1)) (phys_lines content) =
      map snd (filter (\<lambda>p. fst p \<in> {s..e}) (numbered_lines a (phys_lines content)))"
  proof -
    have "nat (max (max 0 (s - a)) (e - a + 1)) - nat (max 0 (s - a)) = nat (e + 1 - a) - nat (s - a)"
      "nat (max 0 (s - a)) = nat (s - a)" by auto
    then show ?thesis by (simp add: py_slice_def slice_filter)
  qed
  ultimately show ?case
    using Cons.IH [OF ord] by (simp add: slice_content_def r Let_def)
qed (simp add: slice_content_def)

end
