(* ===== verification/ReadLedger.thy ===== *)
theory ReadLedger
  imports LineRanges Machines
begin

text \<open>
  \<open>SessionReadLedger\<close> of \<open>agent/read_ledger.py\<close>: which lines of which file contents have already
  been delivered to the model, so that an unchanged re-read is answered with a notice.

  The ledger keeps two dictionaries: \<open>files\<close>, per path the hash of the content and the ranges
  delivered of it (plain and with line numbers), and \<open>pending\<close>, the receipts of results that
  were handed out but not yet seen in a message. Every method is one operation; those that take
  the lock twice change nothing in between.

  \<open>fs path\<close> gives the bytes of the file a path resolves to, \<open>None\<close> when it is outside the root,
  missing, a directory or unreadable; each operation has the \<open>fs\<close> of its time. \<open>sha\<close> is the
  SHA-256 hex digest. A boolean line number counts as the integer it equals.
\<close>

type_synonym items = "(pykey \<times> pyval) list"

record file_reads =
  content_sha256 :: string
  ranges :: "line_range list"
  numbered_ranges :: "line_range list"
  deliveries :: "items list"

record pending_read =
  pr_path :: string
  pr_hash :: string
  pr_content :: string
  pr_ranges :: "line_range list"
  pr_numbered :: bool

record ledger =
  enabled :: bool
  files :: "(string \<times> file_reads) list"
  pending :: "(string \<times> pending_read) list"

definition new_ledger :: "bool \<Rightarrow> ledger" where
  "new_ledger en = \<lparr>enabled = en, files = [], pending = []\<rparr>"

definition DEFAULT_FS_READ_MAX_BYTES :: nat where
  "DEFAULT_FS_READ_MAX_BYTES = 12000"

definition content_hash ::
    "(string \<Rightarrow> string) \<Rightarrow> (string \<Rightarrow> string option) \<Rightarrow> ledger \<Rightarrow> string \<Rightarrow> string option" where
  "content_hash sha fs l path =
     (if \<not> enabled l then None
      else case fs path of
        None \<Rightarrow> None
      | Some content \<Rightarrow>
          if length content > DEFAULT_FS_READ_MAX_BYTES then None else Some (sha content))"

section \<open>Forgetting\<close>

definition invalidate_path :: "string \<Rightarrow> ledger \<Rightarrow> ledger" where
  "invalidate_path path l =
     l\<lparr>files := alist_pop path (files l),
       pending := filter (\<lambda>kv. pr_path (snd kv) \<noteq> path) (pending l)\<rparr>"

definition invalidate :: "string list \<Rightarrow> ledger \<Rightarrow> ledger" where
  "invalidate paths l = (if \<not> enabled l then l else foldl (\<lambda>l path. invalidate_path path l) l paths)"

definition reset :: "ledger \<Rightarrow> ledger \<times> nat" where
  "reset l =
     (if \<not> enabled l then (l, 0) else (l\<lparr>files := [], pending := []\<rparr>, length (files l)))"

section \<open>Reading\<close>

definition returned_line_range :: "items \<Rightarrow> line_range option" where
  "returned_line_range result =
     (let bounds =
        (case dget result ''returned_range'' of
           PDict d \<Rightarrow> (int_instance (dget d ''start_line''), int_instance (dget d ''end_line''))
         | _ \<Rightarrow>
             (case (int_instance (dget result ''start_line''), int_instance (dget result ''end_line'')) of
                (Some a, Some b) \<Rightarrow> (Some a, Some b)
              | _ \<Rightarrow> (Some 1, Some (int (length (phys_lines (str_or (dget result ''content'') [])))))))
      in case bounds of
           (Some start, Some stop) \<Rightarrow>
             let stop' = (if dget result ''line_clipped'' = PBool True then stop - 1 else stop)
             in if stop' < start then None else Some (start, stop')
         | _ \<Rightarrow> None)"

definition stage_identity :: "string \<Rightarrow> string \<Rightarrow> items \<Rightarrow> line_range list \<Rightarrow> bool \<Rightarrow> pyval" where
  "stage_identity path h result rs numbered =
     PList [PStr path, PStr h, PList (map (\<lambda>(s, e). PTuple [PInt s, PInt e]) rs),
       dget result ''content'', PBool numbered]"

text \<open>At most 255 older receipts are kept beside the new one; the oldest go first.\<close>

definition stage_result ::
    "(string \<Rightarrow> string) \<Rightarrow> string \<Rightarrow> string \<Rightarrow> items \<Rightarrow> line_range list \<Rightarrow> bool \<Rightarrow> ledger \<Rightarrow>
     py_exc + ledger \<times> items" where
  "stage_result sha path h result rs numbered l =
     res_bind (json_dumps_default (stage_identity path h result rs numbered)) (\<lambda>identity.
       let receipt_id = take 24 (sha identity);
           entry = \<lparr>pr_path = path, pr_hash = h, pr_content = str_or (dget result ''content'') [],
                     pr_ranges = rs, pr_numbered = numbered\<rparr>
       in Inr (l\<lparr>pending := alist_put receipt_id entry (take_last 255 (pending l))\<rparr>,
               dput ''read_receipt_id'' (PStr receipt_id) result))"

definition previous_ranges :: "string \<Rightarrow> string \<Rightarrow> bool \<Rightarrow> ledger \<Rightarrow> line_range list" where
  "previous_ranges path h numbered l =
     (case map_of (files l) path of
        None \<Rightarrow> []
      | Some e \<Rightarrow> if content_sha256 e = h then (if numbered then numbered_ranges e else ranges e) else [])"

definition skipped_result ::
    "items \<Rightarrow> string \<Rightarrow> line_range list \<Rightarrow> items" where
  "skipped_result result notice skipped =
     dput ''skipped_ranges'' (range_payloads skipped)
       (dput ''returned_ranges'' (PList [])
       (dput ''read_ledger_notice'' (PStr notice)
       (dput ''read_ledger_skipped'' (PBool True)
       (dput ''content'' (PStr notice) result))))"

definition partial_result ::
    "items \<Rightarrow> string \<Rightarrow> line_range \<Rightarrow> line_range list \<Rightarrow> line_range list \<Rightarrow> items" where
  "partial_result result notice returned unread skipped =
     (let unread_content = slice_content (str_or (dget result ''content'') []) (fst returned) unread;
          separator = (if unread_content = [] \<or> py_endswith unread_content [char_of (10 :: nat)]
                       then [] else [char_of (10 :: nat)])
      in dput ''skipped_ranges'' (range_payloads skipped)
         (dput ''returned_ranges'' (range_payloads unread)
         (dput ''read_ledger_notice'' (PStr notice)
         (dput ''read_ledger_partial'' (PBool True)
         (dput ''content'' (PStr (unread_content @ separator @ notice)) result)))))"

definition filter_result ::
    "(string \<Rightarrow> string) \<Rightarrow> (string \<Rightarrow> string option) \<Rightarrow> string \<Rightarrow> items \<Rightarrow> string option \<Rightarrow> bool \<Rightarrow>
     bool \<Rightarrow> ledger \<Rightarrow> py_exc + ledger \<times> items" where
  "filter_result sha fs path result content_hash_before force numbered l =
     (if \<not> enabled l then Inr (l, result)
      else case content_hash_before of
        None \<Rightarrow> Inr (invalidate [path] l, result)
      | Some before \<Rightarrow>
        if content_hash sha fs l path \<noteq> Some before then Inr (invalidate [path] l, result)
        else case returned_line_range result of
          None \<Rightarrow> Inr (l, result)
        | Some returned \<Rightarrow>
          let previous = previous_ranges path before numbered l;
              unread = subtract_ranges returned previous;
              skipped = subtract_ranges returned unread;
              notice = ledger_notice path skipped previous
          in if force then
               stage_result sha path before (dput ''read_ledger_forced'' (PBool True) result)
                 [returned] numbered l
             else if unread = [returned] then
               stage_result sha path before result [returned] numbered l
             else if unread = [] then Inr (l, skipped_result result notice skipped)
             else stage_result sha path before (partial_result result notice returned unread skipped)
                    unread numbered l)"

section \<open>Delivery\<close>

definition visible_text :: "string \<Rightarrow> (items \<times> string) option" where
  "visible_text content_for_message =
     (case json_loads content_for_message of
        Some (PDict m) \<Rightarrow>
          (case (if dget m ''preview_format'' = PStr ''file_content'' then dget m ''preview''
                 else dget m ''content'') of
             PStr visible \<Rightarrow> Some (m, visible)
           | _ \<Rightarrow> None)
      | _ \<Rightarrow> None)"

text \<open>The line numbers whose text in the message is the text of the receipt.\<close>

definition delivered_numbers :: "line_range list \<Rightarrow> string \<Rightarrow> string \<Rightarrow> int list" where
  "delivered_numbers rs original visible =
     map fst (filter (\<lambda>(n, o_line, s_line). o_line = s_line)
       (zip (range_numbers rs) (zip (phys_lines original) (phys_lines visible))))"

definition delivery_record ::
    "(string \<Rightarrow> string) \<Rightarrow> string \<Rightarrow> line_range list \<Rightarrow> bool \<Rightarrow> items" where
  "delivery_record sha message delivered numbered =
     [(KStr ''message_sha256'', PStr (sha message)),
      (KStr ''ranges'', PList (map (\<lambda>(s, e). PTuple [PInt s, PInt e]) delivered)),
      (KStr ''include_line_numbers'', PBool numbered)]"

definition add_delivery ::
    "(string \<Rightarrow> string) \<Rightarrow> string \<Rightarrow> line_range list \<Rightarrow> bool \<Rightarrow> file_reads \<Rightarrow> file_reads" where
  "add_delivery sha message delivered numbered e =
     (let e' = (if numbered
                then e\<lparr>numbered_ranges := merge_ranges (numbered_ranges e @ delivered)\<rparr>
                else e\<lparr>ranges := merge_ranges (ranges e @ delivered)\<rparr>);
          d = delivery_record sha message delivered numbered
      in if list_ex (\<lambda>d'. py_eq (PDict d) (PDict d')) (deliveries e') then e'
         else e'\<lparr>deliveries := deliveries e' @ [d]\<rparr>)"

definition entry_for :: "string \<Rightarrow> string \<Rightarrow> ledger \<Rightarrow> file_reads" where
  "entry_for path h l =
     (case map_of (files l) path of
        Some e \<Rightarrow> if content_sha256 e = h then e
                   else \<lparr>content_sha256 = h, ranges = [], numbered_ranges = [], deliveries = []\<rparr>
      | None \<Rightarrow> \<lparr>content_sha256 = h, ranges = [], numbered_ranges = [], deliveries = []\<rparr>)"

definition commit_delivery ::
    "(string \<Rightarrow> string) \<Rightarrow> string \<Rightarrow> pending_read \<Rightarrow> line_range list \<Rightarrow> ledger \<Rightarrow> ledger" where
  "commit_delivery sha message p delivered l =
     (if delivered = [] then l
      else l\<lparr>files := alist_put (pr_path p)
               (add_delivery sha message delivered (pr_numbered p) (entry_for (pr_path p) (pr_hash p) l))
               (files l)\<rparr>)"

definition delivery_receipt ::
    "pending_read \<Rightarrow> line_range list \<Rightarrow> string \<Rightarrow> items \<Rightarrow> items" where
  "delivery_receipt p delivered visible m =
     [(KStr ''path'', PStr (pr_path p)), (KStr ''content_sha256'', PStr (pr_hash p)),
      (KStr ''delivered_ranges'', range_payloads delivered),
      (KStr ''visible_chars'', PInt (int (length visible))),
      (KStr ''visible_utf8_bytes'', PInt (utf8_length visible)),
      (KStr ''retrievable_handle'', dget m ''artifact_handle''),
      (KStr ''retrievable_locator'', dget m ''artifact_locator''),
      (KStr ''retention'', PStr ''active_context'')]"

definition record_delivery ::
    "(string \<Rightarrow> string) \<Rightarrow> (string \<Rightarrow> string option) \<Rightarrow> items \<Rightarrow> string \<Rightarrow> ledger \<Rightarrow>
     ledger \<times> items option" where
  "record_delivery sha fs result message l =
     (if \<not> enabled l then (l, None)
      else
        let rid = str_or (dget result ''read_receipt_id'') [] in
        case map_of (pending l) rid of
          None \<Rightarrow> (l, None)
        | Some p \<Rightarrow>
          let l1 = l\<lparr>pending := alist_pop rid (pending l)\<rparr> in
          if content_hash sha fs l (pr_path p) \<noteq> Some (pr_hash p)
          then (invalidate [pr_path p] l1, None)
          else case visible_text message of
            None \<Rightarrow> (l1, None)
          | Some (m, visible) \<Rightarrow>
            let delivered = merge_ranges (map (\<lambda>n. (n, n))
                  (delivered_numbers (pr_ranges p) (pr_content p) visible))
            in (commit_delivery sha message p delivered l1,
                Some (delivery_receipt p delivered visible m)))"

section \<open>Snapshots\<close>

definition ranges_val :: "line_range list \<Rightarrow> pyval" where
  "ranges_val rs = PList (map (\<lambda>(s, e). PTuple [PInt s, PInt e]) rs)"

definition snapshot :: "ledger \<Rightarrow> items" where
  "snapshot l =
     (if \<not> enabled l then []
      else map (\<lambda>(path, e). (KStr path,
        PDict [(KStr ''content_sha256'', PStr (content_sha256 e)),
               (KStr ''ranges'', ranges_val (ranges e)),
               (KStr ''numbered_ranges'', ranges_val (numbered_ranges e)),
               (KStr ''deliveries'', PList (map PDict (deliveries e)))])) (files l))"

fun collect_ranges :: "(items \<Rightarrow> bool) \<Rightarrow> items list \<Rightarrow> py_exc + pyval list" where
  "collect_ranges sel [] = Inr []"
| "collect_ranges sel (d # ds) =
     (if sel d
      then res_bind (py_iter (dget_or d ''ranges'' (PList []))) (\<lambda>xs.
             res_bind (collect_ranges sel ds) (\<lambda>ys. Inr (xs @ ys)))
      else collect_ranges sel ds)"

text \<open>Keeping the deliveries whose message is retained; an unhashable digest raises.\<close>

fun retain_deliveries :: "string set \<Rightarrow> items list \<Rightarrow> py_exc + items list" where
  "retain_deliveries hs [] = Inr []"
| "retain_deliveries hs (d # ds) =
     (let v = dget d ''message_sha256'' in
      if \<not> hashable v then Inl TypeError
      else res_bind (retain_deliveries hs ds) (\<lambda>ds'.
             Inr (if (case v of PStr h \<Rightarrow> h \<in> hs | _ \<Rightarrow> False) then d # ds' else ds')))"

definition numbered_delivery :: "items \<Rightarrow> bool" where
  "numbered_delivery d = py_truthy (dget d ''include_line_numbers'')"

definition retained_hashes :: "(string \<Rightarrow> string) \<Rightarrow> items list \<Rightarrow> string set" where
  "retained_hashes sha messages =
     (\<lambda>m. sha (str_or (dget m ''content'') [])) ` set (filter (\<lambda>m. dget m ''role'' = PStr ''tool'') messages)"

definition reads_if_any :: "string \<Rightarrow> items list \<Rightarrow> pyval \<Rightarrow> pyval \<Rightarrow> file_reads option" where
  "reads_if_any h ds plain numbered =
     (case plain of
        PList _ \<Rightarrow>
          (let rs = snapshot_ranges plain; ns = snapshot_ranges numbered
           in if rs \<noteq> [] \<or> ns \<noteq> []
              then Some \<lparr>content_sha256 = h, ranges = rs, numbered_ranges = ns, deliveries = ds\<rparr>
              else None)
      | _ \<Rightarrow> None)"

definition seed_entry ::
    "string set option \<Rightarrow> string \<Rightarrow> items \<Rightarrow> py_exc + file_reads option" where
  "seed_entry retained h raw =
     res_bind (py_iter (dget_or raw ''deliveries'' (PList []))) (\<lambda>xs.
       let ds = map items_of (filter is_dict xs) in
       case retained of
         None \<Rightarrow> Inr (reads_if_any h ds (dget raw ''ranges'') (dget raw ''numbered_ranges''))
       | Some hs \<Rightarrow>
           res_bind (retain_deliveries hs ds) (\<lambda>ds'.
           res_bind (collect_ranges (\<lambda>d. \<not> numbered_delivery d) ds') (\<lambda>plain.
           res_bind (collect_ranges numbered_delivery ds') (\<lambda>numbered.
             Inr (reads_if_any h ds' (PList plain) (PList numbered))))))"

fun seed_entries ::
    "(string \<Rightarrow> string option) \<Rightarrow> string set option \<Rightarrow> items \<Rightarrow> (string \<times> file_reads) list \<Rightarrow>
     py_exc + (string \<times> file_reads) list" where
  "seed_entries hash retained [] imported = Inr imported"
| "seed_entries hash retained ((k, raw) # rest) imported =
     (case (k, raw) of
        (KStr path, PDict d) \<Rightarrow>
          let expected = str_or (dget d ''content_sha256'') [] in
          if expected = [] \<or> hash path \<noteq> Some expected
          then seed_entries hash retained rest imported
          else res_bind (seed_entry retained expected d) (\<lambda>e.
                 case e of
                   None \<Rightarrow> seed_entries hash retained rest imported
                 | Some e' \<Rightarrow> seed_entries hash retained rest (alist_put path e' imported))
      | _ \<Rightarrow> seed_entries hash retained rest imported)"

definition seed_from_snapshot ::
    "(string \<Rightarrow> string) \<Rightarrow> (string \<Rightarrow> string option) \<Rightarrow> items \<Rightarrow> items list option \<Rightarrow> ledger \<Rightarrow>
     py_exc + ledger \<times> nat" where
  "seed_from_snapshot sha fs snap messages l =
     (if \<not> enabled l then Inr (l, 0)
      else res_bind (seed_entries (content_hash sha fs l)
                       (map_option (retained_hashes sha) messages) snap []) (\<lambda>imported.
        Inr (l\<lparr>files := foldl (\<lambda>fm kv. alist_put (fst kv) (snd kv) fm) (files l) imported\<rparr>,
             length imported)))"

end
