(* ===== verification/ReadLedgerProps.thy ===== *)
theory ReadLedgerProps
  imports ReadLedger
begin

text \<open>
  Correctness of the read ledger: it refines a map from paths to sets of delivered lines, a
  re-read shows exactly the lines not delivered before, and no line is suppressed unless an
  earlier message showed it. \<open>ledger_ok\<close> is the state invariant; \<open>rl\<close> interprets the contract of
  a machine with an invariant on the ledger's operations.
\<close>

section \<open>The abstract ledger\<close>

type_synonym readings = "string \<Rightarrow> (string \<times> (bool \<Rightarrow> int set)) option"

definition readings_of :: "ledger \<Rightarrow> readings" where
  "readings_of l = (\<lambda>p. map_option (\<lambda>e.
     (content_sha256 e, \<lambda>numbered. lines_of (if numbered then numbered_ranges e else ranges e)))
     (map_of (files l) p))"

definition spec_forget :: "string list \<Rightarrow> readings \<Rightarrow> readings" where
  "spec_forget ps a = (\<lambda>p. if p \<in> set ps then None else a p)"

definition spec_seen :: "string \<Rightarrow> string \<Rightarrow> bool \<Rightarrow> readings \<Rightarrow> int set" where
  "spec_seen p h numbered a =
     (case a p of None \<Rightarrow> {} | Some (h', s) \<Rightarrow> if h' = h then s numbered else {})"

definition spec_deliver :: "string \<Rightarrow> string \<Rightarrow> bool \<Rightarrow> int set \<Rightarrow> readings \<Rightarrow> readings" where
  "spec_deliver p h numbered ns a =
     (if ns = {} then a
      else a(p \<mapsto> (h, \<lambda>m. spec_seen p h m a \<union> (if m = numbered then ns else {}))))"

lemma readings_invalidate_path: "readings_of (invalidate_path p l) = spec_forget [p] (readings_of l)"
  by (rule ext) (simp add: readings_of_def invalidate_path_def spec_forget_def)

lemma spec_forget_Cons: "spec_forget (p # ps) a = spec_forget ps (spec_forget [p] a)"
  by (rule ext) (simp add: spec_forget_def)

lemma spec_forget_Nil [simp]: "spec_forget [] a = a"
  by (rule ext) (simp add: spec_forget_def)

lemma enabled_invalidate_path [simp]: "enabled (invalidate_path p l) = enabled l"
  by (simp add: invalidate_path_def)

lemma readings_invalidate:
  assumes "enabled l"
  shows "readings_of (invalidate ps l) = spec_forget ps (readings_of l)"
proof -
  have "readings_of (foldl (\<lambda>l p. invalidate_path p l) l ps) = spec_forget ps (readings_of l)" for l
    by (induction ps arbitrary: l)
      (simp_all add: readings_invalidate_path spec_forget_Cons [of _ "_ # _"] spec_forget_Cons [symmetric])
  then show ?thesis using assms by (simp add: invalidate_def)
qed

lemma readings_pending [simp]: "readings_of (l\<lparr>pending := ps\<rparr>) = readings_of l"
  by (simp add: readings_of_def)

lemma lines_previous: "lines_of (previous_ranges p h numbered l) = spec_seen p h numbered (readings_of l)"
  by (simp add: previous_ranges_def spec_seen_def readings_of_def split: option.splits)

lemma stage_result_Inr:
  assumes "stage_result sha p h result rs numbered l = Inr (l', r)"
  shows "readings_of l' = readings_of l" "enabled l' = enabled l" "files l' = files l"
    "\<And>k. k \<noteq> ''read_receipt_id'' \<Longrightarrow> dget r k = dget result k"
  using assms by (auto simp: stage_result_def res_bind_eq_Inr Let_def readings_of_def)

lemma lines_entry_for:
  "lines_of (if m then numbered_ranges (entry_for p h l) else ranges (entry_for p h l)) =
     spec_seen p h m (readings_of l)"
  by (simp add: entry_for_def spec_seen_def readings_of_def split: option.splits)

lemma content_sha256_entry_for [simp]: "content_sha256 (entry_for p h l) = h"
  by (simp add: entry_for_def split: option.splits)

lemma add_delivery_fields:
  "content_sha256 (add_delivery sha msg rs numbered e) = content_sha256 e"
  "ranges (add_delivery sha msg rs numbered e) =
     (if numbered then ranges e else merge_ranges (ranges e @ rs))"
  "numbered_ranges (add_delivery sha msg rs numbered e) =
     (if numbered then merge_ranges (numbered_ranges e @ rs) else numbered_ranges e)"
  by (simp_all add: add_delivery_def Let_def)

lemma merge_ranges_Nil_iff [simp]: "merge_ranges rs = [] \<longleftrightarrow> rs = []"
proof -
  have "foldl merge_step merged ss = [] \<longleftrightarrow> merged = [] \<and> ss = []" for merged ss
    by (induction ss arbitrary: merged) (auto simp: merge_step_def)
  then show ?thesis by (simp add: merge_ranges_def) (metis length_0_conv length_sort)
qed

lemma readings_commit:
  "readings_of (commit_delivery sha msg p rs l) =
     (if rs = [] then readings_of l
      else (readings_of l)(pr_path p \<mapsto> (pr_hash p, \<lambda>m. spec_seen (pr_path p) (pr_hash p) m (readings_of l)
              \<union> (if m = pr_numbered p then lines_of rs else {}))))"
proof (cases "rs = []")
  case False
  define e where "e = entry_for (pr_path p) (pr_hash p) l"
  have "(\<lambda>m. lines_of (if m then numbered_ranges (add_delivery sha msg rs (pr_numbered p) e)
            else ranges (add_delivery sha msg rs (pr_numbered p) e))) =
        (\<lambda>m. spec_seen (pr_path p) (pr_hash p) m (readings_of l) \<union> (if m = pr_numbered p then lines_of rs else {}))"
    by (rule ext) (auto simp: add_delivery_fields lines_entry_for [symmetric] e_def)
  moreover have "readings_of (commit_delivery sha msg p rs l) = (readings_of l)(pr_path p \<mapsto> (pr_hash p,
      \<lambda>m. lines_of (if m then numbered_ranges (add_delivery sha msg rs (pr_numbered p) e)
            else ranges (add_delivery sha msg rs (pr_numbered p) e))))"
    using False unfolding e_def by (intro ext) (simp add: commit_delivery_def readings_of_def add_delivery_fields(1))
  ultimately show ?thesis using False by simp
qed (simp add: commit_delivery_def)


lemma lines_of_eq_empty_merge: "set ns = {} \<longleftrightarrow> merge_ranges (map (\<lambda>n. (n, n)) ns) = []"
  by simp

lemma filter_result_readings:
  assumes "enabled l" "filter_result sha fs p result before force numbered l = Inr (l', r)"
  shows "readings_of l' =
    (if before = None \<or> content_hash sha fs l p \<noteq> before then spec_forget [p] (readings_of l)
     else readings_of l)"
  using assms
  by (auto simp: filter_result_def readings_invalidate Let_def
      split: option.splits if_splits dest: stage_result_Inr(1))

text \<open>What a delivery adds: path, hash, presentation and the numbers of the lines shown.\<close>

definition delivery_of ::
    "(string \<Rightarrow> string) \<Rightarrow> (string \<Rightarrow> string option) \<Rightarrow> items \<Rightarrow> string \<Rightarrow> ledger \<Rightarrow>
     (string \<times> string \<times> bool \<times> int set) option" where
  "delivery_of sha fs result message l =
     (case map_of (pending l) (str_or (dget result ''read_receipt_id'') []) of
        None \<Rightarrow> None
      | Some p \<Rightarrow>
          if content_hash sha fs l (pr_path p) \<noteq> Some (pr_hash p) then None
          else (case visible_text message of
              None \<Rightarrow> None
            | Some (m, visible) \<Rightarrow>
                Some (pr_path p, pr_hash p, pr_numbered p,
                  set (delivered_numbers (pr_ranges p) (pr_content p) visible))))"

definition stale_receipt ::
    "(string \<Rightarrow> string) \<Rightarrow> (string \<Rightarrow> string option) \<Rightarrow> items \<Rightarrow> ledger \<Rightarrow> string list" where
  "stale_receipt sha fs result l =
     (case map_of (pending l) (str_or (dget result ''read_receipt_id'') []) of
        None \<Rightarrow> []
      | Some p \<Rightarrow> if content_hash sha fs l (pr_path p) \<noteq> Some (pr_hash p) then [pr_path p] else [])"

lemma record_delivery_readings:
  assumes "enabled l"
  shows "readings_of (fst (record_delivery sha fs result message l)) =
    (case delivery_of sha fs result message l of
       None \<Rightarrow> spec_forget (stale_receipt sha fs result l) (readings_of l)
     | Some (p, h, m, ns) \<Rightarrow> spec_deliver p h m ns (readings_of l))"
proof -
  define rid where "rid = str_or (dget result ''read_receipt_id'') []"
  show ?thesis
  proof (cases "map_of (pending l) rid")
    case None
    then show ?thesis
      by (simp add: record_delivery_def delivery_of_def stale_receipt_def rid_def assms)
  next
    case (Some p)
    note rid = Some [unfolded rid_def]
    show ?thesis
    proof (cases "content_hash sha fs l (pr_path p) = Some (pr_hash p)")
      case False
      then show ?thesis
        by (simp add: record_delivery_def delivery_of_def stale_receipt_def rid assms
            readings_invalidate)
    next
      case True
      then show ?thesis
        by (cases "visible_text message")
          (auto simp: record_delivery_def delivery_of_def stale_receipt_def rid assms Let_def
            readings_commit spec_deliver_def lines_of_points cong: if_cong)
    qed
  qed
qed

text \<open>
  C28. The ledger refines a map from paths to the hash of the content and, for each presentation,
  the set of line numbers delivered of it: invalidating and resetting forget, handing out a
  result changes nothing unless the file changed under the read, and recording a message adds
  exactly the lines the message shows, counting earlier lines only when they are of the same
  content. A receipt whose file changed makes the path forgotten.
\<close>

theorem ledger_refines_delivered_lines:
  assumes "enabled l"
  shows "readings_of (invalidate ps l) = spec_forget ps (readings_of l) \<and>
    readings_of (fst (reset l)) = (\<lambda>_. None) \<and>
    (\<forall>l' r. filter_result sha fs p result before force numbered l = Inr (l', r) \<longrightarrow>
       readings_of l' =
         (if before = None \<or> content_hash sha fs l p \<noteq> before then spec_forget [p] (readings_of l)
          else readings_of l)) \<and>
    readings_of (fst (record_delivery sha fs result message l)) =
      (case delivery_of sha fs result message l of
         None \<Rightarrow> spec_forget (stale_receipt sha fs result l) (readings_of l)
       | Some (q, h, m, ns) \<Rightarrow> spec_deliver q h m ns (readings_of l))"
proof -
  have "readings_of (fst (reset l)) = (\<lambda>_. None)"
    using assms by (simp add: reset_def readings_of_def)
  then show ?thesis
    using readings_invalidate [OF assms] record_delivery_readings [OF assms] filter_result_readings [OF assms]
    by blast
qed


definition sample_text :: string where
  "sample_text = [CHR ''x'', char_of (10 :: nat), CHR ''y'', char_of (10 :: nat)]"

definition sample_fs :: "string \<Rightarrow> string option" where
  "sample_fs p = (if p = ''a'' then Some sample_text else None)"

definition sample_message :: string where
  "sample_message = json_enc True (PDict [(KStr ''content'', PStr sample_text)])"

definition sample_ledger :: ledger where
  "sample_ledger = \<lparr>enabled = True, files = [],
     pending = [(''r'', \<lparr>pr_path = ''a'', pr_hash = ''h'', pr_content = sample_text,
       pr_ranges = [(1, 2)], pr_numbered = False\<rparr>)]\<rparr>"

theorem ledger_refines_delivered_lines_witness:
  "enabled sample_ledger \<and>
   delivery_of (\<lambda>s. ''h'') sample_fs [(KStr ''read_receipt_id'', PStr ''r'')] sample_message sample_ledger =
     Some (''a'', ''h'', False, {1, 2}) \<and>
   readings_of (fst (record_delivery (\<lambda>s. ''h'') sample_fs [(KStr ''read_receipt_id'', PStr ''r'')]
     sample_message sample_ledger)) = spec_deliver ''a'' ''h'' False {1, 2} (readings_of sample_ledger)"
proof -
  have en: "enabled sample_ledger" by (simp add: sample_ledger_def)
  have d: "delivery_of (\<lambda>s. ''h'') sample_fs [(KStr ''read_receipt_id'', PStr ''r'')] sample_message
      sample_ledger = Some (''a'', ''h'', False, {1, 2})"
    by code_simp
  show ?thesis
    using ledger_refines_delivered_lines [OF en, where sha = "\<lambda>s. ''h''" and fs = sample_fs and
        result = "[(KStr ''read_receipt_id'', PStr ''r'')]" and message = sample_message] en d
    by simp
qed

section \<open>The state invariant\<close>

definition valid_ranges :: "line_range list \<Rightarrow> bool" where
  "valid_ranges rs = list_all (\<lambda>r. fst r \<le> snd r) rs"

definition reads_ok :: "file_reads \<Rightarrow> bool" where
  "reads_ok e = (valid_ranges (ranges e) \<and> valid_ranges (numbered_ranges e))"

definition ledger_ok :: "ledger \<Rightarrow> bool" where
  "ledger_ok l = (list_all (\<lambda>kv. reads_ok (snd kv)) (files l) \<and> distinct (map fst (files l)) \<and>
     distinct (map fst (pending l)) \<and> length (pending l) \<le> 256)"

datatype ledger_op =
    FilterResult "string \<Rightarrow> string option" string items "string option" bool bool
  | RecordDelivery "string \<Rightarrow> string option" items string
  | Invalidate "string list"
  | Reset
  | Seed "string \<Rightarrow> string option" items "items list option"

fun ledger_step :: "(string \<Rightarrow> string) \<Rightarrow> ledger_op \<Rightarrow> ledger \<Rightarrow> ledger" where
  "ledger_step sha (FilterResult fs p result before force numbered) l =
     (case filter_result sha fs p result before force numbered l of Inr (l', _) \<Rightarrow> l' | Inl _ \<Rightarrow> l)"
| "ledger_step sha (RecordDelivery fs result message) l = fst (record_delivery sha fs result message l)"
| "ledger_step sha (Invalidate ps) l = invalidate ps l"
| "ledger_step sha Reset l = fst (reset l)"
| "ledger_step sha (Seed fs snap messages) l =
     (case seed_from_snapshot sha fs snap messages l of Inr (l', _) \<Rightarrow> l' | Inl _ \<Rightarrow> l)"

lemma list_all_alist_pop: "list_all P kvs \<Longrightarrow> list_all P (alist_pop k kvs)"
  by (auto simp: alist_pop_def list_all_iff)

lemma valid_merge [simp]: "valid_ranges rs \<Longrightarrow> valid_ranges (merge_ranges rs)"
  by (simp add: valid_ranges_def merge_ranges_valid)

lemma valid_append [simp]: "valid_ranges (rs @ ss) \<longleftrightarrow> valid_ranges rs \<and> valid_ranges ss"
  by (simp add: valid_ranges_def)

lemma valid_snapshot [simp]: "valid_ranges (snapshot_ranges raw)"
  using snapshot_ranges_valid [of raw] by (simp add: valid_ranges_def list_all_iff)

lemma ok_files: "ledger_ok l \<Longrightarrow> map_of (files l) p = Some e \<Longrightarrow> reads_ok e"
  by (auto simp: ledger_ok_def list_all_iff dest: map_of_SomeD)

lemma ok_invalidate: "ledger_ok l \<Longrightarrow> ledger_ok (invalidate ps l)"
proof -
  have "ledger_ok (invalidate_path p l)" if "ledger_ok l" for p l
    using that by (auto simp: ledger_ok_def invalidate_path_def list_all_alist_pop distinct_map_filter
        intro: order_trans [OF length_filter_le])
  then have "ledger_ok l \<Longrightarrow> ledger_ok (foldl (\<lambda>l p. invalidate_path p l) l ps)" for l
    by (induction ps arbitrary: l) auto
  then show "ledger_ok l \<Longrightarrow> ledger_ok (invalidate ps l)" by (simp add: invalidate_def)
qed

lemma length_alist_put: "length (alist_put k v kvs) \<le> Suc (length kvs)"
  by (induction k v kvs rule: alist_put.induct) auto

lemma ok_stage:
  assumes "stage_result sha p h result rs numbered l = Inr (l', r)" "ledger_ok l"
  shows "ledger_ok l'"
proof -
  have "distinct (map fst (take_last 255 (pending l)))"
    using assms(2) by (simp add: ledger_ok_def take_last_def drop_map [symmetric])
  then show ?thesis
    using assms
    by (auto simp: stage_result_def res_bind_eq_Inr Let_def ledger_ok_def
        intro!: order_trans [OF length_alist_put])
qed

lemma ok_filter:
  assumes "ledger_ok l" "filter_result sha fs p result before force numbered l = Inr (l', r)"
  shows "ledger_ok l'"
  using assms
  by (auto simp: filter_result_def Let_def ok_invalidate split: option.splits if_splits
      dest: ok_stage)

lemma reads_ok_entry: "ledger_ok l \<Longrightarrow> reads_ok (entry_for p h l)"
  by (auto simp: entry_for_def reads_ok_def valid_ranges_def dest: ok_files split: option.splits)

lemma ok_record: "ledger_ok l \<Longrightarrow> ledger_ok (fst (record_delivery sha fs result message l))"
proof -
  assume ok: "ledger_ok l"
  define rid where "rid = str_or (dget result ''read_receipt_id'') []"
  define l1 where "l1 = l\<lparr>pending := alist_pop rid (pending l)\<rparr>"
  have l1: "ledger_ok l1"
    using ok by (auto simp: ledger_ok_def l1_def alist_pop_def distinct_map_filter
        intro: order_trans [OF length_filter_le])
  have "ledger_ok (commit_delivery sha message p rs l1)" if "valid_ranges rs" for p rs
  proof -
    have "reads_ok (add_delivery sha message rs (pr_numbered p) (entry_for (pr_path p) (pr_hash p) l1))"
      using reads_ok_entry [OF l1] that by (auto simp: reads_ok_def add_delivery_fields)
    then show ?thesis
      using l1 by (auto simp: commit_delivery_def ledger_ok_def alist_put_all)
  qed
  moreover have "valid_ranges (merge_ranges (map (\<lambda>n. (n, n)) ns))" for ns
    by (rule valid_merge) (simp add: valid_ranges_def list_all_iff)
  ultimately show ?thesis
    using ok l1 ok_invalidate [OF l1]
    by (auto simp: record_delivery_def Let_def rid_def [symmetric] l1_def [symmetric]
        split: option.splits)
qed

lemma reads_if_any_ok: "reads_if_any h ds plain numbered = Some e \<Longrightarrow> reads_ok e"
  by (cases plain) (auto simp: reads_if_any_def reads_ok_def Let_def split: if_splits)

lemma seed_entry_ok: "seed_entry hs h d = Inr (Some e) \<Longrightarrow> reads_ok e"
  by (cases hs) (auto simp: seed_entry_def res_bind_eq_Inr Let_def dest: reads_if_any_ok)

lemma seed_entries_step:
  assumes "seed_entries hash hs ((k, raw) # rest) imported = Inr out"
  shows "seed_entries hash hs rest imported = Inr out \<or>
    (\<exists>path d e. k = KStr path \<and> raw = PDict d \<and>
       hash path = Some (str_or (dget d ''content_sha256'') []) \<and>
       seed_entry hs (str_or (dget d ''content_sha256'') []) d = Inr (Some e) \<and>
       seed_entries hash hs rest (alist_put path e imported) = Inr out)"
proof (cases "\<exists>path d. k = KStr path \<and> raw = PDict d")
  case True
  then obtain path d where kd: "k = KStr path" "raw = PDict d" by blast
  show ?thesis
  proof (cases "str_or (dget d ''content_sha256'') [] = [] \<or>
      hash path \<noteq> Some (str_or (dget d ''content_sha256'') [])")
    case True
    with assms show ?thesis by (simp add: kd Let_def split: if_splits)
  next
    case False
    with assms obtain e where "seed_entry hs (str_or (dget d ''content_sha256'') []) d = Inr e"
      "(case e of None \<Rightarrow> seed_entries hash hs rest imported
        | Some e' \<Rightarrow> seed_entries hash hs rest (alist_put path e' imported)) = Inr out"
      by (auto simp: kd Let_def res_bind_eq_Inr)
    with False show ?thesis by (cases e) (auto simp: kd)
  qed
next
  case False
  with assms show ?thesis by (cases k; cases raw) auto
qed

lemma seed_entries_ok:
  "seed_entries hash hs snap imported = Inr out \<Longrightarrow> list_all (\<lambda>kv. reads_ok (snd kv)) imported \<Longrightarrow>
   list_all (\<lambda>kv. reads_ok (snd kv)) out"
proof (induction snap arbitrary: imported)
  case (Cons kv rest)
  obtain k raw where kv: "kv = (k, raw)" by (cases kv)
  from seed_entries_step [OF Cons.prems(1) [unfolded kv]] show ?case
    using Cons.IH Cons.prems(2) by (auto simp: alist_put_all seed_entry_ok)
qed simp

lemma fold_put_ok:
  "list_all (\<lambda>kv. P (snd kv)) fm \<Longrightarrow> distinct (map fst fm) \<Longrightarrow> list_all (\<lambda>kv. P (snd kv)) kvs \<Longrightarrow>
   list_all (\<lambda>kv. P (snd kv)) (foldl (\<lambda>fm kv. alist_put (fst kv) (snd kv) fm) fm kvs) \<and>
   distinct (map fst (foldl (\<lambda>fm kv. alist_put (fst kv) (snd kv) fm) fm kvs))"
  by (induction kvs arbitrary: fm) (auto simp: alist_put_all)

lemma ok_seed:
  assumes "ledger_ok l" "seed_from_snapshot sha fs snap messages l = Inr (l', n)"
  shows "ledger_ok l'"
  using assms seed_entries_ok [of _ _ snap "[]"] fold_put_ok [of reads_ok "files l"]
  by (auto simp: seed_from_snapshot_def res_bind_eq_Inr ledger_ok_def split: if_splits)

lemma ok_reset: "ledger_ok l \<Longrightarrow> ledger_ok (fst (reset l))"
  by (simp add: reset_def ledger_ok_def)

interpretation rl: safe_machine "ledger_step sha" "\<lambda>_. True" ledger_ok
proof
  fix x s
  assume "ledger_ok s"
  then show "ledger_ok (ledger_step sha x s)"
    by (cases x) (auto simp: ok_invalidate ok_record ok_reset
        split: sum.splits dest: ok_filter [rotated] ok_seed [rotated])
qed

lemma ok_new: "ledger_ok (new_ledger en)"
  by (simp add: ledger_ok_def new_ledger_def)


section \<open>What a re-read shows\<close>

lemma subtract_disjoint:
  assumes "fst t \<le> snd t" "valid_ranges cs" "lines_of cs \<inter> {fst t..snd t} = {}"
  shows "subtract_ranges t cs = [t]"
proof -
  have one: "subtract_one c t = [t]" if "fst c \<le> snd c" "{fst c..snd c} \<inter> {fst t..snd t} = {}" for c
  proof -
    have "max (fst c) (fst t) \<notin> {fst c..snd c} \<inter> {fst t..snd t}" using that(2) by blast
    then have "snd c < fst t \<or> fst c > snd t" using that(1) assms(1) by auto
    then show ?thesis by (simp add: subtract_one_def)
  qed
  have "valid_ranges ds \<Longrightarrow> lines_of ds \<inter> {fst t..snd t} = {} \<Longrightarrow>
      foldl (\<lambda>rem c. concat (map (subtract_one c) rem)) [t] ds = [t]" for ds
    by (induction ds) (auto simp: valid_ranges_def one Int_Un_distrib2)
  from this [of "merge_ranges cs"] assms show ?thesis by (simp add: subtract_ranges_def)
qed

lemma previous_valid:
  assumes "ledger_ok l"
  shows "valid_ranges (previous_ranges p h m l)"
proof (cases "map_of (files l) p")
  case (Some e)
  with ok_files [OF assms this] show ?thesis
    by (simp add: previous_ranges_def reads_ok_def) (simp add: valid_ranges_def)
qed (simp add: previous_ranges_def valid_ranges_def)

lemma returned_range_valid: "returned_line_range result = Some (a, b) \<Longrightarrow> a \<le> b"
  by (auto simp: returned_line_range_def Let_def split: option.splits pyval.splits if_splits prod.splits)

lemma filter_fresh:
  assumes "ledger_ok l" "enabled l" "content_hash sha fs l p = Some h"
    "returned_line_range result = Some (a, b)"
    "filter_result sha fs p result (Some h) False m l = Inr (l', r)"
    "spec_seen p h m (readings_of l) \<inter> {a..b} = {}"
  shows "dget r ''content'' = dget result ''content'' \<and>
    dget r ''skipped_ranges'' = dget result ''skipped_ranges''"
proof -
  have "subtract_ranges (a, b) (previous_ranges p h m l) = [(a, b)]"
    using assms(6) returned_range_valid [OF assms(4)]
    by (intro subtract_disjoint) (simp_all add: previous_valid [OF assms(1)] lines_previous)
  with assms(5) have "stage_result sha p h result [(a, b)] m l = Inr (l', r)"
    by (simp add: filter_result_def assms Let_def)
  from stage_result_Inr(4) [OF this] show ?thesis by simp
qed

lemma filter_reread:
  assumes "ledger_ok l" "enabled l" "content_hash sha fs l p = Some h"
    "returned_line_range result = Some (a, b)"
    "filter_result sha fs p result (Some h) False m l = Inr (l', r)"
    "spec_seen p h m (readings_of l) \<inter> {a..b} \<noteq> {}"
  shows "\<exists>sk sep. lines_of sk = spec_seen p h m (readings_of l) \<inter> {a..b} \<and>
    dget r ''skipped_ranges'' = range_payloads sk \<and> set sep \<subseteq> {char_of (10 :: nat)} \<and>
    dget r ''content'' = PStr (concat (map snd (filter (\<lambda>x. fst x \<in> {a..b} - spec_seen p h m (readings_of l))
       (numbered_lines a (phys_lines (str_or (dget result ''content'') []))))) @
       sep @ ledger_notice p sk (previous_ranges p h m l))"
proof -
  define prev where "prev = previous_ranges p h m l"
  define unread where "unread = subtract_ranges (a, b) prev"
  define sk where "sk = subtract_ranges (a, b) unread"
  define seen where "seen = spec_seen p h m (readings_of l)"
  have seen: "lines_of prev = seen" by (simp add: prev_def lines_previous seen_def)
  have ab: "a \<le> b" using assms(4) by (rule returned_range_valid)
  have u: "lines_of unread = {a..b} - seen" by (simp add: unread_def seen)
  have sk: "lines_of sk = seen \<inter> {a..b}" by (simp add: sk_def u) blast
  have ord: "ordered_ranges a unread"
    using subtract_ordered [of "(a, b)" prev] ab previous_valid [OF assms(1)]
    by (simp add: unread_def prev_def valid_ranges_def)
  have slice: "slice_content c a unread =
      concat (map snd (filter (\<lambda>x. fst x \<in> {a..b} - seen) (numbered_lines a (phys_lines c))))" for c
    using slice_content_lines [OF ord, of c a] by (simp add: u)
  have "unread \<noteq> [(a, b)]"
  proof
    assume "unread = [(a, b)]"
    with u have "{a..b} = {a..b} - seen" by simp
    then have "seen \<inter> {a..b} = {}" by blast
    with assms(6) show False by (simp add: seen_def)
  qed
  then have r: "(if unread = [] then Inr (l, skipped_result result (ledger_notice p sk prev) sk)
      else stage_result sha p h (partial_result result (ledger_notice p sk prev) (a, b) unread sk)
             unread m l) = Inr (l', r)"
    using assms(5)
    unfolding filter_result_def Let_def assms(3,4) option.case prev_def [symmetric] fst_conv
      unread_def [symmetric] sk_def [symmetric]
    by (simp add: assms(2,3))
  show ?thesis
  proof (cases "unread = []")
    case True
    then have none: "{a..b} - seen = {}" using u by simp
    have r': "r = skipped_result result (ledger_notice p sk prev) sk" using r True by simp
    show ?thesis
      by (rule exI [of _ sk], rule exI [of _ "[]"])
        (simp add: r' skipped_result_def sk none flip: seen_def prev_def)
  next
    case False
    then have "stage_result sha p h
        (partial_result result (ledger_notice p sk prev) (a, b) unread sk) unread m l = Inr (l', r)"
      using r by simp
    note st = stage_result_Inr(4) [OF this]
    show ?thesis
      by (rule exI [of _ sk], rule exI [of _ "if slice_content (str_or (dget result ''content'') []) a unread = [] \<or>
            py_endswith (slice_content (str_or (dget result ''content'') []) a unread) [char_of (10 :: nat)]
            then [] else [char_of (10 :: nat)]"])
        (simp add: st partial_result_def Let_def sk slice flip: seen_def prev_def)
  qed
qed

text \<open>
  A read of unchanged content shows exactly the lines the ledger has not delivered: when none
  of the returned range was, the result is unchanged; otherwise its content is the text of the
  lines of the range that were not delivered, in order, followed by a notice that names the
  delivered ones, and these are the ones reported as skipped.
\<close>

theorem reread_shows_undelivered_lines:
  assumes "ledger_ok l" "enabled l" "content_hash sha fs l p = Some h"
    "returned_line_range result = Some (a, b)"
    "filter_result sha fs p result (Some h) False m l = Inr (l', r)"
    "seen = spec_seen p h m (readings_of l)"
  shows "if seen \<inter> {a..b} = {} then dget r ''content'' = dget result ''content''
    else \<exists>sk sep. lines_of sk = seen \<inter> {a..b} \<and>
      dget r ''skipped_ranges'' = range_payloads sk \<and> set sep \<subseteq> {char_of (10 :: nat)} \<and>
      dget r ''content'' = PStr (concat (map snd (filter (\<lambda>x. fst x \<in> {a..b} - seen)
         (numbered_lines a (phys_lines (str_or (dget result ''content'') []))))) @
         sep @ ledger_notice p sk (previous_ranges p h m l))"
proof (cases "seen \<inter> {a..b} = {}")
  case True
  with filter_fresh [OF assms(1-5)] assms(6) show ?thesis by simp
next
  case False
  with filter_reread [OF assms(1-5)] assms(6) show ?thesis by simp
qed


definition read_ledger_sample :: ledger where
  "read_ledger_sample = \<lparr>enabled = True,
     files = [(''a'', \<lparr>content_sha256 = ''h'', ranges = [(2, 2)], numbered_ranges = [], deliveries = []\<rparr>)],
     pending = []\<rparr>"

theorem reread_shows_undelivered_lines_witness:
  "ledger_ok read_ledger_sample \<and>
   (case filter_result (\<lambda>s. ''h'') sample_fs ''a'' [(KStr ''content'', PStr sample_text)] (Some ''h'')
      False False read_ledger_sample of
      Inl _ \<Rightarrow> False
    | Inr (l', r) \<Rightarrow> \<exists>sk sep. lines_of sk = {2} \<and> dget r ''skipped_ranges'' = range_payloads sk \<and>
        set sep \<subseteq> {char_of (10 :: nat)} \<and>
        dget r ''content'' = PStr ([CHR ''x'', char_of (10 :: nat)] @ sep @ ledger_notice ''a'' sk [(2, 2)]))"
proof -
  have ok: "ledger_ok read_ledger_sample" "enabled read_ledger_sample"
    by (simp_all add: read_ledger_sample_def ledger_ok_def reads_ok_def valid_ranges_def)
  have h: "content_hash (\<lambda>s. ''h'') sample_fs read_ledger_sample ''a'' = Some ''h''" by code_simp
  have r: "returned_line_range [(KStr ''content'', PStr sample_text)] = Some (1, 2)" by code_simp
  have seen: "{2} = spec_seen ''a'' ''h'' False (readings_of read_ledger_sample)"
    by (simp add: spec_seen_def readings_of_def read_ledger_sample_def)
  have prev: "previous_ranges ''a'' ''h'' False read_ledger_sample = [(2, 2)]"
    by (simp add: previous_ranges_def read_ledger_sample_def)
  have ls: "numbered_lines 1 (phys_lines sample_text) =
      [(1, [CHR ''x'', char_of (10 :: nat)]), (2, [CHR ''y'', char_of (10 :: nat)])]" by code_simp
  have some: "is_ok (filter_result (\<lambda>s. ''h'') sample_fs ''a'' [(KStr ''content'', PStr sample_text)] (Some ''h'')
      False False read_ledger_sample)" by code_simp
  then obtain l' r' where f: "filter_result (\<lambda>s. ''h'') sample_fs ''a'' [(KStr ''content'', PStr sample_text)]
      (Some ''h'') False False read_ledger_sample = Inr (l', r')"
    by (auto simp: is_ok_iff)
  have "{2} \<inter> {1..(2::int)} = {2}" "{1..(2::int)} - {2} = {1}" by auto
  then show ?thesis
    using reread_shows_undelivered_lines [OF ok h r f seen] ok
    by (simp add: f prev ls)
qed

section \<open>Where suppressed lines came from\<close>

text \<open>A message that shows line \<open>n\<close> of the receipt for content \<open>h\<close> of \<open>p\<close>, as the file still is.\<close>

definition line_shown ::
    "(string \<Rightarrow> string) \<Rightarrow> (string \<Rightarrow> string option) \<Rightarrow> items \<Rightarrow> string \<Rightarrow> ledger \<Rightarrow> string \<Rightarrow> string \<Rightarrow>
     bool \<Rightarrow> int \<Rightarrow> bool" where
  "line_shown sha fs result message l p h m n =
     (\<exists>pr it visible k. map_of (pending l) (str_or (dget result ''read_receipt_id'') []) = Some pr \<and>
        pr_path pr = p \<and> pr_hash pr = h \<and> pr_numbered pr = m \<and> content_hash sha fs l p = Some h \<and>
        visible_text message = Some (it, visible) \<and>
        k < length (range_numbers (pr_ranges pr)) \<and> range_numbers (pr_ranges pr) ! k = n \<and>
        k < length (phys_lines (pr_content pr)) \<and> k < length (phys_lines visible) \<and>
        phys_lines (pr_content pr) ! k = phys_lines visible ! k)"

fun is_seed :: "ledger_op \<Rightarrow> bool" where
  "is_seed (Seed _ _ _) = True"
| "is_seed _ = False"

fun keeps_path :: "string \<Rightarrow> ledger_op \<Rightarrow> bool" where
  "keeps_path p Reset = False"
| "keeps_path p (Invalidate ps) = (p \<notin> set ps)"
| "keeps_path p _ = True"

lemma delivered_number_shown:
  assumes "n \<in> set (delivered_numbers rs original visible)"
  shows "\<exists>k. k < length (range_numbers rs) \<and> range_numbers rs ! k = n \<and>
    k < length (phys_lines original) \<and> k < length (phys_lines visible) \<and>
    phys_lines original ! k = phys_lines visible ! k"
  using assms by (auto simp: delivered_numbers_def in_set_zip intro: exI)

lemma delivery_line_shown:
  assumes "delivery_of sha fs result message l = Some (p, h, m, ns)" "n \<in> ns"
  shows "line_shown sha fs result message l p h m n"
proof -
  obtain pr it visible where "map_of (pending l) (str_or (dget result ''read_receipt_id'') []) = Some pr"
    "content_hash sha fs l (pr_path pr) = Some (pr_hash pr)" "visible_text message = Some (it, visible)"
    "p = pr_path pr" "h = pr_hash pr" "m = pr_numbered pr"
    "ns = set (delivered_numbers (pr_ranges pr) (pr_content pr) visible)"
    using assms(1) by (auto simp: delivery_of_def split: option.splits if_splits)
  with assms(2) delivered_number_shown [of n "pr_ranges pr" "pr_content pr" visible]
  show ?thesis by (auto simp: line_shown_def)
qed

lemma seen_forget: "n \<in> spec_seen p h m (spec_forget ps a) \<Longrightarrow> n \<in> spec_seen p h m a \<and> p \<notin> set ps"
  by (auto simp: spec_seen_def spec_forget_def split: if_splits)

lemma seen_deliver:
  "n \<in> spec_seen p h m (spec_deliver q h' m' ns a) \<Longrightarrow>
   n \<in> spec_seen p h m a \<or> (q = p \<and> h' = h \<and> m' = m \<and> n \<in> ns)"
  by (auto simp: spec_deliver_def spec_seen_def [of _ _ _ "_(_ \<mapsto> _)"] spec_seen_def [of _ _ _ a]
      split: if_splits option.splits)

lemma seen_step:
  assumes "enabled l" "\<not> is_seed op"
    and "n \<in> spec_seen p h m (readings_of (ledger_step sha op l))"
  shows "(n \<in> spec_seen p h m (readings_of l) \<and> keeps_path p op) \<or>
    (\<exists>fs result message. op = RecordDelivery fs result message \<and>
       line_shown sha fs result message l p h m n)"
proof (cases op)
  case (FilterResult fs q result before force numbered)
  show ?thesis
  proof (cases "filter_result sha fs q result before force numbered l")
    case (Inr lr)
    obtain l' r where "lr = (l', r)" by (cases lr)
    with Inr have "filter_result sha fs q result before force numbered l = Inr (l', r)" by simp
    from filter_result_readings [OF assms(1) this] assms(3) show ?thesis
      by (auto simp: FilterResult Inr \<open>lr = (l', r)\<close> split: if_splits dest: seen_forget)
  qed (use assms(3) in \<open>simp add: FilterResult\<close>)
next
  case (RecordDelivery fs result message)
  show ?thesis
  proof (cases "delivery_of sha fs result message l")
    case None
    with assms(3) show ?thesis
      by (auto simp: RecordDelivery record_delivery_readings [OF assms(1)] dest: seen_forget)
  next
    case (Some d)
    obtain q h' m' ns where d: "d = (q, h', m', ns)" by (cases d)
    from assms(3) have "n \<in> spec_seen p h m (spec_deliver q h' m' ns (readings_of l))"
      by (simp add: RecordDelivery record_delivery_readings [OF assms(1)] Some d)
    from seen_deliver [OF this] delivery_line_shown [OF Some [unfolded d]] show ?thesis
      by (auto simp: RecordDelivery)
  qed
next
  case (Invalidate ps)
  with assms(3) show ?thesis by (auto simp: readings_invalidate [OF assms(1)] dest: seen_forget)
next
  case Reset
  with assms(1,3) show ?thesis by (simp add: reset_def readings_of_def spec_seen_def)
qed (use assms(2) in simp)

lemma enabled_invalidate [simp]: "enabled (invalidate ps l) = enabled l"
proof -
  have "enabled (foldl (\<lambda>l p. invalidate_path p l) l ps) = enabled l" for l
    by (induction ps arbitrary: l) simp_all
  then show ?thesis by (simp add: invalidate_def)
qed

lemma enabled_record [simp]: "enabled (fst (record_delivery sha fs result message l)) = enabled l"
  by (cases "map_of (pending l) (str_or (dget result ''read_receipt_id'') [])"; cases "visible_text message")
    (simp_all add: record_delivery_def Let_def commit_delivery_def case_prod_beta)

lemma enabled_filter:
  "filter_result sha fs q result before force numbered l = Inr (l', r) \<Longrightarrow> enabled l' = enabled l"
  by (auto simp: filter_result_def Let_def split: option.splits if_splits dest: stage_result_Inr(2))

lemma enabled_step: "\<not> is_seed op \<Longrightarrow> enabled (ledger_step sha op l) = enabled l"
  by (cases op) (auto simp: reset_def split: sum.splits dest: enabled_filter)

lemma enabled_run: "list_all (\<lambda>op. \<not> is_seed op) ops \<Longrightarrow> enabled (run (ledger_step sha) ops l) = enabled l"
  by (induction ops arbitrary: l) (simp_all add: enabled_step)


lemma seen_origin:
  assumes "list_all (\<lambda>op. \<not> is_seed op) ops"
    and "n \<in> spec_seen p h m (readings_of (run (ledger_step sha) ops (new_ledger True)))"
  shows "\<exists>xs fs result message ys. ops = xs @ RecordDelivery fs result message # ys \<and>
    line_shown sha fs result message (run (ledger_step sha) xs (new_ledger True)) p h m n \<and>
    list_all (keeps_path p) ys"
  using assms
proof (induction ops rule: rev_induct)
  case Nil
  then show ?case by (simp add: new_ledger_def readings_of_def spec_seen_def)
next
  case (snoc op ops)
  define l where "l = run (ledger_step sha) ops (new_ledger True)"
  have ns: "list_all (\<lambda>op. \<not> is_seed op) ops" "\<not> is_seed op" using snoc.prems(1) by auto
  have en: "enabled l" using enabled_run [OF ns(1), of sha "new_ledger True"]
    by (simp add: l_def) (simp add: new_ledger_def)
  have "n \<in> spec_seen p h m (readings_of (ledger_step sha op l))"
    using snoc.prems(2) by (simp add: l_def)
  from seen_step [OF en ns(2) this] show ?case
  proof (elim disjE conjE exE)
    assume n: "n \<in> spec_seen p h m (readings_of l)" and k: "keeps_path p op"
    from snoc.IH [OF ns(1) n [unfolded l_def]] obtain xs fs result message ys where
      "ops = xs @ RecordDelivery fs result message # ys"
      "line_shown sha fs result message (run (ledger_step sha) xs (new_ledger True)) p h m n"
      "list_all (keeps_path p) ys"
      by (elim exE conjE)
    with k show ?thesis
      by (intro exI [of _ xs] exI [of _ fs] exI [of _ result] exI [of _ message] exI [of _ "ys @ [op]"]) simp
  next
    fix fs result message
    assume "op = RecordDelivery fs result message" "line_shown sha fs result message l p h m n"
    then show ?thesis
      by (intro exI [of _ ops] exI [of _ fs] exI [of _ result] exI [of _ message] exI [of _ "[]"])
        (simp add: l_def)
  qed
qed

lemma range_payloads_inject: "range_payloads rs = range_payloads ss \<longleftrightarrow> rs = ss"
proof
  assume "range_payloads rs = range_payloads ss"
  then have "map (\<lambda>(s, e). PDict [(KStr ''start_line'', PInt s), (KStr ''end_line'', PInt e)]) rs =
      map (\<lambda>(s, e). PDict [(KStr ''start_line'', PInt s), (KStr ''end_line'', PInt e)]) ss"
    by (simp add: range_payloads_def)
  then show "rs = ss" by (rule map_injective) (auto intro: injI)
qed simp

lemma filter_skips:
  assumes "ledger_ok l" "filter_result sha fs p result before False m l = Inr (l', r)"
    "dget result ''skipped_ranges'' = PNone" "dget r ''skipped_ranges'' = range_payloads sk"
    "n \<in> lines_of sk"
  shows "\<exists>h. before = Some h \<and> content_hash sha fs l p = Some h \<and>
    n \<in> spec_seen p h m (readings_of l)"
proof -
  have np: "dget r ''skipped_ranges'' \<noteq> PNone" using assms(4) by (simp add: range_payloads_def)
  then have "r \<noteq> result" using assms(3) by auto
  then have en: "enabled l" and bh: "before \<noteq> None" "content_hash sha fs l p = before"
    and rr: "returned_line_range result \<noteq> None"
    using assms(2) by (auto simp: filter_result_def split: option.splits if_splits)
  obtain h where h: "before = Some h" using bh(1) by blast
  obtain a b where ab: "returned_line_range result = Some (a, b)" using rr by auto
  have hash: "content_hash sha fs l p = Some h" using bh h by simp
  note f = assms(2) [unfolded h]
  have "spec_seen p h m (readings_of l) \<inter> {a..b} \<noteq> {}"
    using filter_fresh [OF assms(1) en hash ab f] np assms(3) by auto
  from filter_reread [OF assms(1) en hash ab f this] obtain sk'
    where "lines_of sk' = spec_seen p h m (readings_of l) \<inter> {a..b}"
      "dget r ''skipped_ranges'' = range_payloads sk'" by (elim exE conjE)
  with assms(4,5) have "n \<in> spec_seen p h m (readings_of l)" by (simp add: range_payloads_inject)
  with h hash show ?thesis by blast
qed

text \<open>
  C6. No line is withheld from the model unless it was really delivered: in a session that starts
  with an empty ledger, if a read reports a line as skipped then an earlier message showed that
  line's text verbatim, from a receipt for the same path, presentation and content, which the
  file still had, and the path has not been invalidated nor the ledger reset since then.
\<close>

theorem suppressed_lines_were_delivered:
  assumes "list_all (\<lambda>op. \<not> is_seed op) ops"
    and "filter_result sha fs p result before False m (run (ledger_step sha) ops (new_ledger True)) = Inr (l', r)"
    and "dget result ''skipped_ranges'' = PNone"
    and "dget r ''skipped_ranges'' = range_payloads sk" "n \<in> lines_of sk"
  shows "\<exists>h xs fs' result' message ys. before = Some h \<and>
    ops = xs @ RecordDelivery fs' result' message # ys \<and>
    line_shown sha fs' result' message (run (ledger_step sha) xs (new_ledger True)) p h m n \<and>
    list_all (keeps_path p) ys"
proof -
  have "ledger_ok (run (ledger_step sha) ops (new_ledger True))"
    by (rule rl.run_inv) (simp_all add: ok_new list_all_iff)
  from filter_skips [OF this assms(2-5)] seen_origin [OF assms(1)] show ?thesis
    by (elim exE conjE) (drule meta_spec, drule meta_spec, drule meta_spec, fast)
qed

definition ledger_trace :: "ledger_op list" where
  "ledger_trace =
     [FilterResult sample_fs ''a'' [(KStr ''content'', PStr sample_text)] (Some ''h'') False False,
      RecordDelivery sample_fs [(KStr ''read_receipt_id'', PStr ''h'')] sample_message]"

theorem suppressed_lines_were_delivered_witness:
  "\<exists>h xs fs' result' message ys. Some ''h'' = Some h \<and>
    ledger_trace = xs @ RecordDelivery fs' result' message # ys \<and>
    line_shown (\<lambda>s. ''h'') fs' result' message (run (ledger_step (\<lambda>s. ''h'')) xs (new_ledger True)) ''a'' h False 2 \<and>
    list_all (keeps_path ''a'') ys"
proof (rule suppressed_lines_were_delivered)
  show "list_all (\<lambda>op. \<not> is_seed op) ledger_trace" by (simp add: ledger_trace_def)
  define res where "res = filter_result (\<lambda>s. ''h'') sample_fs ''a'' [(KStr ''content'', PStr sample_text)]
     (Some ''h'') False False (run (ledger_step (\<lambda>s. ''h'')) ledger_trace (new_ledger True))"
  have "is_ok res" unfolding res_def by code_simp
  then have "res = Inr (projr res)" by (auto simp: is_ok_iff)
  then show "filter_result (\<lambda>s. ''h'') sample_fs ''a'' [(KStr ''content'', PStr sample_text)] (Some ''h'')
     False False (run (ledger_step (\<lambda>s. ''h'')) ledger_trace (new_ledger True)) =
     Inr (fst (projr res), snd (projr res))" by (simp add: res_def)
  show "dget [(KStr ''content'', PStr sample_text)] ''skipped_ranges'' = PNone" by simp
  show "dget (snd (projr res)) ''skipped_ranges'' = range_payloads [(1, 2)]"
    unfolding res_def by code_simp
  show "(2 :: int) \<in> lines_of [(1, 2)]" by simp
qed

end
