(* ===== verification/StepBudget.thy ===== *)
theory StepBudget
  imports PyObjects
begin

text \<open>
  The step ceiling of one agent loop, \<open>step_budget.py\<close>. The limits a request carries come from
  configuration files and command lines, so they are dynamically typed values; \<open>int\<close> of an
  infinite float raises \<open>OverflowError\<close>, which \<open>_positive_int\<close> does not catch.
\<close>

definition DEFAULT_CHAT_MAX_STEPS :: int where "DEFAULT_CHAT_MAX_STEPS = 80"
definition DEFAULT_TASK_MAX_STEPS :: int where "DEFAULT_TASK_MAX_STEPS = 160"
definition DEFAULT_SUBAGENT_MAX_STEPS :: int where "DEFAULT_SUBAGENT_MAX_STEPS = 28"

definition AUTONOMOUS_STEP_BUDGET_POLICY :: string where
  "AUTONOMOUS_STEP_BUDGET_POLICY = ''autonomous''"

definition LIMITED_STEP_BUDGET_POLICY :: string where
  "LIMITED_STEP_BUDGET_POLICY = ''limited''"

definition step_policy_alias :: "string \<Rightarrow> string" where
  "step_policy_alias p =
     (if p = ''adaptive'' then AUTONOMOUS_STEP_BUDGET_POLICY
      else if p = ''fixed'' then LIMITED_STEP_BUDGET_POLICY else p)"

text \<open>\<open>_positive_int\<close>: at least 1, the default when the value is not a number.\<close>

definition positive_int_or :: "pyval \<Rightarrow> int \<Rightarrow> py_exc + int" where
  "positive_int_or v d =
     (case py_int v of
        Inl TypeError \<Rightarrow> Inr (max 1 d)
      | Inl ValueError \<Rightarrow> Inr (max 1 d)
      | Inl e \<Rightarrow> Inl e
      | Inr parsed \<Rightarrow> Inr (max 1 parsed))"

definition normalize_step_budget_policy :: "pyval \<Rightarrow> string" where
  "normalize_step_budget_policy raw =
     (let normalized = step_policy_alias (py_lower (py_strip (str_or raw [])))
      in if normalized = AUTONOMOUS_STEP_BUDGET_POLICY \<or> normalized = LIMITED_STEP_BUDGET_POLICY
         then normalized else AUTONOMOUS_STEP_BUDGET_POLICY)"

definition step_budget_is_autonomous :: "pyval \<Rightarrow> bool" where
  "step_budget_is_autonomous raw = (normalize_step_budget_policy raw = AUTONOMOUS_STEP_BUDGET_POLICY)"

definition resolve_subagent_step_profile :: "pyval \<Rightarrow> string option" where
  "resolve_subagent_step_profile name =
     (let normalized = py_lower (py_strip (str_or name []))
      in if normalized = [] then None
         else if List.member [''explorer'', ''general'', ''frontend-engineer'', ''debugger'', ''verifier'',
           ''code-reviewer'', ''visual-designer''] normalized
         then Some normalized else Some ''default'')"

record step_request =
  rq_kind :: pyval
  rq_policy :: pyval
  rq_hard_cap :: pyval
  rq_fixed_override :: pyval
  rq_mode :: pyval
  rq_route :: pyval
  rq_one_shot_execution :: pyval
  rq_one_shot_turn_intent :: pyval
  rq_verification_enabled :: pyval
  rq_subagents_enabled :: pyval
  rq_subagent_name :: pyval
  rq_parent_turn_budget :: pyval
  rq_attempt_count :: pyval
  rq_image_count :: pyval
  rq_explicit_path_count :: pyval
  rq_acceptance_criteria_count :: pyval
  rq_estimated_files_count :: pyval
  rq_write_scope_count :: pyval
  rq_dependency_count :: pyval
  rq_asset_count :: pyval
  rq_conflict_file_count :: pyval

record step_resolution =
  rs_kind :: string
  rs_policy :: string
  rs_hard_cap :: "int option"
  rs_resolved_max_steps :: "int option"
  rs_override_applied :: bool
  rs_reason :: string
  rs_signals_used :: "(pykey \<times> pyval) list"
  rs_base_steps :: "int option"
  rs_profile :: "string option"

definition unlimited :: "step_resolution \<Rightarrow> bool" where
  "unlimited r = (rs_resolved_max_steps r = None)"

definition int_or_none :: "int option \<Rightarrow> pyval" where
  "int_or_none v = (case v of None \<Rightarrow> PNone | Some i \<Rightarrow> PInt i)"

definition str_or_none :: "string option \<Rightarrow> pyval" where
  "str_or_none v = (case v of None \<Rightarrow> PNone | Some s \<Rightarrow> PStr s)"

definition step_resolution_payload :: "step_resolution \<Rightarrow> (pykey \<times> pyval) list" where
  "step_resolution_payload r =
     [(KStr ''kind'', PStr (rs_kind r)), (KStr ''policy'', PStr (rs_policy r)),
      (KStr ''hard_cap'', int_or_none (rs_hard_cap r)),
      (KStr ''resolved_max_steps'', int_or_none (rs_resolved_max_steps r)),
      (KStr ''unlimited'', PBool (unlimited r)),
      (KStr ''override_applied'', PBool (rs_override_applied r)),
      (KStr ''reason'', PStr (rs_reason r)), (KStr ''signals_used'', PDict (rs_signals_used r)),
      (KStr ''base_steps'', int_or_none (rs_base_steps r)),
      (KStr ''profile'', str_or_none (rs_profile r))]"

definition default_cap :: "string \<Rightarrow> int" where
  "default_cap kind =
     (if kind = ''managed_task'' \<or> kind = ''conflict_resolution'' then DEFAULT_TASK_MAX_STEPS
      else if kind = ''subagent'' then DEFAULT_SUBAGENT_MAX_STEPS
      else DEFAULT_CHAT_MAX_STEPS)"

definition resolve_limited_cap :: "step_request \<Rightarrow> string \<Rightarrow> py_exc + int" where
  "resolve_limited_cap rq kind =
     res_bind (positive_int_or (rq_hard_cap rq) (default_cap kind)) (\<lambda>cap.
       if kind = ''subagent'' \<and> rq_parent_turn_budget rq \<noteq> PNone
       then res_bind (positive_int_or (rq_parent_turn_budget rq) cap) (\<lambda>parent.
              Inr (max 1 (min cap parent)))
       else Inr (max 1 cap))"

definition request_signals :: "step_request \<Rightarrow> (pykey \<times> pyval) list" where
  "request_signals rq =
     [(KStr ''mode'', rq_mode rq), (KStr ''route'', rq_route rq),
      (KStr ''one_shot_execution'', PBool (py_truthy (rq_one_shot_execution rq))),
      (KStr ''one_shot_turn_intent'', rq_one_shot_turn_intent rq),
      (KStr ''verification_enabled'', PBool (py_truthy (rq_verification_enabled rq))),
      (KStr ''subagents_enabled'', PBool (py_truthy (rq_subagents_enabled rq))),
      (KStr ''subagent_name'', rq_subagent_name rq),
      (KStr ''parent_turn_budget'', rq_parent_turn_budget rq),
      (KStr ''attempt_count'', rq_attempt_count rq), (KStr ''image_count'', rq_image_count rq),
      (KStr ''explicit_path_count'', rq_explicit_path_count rq),
      (KStr ''acceptance_criteria_count'', rq_acceptance_criteria_count rq),
      (KStr ''estimated_files_count'', rq_estimated_files_count rq),
      (KStr ''write_scope_count'', rq_write_scope_count rq),
      (KStr ''dependency_count'', rq_dependency_count rq), (KStr ''asset_count'', rq_asset_count rq),
      (KStr ''conflict_file_count'', rq_conflict_file_count rq)]"

text \<open>A resolution whose three limits agree.\<close>

definition step_limit ::
    "string \<Rightarrow> string \<Rightarrow> int option \<Rightarrow> bool \<Rightarrow> string \<Rightarrow> (pykey \<times> pyval) list \<Rightarrow> string option \<Rightarrow>
     step_resolution" where
  "step_limit kind policy limit override reason signals profile =
     \<lparr>rs_kind = kind, rs_policy = policy, rs_hard_cap = limit, rs_resolved_max_steps = limit,
      rs_override_applied = override, rs_reason = reason, rs_signals_used = signals,
      rs_base_steps = limit, rs_profile = profile\<rparr>"

definition request_kind :: "step_request \<Rightarrow> string" where
  "request_kind rq =
     (let k = py_lower (py_strip (str_or (rq_kind rq) [])) in if k = [] then ''chat_turn'' else k)"

definition resolve_step_budget :: "step_request \<Rightarrow> py_exc + step_resolution" where
  "resolve_step_budget rq =
     (let kind = request_kind rq;
          policy = normalize_step_budget_policy (rq_policy rq);
          profile = (if kind = ''subagent'' then resolve_subagent_step_profile (rq_subagent_name rq) else None)
      in if rq_fixed_override rq \<noteq> PNone then
           res_bind (positive_int_or (rq_fixed_override rq) (default_cap kind)) (\<lambda>explicit_limit.
             Inr (step_limit kind policy (Some explicit_limit) True ''explicit_limit''
               (dput ''explicit_limit'' (PInt explicit_limit) (dput ''policy'' (PStr policy) (request_signals rq)))
               profile))
         else if policy = LIMITED_STEP_BUDGET_POLICY then
           res_bind (resolve_limited_cap rq kind) (\<lambda>cap.
             Inr (step_limit kind policy (Some cap) False ''limited_policy''
               (dput ''hard_cap'' (PInt cap) (dput ''policy'' (PStr policy) (request_signals rq)))
               profile))
         else Inr (step_limit kind AUTONOMOUS_STEP_BUDGET_POLICY None False ''autonomous_unbounded''
               (dput ''configured_legacy_cap'' (rq_hard_cap rq)
                 (dput ''policy'' (PStr AUTONOMOUS_STEP_BUDGET_POLICY) (request_signals rq)))
               profile))"

section \<open>Well-formed resolutions\<close>

lemma positive_int_or_ge: "positive_int_or v d = Inr n \<Longrightarrow> 1 \<le> n"
  by (auto simp: positive_int_or_def split: sum.splits py_exc.splits)

lemma positive_int_or_PInt [simp]: "positive_int_or (PInt i) d = Inr (max 1 i)"
  by (simp add: positive_int_or_def)

lemma normalize_policy_cases:
  "normalize_step_budget_policy raw = AUTONOMOUS_STEP_BUDGET_POLICY \<or>
   normalize_step_budget_policy raw = LIMITED_STEP_BUDGET_POLICY"
  by (simp add: normalize_step_budget_policy_def Let_def)

lemma limited_cap_bounds:
  assumes "resolve_limited_cap rq kind = Inr n"
  shows "1 \<le> n" and "kind = ''subagent'' \<Longrightarrow> rq_parent_turn_budget rq = PInt p \<Longrightarrow> n \<le> max 1 p"
  using assms by (auto simp: resolve_limited_cap_def res_bind_eq_Inr split: if_splits)

lemma autonomous_not_limited [simp]: "AUTONOMOUS_STEP_BUDGET_POLICY \<noteq> LIMITED_STEP_BUDGET_POLICY"
  by (simp add: AUTONOMOUS_STEP_BUDGET_POLICY_def LIMITED_STEP_BUDGET_POLICY_def)

text \<open>The shape every resolution has, whatever values the request holds.\<close>

definition step_resolution_ok :: "step_request \<Rightarrow> step_resolution \<Rightarrow> bool" where
  "step_resolution_ok rq r =
     ((rs_policy r = AUTONOMOUS_STEP_BUDGET_POLICY \<or> rs_policy r = LIMITED_STEP_BUDGET_POLICY) \<and>
      rs_hard_cap r = rs_resolved_max_steps r \<and> rs_base_steps r = rs_resolved_max_steps r \<and>
      (case rs_resolved_max_steps r of
         None \<Rightarrow> rs_policy r = AUTONOMOUS_STEP_BUDGET_POLICY \<and> rq_fixed_override rq = PNone
       | Some n \<Rightarrow> 1 \<le> n \<and> (rq_fixed_override rq \<noteq> PNone \<or> rs_policy r = LIMITED_STEP_BUDGET_POLICY)) \<and>
      rs_override_applied r = (rq_fixed_override rq \<noteq> PNone) \<and>
      (rs_profile r \<noteq> None \<longrightarrow> rs_kind r = ''subagent'') \<and> rs_kind r \<noteq> [])"

text \<open>
  Every request resolves to a well-formed resolution, unless a limit it carries is an infinite
  float: the policy is one of the two, the three limits agree, a finite ceiling is at least one
  step and exists exactly when the caller forced one or the policy is limited, and a subagent
  without an override gets no more steps than its parent has.
\<close>

theorem step_budget_well_formed:
  "(case resolve_step_budget rq of
      Inr r \<Rightarrow> step_resolution_ok rq r \<and>
        (\<forall>n p. rq_fixed_override rq = PNone \<and> request_kind rq = ''subagent'' \<and>
           rq_parent_turn_budget rq = PInt p \<and> rs_resolved_max_steps r = Some n \<longrightarrow> n \<le> max 1 p)
    | Inl e \<Rightarrow> e = OverflowError \<and>
        \<not> list_all (\<lambda>v. v \<noteq> PFloat FInf \<and> v \<noteq> PFloat FNegInf)
          [rq_fixed_override rq, rq_hard_cap rq, rq_parent_turn_budget rq])"
proof -
  have raise: "e = OverflowError \<and> (v = PFloat FInf \<or> v = PFloat FNegInf)"
    if "positive_int_or v d = Inl e" for v d e
    using that by (cases v rule: py_int.cases)
      (auto simp: positive_int_or_def split: option.splits)
  have kind: "request_kind rq \<noteq> []" by (simp add: request_kind_def Let_def)
  show ?thesis
  proof (cases "resolve_step_budget rq")
    case (Inl e)
    then show ?thesis
      by (auto simp: resolve_step_budget_def Let_def res_bind_eq_Inl resolve_limited_cap_def
          split: if_splits dest: raise)
  next
    case (Inr r)
    then show ?thesis
      using normalize_policy_cases [of "rq_policy rq"] kind
      by (auto simp: resolve_step_budget_def Let_def res_bind_eq_Inr step_limit_def
          step_resolution_ok_def split: if_splits dest: positive_int_or_ge limited_cap_bounds)
  qed
qed


definition sample_request :: step_request where
  "sample_request = \<lparr>rq_kind = PStr ''Subagent'', rq_policy = PStr ''fixed'', rq_hard_cap = PInt 50,
     rq_fixed_override = PNone, rq_mode = PNone, rq_route = PNone, rq_one_shot_execution = PBool False,
     rq_one_shot_turn_intent = PNone, rq_verification_enabled = PBool False,
     rq_subagents_enabled = PBool False, rq_subagent_name = PStr ''explorer'',
     rq_parent_turn_budget = PInt 10, rq_attempt_count = PInt 1, rq_image_count = PInt 0,
     rq_explicit_path_count = PInt 0, rq_acceptance_criteria_count = PInt 0,
     rq_estimated_files_count = PInt 0, rq_write_scope_count = PInt 0, rq_dependency_count = PInt 0,
     rq_asset_count = PInt 0, rq_conflict_file_count = PInt 0\<rparr>"

theorem step_budget_well_formed_witness:
  "is_ok (resolve_step_budget sample_request) \<and>
   step_resolution_ok sample_request (projr (resolve_step_budget sample_request)) \<and>
   rs_resolved_max_steps (projr (resolve_step_budget sample_request)) = Some 10"
proof -
  have ok: "is_ok (resolve_step_budget sample_request)" by code_simp
  then obtain r where r: "resolve_step_budget sample_request = Inr r" by (auto simp: is_ok_iff)
  have n: "rs_resolved_max_steps (projr (resolve_step_budget sample_request)) = Some 10" by code_simp
  show ?thesis
    using step_budget_well_formed [of sample_request] n by (simp add: r)
qed

end
