(* ===== verification/Mailbox.thy ===== *)
theory Mailbox
  imports Main "HOL-Library.Sublist"
begin

text \<open>
  The contract of a mailbox between two threads: what is put in comes out in order, at most once, and
  nothing else comes out; as long as the box has room nothing is lost. \<open>accepted\<close> is what a message
  becomes when it is put in (nothing, if it is ignored), \<open>touch\<close> any other operation of the box.
\<close>

datatype ('m, 'x) box_op = Put 'm | Take | Touch 'x

fun exchange ::
    "('m \<Rightarrow> 'b \<Rightarrow> 'b) \<Rightarrow> ('b \<Rightarrow> 'c list \<times> 'b) \<Rightarrow> ('x \<Rightarrow> 'b \<Rightarrow> 'b) \<Rightarrow> ('m, 'x) box_op list \<Rightarrow> 'b \<Rightarrow> 'c list \<times> 'b" where
  "exchange put take_all touch [] b = ([], b)"
| "exchange put take_all touch (Put m # xs) b = exchange put take_all touch xs (put m b)"
| "exchange put take_all touch (Take # xs) b =
     (let (out, b') = take_all b; (outs, b'') = exchange put take_all touch xs b' in (out @ outs, b''))"
| "exchange put take_all touch (Touch x # xs) b = exchange put take_all touch xs (touch x b)"

fun put_in :: "('m \<Rightarrow> 'c list) \<Rightarrow> ('m, 'x) box_op list \<Rightarrow> 'c list" where
  "put_in accepted [] = []"
| "put_in accepted (Put m # xs) = accepted m @ put_in accepted xs"
| "put_in accepted (Take # xs) = put_in accepted xs"
| "put_in accepted (Touch x # xs) = put_in accepted xs"

text \<open>Whether a box with \<open>n\<close> messages never gets more than \<open>bound\<close> of them.\<close>

fun fits :: "('m \<Rightarrow> 'c list) \<Rightarrow> nat \<Rightarrow> nat \<Rightarrow> ('m, 'x) box_op list \<Rightarrow> bool" where
  "fits accepted bound n [] = True"
| "fits accepted bound n (Put m # xs) =
     (n + length (accepted m) \<le> bound \<and> fits accepted bound (n + length (accepted m)) xs)"
| "fits accepted bound n (Take # xs) = fits accepted bound 0 xs"
| "fits accepted bound n (Touch x # xs) = fits accepted bound n xs"

locale mailbox =
  fixes put :: "'m \<Rightarrow> 'b \<Rightarrow> 'b"
    and take_all :: "'b \<Rightarrow> 'c list \<times> 'b"
    and touch :: "'x \<Rightarrow> 'b \<Rightarrow> 'b"
    and contents :: "'b \<Rightarrow> 'c list"
    and accepted :: "'m \<Rightarrow> 'c list"
    and bound :: nat
  assumes put_subseq: "subseq (contents (put m b)) (contents b @ accepted m)"
    and put_room: "length (contents b) + length (accepted m) \<le> bound \<Longrightarrow>
      contents (put m b) = contents b @ accepted m"
    and take_all_out: "fst (take_all b) = contents b"
    and take_all_empty: "contents (snd (take_all b)) = []"
    and touch_contents: "contents (touch x b) = contents b"
begin

lemma delivered_in_order:
  "subseq (fst (exchange put take_all touch xs b) @ contents (snd (exchange put take_all touch xs b)))
     (contents b @ put_in accepted xs)"
proof (induction xs arbitrary: b)
  case (Cons op xs)
  show ?case
  proof (cases op)
    case (Put m)
    have "subseq (contents (put m b) @ put_in accepted xs) ((contents b @ accepted m) @ put_in accepted xs)"
      by (intro list_emb_append_mono put_subseq) simp
    with Put Cons.IH [of "put m b"] show ?thesis
      by (auto simp del: subseq_append' intro: subseq_order.trans)
  next
    case Take
    then show ?thesis
      using take_all_out [of b] take_all_empty [of b]
        list_emb_append_mono [OF subseq_order.refl [of "contents b"] Cons.IH [of "snd (take_all b)"]]
      by (simp add: split_beta Let_def)
  next
    case (Touch x)
    with Cons.IH [of "touch x b"] show ?thesis by (simp add: touch_contents)
  qed
qed simp

lemma delivered_exactly:
  "fits accepted bound (length (contents b)) xs \<Longrightarrow>
     fst (exchange put take_all touch xs b) @ contents (snd (exchange put take_all touch xs b)) =
       contents b @ put_in accepted xs"
proof (induction xs arbitrary: b)
  case (Cons op xs)
  then show ?case
    using take_all_out [of b] take_all_empty [of b]
    by (cases op) (auto simp: split_beta Let_def put_room touch_contents)
qed simp

end

end
