(* ===== verification/Steering.thy ===== *)
theory Steering
  imports PyValue Mailbox Machines
begin

text \<open>
  Handing messages and operations to a running turn, \<open>agent/steering.py\<close>: the bounded inbox of
  resolved operations, which refuses what does not fit, and the steering inbox, which drops the oldest
  message and keeps a bounded list of wake reasons with an event. Every method holds the inbox's lock
  from its first look at the state to its last, so each is one step. A wake reason is the dictionary
  with \<open>reason\<close> and, if it is set, \<open>run_id\<close>.
\<close>

definition MAX_STEER_MESSAGE_CHARS :: nat where "MAX_STEER_MESSAGE_CHARS = 4000"
definition MAX_PENDING_STEER_MESSAGES :: nat where "MAX_PENDING_STEER_MESSAGES = 16"
definition MAX_PENDING_OPS :: nat where "MAX_PENDING_OPS = 16"
definition TRUNCATION_MARKER :: string where "TRUNCATION_MARKER = '' [truncated]''"

section \<open>The operations inbox\<close>

text \<open>An operation is any value; the check of its type is Python's.\<close>

definition ops_send :: "'op \<Rightarrow> 'op list \<Rightarrow> bool \<times> 'op list" where
  "ops_send operation operations =
     (if length operations \<ge> MAX_PENDING_OPS then (False, operations)
      else (True, operations @ [operation]))"

definition ops_drain :: "'op list \<Rightarrow> 'op list \<times> 'op list" where
  "ops_drain operations = (if operations = [] then ([], operations) else (operations, []))"

section \<open>The steering inbox\<close>

definition normalize_steer_message :: "string \<Rightarrow> string" where
  "normalize_steer_message message =
     (let normalized = py_strip message in
      if normalized = [] then []
      else if length normalized > MAX_STEER_MESSAGE_CHARS then
        py_rstrip (take (MAX_STEER_MESSAGE_CHARS - length TRUNCATION_MARKER) normalized) @ TRUNCATION_MARKER
      else normalized)"

record wake_signal =
  sig_reason :: string
  sig_run_id :: "string option"

record steer_inbox =
  si_messages :: "string list"
  si_signals :: "wake_signal list"
  si_event :: bool
  si_dropped :: nat

definition new_inbox :: steer_inbox where
  "new_inbox = \<lparr>si_messages = [], si_signals = [], si_event = False, si_dropped = 0\<rparr>"

text \<open>\<open>while len(q) > bound: q.popleft()\<close>, counting what it drops.\<close>

fun pop_excess :: "nat \<Rightarrow> 'a list \<Rightarrow> 'a list \<times> nat" where
  "pop_excess bound [] = ([], 0)"
| "pop_excess bound (x # xs) =
     (if length (x # xs) > bound then (let (kept, n) = pop_excess bound xs in (kept, n + 1))
      else (x # xs, 0))"

definition wake_reason :: "string \<Rightarrow> string" where
  "wake_reason reason =
     (let r = py_strip (if reason = [] then ''parent_wake'' else reason) in
      if r = [] then ''parent_wake'' else r)"

definition signal_locked :: "string \<Rightarrow> string \<Rightarrow> steer_inbox \<Rightarrow> steer_inbox" where
  "signal_locked reason run_id b =
     b\<lparr>si_signals := fst (pop_excess MAX_PENDING_STEER_MESSAGES
         (si_signals b @ [\<lparr>sig_reason = wake_reason reason,
                           sig_run_id = (if run_id = [] then None else Some run_id)\<rparr>])),
       si_event := True\<rparr>"

definition signal_waiters :: "string \<Rightarrow> string \<Rightarrow> steer_inbox \<Rightarrow> steer_inbox" where
  "signal_waiters reason run_id b = signal_locked reason run_id b"

definition consume_wait_signal :: "steer_inbox \<Rightarrow> wake_signal option \<times> steer_inbox" where
  "consume_wait_signal b =
     (case si_signals b of
        [] \<Rightarrow> (None, b\<lparr>si_event := False\<rparr>)
      | s # ss \<Rightarrow> (Some s, b\<lparr>si_signals := ss, si_event := (if ss = [] then False else si_event b)\<rparr>))"

definition consume_wait_signals :: "steer_inbox \<Rightarrow> wake_signal list \<times> steer_inbox" where
  "consume_wait_signals b =
     (if si_signals b = [] then ([], b\<lparr>si_event := False\<rparr>)
      else (si_signals b, b\<lparr>si_signals := [], si_event := False\<rparr>))"

text \<open>The messages after \<open>append\<close> or \<open>extendleft\<close>, cut to the bound.\<close>

definition keep_newest :: "string list \<Rightarrow> steer_inbox \<Rightarrow> steer_inbox" where
  "keep_newest messages b =
     (let (kept, n) = pop_excess MAX_PENDING_STEER_MESSAGES messages in
      b\<lparr>si_messages := kept, si_dropped := si_dropped b + n\<rparr>)"

definition steer_send :: "string \<Rightarrow> steer_inbox \<Rightarrow> string \<times> steer_inbox" where
  "steer_send message b =
     (let normalized = normalize_steer_message message in
      if normalized = [] then ([], b)
      else (normalized,
            signal_locked ''parent_steer'' [] (keep_newest (si_messages b @ [normalized]) b)))"

definition clean_messages :: "string list \<Rightarrow> string list" where
  "clean_messages messages = filter (\<lambda>clean. clean \<noteq> []) (map normalize_steer_message messages)"

definition restore_front :: "string list \<Rightarrow> steer_inbox \<Rightarrow> steer_inbox" where
  "restore_front messages b =
     (let normalized = clean_messages messages in
      if normalized = [] then b
      else signal_locked ''parent_steer'' [] (keep_newest (normalized @ si_messages b) b))"

definition steer_drain :: "steer_inbox \<Rightarrow> string list \<times> steer_inbox" where
  "steer_drain b =
     (if si_messages b = [] then ([], b)
      else (let signals = filter (\<lambda>s. sig_reason s \<noteq> ''parent_steer'') (si_signals b) in
            (si_messages b,
             b\<lparr>si_messages := [], si_signals := signals,
               si_event := (if signals = [] then False else si_event b)\<rparr>)))"

definition pending_count :: "steer_inbox \<Rightarrow> nat" where
  "pending_count b = length (si_messages b)"

definition dropped_count :: "steer_inbox \<Rightarrow> nat" where
  "dropped_count b = si_dropped b"

section \<open>Using the inboxes\<close>

definition signal_dict :: "wake_signal \<Rightarrow> pyval" where
  "signal_dict s = PDict
     ((KStr ''reason'', PStr (if sig_reason s = [] then ''parent_wake'' else sig_reason s)) #
      (case sig_run_id s of None \<Rightarrow> [] | Some r \<Rightarrow> if r = [] then [] else [(KStr ''run_id'', PStr r)]))"

definition wait_signal_digest :: "wake_signal list \<Rightarrow> (pykey \<times> pyval) list" where
  "wait_signal_digest signals =
     (case signals of
        [] \<Rightarrow> []
      | s # ss \<Rightarrow>
          [(KStr ''wake_reason'', dget (items_of (signal_dict s)) ''reason''),
           (KStr ''wake_reasons'', PList (map signal_dict signals))] @
          (if dhas (items_of (signal_dict s)) ''run_id''
           then [(KStr ''wake_run_id'', dget (items_of (signal_dict s)) ''run_id'')] else []))"

text \<open>
  The inbox attached to a session: \<open>existing\<close> is the session's attribute, \<open>writable\<close> whether it can be
  set. The result and the attribute afterwards.
\<close>

definition steer_inbox_for ::
    "steer_inbox option \<Rightarrow> bool \<Rightarrow> bool \<Rightarrow> steer_inbox option \<times> steer_inbox option" where
  "steer_inbox_for existing create writable =
     (case existing of
        Some b \<Rightarrow> (Some b, existing)
      | None \<Rightarrow> if \<not> create then (None, None)
                else if writable then (Some new_inbox, Some new_inbox) else (None, None))"

definition ops_inbox_for ::
    "'op list option \<Rightarrow> bool \<Rightarrow> bool \<Rightarrow> 'op list option \<times> 'op list option" where
  "ops_inbox_for existing create writable =
     (case existing of
        Some b \<Rightarrow> (Some b, existing)
      | None \<Rightarrow> if \<not> create then (None, None)
                else if writable then (Some [], Some []) else (None, None))"

definition steer_history_message :: "string \<Rightarrow> pyval" where
  "steer_history_message message = PDict
     [(KStr ''role'', PStr ''user''),
      (KStr ''content'', PStr (''[Mid-turn message from the user] '' @ message))]"

definition build_steer_messages :: "string list \<Rightarrow> pyval list" where
  "build_steer_messages messages =
     map (\<lambda>m. steer_history_message (py_strip m)) (filter (\<lambda>m. py_strip m \<noteq> []) messages)"

section \<open>Bounded lists\<close>

lemma pop_excess_drop: "pop_excess bound xs = (drop (length xs - bound) xs, length xs - bound)"
  by (induction xs) (auto simp: Suc_diff_le)

lemma length_keep_newest [simp]: "length (si_messages (keep_newest ms b)) = min (length ms) MAX_PENDING_STEER_MESSAGES"
  by (simp add: keep_newest_def pop_excess_drop)

lemma keep_newest_fits: "length ms \<le> MAX_PENDING_STEER_MESSAGES \<Longrightarrow> keep_newest ms b = b\<lparr>si_messages := ms\<rparr>"
  by (simp add: keep_newest_def pop_excess_drop)

lemma keep_newest_suffix: "si_messages (keep_newest ms b) = drop (length ms - MAX_PENDING_STEER_MESSAGES) ms"
  by (simp add: keep_newest_def pop_excess_drop)

lemma keep_newest_count:
  "length (si_messages (keep_newest ms b)) + si_dropped (keep_newest ms b) = length ms + si_dropped b"
  by (auto simp: keep_newest_def pop_excess_drop)

lemma signal_locked_frame [simp]:
  "si_messages (signal_locked r i b) = si_messages b" "si_dropped (signal_locked r i b) = si_dropped b"
  "si_event (signal_locked r i b)"
  by (simp_all add: signal_locked_def)

lemma signal_locked_signals [simp]:
  "si_signals (signal_locked r i b) \<noteq> []" "length (si_signals (signal_locked r i b)) \<le> 16"
  by (auto simp: signal_locked_def pop_excess_drop MAX_PENDING_STEER_MESSAGES_def)

section \<open>Normal messages\<close>

lemma length_py_rstrip': "length (py_rstrip s) \<le> length s"
  by (simp add: py_rstrip_def) (metis length_dropWhile_le length_rev)

definition steer_normal :: "string \<Rightarrow> bool" where
  "steer_normal m \<longleftrightarrow> m \<noteq> [] \<and> py_strip m = m \<and> length m \<le> MAX_STEER_MESSAGE_CHARS"

lemma normal_unchanged: "steer_normal m \<Longrightarrow> normalize_steer_message m = m"
  by (simp add: steer_normal_def normalize_steer_message_def Let_def)

lemma normalize_normal:
  assumes "normalize_steer_message m \<noteq> []"
  shows "steer_normal (normalize_steer_message m)"
proof (cases "length (py_strip m) > MAX_STEER_MESSAGE_CHARS")
  case False
  with assms show ?thesis by (auto simp: steer_normal_def normalize_steer_message_def Let_def split: if_splits)
next
  case True
  then obtain c cs where s: "py_strip m = c # cs" by (cases "py_strip m") auto
  have c: "\<not> py_is_space c" using s by (rule py_strip_first)
  let ?p = "c # py_rstrip (take 3987 cs)"
  have "normalize_steer_message m = ?p @ TRUNCATION_MARKER"
    using True s py_rstrip_Cons [OF c, of "take 3987 cs"]
    by (simp add: normalize_steer_message_def Let_def MAX_STEER_MESSAGE_CHARS_def TRUNCATION_MARKER_def)
  moreover have "py_strip (?p @ TRUNCATION_MARKER) = ?p @ TRUNCATION_MARKER"
    by (rule strip_ends_id) (use c in \<open>simp_all add: TRUNCATION_MARKER_def py_is_space_def code_def\<close>)
  moreover have "length (?p @ TRUNCATION_MARKER) \<le> MAX_STEER_MESSAGE_CHARS"
    using length_py_rstrip' [of "take 3987 cs"]
    by (simp add: TRUNCATION_MARKER_def MAX_STEER_MESSAGE_CHARS_def)
  ultimately show ?thesis by (simp add: steer_normal_def)
qed

lemma clean_messages_normal: "list_all steer_normal (clean_messages ms)"
  using normalize_normal by (auto simp: clean_messages_def list_all_iff)

lemma clean_messages_id: "list_all steer_normal ms \<Longrightarrow> clean_messages ms = ms"
  by (induction ms) (auto simp: clean_messages_def normal_unchanged, auto simp: steer_normal_def)

lemma steer_send_clean:
  "steer_send m b =
     (case clean_messages [m] of
        [] \<Rightarrow> ([], b)
      | _ \<Rightarrow> (normalize_steer_message m,
               signal_locked ''parent_steer'' [] (keep_newest (si_messages b @ clean_messages [m]) b)))"
  by (simp add: steer_send_def clean_messages_def Let_def)

section \<open>Delivery\<close>

datatype touch_op = SignalWaiters string string | ConsumeSignal | ConsumeSignals

fun steer_touch :: "touch_op \<Rightarrow> steer_inbox \<Rightarrow> steer_inbox" where
  "steer_touch (SignalWaiters reason run_id) b = signal_waiters reason run_id b"
| "steer_touch ConsumeSignal b = snd (consume_wait_signal b)"
| "steer_touch ConsumeSignals b = snd (consume_wait_signals b)"

lemma steer_touch_frame [simp]:
  "si_messages (steer_touch x b) = si_messages b" "si_dropped (steer_touch x b) = si_dropped b"
  by (cases x; simp add: signal_waiters_def consume_wait_signal_def consume_wait_signals_def split: list.split)+

lemma length_clean_one: "length (clean_messages [m]) \<le> 1"
  by (simp add: clean_messages_def)

lemma subseq_drop: "subseq (drop n xs) xs"
  by (metis append_take_drop_id list_emb_append2 subseq_order.refl)

lemma steer_send_messages:
  "si_messages (snd (steer_send m b)) =
     (if clean_messages [m] = [] then si_messages b
      else drop (length (si_messages b) + 1 - MAX_PENDING_STEER_MESSAGES) (si_messages b @ clean_messages [m]))"
  using length_clean_one [of m]
  by (auto simp: steer_send_clean keep_newest_suffix neq_Nil_conv split: list.split)

interpretation steer: mailbox "\<lambda>m b. snd (steer_send m b)" steer_drain steer_touch si_messages
    "\<lambda>m. clean_messages [m]" MAX_PENDING_STEER_MESSAGES
proof unfold_locales
  fix m b
  show "subseq (si_messages (snd (steer_send m b))) (si_messages b @ clean_messages [m])"
    by (simp add: steer_send_messages subseq_drop del: drop_append)
  show "length (si_messages b) + length (clean_messages [m]) \<le> MAX_PENDING_STEER_MESSAGES \<Longrightarrow>
      si_messages (snd (steer_send m b)) = si_messages b @ clean_messages [m]"
    by (cases "clean_messages [m]") (auto simp: steer_send_messages)
qed (simp_all add: steer_drain_def Let_def)

interpretation opsbox: mailbox "\<lambda>m b. snd (ops_send m b)" ops_drain "\<lambda>_ b. b" "\<lambda>b. b" "\<lambda>m. [m]"
    MAX_PENDING_OPS
  by unfold_locales (auto simp: ops_send_def ops_drain_def)

text \<open>
  C24. Mid-turn messages reach the turn in the order the user sent them, each at most once and none
  that was not sent: over any sequence of sends, drains and wake-up calls on a new inbox, what was
  drained followed by what is pending is a subsequence of the non-blank messages sent, as they were
  trimmed, and all of them if never more than sixteen are pending. The same holds of the operations
  inbox, which refuses what does not fit.
\<close>

theorem steering_delivers_in_order:
  fixes ops :: "(string, touch_op) box_op list" and ops' :: "('op, 'x) box_op list"
  defines "r \<equiv> exchange (\<lambda>m b. snd (steer_send m b)) steer_drain steer_touch ops new_inbox"
    and "r' \<equiv> exchange (\<lambda>m b. snd (ops_send m b)) ops_drain (\<lambda>_ b. b) ops' []"
  shows "subseq (fst r @ si_messages (snd r)) (put_in (\<lambda>m. clean_messages [m]) ops) \<and>
    (fits (\<lambda>m. clean_messages [m]) 16 0 ops \<longrightarrow>
       fst r @ si_messages (snd r) = put_in (\<lambda>m. clean_messages [m]) ops) \<and>
    subseq (fst r' @ snd r') (put_in (\<lambda>m. [m]) ops') \<and>
    (fits (\<lambda>m. [m]) 16 0 ops' \<longrightarrow> fst r' @ snd r' = put_in (\<lambda>m. [m]) ops')"
  using steer.delivered_in_order [of ops new_inbox] steer.delivered_exactly [of new_inbox ops]
    opsbox.delivered_in_order [of ops' "[]"] opsbox.delivered_exactly [of "[]" ops']
  by (simp add: r_def r'_def new_inbox_def MAX_PENDING_STEER_MESSAGES_def MAX_PENDING_OPS_def)

theorem steering_delivers_in_order_witness:
  "fst (exchange (\<lambda>m b. snd (steer_send m b)) steer_drain steer_touch
      [Put ''a'', Put ''  '', Touch ConsumeSignal, Put '' b'', Take] new_inbox) = [''a'', ''b'']"
proof -
  have m: "clean_messages [''a''] = [''a'']" "clean_messages [''  ''] = []" "clean_messages ['' b''] = [''b'']"
    by code_simp+
  let ?ops = "[Put ''a'', Put ''  '', Touch ConsumeSignal, Put '' b'', Take]"
  let ?r = "exchange (\<lambda>m b. snd (steer_send m b)) steer_drain steer_touch ?ops new_inbox"
  have "si_messages (snd ?r) = []" by (simp add: split_beta Let_def steer.take_all_empty)
  moreover have "fst ?r @ si_messages (snd ?r) = [''a'', ''b'']"
    using steering_delivers_in_order [where ops = ?ops and ops' = "[]"] m by simp
  ultimately show ?thesis by simp
qed

section \<open>The inbox in every use\<close>

datatype steer_op = SteerSend string | SteerDrain | RestoreFront "string list" | SteerTouch touch_op

fun steer_step :: "steer_op \<Rightarrow> steer_inbox \<Rightarrow> steer_inbox" where
  "steer_step (SteerSend m) b = snd (steer_send m b)"
| "steer_step SteerDrain b = snd (steer_drain b)"
| "steer_step (RestoreFront ms) b = restore_front ms b"
| "steer_step (SteerTouch x) b = steer_touch x b"

fun delivered :: "steer_op list \<Rightarrow> steer_inbox \<Rightarrow> string list" where
  "delivered [] b = []"
| "delivered (x # xs) b =
     (case x of SteerDrain \<Rightarrow> fst (steer_drain b) | _ \<Rightarrow> []) @ delivered xs (steer_step x b)"

fun entered :: "steer_op list \<Rightarrow> string list" where
  "entered [] = []"
| "entered (x # xs) =
     (case x of SteerSend m \<Rightarrow> clean_messages [m] | RestoreFront ms \<Rightarrow> clean_messages ms | _ \<Rightarrow> []) @
     entered xs"

definition consumes :: "steer_op \<Rightarrow> bool" where
  "consumes x = (x = SteerTouch ConsumeSignal \<or> x = SteerTouch ConsumeSignals)"

definition inbox_ok :: "steer_inbox \<Rightarrow> bool" where
  "inbox_ok b \<longleftrightarrow>
     length (si_messages b) \<le> 16 \<and> list_all steer_normal (si_messages b) \<and>
     length (si_signals b) \<le> 16 \<and> (si_event b \<longleftrightarrow> si_signals b \<noteq> [])"

lemma restore_front_messages:
  "si_messages (restore_front ms b) =
     (if clean_messages ms = [] then si_messages b
      else si_messages (keep_newest (clean_messages ms @ si_messages b) b))"
  by (simp add: restore_front_def Let_def)

lemma normal_drop: "list_all steer_normal xs \<Longrightarrow> list_all steer_normal (drop n xs)"
  by (auto simp: list_all_iff dest: in_set_dropD)

lemma ok_signalled:
  assumes "list_all steer_normal ms"
  shows "inbox_ok (signal_locked r i (keep_newest ms b))"
  using assms
  by (simp add: inbox_ok_def keep_newest_suffix normal_drop MAX_PENDING_STEER_MESSAGES_def)

lemma steer_step_ok: "inbox_ok b \<Longrightarrow> inbox_ok (steer_step x b)"
proof (induction x)
  case (SteerSend m)
  then show ?case
    by (cases "clean_messages [m]")
      (use clean_messages_normal [of "[m]"] in \<open>auto simp: steer_send_clean inbox_ok_def [of b] intro!: ok_signalled\<close>)
next
  case SteerDrain
  then show ?case
    by (auto simp: steer_drain_def inbox_ok_def Let_def intro: le_trans [OF length_filter_le])
next
  case (RestoreFront ms)
  then show ?case
    by (cases "clean_messages ms = []")
      (use clean_messages_normal [of ms] in \<open>auto simp: restore_front_def Let_def inbox_ok_def [of b] intro!: ok_signalled\<close>)
next
  case (SteerTouch t)
  then show ?case
    by (cases t) (auto simp: inbox_ok_def signal_waiters_def consume_wait_signal_def consume_wait_signals_def
        split: list.split)
qed

interpretation stm: safe_machine steer_step "\<lambda>_. True" inbox_ok
  by unfold_locales (rule steer_step_ok)

lemma steer_step_count:
  "length (case x of SteerDrain \<Rightarrow> fst (steer_drain b) | _ \<Rightarrow> []) + length (si_messages (steer_step x b)) +
     si_dropped (steer_step x b) =
   length (case x of SteerSend m \<Rightarrow> clean_messages [m] | RestoreFront ms \<Rightarrow> clean_messages ms | _ \<Rightarrow> []) +
     length (si_messages b) + si_dropped b"
proof (cases x)
  case (SteerSend m)
  then show ?thesis
    using keep_newest_count [of "si_messages b @ clean_messages [m]" b] length_clean_one [of m]
    by (cases "clean_messages [m]") (auto simp: steer_send_clean)
next
  case (RestoreFront ms)
  then show ?thesis
    using keep_newest_count [of "clean_messages ms @ si_messages b" b]
    by (simp add: restore_front_def Let_def)
qed (simp_all add: steer_drain_def Let_def)

lemma steer_run_count:
  "length (delivered xs b) + length (si_messages (run steer_step xs b)) + si_dropped (run steer_step xs b) =
     length (entered xs) + length (si_messages b) + si_dropped b"
proof (induction xs arbitrary: b)
  case (Cons x xs)
  show ?case
    using Cons.IH [of "steer_step x b"] steer_step_count [of b x]
    unfolding delivered.simps entered.simps run.simps length_append by linarith
qed simp

lemma steer_step_event:
  "\<not> consumes x \<Longrightarrow> (si_messages b \<noteq> [] \<longrightarrow> si_event b) \<Longrightarrow>
     si_messages (steer_step x b) \<noteq> [] \<longrightarrow> si_event (steer_step x b)"
proof (induction x)
  case (SteerSend m)
  then show ?case by (cases "clean_messages [m]") (auto simp: steer_send_clean)
next
  case (SteerTouch t)
  then show ?case by (cases t) (auto simp: consumes_def signal_waiters_def)
qed (auto simp: steer_drain_def restore_front_def Let_def)

lemma steer_run_event:
  "\<not> list_ex consumes xs \<Longrightarrow> (si_messages b \<noteq> [] \<longrightarrow> si_event b) \<Longrightarrow>
     si_messages (run steer_step xs b) \<noteq> [] \<longrightarrow> si_event (run steer_step xs b)"
proof (induction xs arbitrary: b)
  case (Cons x xs)
  then show ?case using steer_step_event [of x b] by simp
qed simp

text \<open>
  The steering inbox stays bounded and loses no wake-up: after any operations on a new inbox at most
  sixteen messages and sixteen wake reasons are pending, every pending message is trimmed, not blank
  and at most 4000 characters long, the event is set exactly while a reason is pending, and it is set
  while a message is pending unless a reason was consumed. Every message that entered, by sending or
  by restoring, was delivered, is pending or was counted as dropped.
\<close>

theorem steer_inbox_invariant:
  fixes ops :: "steer_op list"
  defines "b \<equiv> run steer_step ops new_inbox"
  shows "pending_count b \<le> 16 \<and> length (si_signals b) \<le> 16 \<and>
    list_all (\<lambda>m. m \<noteq> [] \<and> py_strip m = m \<and> length m \<le> 4000) (si_messages b) \<and>
    (si_event b \<longleftrightarrow> si_signals b \<noteq> []) \<and>
    (\<not> list_ex consumes ops \<and> si_messages b \<noteq> [] \<longrightarrow> si_event b) \<and>
    length (entered ops) = length (delivered ops new_inbox) + pending_count b + dropped_count b"
proof -
  have "inbox_ok new_inbox" by (simp add: inbox_ok_def new_inbox_def)
  then have ok: "inbox_ok b" using stm.run_inv [of ops] by (simp add: b_def list_all_iff)
  have "list_all (\<lambda>m. m \<noteq> [] \<and> py_strip m = m \<and> length m \<le> 4000) (si_messages b)"
    using ok by (simp add: inbox_ok_def steer_normal_def MAX_STEER_MESSAGE_CHARS_def cong: list.pred_cong)
  moreover have "length (entered ops) = length (delivered ops new_inbox) + pending_count b + dropped_count b"
    using steer_run_count [of ops new_inbox]
    by (simp add: b_def pending_count_def dropped_count_def) (simp add: new_inbox_def)
  moreover have "\<not> list_ex consumes ops \<Longrightarrow> si_messages b \<noteq> [] \<Longrightarrow> si_event b"
    using steer_run_event [of ops new_inbox] by (simp add: b_def) (simp add: new_inbox_def)
  ultimately show ?thesis using ok by (auto simp: inbox_ok_def pending_count_def)
qed

theorem steer_inbox_invariant_witness:
  "si_event (run steer_step [SteerSend '' stop '', SteerDrain, RestoreFront [''stop'']] new_inbox)"
proof -
  let ?ops = "[SteerSend '' stop '', SteerDrain, RestoreFront [''stop'']]"
  have "\<not> list_ex consumes ?ops" by (simp add: consumes_def)
  moreover have "si_messages (run steer_step ?ops new_inbox) \<noteq> []" by code_simp
  ultimately show ?thesis using steer_inbox_invariant [of ?ops] by blast
qed

text \<open>
  A turn that took messages and could not use them gives them back unharmed: restoring what was just
  drained puts those texts, unchanged, in front of the messages that arrived meanwhile, drops none
  while all of them fit, and wakes the parent again.
\<close>

theorem restore_undoes_drain:
  assumes "inbox_ok b" and "si_messages b \<noteq> []"
    and "length (si_messages b) + length (si_messages c) \<le> 16"
  shows "si_messages (restore_front (fst (steer_drain b)) c) = si_messages b @ si_messages c \<and>
    dropped_count (restore_front (fst (steer_drain b)) c) = dropped_count c \<and>
    si_event (restore_front (fst (steer_drain b)) c)"
proof -
  have "fst (steer_drain b) = si_messages b" by (rule steer.take_all_out)
  moreover have "clean_messages (si_messages b) = si_messages b"
    using assms(1) by (intro clean_messages_id) (simp add: inbox_ok_def)
  ultimately show ?thesis
    using assms(2,3)
    by (simp add: restore_front_def Let_def dropped_count_def keep_newest_fits MAX_PENDING_STEER_MESSAGES_def)
qed

theorem restore_undoes_drain_witness:
  "si_messages (restore_front (fst (steer_drain (snd (steer_send ''old'' new_inbox))))
     (snd (steer_send ''new'' new_inbox))) = [''old'', ''new'']"
proof -
  let ?b = "snd (steer_send ''old'' new_inbox)" and ?c = "snd (steer_send ''new'' new_inbox)"
  have "inbox_ok (steer_step (SteerSend ''old'') new_inbox)"
    by (intro steer_step_ok) (simp add: inbox_ok_def new_inbox_def)
  then have "inbox_ok ?b" by simp
  moreover have "si_messages ?b = [''old'']" "si_messages ?c = [''new'']" by code_simp+
  ultimately show ?thesis using restore_undoes_drain [of ?b ?c] by simp
qed

end
