(* ===== verification/BudgetPolicy.thy ===== *)
theory BudgetPolicy
  imports PyValue
begin

text \<open>
  The run budget: defaults and environment overrides, what counts as a clean stop, the cancellation
  token, the watchdog timer and the one-shot progress checkpoint, \<open>budget_policy.py\<close>.

  A float is an exact rational, an infinity or not a number. \<open>float_of\<close> is the built-in conversion
  \<open>float(text)\<close>, \<open>None\<close> where it raises; the results here hold for whatever it returns. The environment is
  a map from names to texts.
\<close>

datatype float_value = Fin rat | PosInf | NegInf | NaN

fun is_finite :: "float_value \<Rightarrow> bool" where
  "is_finite (Fin q) = True"
| "is_finite v = False"

definition DEFAULT_RUN_BUDGET_SECONDS :: rat where "DEFAULT_RUN_BUDGET_SECONDS = 3600"
definition DEFAULT_BUDGET_GRACE_SECONDS :: rat where "DEFAULT_BUDGET_GRACE_SECONDS = 60"
definition DEFAULT_BUDGET_CHECKPOINT_FRACTION :: rat where
  "DEFAULT_BUDGET_CHECKPOINT_FRACTION = 33 / 100"

definition STOP_REASON_RUN_BUDGET_EXHAUSTED :: string where
  "STOP_REASON_RUN_BUDGET_EXHAUSTED = ''run_budget_exhausted''"

definition CLEAN_STOP_REASONS :: "string list" where
  "CLEAN_STOP_REASONS = [STOP_REASON_RUN_BUDGET_EXHAUSTED, ''empty_response_anomaly_retry_exhausted'']"

definition NORMAL_COMPLETION_REASONS :: "string list" where
  "NORMAL_COMPLETION_REASONS = ['''', ''completed'', ''session_close'']"

definition GRACEFUL_STOP_REASONS :: "string list" where
  "GRACEFUL_STOP_REASONS = NORMAL_COMPLETION_REASONS @ CLEAN_STOP_REASONS"

section \<open>Environment\<close>

definition env_value :: "(string \<rightharpoonup> string) \<Rightarrow> string \<Rightarrow> string option" where
  "env_value environ name =
     (let raw = (case environ name of
          Some v \<Rightarrow> Some v
        | None \<Rightarrow> if py_startswith name ''ALYSIS_''
                  then environ (''SYLLIPTOR_'' @ drop (length ''ALYSIS_'') name) else None)
      in case raw of
           None \<Rightarrow> None
         | Some v \<Rightarrow> if py_strip v = [] then None else Some (py_strip v))"

definition positive_float :: "(string \<Rightarrow> float_value option) \<Rightarrow> string option \<Rightarrow> rat \<Rightarrow> rat" where
  "positive_float float_of raw fallback =
     (case raw of
        None \<Rightarrow> fallback
      | Some text \<Rightarrow> (case float_of text of Some (Fin v) \<Rightarrow> if v \<le> 0 then fallback else v | _ \<Rightarrow> fallback))"

definition non_negative_float :: "(string \<Rightarrow> float_value option) \<Rightarrow> string option \<Rightarrow> rat \<Rightarrow> rat" where
  "non_negative_float float_of raw fallback =
     (case raw of
        None \<Rightarrow> fallback
      | Some text \<Rightarrow> (case float_of text of Some (Fin v) \<Rightarrow> if v < 0 then fallback else v | _ \<Rightarrow> fallback))"

definition resolve_run_budget_seconds ::
    "(string \<Rightarrow> float_value option) \<Rightarrow> (string \<rightharpoonup> string) \<Rightarrow> rat" where
  "resolve_run_budget_seconds float_of environ =
     positive_float float_of (env_value environ ''ALYSIS_RUN_BUDGET_SECONDS'') DEFAULT_RUN_BUDGET_SECONDS"

definition resolve_budget_grace_seconds ::
    "(string \<Rightarrow> float_value option) \<Rightarrow> (string \<rightharpoonup> string) \<Rightarrow> rat" where
  "resolve_budget_grace_seconds float_of environ =
     non_negative_float float_of (env_value environ ''ALYSIS_BUDGET_GRACE_SECONDS'')
       DEFAULT_BUDGET_GRACE_SECONDS"

definition resolve_checkpoint_fraction ::
    "(string \<Rightarrow> float_value option) \<Rightarrow> (string \<rightharpoonup> string) \<Rightarrow> rat" where
  "resolve_checkpoint_fraction float_of environ =
     (let v = positive_float float_of (env_value environ ''ALYSIS_BUDGET_CHECKPOINT_FRACTION'')
                DEFAULT_BUDGET_CHECKPOINT_FRACTION
      in if v > 1 then DEFAULT_BUDGET_CHECKPOINT_FRACTION else v)"

section \<open>Stop reasons\<close>

definition normal_reason :: "string option \<Rightarrow> string" where
  "normal_reason stop_reason = py_lower (py_strip (case stop_reason of None \<Rightarrow> [] | Some r \<Rightarrow> r))"

definition exit_code_for_stop :: "string option \<Rightarrow> int \<Rightarrow> int" where
  "exit_code_for_stop stop_reason failure_exit_code =
     (if normal_reason stop_reason \<in> set GRACEFUL_STOP_REASONS then 0 else failure_exit_code)"

definition is_clean_stop :: "string option \<Rightarrow> bool" where
  "is_clean_stop stop_reason = (normal_reason stop_reason \<in> set CLEAN_STOP_REASONS)"

definition is_budget_stop :: "string option \<Rightarrow> bool" where
  "is_budget_stop stop_reason = (normal_reason stop_reason = STOP_REASON_RUN_BUDGET_EXHAUSTED)"

text \<open>A cancellation token: the shared event and the reason it was made with, a blank one defaulted.\<close>

definition token_reason :: "string \<Rightarrow> string" where
  "token_reason reason = (if reason = [] then STOP_REASON_RUN_BUDGET_EXHAUSTED else reason)"

text \<open>The error's reason, or nothing; the caller's own reason is ignored.\<close>

definition throw_if_cancelled :: "string \<Rightarrow> bool \<Rightarrow> string option \<Rightarrow> string + unit" where
  "throw_if_cancelled reason event caller_reason =
     (if event then Inl (token_reason reason) else Inr ())"

section \<open>The progress checkpoint\<close>

record checkpoint =
  cp_fraction :: rat
  cp_fired :: bool

definition new_checkpoint ::
    "(string \<Rightarrow> float_value option) \<Rightarrow> (string \<rightharpoonup> string) \<Rightarrow> rat option \<Rightarrow> checkpoint" where
  "new_checkpoint float_of environ fraction =
     \<lparr>cp_fraction = (case fraction of None \<Rightarrow> resolve_checkpoint_fraction float_of environ | Some f \<Rightarrow> f),
      cp_fired = False\<rparr>"

text \<open>The arguments: the elapsed fraction, the edits and the verification attempts.\<close>

type_synonym progress = "float_value option \<times> int \<times> int"

definition no_progress_at :: "rat \<Rightarrow> progress \<Rightarrow> bool" where
  "no_progress_at fraction p =
     (case p of (elapsed, edits, attempts) \<Rightarrow>
        (case elapsed of Some (Fin v) \<Rightarrow> \<not> v < fraction | _ \<Rightarrow> False) \<and> \<not> edits > 0 \<and> \<not> attempts > 0)"

definition check :: "progress \<Rightarrow> checkpoint \<Rightarrow> bool \<times> checkpoint" where
  "check p c =
     (if cp_fired c then (False, c)
      else if no_progress_at (cp_fraction c) p then (True, c\<lparr>cp_fired := True\<rparr>)
      else (False, c))"

fun check_all :: "progress list \<Rightarrow> checkpoint \<Rightarrow> bool list" where
  "check_all [] c = []"
| "check_all (p # ps) c = (let (r, c') = check p c in r # check_all ps c')"

section \<open>The watchdog\<close>

text \<open>
  \<open>threading.Timer\<close> waits for its interval and then, unless it was cancelled, calls the function; a
  cancellation after that test comes too late. Arming and the two halves of disarming (taking the
  timer under the lock, cancelling it outside) are separate steps of the calling threads, and expiry
  and firing are steps of the timer threads; time passes in between.
\<close>

datatype timer_phase = Waiting | Firing | Fired | Cancelled

record timer =
  tm_armed_at :: rat
  tm_deadline :: rat
  tm_phase :: timer_phase

record watchdog =
  wd_budget :: rat
  wd_grace :: rat
  wd_now :: rat
  wd_timer :: "nat option"
  wd_timers :: "timer list"
  wd_cancelling :: "nat list"
  wd_event :: bool
  wd_callbacks :: nat

definition new_watchdog :: "rat \<Rightarrow> rat \<Rightarrow> rat \<Rightarrow> watchdog" where
  "new_watchdog budget grace now =
     \<lparr>wd_budget = max 0 budget, wd_grace = max 0 grace, wd_now = now, wd_timer = None, wd_timers = [],
      wd_cancelling = [], wd_event = False, wd_callbacks = 0\<rparr>"

definition fire_delay_seconds :: "watchdog \<Rightarrow> rat" where
  "fire_delay_seconds w = wd_budget w + wd_grace w"

definition arm :: "watchdog \<Rightarrow> watchdog" where
  "arm w =
     (case wd_timer w of
        Some _ \<Rightarrow> w
      | None \<Rightarrow>
          w\<lparr>wd_timer := Some (length (wd_timers w)),
            wd_timers := wd_timers w @
              [\<lparr>tm_armed_at = wd_now w, tm_deadline = wd_now w + fire_delay_seconds w,
                tm_phase = Waiting\<rparr>]\<rparr>)"

definition disarm_take :: "watchdog \<Rightarrow> watchdog" where
  "disarm_take w =
     (case wd_timer w of
        None \<Rightarrow> w
      | Some k \<Rightarrow> w\<lparr>wd_timer := None, wd_cancelling := wd_cancelling w @ [k]\<rparr>)"

definition set_phase :: "nat \<Rightarrow> timer_phase \<Rightarrow> watchdog \<Rightarrow> watchdog" where
  "set_phase k ph w = w\<lparr>wd_timers := (wd_timers w)[k := (wd_timers w ! k)\<lparr>tm_phase := ph\<rparr>]\<rparr>"

definition timer_cancel :: "nat \<Rightarrow> watchdog \<Rightarrow> watchdog" where
  "timer_cancel k w =
     (let w' = w\<lparr>wd_cancelling := remove1 k (wd_cancelling w)\<rparr> in
      if tm_phase (wd_timers w ! k) = Waiting then set_phase k Cancelled w' else w')"

text \<open>\<open>_fire\<close>: the event is set, then the callback runs; an error in it is swallowed.\<close>

definition fire :: "nat \<Rightarrow> watchdog \<Rightarrow> watchdog" where
  "fire k w = (set_phase k Fired w)\<lparr>wd_event := True, wd_callbacks := wd_callbacks w + 1\<rparr>"

datatype wd_label = Tick rat | Arm | DisarmTake | Cancel nat | Expire nat | Fire nat

inductive wd_step :: "watchdog \<Rightarrow> wd_label \<Rightarrow> watchdog \<Rightarrow> bool" where
  tick: "0 \<le> d \<Longrightarrow> wd_step w (Tick d) (w\<lparr>wd_now := wd_now w + d\<rparr>)"
| arm: "wd_step w Arm (arm w)"
| disarm: "wd_step w DisarmTake (disarm_take w)"
| cancel: "k \<in> set (wd_cancelling w) \<Longrightarrow> wd_step w (Cancel k) (timer_cancel k w)"
| expire: "k < length (wd_timers w) \<Longrightarrow> tm_phase (wd_timers w ! k) = Waiting \<Longrightarrow>
    tm_deadline (wd_timers w ! k) \<le> wd_now w \<Longrightarrow> wd_step w (Expire k) (set_phase k Firing w)"
| fire: "k < length (wd_timers w) \<Longrightarrow> tm_phase (wd_timers w ! k) = Firing \<Longrightarrow>
    wd_step w (Fire k) (fire k w)"

inductive_cases wd_stepE [elim!]:
  "wd_step w (Tick d) w'" "wd_step w Arm w'" "wd_step w DisarmTake w'" "wd_step w (Cancel k) w'"
  "wd_step w (Expire k) w'" "wd_step w (Fire k) w'"

inductive wd_trace :: "watchdog \<Rightarrow> wd_label list \<Rightarrow> watchdog \<Rightarrow> bool" where
  nil: "wd_trace w [] w"
| snoc: "wd_trace w ls w' \<Longrightarrow> wd_step w' l w'' \<Longrightarrow> wd_trace w (ls @ [l]) w''"

section \<open>Budgets are usable\<close>

text \<open>
  A misconfigured environment never disables the budget: whatever the variables hold and however
  their text converts, the run budget is a positive finite number of seconds, the grace is finite and
  not negative, and the checkpoint lies strictly after the start and not after the end of the budget.
  A stop because of the budget is a clean stop, and every clean stop and every ordinary completion
  exits with zero; any other reason keeps the caller's exit code. A cancelled token names the budget as
  the reason unless it was made with another, never the reason its caller gives.
\<close>

theorem budget_settings_usable:
  "0 < resolve_run_budget_seconds float_of environ \<and>
   0 \<le> resolve_budget_grace_seconds float_of environ \<and>
   0 < resolve_checkpoint_fraction float_of environ \<and> resolve_checkpoint_fraction float_of environ \<le> 1 \<and>
   (is_budget_stop r \<longrightarrow> is_clean_stop r) \<and>
   (is_clean_stop r \<longrightarrow> exit_code_for_stop r failure = 0) \<and>
   (exit_code_for_stop r failure \<noteq> 0 \<longrightarrow> exit_code_for_stop r failure = failure \<and> \<not> is_clean_stop r) \<and>
   throw_if_cancelled [] True c = Inl STOP_REASON_RUN_BUDGET_EXHAUSTED \<and>
   is_budget_stop (Some (token_reason []))"
proof -
  have positive: "0 < positive_float float_of raw d" if "0 < d" for raw d
    using that by (auto simp: positive_float_def split: option.split float_value.split)
  have grace: "0 \<le> non_negative_float float_of raw d" if "0 \<le> d" for raw d
    using that by (auto simp: non_negative_float_def split: option.split float_value.split)
  have "normal_reason (Some STOP_REASON_RUN_BUDGET_EXHAUSTED) = STOP_REASON_RUN_BUDGET_EXHAUSTED"
    by code_simp
  then show ?thesis
    using positive grace
    by (auto simp: resolve_run_budget_seconds_def resolve_budget_grace_seconds_def
        resolve_checkpoint_fraction_def Let_def DEFAULT_RUN_BUDGET_SECONDS_def
        DEFAULT_BUDGET_GRACE_SECONDS_def DEFAULT_BUDGET_CHECKPOINT_FRACTION_def is_budget_stop_def
        is_clean_stop_def exit_code_for_stop_def GRACEFUL_STOP_REASONS_def CLEAN_STOP_REASONS_def
        throw_if_cancelled_def token_reason_def)
qed

theorem budget_settings_usable_witness:
  "exit_code_for_stop (Some ''Run_Budget_Exhausted '') 1 = 0"
proof -
  have "is_clean_stop (Some ''Run_Budget_Exhausted '')" by code_simp
  then show ?thesis
    using budget_settings_usable [of "\<lambda>_. None" "\<lambda>_. None" "Some ''Run_Budget_Exhausted ''" 1 None] by blast
qed

section \<open>The checkpoint fires once\<close>

lemma check_all_fired: "cp_fired c \<Longrightarrow> check_all ps c = replicate (length ps) False"
  by (induction ps) (simp_all add: check_def)

lemma check_all_nth:
  "\<not> cp_fired c \<Longrightarrow> i < length ps \<Longrightarrow>
     check_all ps c ! i \<longleftrightarrow>
       no_progress_at (cp_fraction c) (ps ! i) \<and> (\<forall>j<i. \<not> no_progress_at (cp_fraction c) (ps ! j))"
proof (induction ps arbitrary: i)
  case (Cons p ps)
  show ?case
  proof (cases "no_progress_at (cp_fraction c) p")
    case True
    with Cons.prems show ?thesis
      by (cases i) (auto simp: check_def check_all_fired)
  next
    case False
    with Cons show ?thesis
      by (cases i) (auto simp: check_def less_Suc_eq_0_disj)
  qed
qed simp

text \<open>
  The model is told about missing progress once and only then: over any sequence of checks on a new
  checkpoint the answer is yes exactly at the first one at which a finite elapsed fraction has reached
  the threshold while there is neither an edit nor a verification attempt, and no at every other.
\<close>

theorem checkpoint_fires_once:
  assumes "i < length ps" and "c = new_checkpoint float_of environ fraction"
  shows "check_all ps c ! i \<longleftrightarrow>
      no_progress_at (cp_fraction c) (ps ! i) \<and> (\<forall>j<i. \<not> no_progress_at (cp_fraction c) (ps ! j))"
  using assms check_all_nth by (simp add: new_checkpoint_def)

theorem checkpoint_fires_once_witness:
  "check_all [(Some (Fin (1 / 5)), 0, 0), (Some (Fin (2 / 5)), 0, 0), (Some (Fin (3 / 5)), 0, 0)]
     (new_checkpoint (\<lambda>_. None) (\<lambda>_. None) (Some (1 / 4))) ! 1"
  using checkpoint_fires_once [of 1 "[(Some (Fin (1 / 5)), 0, 0), (Some (Fin (2 / 5)), 0, 0), (Some (Fin (3 / 5)), 0, 0)]"
      "new_checkpoint (\<lambda>_. None) (\<lambda>_. None) (Some (1 / 4))" "\<lambda>_. None" "\<lambda>_. None" "Some (1 / 4)"]
  by (simp add: new_checkpoint_def no_progress_at_def)

section \<open>The watchdog in every interleaving\<close>

definition timer_ok :: "watchdog \<Rightarrow> nat \<Rightarrow> bool" where
  "timer_ok w k \<longleftrightarrow> (let t = wd_timers w ! k in
     tm_deadline t = tm_armed_at t + fire_delay_seconds w \<and> tm_armed_at t \<le> wd_now w \<and>
     (tm_phase t = Firing \<or> tm_phase t = Fired \<longrightarrow> tm_deadline t \<le> wd_now w) \<and>
     (tm_phase t = Waiting \<longrightarrow> wd_timer w = Some k \<or> k \<in> set (wd_cancelling w)))"

definition fired_timers :: "watchdog \<Rightarrow> timer list" where
  "fired_timers w = filter (\<lambda>t. tm_phase t = Fired) (wd_timers w)"

definition wd_inv :: "watchdog \<Rightarrow> bool" where
  "wd_inv w \<longleftrightarrow>
     (\<forall>k<length (wd_timers w). timer_ok w k) \<and>
     wd_callbacks w = length (fired_timers w) \<and> (wd_event w \<longleftrightarrow> fired_timers w \<noteq> []) \<and>
     distinct (wd_cancelling w) \<and> (\<forall>k\<in>set (wd_cancelling w). k < length (wd_timers w)) \<and>
     (case wd_timer w of None \<Rightarrow> True
      | Some k \<Rightarrow> k < length (wd_timers w) \<and> tm_phase (wd_timers w ! k) \<noteq> Cancelled \<and>
                k \<notin> set (wd_cancelling w))"

lemma filter_update_out:
  "k < length xs \<Longrightarrow> \<not> P (xs ! k) \<Longrightarrow> \<not> P y \<Longrightarrow> filter P (xs[k := y]) = filter P xs"
  by (induction xs arbitrary: k) (auto split: nat.splits)

lemma filter_update_in:
  "k < length xs \<Longrightarrow> \<not> P (xs ! k) \<Longrightarrow> P y \<Longrightarrow> length (filter P (xs[k := y])) = Suc (length (filter P xs))"
  by (induction xs arbitrary: k) (auto split: nat.splits)

lemma set_phase_frame [simp]:
  "wd_budget (set_phase k ph w) = wd_budget w" "wd_grace (set_phase k ph w) = wd_grace w"
  "wd_now (set_phase k ph w) = wd_now w" "wd_timer (set_phase k ph w) = wd_timer w"
  "wd_cancelling (set_phase k ph w) = wd_cancelling w" "wd_event (set_phase k ph w) = wd_event w"
  "wd_callbacks (set_phase k ph w) = wd_callbacks w"
  "length (wd_timers (set_phase k ph w)) = length (wd_timers w)"
  by (simp_all add: set_phase_def)

lemma set_phase_nth:
  "j < length (wd_timers w) \<Longrightarrow>
     wd_timers (set_phase k ph w) ! j =
       (if j = k then (wd_timers w ! k)\<lparr>tm_phase := ph\<rparr> else wd_timers w ! j)"
  by (simp add: set_phase_def)

lemma fired_set_phase:
  assumes "k < length (wd_timers w)" "tm_phase (wd_timers w ! k) \<noteq> Fired"
  shows "ph \<noteq> Fired \<Longrightarrow> fired_timers (set_phase k ph w) = fired_timers w"
    and "length (fired_timers (set_phase k Fired w)) = Suc (length (fired_timers w))"
  using assms by (simp_all add: fired_timers_def set_phase_def filter_update_out filter_update_in)

lemma wd_inv_new: "wd_inv (new_watchdog b g t)"
  by (simp add: wd_inv_def new_watchdog_def fired_timers_def)

lemma timer_ok_later:
  assumes "0 \<le> d" "timer_ok w k"
  shows "timer_ok (w\<lparr>wd_now := wd_now w + d\<rparr>) k"
proof -
  let ?t = "wd_timers w ! k"
  have later: "x \<le> wd_now w \<Longrightarrow> x \<le> wd_now w + d" for x using assms(1) by linarith
  have t: "tm_deadline ?t = tm_armed_at ?t + (wd_budget w + wd_grace w)" "tm_armed_at ?t \<le> wd_now w"
    "tm_phase ?t = Firing \<or> tm_phase ?t = Fired \<Longrightarrow> tm_deadline ?t \<le> wd_now w"
    "tm_phase ?t = Waiting \<Longrightarrow> wd_timer w = Some k \<or> k \<in> set (wd_cancelling w)"
    using assms(2) unfolding timer_ok_def Let_def fire_delay_seconds_def by blast+
  show ?thesis
    using t(1) later [OF t(2)] later [OF t(3)] t(4)
    by (auto simp: timer_ok_def Let_def fire_delay_seconds_def)
qed

lemma wd_inv_tick: "0 \<le> d \<Longrightarrow> wd_inv w \<Longrightarrow> wd_inv (w\<lparr>wd_now := wd_now w + d\<rparr>)"
  by (simp add: wd_inv_def fired_timers_def timer_ok_later split: option.splits)

lemma wd_inv_arm: "0 \<le> fire_delay_seconds w \<Longrightarrow> wd_inv w \<Longrightarrow> wd_inv (arm w)"
  by (cases "wd_timer w")
    (auto simp: arm_def wd_inv_def timer_ok_def Let_def fired_timers_def fire_delay_seconds_def
      nth_append less_Suc_eq)

lemma wd_inv_disarm: "wd_inv w \<Longrightarrow> wd_inv (disarm_take w)"
  by (cases "wd_timer w")
    (auto simp: disarm_take_def wd_inv_def timer_ok_def Let_def fired_timers_def fire_delay_seconds_def)

lemma wd_inv_cancel:
  assumes inv: "wd_inv w" and k: "k \<in> set (wd_cancelling w)"
  shows "wd_inv (timer_cancel k w)"
proof -
  let ?w = "w\<lparr>wd_cancelling := remove1 k (wd_cancelling w)\<rparr>"
  have len: "k < length (wd_timers w)" "distinct (wd_cancelling w)" and t: "wd_timer w \<noteq> Some k"
    using inv k by (auto simp: wd_inv_def)
  have fired: "fired_timers ?w = fired_timers w" by (simp add: fired_timers_def)
  show ?thesis
  proof (cases "tm_phase (wd_timers w ! k) = Waiting")
    case True
    then have "fired_timers (set_phase k Cancelled ?w) = fired_timers w"
      using fired fired_set_phase(1) [of k ?w Cancelled] len by simp
    with True len t inv show ?thesis
      by (auto simp: timer_cancel_def wd_inv_def timer_ok_def Let_def set_phase_nth fire_delay_seconds_def
          split: option.splits)
  next
    case False
    with len t inv fired show ?thesis
      by (auto simp: timer_cancel_def wd_inv_def timer_ok_def Let_def fire_delay_seconds_def
          split: option.splits)
  qed
qed

lemma wd_inv_expire:
  assumes inv: "wd_inv w" and k: "k < length (wd_timers w)" "tm_phase (wd_timers w ! k) = Waiting"
    "tm_deadline (wd_timers w ! k) \<le> wd_now w"
  shows "wd_inv (set_phase k Firing w)"
proof -
  have "fired_timers (set_phase k Firing w) = fired_timers w" using k fired_set_phase(1) by simp
  with inv k show ?thesis
    by (auto simp: wd_inv_def timer_ok_def Let_def set_phase_nth fire_delay_seconds_def
        split: option.splits)
qed

lemma wd_inv_fire:
  assumes inv: "wd_inv w" and k: "k < length (wd_timers w)" "tm_phase (wd_timers w ! k) = Firing"
  shows "wd_inv (fire k w)"
proof -
  have "fired_timers (fire k w) = fired_timers (set_phase k Fired w)"
    by (simp add: fired_timers_def fire_def)
  moreover have "length (fired_timers (set_phase k Fired w)) = Suc (length (fired_timers w))"
    using k fired_set_phase(2) by simp
  ultimately show ?thesis
    using k inv
    by (auto simp: fire_def wd_inv_def timer_ok_def Let_def set_phase_nth fire_delay_seconds_def
        split: option.splits)
qed

lemma wd_step_inv:
  "wd_step w l w' \<Longrightarrow> wd_inv w \<Longrightarrow> 0 \<le> fire_delay_seconds w \<Longrightarrow> wd_inv w'"
  by (induction rule: wd_step.induct)
    (simp_all add: wd_inv_tick wd_inv_arm wd_inv_disarm wd_inv_cancel wd_inv_expire wd_inv_fire)

lemma wd_step_delay: "wd_step w l w' \<Longrightarrow> fire_delay_seconds w' = fire_delay_seconds w"
  by (induction rule: wd_step.induct)
    (auto simp: fire_delay_seconds_def arm_def disarm_take_def timer_cancel_def set_phase_def fire_def Let_def
      split: option.splits)

lemma wd_trace_inv:
  "wd_trace w ls w' \<Longrightarrow> wd_inv w \<Longrightarrow> 0 \<le> fire_delay_seconds w \<Longrightarrow>
     wd_inv w' \<and> fire_delay_seconds w' = fire_delay_seconds w"
  by (induction rule: wd_trace.induct) (auto dest: wd_step_inv simp: wd_step_delay)

lemma new_watchdog_delay:
  "fire_delay_seconds (new_watchdog b g t) = max 0 b + max 0 g" "0 \<le> max 0 b + max 0 (g :: rat)"
  by (simp_all add: fire_delay_seconds_def new_watchdog_def)

text \<open>A fired timer was armed a whole budget and grace ago.\<close>

lemma fired_is_late:
  assumes "wd_inv w" "tm \<in> set (fired_timers w)"
  shows "tm_armed_at tm + fire_delay_seconds w \<le> wd_now w"
proof -
  obtain k where "k < length (wd_timers w)" "wd_timers w ! k = tm" "tm_phase tm = Fired"
    using assms(2) by (auto simp: fired_timers_def in_set_conv_nth)
  with assms(1) show ?thesis by (auto simp: wd_inv_def timer_ok_def Let_def)
qed

text \<open>
  C15. The watchdog never fires early: however arming, disarming, cancelling and the timer threads
  interleave, the run is cancelled only if some timer was armed at least a whole budget plus grace ago;
  the callback has run once per timer that fired; and a timer that is still waiting is either the
  armed one or one that a disarming thread is about to cancel.
\<close>

theorem watchdog_never_early:
  assumes "wd_trace (new_watchdog budget grace start) ls w"
  shows "(wd_event w \<longrightarrow>
      (\<exists>tm\<in>set (wd_timers w). tm_phase tm = Fired \<and>
         tm_armed_at tm + max 0 budget + max 0 grace \<le> wd_now w)) \<and>
    wd_callbacks w = length (filter (\<lambda>tm. tm_phase tm = Fired) (wd_timers w)) \<and>
    (\<forall>k<length (wd_timers w). tm_phase (wd_timers w ! k) = Waiting \<longrightarrow>
       wd_timer w = Some k \<or> k \<in> set (wd_cancelling w))"
proof -
  have inv: "wd_inv w" and delay: "fire_delay_seconds w = max 0 budget + max 0 grace"
    using wd_trace_inv [OF assms wd_inv_new] by (simp_all add: new_watchdog_delay)
  have "\<exists>tm\<in>set (wd_timers w). tm_phase tm = Fired \<and>
      tm_armed_at tm + max 0 budget + max 0 grace \<le> wd_now w" if "wd_event w"
  proof -
    from inv that have "hd (fired_timers w) \<in> set (fired_timers w)" by (simp add: wd_inv_def)
    then obtain tm where tm: "tm \<in> set (fired_timers w)" ..
    from fired_is_late [OF inv tm] tm show ?thesis
      by (intro bexI [of _ tm]) (auto simp: fired_timers_def delay add.assoc)
  qed
  with inv show ?thesis by (auto simp: wd_inv_def timer_ok_def Let_def fired_timers_def)
qed

lemma wd_trace_snocs: "wd_trace a ls b \<Longrightarrow> wd_step b l c \<Longrightarrow> wd_step c m d \<Longrightarrow> wd_trace a (ls @ [l, m]) d"
  using wd_trace.snoc [OF wd_trace.snoc, of a ls b l c m d] by simp

theorem watchdog_never_early_witness:
  "\<exists>w. wd_trace (new_watchdog 10 5 0) [Arm, Tick 15, Expire 0, Fire 0] w \<and> wd_event w \<and>
     wd_callbacks w = 1"
proof -
  let ?w0 = "new_watchdog 10 5 0"
  let ?w1 = "arm ?w0"
  let ?w2 = "?w1\<lparr>wd_now := wd_now ?w1 + 15\<rparr>"
  let ?w3 = "set_phase 0 Firing ?w2"
  let ?w4 = "fire 0 ?w3"
  note defs = new_watchdog_def arm_def fire_delay_seconds_def set_phase_def fire_def
  have "wd_trace ?w0 ([] @ [Arm, Tick 15]) ?w2"
    by (rule wd_trace_snocs [OF wd_trace.nil wd_step.arm wd_step.tick]) simp
  moreover have "wd_step ?w2 (Expire 0) ?w3" by (rule wd_step.expire) (simp_all add: defs)
  moreover have "wd_step ?w3 (Fire 0) ?w4" by (rule wd_step.fire) (simp_all add: defs)
  ultimately have "wd_trace ?w0 (([] @ [Arm, Tick 15]) @ [Expire 0, Fire 0]) ?w4"
    by (rule wd_trace_snocs)
  then have trace: "wd_trace ?w0 [Arm, Tick 15, Expire 0, Fire 0] ?w4" by simp
  have "wd_event ?w4" by (simp add: fire_def)
  moreover from watchdog_never_early [OF trace]
  have "wd_callbacks ?w4 = length (filter (\<lambda>tm. tm_phase tm = Fired) (wd_timers ?w4))" by blast
  then have "wd_callbacks ?w4 = 1" by (simp add: defs)
  ultimately show ?thesis using trace by blast
qed

section \<open>Armed watchdogs fire, disarmed ones stay silent\<close>

definition armed_alive :: "nat \<Rightarrow> watchdog \<Rightarrow> bool" where
  "armed_alive k w \<longleftrightarrow> wd_timer w = Some k"

lemma armed_step: "wd_step w l w' \<Longrightarrow> l \<noteq> DisarmTake \<Longrightarrow> armed_alive k w \<Longrightarrow> armed_alive k w'"
  by (induction rule: wd_step.induct)
    (auto simp: armed_alive_def arm_def timer_cancel_def set_phase_def fire_def Let_def)

lemma armed_trace:
  "wd_trace w ls w' \<Longrightarrow> DisarmTake \<notin> set ls \<Longrightarrow> armed_alive k w \<Longrightarrow> armed_alive k w'"
  by (induction rule: wd_trace.induct) (auto intro: armed_step)

text \<open>No timer is left that could fire.\<close>

definition silent :: "watchdog \<Rightarrow> bool" where
  "silent w \<longleftrightarrow> wd_timer w = None \<and> (\<forall>tm\<in>set (wd_timers w). tm_phase tm = Fired \<or> tm_phase tm = Cancelled)"

lemma silent_step:
  assumes "wd_step w l w'" "l \<noteq> Arm" "silent w"
  shows "silent w' \<and> wd_event w' = wd_event w"
  using assms(1)
proof cases
  case (cancel k)
  then show ?thesis
    using assms(3)
    by (auto simp: silent_def timer_cancel_def set_phase_def Let_def dest!: set_update_subset_insert [THEN subsetD])
next
  case (expire k)
  then show ?thesis using assms(3) nth_mem by (fastforce simp: silent_def)
next
  case (fire k)
  then show ?thesis using assms(3) nth_mem by (fastforce simp: silent_def)
qed (use assms in \<open>auto simp: silent_def disarm_take_def\<close>)

lemma silent_trace:
  "wd_trace w ls w' \<Longrightarrow> Arm \<notin> set ls \<Longrightarrow> silent w \<Longrightarrow> silent w' \<and> wd_event w' = wd_event w"
  by (induction rule: wd_trace.induct) (auto dest: silent_step)

lemma timers_after_cancelling:
  assumes "wd_inv w" "wd_timer w = None" "wd_cancelling w = []"
    and "\<forall>tm\<in>set (wd_timers w). tm_phase tm \<noteq> Firing"
  shows "silent w"
proof -
  have "tm_phase tm = Fired \<or> tm_phase tm = Cancelled" if tm: "tm \<in> set (wd_timers w)" for tm
  proof -
    obtain k where "k < length (wd_timers w)" "wd_timers w ! k = tm"
      using tm by (auto simp: in_set_conv_nth)
    then have "tm_phase tm \<noteq> Waiting" using assms(1-3) by (auto simp: wd_inv_def timer_ok_def Let_def)
    with assms(4) tm show ?thesis by (cases "tm_phase tm") auto
  qed
  with assms(2) show ?thesis by (simp add: silent_def)
qed

text \<open>
  An armed watchdog stops the run and a disarmed one leaves it alone: as long as nobody disarms it,
  the armed timer stays armed, whatever else happens, and once its deadline has passed the run can be
  cancelled in at most two more steps of the timer's thread; and once disarming is complete and no timer
  thread is past its test, the event never changes again unless the watchdog is armed anew.
\<close>

theorem watchdog_stops_or_stays_silent:
  assumes "wd_trace (new_watchdog budget grace start) ls w"
  shows "(\<forall>k ms w'. wd_timer w = Some k \<and> wd_trace w ms w' \<and> DisarmTake \<notin> set ms \<and>
      tm_deadline (wd_timers w' ! k) \<le> wd_now w' \<longrightarrow>
      (\<exists>ns w''. set ns \<subseteq> {Expire k, Fire k} \<and> length ns \<le> 2 \<and> wd_trace w' ns w'' \<and> wd_event w'')) \<and>
    (\<forall>ms w'. wd_timer w = None \<and> wd_cancelling w = [] \<and>
      (\<forall>tm\<in>set (wd_timers w). tm_phase tm \<noteq> Firing) \<and> wd_trace w ms w' \<and> Arm \<notin> set ms \<longrightarrow>
      wd_event w' = wd_event w)"
proof (intro conjI allI impI)
  fix k ms w'
  assume a: "wd_timer w = Some k \<and> wd_trace w ms w' \<and> DisarmTake \<notin> set ms \<and>
    tm_deadline (wd_timers w' ! k) \<le> wd_now w'"
  have "wd_inv w \<and> 0 \<le> fire_delay_seconds w"
    using wd_trace_inv [OF assms wd_inv_new] by (simp add: new_watchdog_delay)
  then have inv: "wd_inv w'" using a wd_trace_inv by blast
  have "wd_timer w' = Some k" using a armed_trace unfolding armed_alive_def by blast
  with inv have k: "k < length (wd_timers w')" "tm_phase (wd_timers w' ! k) \<noteq> Cancelled"
    by (auto simp: wd_inv_def)
  let ?t = "wd_timers w' ! k"
  show "\<exists>ns w''. set ns \<subseteq> {Expire k, Fire k} \<and> length ns \<le> 2 \<and> wd_trace w' ns w'' \<and> wd_event w''"
  proof (cases "tm_phase ?t")
    case Waiting
    let ?w1 = "set_phase k Firing w'"
    have "wd_step w' (Expire k) ?w1" using k a Waiting by (intro wd_step.expire) auto
    moreover have "wd_step ?w1 (Fire k) (fire k ?w1)"
      using k by (intro wd_step.fire) (simp_all add: set_phase_nth)
    ultimately have "wd_trace w' ([] @ [Expire k, Fire k]) (fire k ?w1)"
      by (rule wd_trace_snocs [OF wd_trace.nil])
    then show ?thesis
      by (intro exI [of _ "[Expire k, Fire k]"] exI [of _ "fire k ?w1"]) (simp add: fire_def)
  next
    case Firing
    then have "wd_trace w' ([] @ [Fire k]) (fire k w')"
      using k by (intro wd_trace.snoc [OF wd_trace.nil] wd_step.fire) auto
    then show ?thesis
      by (intro exI [of _ "[Fire k]"] exI [of _ "fire k w'"]) (simp add: fire_def)
  next
    case Fired
    then have "?t \<in> set (fired_timers w')" using k by (simp add: fired_timers_def)
    then have "wd_event w'" using inv by (auto simp: wd_inv_def)
    then show ?thesis using wd_trace.nil by (intro exI [of _ "[]"] exI [of _ w']) simp
  qed (use k in simp)
next
  fix ms w'
  assume a: "wd_timer w = None \<and> wd_cancelling w = [] \<and>
      (\<forall>tm\<in>set (wd_timers w). tm_phase tm \<noteq> Firing) \<and> wd_trace w ms w' \<and> Arm \<notin> set ms"
  have "wd_inv w" using wd_trace_inv [OF assms wd_inv_new] by (simp add: new_watchdog_delay)
  then have "silent w" using a timers_after_cancelling by blast
  with a silent_trace show "wd_event w' = wd_event w" by blast
qed

theorem watchdog_stops_or_stays_silent_witness:
  "\<exists>ns w. wd_trace ((arm (new_watchdog 10 5 0))\<lparr>wd_now := 15\<rparr>) ns w \<and> length ns \<le> 2 \<and> wd_event w"
proof -
  let ?w = "arm (new_watchdog 10 5 0)"
  let ?w' = "?w\<lparr>wd_now := wd_now ?w + 15\<rparr>"
  note defs = new_watchdog_def arm_def fire_delay_seconds_def
  have "wd_trace (new_watchdog 10 5 0) ([] @ [Arm]) ?w"
    by (rule wd_trace.snoc [OF wd_trace.nil wd_step.arm])
  note fires = watchdog_stops_or_stays_silent [OF this, THEN conjunct1, rule_format, of 0 "[] @ [Tick 15]" ?w']
  have "wd_trace ?w ([] @ [Tick 15]) ?w'"
    by (rule wd_trace.snoc [OF wd_trace.nil wd_step.tick]) simp
  moreover have "wd_timer ?w = Some 0" "tm_deadline (wd_timers ?w' ! 0) \<le> wd_now ?w'"
    "?w' = ?w\<lparr>wd_now := 15\<rparr>"
    by (simp_all add: defs)
  ultimately show ?thesis using fires by auto
qed

end
