(* ===== verification/CancelTokens.thy ===== *)
theory CancelTokens
  imports BudgetPolicy Machines "HOL-Library.Multiset"
begin

text \<open>
  Cooperative cancellation, \<open>cancellation.py\<close>: the tokens a turn checks, their combination, and the
  interactive token whose callbacks abort what is in flight. A callback is identified by a number.
  Every block under the token's lock is one step; the callbacks a call has to invoke after it has
  released the lock are the remaining work of its thread, which runs in steps of its own, so that any
  number of cancelling, registering and unsubscribing threads interleave. An exception in a callback
  is swallowed; a callback that uses the token is one more interleaved call.
\<close>

section \<open>Tokens and errors\<close>

datatype cancel_error = CooperativeCancellation string | KeyboardInterrupt string

definition cooperative_reason :: "string \<Rightarrow> string" where
  "cooperative_reason reason = (if reason = [] then ''cancelled_by_user'' else reason)"

text \<open>A token: an event token, the budget's token with its reason, the interactive token.\<close>

datatype cancel_token = EventToken bool | BudgetToken string bool | InteractiveToken bool

fun is_cancelled :: "cancel_token \<Rightarrow> bool" where
  "is_cancelled (EventToken e) = e"
| "is_cancelled (BudgetToken reason e) = e"
| "is_cancelled (InteractiveToken e) = e"

text \<open>\<open>throw_if_cancelled\<close>: the error it raises, if it does.\<close>

fun token_throw :: "string \<Rightarrow> cancel_token \<Rightarrow> cancel_error option" where
  "token_throw reason (EventToken e) =
     (if e then Some (CooperativeCancellation (cooperative_reason reason)) else None)"
| "token_throw reason (BudgetToken own e) =
     (case throw_if_cancelled own e (Some reason) of
        Inl r \<Rightarrow> Some (CooperativeCancellation (cooperative_reason r)) | Inr _ \<Rightarrow> None)"
| "token_throw reason (InteractiveToken e) = (if e then Some (KeyboardInterrupt reason) else None)"

text \<open>\<open>getattr(token, "reason", reason)\<close>.\<close>

fun reason_attr :: "string \<Rightarrow> cancel_token \<Rightarrow> string" where
  "reason_attr reason (BudgetToken own e) = token_reason own"
| "reason_attr reason t = reason"

definition combined_is_cancelled :: "cancel_token list \<Rightarrow> bool" where
  "combined_is_cancelled tokens = list_ex is_cancelled tokens"

fun combined_throw :: "string \<Rightarrow> cancel_token list \<Rightarrow> cancel_error option" where
  "combined_throw reason [] = None"
| "combined_throw reason (t # ts) =
     (if \<not> is_cancelled t then combined_throw reason ts
      else (case token_throw reason t of
          Some e \<Rightarrow> Some e
        | None \<Rightarrow> Some (CooperativeCancellation (cooperative_reason (reason_attr reason t)))))"

section \<open>The interactive token\<close>

datatype work = Call nat | Spawn nat

record token_state =
  tk_event :: bool
  tk_request :: "nat option"
  tk_abort :: "nat option"
  tk_subs :: "(nat \<times> nat) list"
  tk_next :: nat
  tk_threads :: "work list list"
  tk_ran :: "nat list"

definition new_token :: token_state where
  "new_token = \<lparr>tk_event = False, tk_request = None, tk_abort = None, tk_subs = [], tk_next = 0,
     tk_threads = [], tk_ran = []\<rparr>"

definition opt_list :: "'a option \<Rightarrow> 'a list" where
  "opt_list x = (case x of None \<Rightarrow> [] | Some y \<Rightarrow> [y])"

definition claim_callbacks :: "token_state \<Rightarrow> (nat option \<times> nat option \<times> nat list) option \<times> token_state" where
  "claim_callbacks s =
     (if tk_event s then (None, s)
      else (Some (tk_request s, tk_abort s, map snd (tk_subs s)),
            s\<lparr>tk_event := True, tk_request := None, tk_abort := None, tk_subs := []\<rparr>))"

text \<open>A thread that has callbacks to invoke.\<close>

definition start_thread :: "work list \<Rightarrow> token_state \<Rightarrow> token_state" where
  "start_thread ws s = s\<lparr>tk_threads := tk_threads s @ [ws]\<rparr>"

definition cancel :: "token_state \<Rightarrow> token_state" where
  "cancel s =
     (case claim_callbacks s of
        (None, s') \<Rightarrow> s'
      | (Some (request, abort, subs), s') \<Rightarrow>
          start_thread (map Call (opt_list request @ opt_list abort @ subs)) s')"

definition cancel_nonblocking :: "token_state \<Rightarrow> token_state" where
  "cancel_nonblocking s =
     (case claim_callbacks s of
        (None, s') \<Rightarrow> s'
      | (Some (request, abort, subs), s') \<Rightarrow>
          start_thread (map Call (opt_list request) @ map Spawn (opt_list abort @ subs)) s')"

definition set_abort_callback :: "nat option \<Rightarrow> token_state \<Rightarrow> token_state" where
  "set_abort_callback callback s =
     (if tk_event s then start_thread (map Call (opt_list callback)) s else s\<lparr>tk_abort := callback\<rparr>)"

definition clear_abort_callback :: "token_state \<Rightarrow> token_state" where
  "clear_abort_callback s = s\<lparr>tk_abort := None\<rparr>"

definition set_request_callback :: "nat option \<Rightarrow> token_state \<Rightarrow> token_state" where
  "set_request_callback callback s =
     (if tk_event s then start_thread (map Call (opt_list callback)) s else s\<lparr>tk_request := callback\<rparr>)"

definition clear_request_callback :: "token_state \<Rightarrow> token_state" where
  "clear_request_callback s = s\<lparr>tk_request := None\<rparr>"

text \<open>The result is the identifier that the returned closure unsubscribes.\<close>

definition subscribe :: "nat \<Rightarrow> token_state \<Rightarrow> nat option \<times> token_state" where
  "subscribe callback s =
     (if tk_event s then (None, start_thread [Call callback] s)
      else (Some (tk_next s),
            s\<lparr>tk_subs := tk_subs s @ [(tk_next s, callback)], tk_next := tk_next s + 1\<rparr>))"

definition unsubscribe :: "nat option \<Rightarrow> token_state \<Rightarrow> token_state" where
  "unsubscribe subscriber s =
     (case subscriber of
        None \<Rightarrow> s
      | Some i \<Rightarrow> s\<lparr>tk_subs := filter (\<lambda>(j, _). j \<noteq> i) (tk_subs s)\<rparr>)"

text \<open>The next step of a thread: invoke a callback, or start a thread that does.\<close>

definition run_thread :: "nat \<Rightarrow> token_state \<Rightarrow> token_state" where
  "run_thread k s =
     (if k < length (tk_threads s) then
        (case tk_threads s ! k of
           [] \<Rightarrow> s
         | Call c # ws \<Rightarrow> s\<lparr>tk_threads := (tk_threads s)[k := ws], tk_ran := tk_ran s @ [c]\<rparr>
         | Spawn c # ws \<Rightarrow> s\<lparr>tk_threads := (tk_threads s)[k := ws] @ [[Call c]]\<rparr>)
      else s)"

datatype token_op =
    CancelBlocking | CancelNonblocking | SetAbort "nat option" | ClearAbort | SetRequest "nat option" | ClearRequest
  | Subscribe nat | Unsubscribe "nat option" | RunThread nat

fun token_step :: "token_op \<Rightarrow> token_state \<Rightarrow> token_state" where
  "token_step CancelBlocking s = cancel s"
| "token_step CancelNonblocking s = cancel_nonblocking s"
| "token_step (SetAbort c) s = set_abort_callback c s"
| "token_step ClearAbort s = clear_abort_callback s"
| "token_step (SetRequest c) s = set_request_callback c s"
| "token_step ClearRequest s = clear_request_callback s"
| "token_step (Subscribe c) s = snd (subscribe c s)"
| "token_step (Unsubscribe i) s = unsubscribe i s"
| "token_step (RunThread k) s = run_thread k s"

section \<open>What happens to a callback\<close>

definition held :: "token_state \<Rightarrow> nat multiset" where
  "held s = mset (opt_list (tk_request s)) + mset (opt_list (tk_abort s)) + mset (map snd (tk_subs s))"

fun work_callback :: "work \<Rightarrow> nat" where
  "work_callback (Call c) = c"
| "work_callback (Spawn c) = c"

definition queued :: "token_state \<Rightarrow> nat multiset" where
  "queued s = mset (map work_callback (concat (tk_threads s)))"

fun registered :: "token_op \<Rightarrow> nat multiset" where
  "registered (SetAbort c) = mset (opt_list c)"
| "registered (SetRequest c) = mset (opt_list c)"
| "registered (Subscribe c) = {#c#}"
| "registered x = {#}"

text \<open>What an operation takes back: a replaced, cleared or unsubscribed callback.\<close>

fun withdrawn :: "token_op \<Rightarrow> token_state \<Rightarrow> nat multiset" where
  "withdrawn (SetAbort c) s = (if tk_event s then {#} else mset (opt_list (tk_abort s)))"
| "withdrawn ClearAbort s = mset (opt_list (tk_abort s))"
| "withdrawn (SetRequest c) s = (if tk_event s then {#} else mset (opt_list (tk_request s)))"
| "withdrawn ClearRequest s = mset (opt_list (tk_request s))"
| "withdrawn (Unsubscribe (Some i)) s = mset (map snd (filter (\<lambda>(j, _). j = i) (tk_subs s)))"
| "withdrawn x s = {#}"

definition all_registered :: "token_op list \<Rightarrow> nat multiset" where
  "all_registered ops = \<Sum>\<^sub># (mset (map registered ops))"

fun all_withdrawn :: "token_op list \<Rightarrow> token_state \<Rightarrow> nat multiset" where
  "all_withdrawn [] s = {#}"
| "all_withdrawn (x # xs) s = withdrawn x s + all_withdrawn xs (token_step x s)"

definition token_total :: "token_state \<Rightarrow> nat multiset" where
  "token_total s = held s + queued s + mset (tk_ran s)"

section \<open>No callback is lost or run twice\<close>

lemma queued_start [simp]: "queued (start_thread ws s) = queued s + mset (map work_callback ws)"
  by (simp add: queued_def start_thread_def)

lemma start_frame [simp]:
  "held (start_thread ws s) = held s" "tk_ran (start_thread ws s) = tk_ran s"
  "tk_event (start_thread ws s) = tk_event s" "tk_threads (start_thread ws s) = tk_threads s @ [ws]"
  by (simp_all add: held_def start_thread_def)

lemma work_callback_maps [simp]:
  "map (work_callback \<circ> Call) xs = xs" "map (work_callback \<circ> Spawn) xs = xs"
  "work_callback \<circ> (Call \<circ> f) = f" "work_callback \<circ> (Spawn \<circ> f) = f"
  by (simp_all add: comp_def)

lemma mset_concat_update:
  "k < length xs \<Longrightarrow> mset (concat (xs[k := ys])) + mset (xs ! k) = mset (concat xs) + mset ys"
proof (induction xs arbitrary: k)
  case (Cons x xs)
  then show ?case by (cases k) (auto simp: ac_simps)
qed simp

lemma queued_update:
  assumes "k < length (tk_threads s)" "tk_threads s ! k = w # ws"
  shows "mset (map work_callback (concat ((tk_threads s)[k := ws]))) + {#work_callback w#} = queued s"
proof -
  have "mset (concat ((tk_threads s)[k := ws])) + (mset ws + {#w#}) = mset (concat (tk_threads s)) + mset ws"
    using mset_concat_update [OF assms(1), of ws] assms(2) by simp
  then have "mset (concat (tk_threads s)) = mset (concat ((tk_threads s)[k := ws])) + {#w#}" by simp
  then show ?thesis by (simp add: queued_def)
qed

lemma run_thread_total: "token_total (run_thread k s) = token_total s"
proof (cases "k < length (tk_threads s)")
  case True
  show ?thesis
  proof (cases "tk_threads s ! k")
    case Nil
    with True show ?thesis by (simp add: run_thread_def)
  next
    case (Cons w ws)
    note q = queued_update [OF True Cons]
    show ?thesis
      using True Cons q [symmetric]
      by (cases w) (simp_all add: run_thread_def token_total_def held_def, simp_all add: queued_def)
  qed
qed (simp add: run_thread_def)

lemma claim_total:
  "\<not> tk_event s \<Longrightarrow>
     held s = mset (opt_list (tk_request s) @ opt_list (tk_abort s) @ map snd (tk_subs s))"
  by (simp add: held_def)

lemma cancel_total: "token_total (cancel s) = token_total s" "token_total (cancel_nonblocking s) = token_total s"
  by (simp_all add: cancel_def cancel_nonblocking_def claim_callbacks_def token_total_def claim_total)
    (simp_all add: held_def queued_def opt_list_def)

lemma unsubscribe_subs:
  "mset (map snd (filter (\<lambda>(k, _). k \<noteq> j) subs)) + mset (map snd (filter (\<lambda>(k, _). k = j) subs)) =
     mset (map snd subs)"
  by (induction subs) auto

lemma unsubscribe_total:
  "token_total (unsubscribe i s) + withdrawn (Unsubscribe i) s = token_total s"
proof (cases i)
  case (Some j)
  with unsubscribe_subs [of j "tk_subs s"] show ?thesis
    by (simp add: unsubscribe_def token_total_def held_def queued_def)
qed (simp add: unsubscribe_def)

lemma token_step_total:
  "token_total (token_step x s) + withdrawn x s = token_total s + registered x"
proof (cases x)
  case (SetAbort c)
  then show ?thesis
    by (simp add: set_abort_callback_def token_total_def) (simp add: held_def queued_def)
next
  case (SetRequest c)
  then show ?thesis
    by (simp add: set_request_callback_def token_total_def) (simp add: held_def queued_def)
next
  case (Unsubscribe i)
  then show ?thesis using unsubscribe_total by simp
qed (simp_all add: cancel_total run_thread_total, simp_all add: clear_abort_callback_def
    clear_request_callback_def subscribe_def token_total_def held_def queued_def opt_list_def start_thread_def)

lemma token_run_total:
  "token_total (run token_step ops s) + all_withdrawn ops s = token_total s + all_registered ops"
proof (induction ops arbitrary: s)
  case (Cons x xs)
  show ?case
    using Cons.IH [of "token_step x s"] token_step_total [of x s]
    by (simp add: all_registered_def) (metis (no_types, opaque_lifting) add.assoc add.commute)
qed (simp add: all_registered_def)

definition cancels :: "token_op \<Rightarrow> bool" where
  "cancels x = (x = CancelBlocking \<or> x = CancelNonblocking)"

text \<open>Before the cancellation nothing runs; after it nothing is held back.\<close>

definition token_ok :: "token_state \<Rightarrow> bool" where
  "token_ok s \<longleftrightarrow> (if tk_event s then held s = {#} else queued s = {#} \<and> tk_ran s = [])"

lemma event_step: "tk_event (token_step x s) \<longleftrightarrow> tk_event s \<or> cancels x"
proof (cases x)
  case (RunThread k)
  then show ?thesis
    by (auto simp: run_thread_def cancels_def split: list.split work.split)
qed (auto simp: cancels_def cancel_def cancel_nonblocking_def claim_callbacks_def set_abort_callback_def
    clear_abort_callback_def set_request_callback_def clear_request_callback_def subscribe_def
    unsubscribe_def split: option.split)

lemma event_run: "tk_event (run token_step xs s) \<longleftrightarrow> tk_event s \<or> list_ex cancels xs"
  by (induction xs arbitrary: s) (auto simp: event_step)

lemma held_RunThread: "held (run_thread k s) = held s"
  by (simp add: run_thread_def held_def split: list.split work.split)

lemma nothing_queued: "queued s = {#} \<Longrightarrow> run_thread k s = s"
proof -
  assume q: "queued s = {#}"
  have "tk_threads s ! k = []" if "k < length (tk_threads s)"
    using q that nth_mem [OF that] by (auto simp: queued_def)
  then show "run_thread k s = s" by (auto simp: run_thread_def)
qed

lemma token_step_ok: "token_ok s \<Longrightarrow> token_ok (token_step x s)"
proof (cases x)
  case (RunThread k)
  assume "token_ok s"
  then show ?thesis
    using RunThread event_step [of x s] nothing_queued [of s k] held_RunThread [of k s]
    by (auto simp: token_ok_def cancels_def split: if_splits)
next
  case (Subscribe c)
  assume "token_ok s"
  with Subscribe show ?thesis
    by (auto simp: token_ok_def subscribe_def) (simp_all add: queued_def)
next
  case (SetAbort c)
  assume "token_ok s"
  with SetAbort show ?thesis
    by (auto simp: token_ok_def set_abort_callback_def) (simp_all add: queued_def)
next
  case (SetRequest c)
  assume "token_ok s"
  with SetRequest show ?thesis
    by (auto simp: token_ok_def set_request_callback_def) (simp_all add: queued_def)
next
  case (Unsubscribe i)
  assume "token_ok s"
  with Unsubscribe show ?thesis
    by (cases i) (auto simp: token_ok_def unsubscribe_def held_def queued_def)
qed (auto simp: token_ok_def cancel_def cancel_nonblocking_def claim_callbacks_def
    clear_abort_callback_def clear_request_callback_def held_def queued_def opt_list_def start_thread_def)

interpretation tkm: safe_machine token_step "\<lambda>_. True" token_ok
  by unfold_locales (rule token_step_ok)

lemma new_token_ok: "token_ok new_token"
  by (simp add: token_ok_def new_token_def queued_def)

lemma run_token_ok: "token_ok (run token_step ops new_token)"
  using tkm.run_inv [of ops new_token] new_token_ok by (simp add: list_all_iff)

lemma new_token_total [simp]: "token_total new_token = {#}"
  by (simp add: token_total_def held_def queued_def new_token_def opt_list_def)

text \<open>
  C14. Every callback runs at most once, and once cancelled exactly once: however cancelling,
  registering and unsubscribing threads interleave, the callbacks that were registered are, as a
  multiset, those that ran, those a thread is about to run, those the token still holds and those that
  were replaced, cleared or unsubscribed while it held them. Nothing has run and no thread has anything
  to run before the first cancellation, and the token holds nothing afterwards, so a callback that was
  not withdrawn cannot miss a cancellation.
\<close>

theorem callbacks_run_once:
  fixes ops :: "token_op list"
  defines "s \<equiv> run token_step ops new_token"
  shows "all_registered ops = mset (tk_ran s) + queued s + held s + all_withdrawn ops new_token \<and>
    (tk_event s \<longleftrightarrow> list_ex cancels ops) \<and>
    (if list_ex cancels ops then held s = {#} else queued s = {#} \<and> tk_ran s = [])"
proof -
  have "token_total s + all_withdrawn ops new_token = all_registered ops"
    using token_run_total [of ops new_token] by (simp add: s_def)
  moreover have e: "tk_event s \<longleftrightarrow> list_ex cancels ops"
    using event_run [of ops new_token] by (simp add: s_def new_token_def)
  moreover have "token_ok s" unfolding s_def by (rule run_token_ok)
  ultimately show ?thesis by (simp add: token_total_def token_ok_def ac_simps split: if_splits)
qed

section \<open>Cancelling gets done\<close>

fun work_cost :: "work \<Rightarrow> nat" where
  "work_cost (Call c) = 1"
| "work_cost (Spawn c) = 2"

definition work_left :: "token_state \<Rightarrow> nat" where
  "work_left s = sum_list (map work_cost (concat (tk_threads s)))"

lemma concat_update_cost:
  "k < length xs \<Longrightarrow>
     sum_list (map f (concat (xs[k := ys]))) + sum_list (map f (xs ! k)) =
       sum_list (map f (concat xs)) + sum_list (map f ys :: nat list)"
proof (induction xs arbitrary: k)
  case (Cons x xs)
  then show ?case by (cases k) auto
qed simp

lemma run_thread_progress:
  assumes "k < length (tk_threads s)" "tk_threads s ! k \<noteq> []"
  shows "work_left (run_thread k s) < work_left s"
proof -
  obtain w ws where w: "tk_threads s ! k = w # ws" using assms(2) by (cases "tk_threads s ! k") auto
  with assms(1) concat_update_cost [OF assms(1), of work_cost ws] show ?thesis
    by (cases w) (auto simp: run_thread_def work_left_def)
qed

lemma drain_threads: "\<exists>ks. queued (run token_step (map RunThread ks) s) = {#}"
proof (induction "work_left s" arbitrary: s rule: less_induct)
  case less
  show ?case
  proof (cases "queued s = {#}")
    case True
    then show ?thesis by (intro exI [of _ "[]"]) simp
  next
    case False
    then obtain ws where "ws \<in> set (tk_threads s)" "ws \<noteq> []" by (auto simp: queued_def)
    then obtain k where k: "k < length (tk_threads s)" "tk_threads s ! k \<noteq> []"
      by (auto simp: in_set_conv_nth)
    then obtain ks where "queued (run token_step (map RunThread ks) (run_thread k s)) = {#}"
      using less [OF run_thread_progress [OF k]] by blast
    then show ?thesis by (intro exI [of _ "k # ks"]) simp
  qed
qed

lemma all_registered_append: "all_registered (xs @ ys) = all_registered xs + all_registered ys"
  by (simp add: all_registered_def)

lemma all_withdrawn_append:
  "all_withdrawn (xs @ ys) s = all_withdrawn xs s + all_withdrawn ys (run token_step xs s)"
  by (induction xs arbitrary: s) (simp_all add: ac_simps)

lemma threads_only:
  "all_registered (map RunThread ks) = {#}" "all_withdrawn (map RunThread ks) s = {#}"
  "\<not> list_ex cancels (map RunThread ks)"
  by (induction ks arbitrary: s) (simp_all add: all_registered_def cancels_def)

text \<open>
  C27. A cancellation reaches everyone who registered: after any operations that include a cancellation,
  letting the threads that have callbacks to run take their steps, and nothing else, brings the token
  to a state in which exactly the registered callbacks that were not withdrawn have run, each as often as
  it was registered.
\<close>

theorem cancellation_reaches_all:
  assumes "list_ex cancels ops"
  shows "\<exists>ks. mset (tk_ran (run token_step (ops @ map RunThread ks) new_token)) +
      all_withdrawn ops new_token = all_registered ops"
proof -
  let ?s = "run token_step ops new_token"
  obtain ks where q: "queued (run token_step (map RunThread ks) ?s) = {#}" using drain_threads by blast
  let ?ops = "ops @ map RunThread ks"
  have "held (run token_step ?ops new_token) = {#}"
    using run_token_ok [of ?ops] event_run [of ?ops new_token] assms by (auto simp: token_ok_def)
  then have "mset (tk_ran (run token_step ?ops new_token)) + all_withdrawn ?ops new_token =
      all_registered ?ops"
    using token_run_total [of ?ops new_token, unfolded new_token_total] q by (simp add: token_total_def)
  then show ?thesis
    by (intro exI [of _ ks]) (simp add: all_registered_append all_withdrawn_append threads_only)
qed

lemma sample_cancel_ops: "list_ex cancels [Subscribe 7, SetAbort (Some 3), CancelBlocking, Subscribe 9]"
  by (simp add: cancels_def)

theorem cancellation_reaches_all_witness:
  "\<exists>ks. mset (tk_ran (run token_step ([Subscribe 7, SetAbort (Some 3), CancelBlocking, Subscribe 9] @
      map RunThread ks) new_token)) = {#3, 7, 9#}"
proof -
  let ?ops = "[Subscribe 7, SetAbort (Some 3), CancelBlocking, Subscribe 9]"
  have "all_withdrawn ?ops new_token = {#}" "all_registered ?ops = {#3, 7, 9#}"
    by (simp_all add: new_token_def cancel_def claim_callbacks_def set_abort_callback_def subscribe_def
        opt_list_def start_thread_def all_registered_def ac_simps add_mset_commute)
  then show ?thesis using cancellation_reaches_all [OF sample_cancel_ops] by simp
qed

section \<open>The request callback goes first\<close>

lemma ran_grows: "set (tk_ran s) \<subseteq> set (tk_ran (run token_step xs s))"
proof (induction xs arbitrary: s)
  case (Cons x xs)
  have "set (tk_ran s) \<subseteq> set (tk_ran (token_step x s))"
    by (cases x) (auto simp: cancel_def cancel_nonblocking_def claim_callbacks_def set_abort_callback_def
        clear_abort_callback_def set_request_callback_def clear_request_callback_def subscribe_def
        unsubscribe_def run_thread_def split: option.split list.split work.split)
  with Cons show ?case by fastforce
qed simp

text \<open>A thread stays where it is until its next callback has run.\<close>

lemma thread_waits_step:
  assumes "k < length (tk_threads s)" "tk_threads s ! k = Call r # ws"
  shows "r \<in> set (tk_ran (token_step x s)) \<or>
    k < length (tk_threads (token_step x s)) \<and> tk_threads (token_step x s) ! k = Call r # ws"
  using assms
  by (cases x) (auto simp: cancel_def cancel_nonblocking_def claim_callbacks_def set_abort_callback_def
        clear_abort_callback_def set_request_callback_def clear_request_callback_def subscribe_def
        unsubscribe_def run_thread_def nth_append nth_list_update split: option.split list.split work.split)

lemma thread_waits:
  "k < length (tk_threads s) \<Longrightarrow> tk_threads s ! k = Call r # ws \<Longrightarrow>
     r \<in> set (tk_ran (run token_step xs s)) \<or>
     k < length (tk_threads (run token_step xs s)) \<and> tk_threads (run token_step xs s) ! k = Call r # ws"
proof (induction xs arbitrary: s)
  case (Cons x xs)
  from thread_waits_step [OF Cons.prems, of x] show ?case
  proof
    assume "r \<in> set (tk_ran (token_step x s))"
    then show ?thesis using ran_grows [of "token_step x s" xs] by auto
  next
    assume "k < length (tk_threads (token_step x s)) \<and> tk_threads (token_step x s) ! k = Call r # ws"
    then show ?thesis using Cons.IH by simp
  qed
qed simp

text \<open>
  The durable request callback runs before the transport is torn down: when a token that holds a
  request callback is cancelled, in either way, then no other callback it holds, registered once, has
  run at any later time at which the request callback has not.
\<close>

theorem request_callback_first:
  assumes "\<not> list_ex cancels xs" and "cancels x"
    and "tk_request (run token_step xs new_token) = Some r"
    and "c \<in># held (run token_step xs new_token)" and "c \<noteq> r"
    and "count (all_registered (xs @ x # ys)) c = 1"
    and "c \<in> set (tk_ran (run token_step (xs @ x # ys) new_token))"
  shows "r \<in> set (tk_ran (run token_step (xs @ x # ys) new_token))"
proof (rule ccontr)
  let ?s = "run token_step xs new_token" and ?t = "run token_step (xs @ x # ys) new_token"
  assume not_run: "r \<notin> set (tk_ran ?t)"
  have ev: "\<not> tk_event ?s" using assms(1) event_run [of xs new_token] by (simp add: new_token_def)
  let ?k = "length (tk_threads ?s)"
  let ?rest = "opt_list (tk_abort ?s) @ map snd (tk_subs ?s)"
  have rest: "c \<in> set ?rest" using assms(3-5) by (auto simp: held_def opt_list_def)
  have "tk_threads (token_step x ?s) =
      tk_threads ?s @ [Call r # (if x = CancelBlocking then map Call ?rest else map Spawn ?rest)]"
    using assms(2,3) ev
    by (auto simp: cancels_def cancel_def cancel_nonblocking_def claim_callbacks_def opt_list_def
        split: option.split)
  then obtain ws where ws: "tk_threads (token_step x ?s) = tk_threads ?s @ [Call r # ws]"
      and c: "c \<in> set (map work_callback ws)"
    using rest by (cases "x = CancelBlocking") (auto simp del: set_map)
  have "?k < length (tk_threads ?t) \<and> tk_threads ?t ! ?k = Call r # ws"
    using thread_waits [of ?k "token_step x ?s" r ws ys] ws not_run by simp
  then have "\<exists>t\<in>set (tk_threads ?t). c \<in> set (map work_callback t)"
    using c by (intro bexI [of _ "Call r # ws"]) (auto simp: in_set_conv_nth)
  then have "c \<in># queued ?t" by (auto simp: queued_def)
  then have "1 \<le> count (queued ?t) c" by (simp add: Suc_le_eq)
  moreover have "1 \<le> count (mset (tk_ran ?t)) c" using assms(7) by (simp add: Suc_le_eq)
  ultimately have "2 \<le> count (token_total ?t) c" unfolding token_total_def count_union by linarith
  moreover have "count (token_total ?t) c \<le> count (all_registered (xs @ x # ys)) c"
    using token_run_total [of "xs @ x # ys" new_token, unfolded new_token_total]
    by (metis add.left_neutral count_union le_add1)
  ultimately show False using assms(6) by simp
qed

theorem request_callback_first_witness:
  "1 \<in> set (tk_ran (run token_step [Subscribe 2, SetRequest (Some 1), CancelNonblocking,
      RunThread 0, RunThread 0, RunThread 1] new_token))"
proof -
  let ?xs = "[Subscribe 2, SetRequest (Some 1)]" and ?ys = "[RunThread 0, RunThread 0, RunThread 1]"
  note defs = new_token_def cancel_nonblocking_def claim_callbacks_def set_request_callback_def
    subscribe_def opt_list_def start_thread_def run_thread_def all_registered_def held_def cancels_def
  have "\<not> list_ex cancels ?xs" "cancels CancelNonblocking" "tk_request (run token_step ?xs new_token) = Some 1"
    "2 \<in># held (run token_step ?xs new_token)" "(2::nat) \<noteq> 1"
    "count (all_registered (?xs @ CancelNonblocking # ?ys)) 2 = 1"
    "2 \<in> set (tk_ran (run token_step (?xs @ CancelNonblocking # ?ys) new_token))"
    by (simp_all add: defs)
  from request_callback_first [OF this] show ?thesis by simp
qed

section \<open>Combining tokens\<close>

text \<open>
  A combined token stops the turn exactly when one of its tokens is cancelled, with the error of the
  first such token; behind tokens that are not cancelled the budget's token is named as what stopped
  the run, whatever reason the caller gives, and that is a clean stop.
\<close>

theorem combined_token_attributes:
  "(combined_throw reason tokens \<noteq> None \<longleftrightarrow> combined_is_cancelled tokens) \<and>
   (list_all (\<lambda>t. \<not> is_cancelled t) before \<longrightarrow>
      combined_throw reason (before @ BudgetToken [] True # after) =
        Some (CooperativeCancellation STOP_REASON_RUN_BUDGET_EXHAUSTED) \<and>
      is_clean_stop (Some STOP_REASON_RUN_BUDGET_EXHAUSTED)) \<and>
   (list_all (\<lambda>t. \<not> is_cancelled t) before \<and> is_cancelled t \<longrightarrow>
      combined_throw reason (before @ t # after) = token_throw reason t)"
proof -
  have throws: "token_throw reason t \<noteq> None \<longleftrightarrow> is_cancelled t" for t
    by (cases t) (auto simp: throw_if_cancelled_def)
  have first: "combined_throw reason (before @ ts) = combined_throw reason ts"
    if "list_all (\<lambda>t. \<not> is_cancelled t) before" for ts
    using that by (induction before) auto
  have "combined_throw reason tokens \<noteq> None \<longleftrightarrow> combined_is_cancelled tokens"
    by (induction tokens) (auto simp: combined_is_cancelled_def split: option.split)
  moreover have "combined_throw reason (t # after) = token_throw reason t" if "is_cancelled t"
    using that throws [of t] by (auto split: option.split)
  moreover have "token_throw reason (BudgetToken [] True) =
      Some (CooperativeCancellation STOP_REASON_RUN_BUDGET_EXHAUSTED)"
    by (simp add: throw_if_cancelled_def token_reason_def cooperative_reason_def
        STOP_REASON_RUN_BUDGET_EXHAUSTED_def)
  moreover have "is_clean_stop (Some STOP_REASON_RUN_BUDGET_EXHAUSTED)" by code_simp
  ultimately show ?thesis using first by auto
qed

theorem combined_token_attributes_witness:
  "combined_throw ''cancelled_by_user'' [EventToken False, BudgetToken [] True] =
     Some (CooperativeCancellation STOP_REASON_RUN_BUDGET_EXHAUSTED)"
  using combined_token_attributes [of "''cancelled_by_user''" "[]" "[EventToken False]" "[]"] by simp

end
