(* ===== verification/PyRegex.thy ===== *)
theory PyRegex
  imports PyObjects
begin

text \<open>
  The part of Python's \<open>re\<close> the modelled code uses: searching a text for a pattern of literals,
  character classes, bounded repetition of a class, options, alternatives, word boundaries and the
  end of the text. A position is the character before it and the text after it; \<open>rx_ends\<close>
  lists the positions where a match that starts at a position can end, in the order in which
  backtracking finds them: its first element is the match, and a search succeeds if some start has an
  end. \<open>r_lit\<close> is a literal under \<open>re.IGNORECASE\<close>, \<open>r_exact\<close> one without. \<open>py_casefold\<close> is \<open>str.casefold\<close> (the micro sign, whose fold is outside
  the modelled range, is kept).
\<close>

datatype rx =
    RClass "char \<Rightarrow> bool"
  | RMany "char \<Rightarrow> bool" nat "nat option"
  | RWordEdge
  | REnd
  | REps
  | RSeq rx rx
  | RAlt rx rx

type_synonym rx_pos = "char option \<times> string"

text \<open>\<open>\w\<close> on the modelled range: letters, digits and numeric characters, and the underscore.\<close>

definition word_char :: "char \<Rightarrow> bool" where
  "word_char c = (let n = code c in
     is_ascii_alnum c \<or> n = 95 \<or> n = 170 \<or> n = 178 \<or> n = 179 \<or> n = 181 \<or> n = 185 \<or> n = 186 \<or>
     (188 \<le> n \<and> n \<le> 190) \<or> (192 \<le> n \<and> n \<noteq> 215 \<and> n \<noteq> 247))"

lemma word_char_icode [code]:
  "word_char c = (let n = icode c in
     is_ascii_alnum c \<or> n = 95 \<or> n = 170 \<or> n = 178 \<or> n = 179 \<or> n = 181 \<or> n = 185 \<or> n = 186 \<or>
     (188 \<le> n \<and> n \<le> 190) \<or> (192 \<le> n \<and> n \<noteq> 215 \<and> n \<noteq> 247))"
  by (simp add: word_char_def icode_code Let_def)

definition at_word_edge :: "rx_pos \<Rightarrow> bool" where
  "at_word_edge p =
     ((case fst p of None \<Rightarrow> False | Some c \<Rightarrow> word_char c) \<noteq>
      (case snd p of [] \<Rightarrow> False | c # _ \<Rightarrow> word_char c))"

fun many_ends :: "(char \<Rightarrow> bool) \<Rightarrow> nat \<Rightarrow> nat option \<Rightarrow> char option \<Rightarrow> string \<Rightarrow> rx_pos list" where
  "many_ends P lo hi prev [] = (if lo = 0 then [(prev, [])] else [])"
| "many_ends P lo hi prev (c # cs) =
     (if P c \<and> hi \<noteq> Some 0 then many_ends P (lo - 1) (map_option (\<lambda>n. n - 1) hi) (Some c) cs else []) @
     (if lo = 0 then [(prev, c # cs)] else [])"

fun rx_ends :: "rx \<Rightarrow> rx_pos \<Rightarrow> rx_pos list" where
  "rx_ends (RClass P) p =
     (case snd p of c # cs \<Rightarrow> if P c then [(Some c, cs)] else [] | [] \<Rightarrow> [])"
| "rx_ends (RMany P lo hi) p = many_ends P lo hi (fst p) (snd p)"
| "rx_ends RWordEdge p = (if at_word_edge p then [p] else [])"
| "rx_ends REnd p = (if snd p = [] \<or> snd p = [char_of (10 :: nat)] then [p] else [])"
| "rx_ends REps p = [p]"
| "rx_ends (RSeq r q) p = concat (map (rx_ends q) (rx_ends r p))"
| "rx_ends (RAlt r q) p = rx_ends r p @ rx_ends q p"

fun rx_search_from :: "rx \<Rightarrow> char option \<Rightarrow> string \<Rightarrow> bool" where
  "rx_search_from r prev [] = (rx_ends r (prev, []) \<noteq> [])"
| "rx_search_from r prev (c # cs) =
     (rx_ends r (prev, c # cs) \<noteq> [] \<or> rx_search_from r (Some c) cs)"

definition rx_search :: "rx \<Rightarrow> string \<Rightarrow> bool" where
  "rx_search r s = rx_search_from r None s"

section \<open>Pattern notation\<close>

definition r_seq :: "rx list \<Rightarrow> rx" where "r_seq rs = foldr RSeq rs REps"

fun r_alt :: "rx list \<Rightarrow> rx" where
  "r_alt [] = RClass (\<lambda>_. False)"
| "r_alt [r] = r"
| "r_alt (r # q # rs) = RAlt r (r_alt (q # rs))"

definition r_opt :: "rx \<Rightarrow> rx" where "r_opt r = RAlt r REps"

definition r_lit :: "string \<Rightarrow> rx" where
  "r_lit s = r_seq (map (\<lambda>c. RClass (\<lambda>d. lower_char d = lower_char c)) s)"

definition r_exact :: "string \<Rightarrow> rx" where
  "r_exact s = r_seq (map (\<lambda>c. RClass (\<lambda>d. d = c)) s)"

definition r_spaces :: rx where "r_spaces = RMany py_is_space 1 None"

definition r_words :: "string list \<Rightarrow> rx" where
  "r_words ws = r_seq [RWordEdge, r_alt (map r_lit ws), RWordEdge]"

section \<open>Case folding and tokens\<close>

definition casefold_char :: "char \<Rightarrow> string" where
  "casefold_char c = (if code c = 223 then ''ss'' else [lower_char c])"

definition py_casefold :: "string \<Rightarrow> string" where
  "py_casefold s = concat (map casefold_char s)"

text \<open>\<open>needle in text\<close>.\<close>

fun py_contains :: "string \<Rightarrow> string \<Rightarrow> bool" where
  "py_contains needle [] = (needle = [])"
| "py_contains needle (c # cs) = (py_startswith (c # cs) needle \<or> py_contains needle cs)"

text \<open>
  \<open>re.finditer\<close> for a pattern of one first-character class and any number of characters of a
  second: the matches with the text between the previous match and this one.
\<close>

function rx_tokens :: "(char \<Rightarrow> bool) \<Rightarrow> (char \<Rightarrow> bool) \<Rightarrow> string \<Rightarrow> string \<Rightarrow> (string \<times> string) list" where
  "rx_tokens P Q gap [] = []"
| "rx_tokens P Q gap (c # cs) =
     (if P c then (gap, c # takeWhile Q cs) # rx_tokens P Q [] (dropWhile Q cs)
      else rx_tokens P Q (gap @ [c]) cs)"
  by pat_completeness auto
termination
  by (relation "measure (\<lambda>(_, _, _, s). length s)") (auto simp: le_imp_less_Suc length_dropWhile_le)

text \<open>\<open>re.sub\<close> for a pattern that does not match the empty text.\<close>

function rx_sub :: "rx \<Rightarrow> string \<Rightarrow> char option \<Rightarrow> string \<Rightarrow> string" where
  "rx_sub r rep prev [] = []"
| "rx_sub r rep prev (c # cs) =
     (case rx_ends r (prev, c # cs) of
        [] \<Rightarrow> c # rx_sub r rep (Some c) cs
      | (prev', rest) # _ \<Rightarrow>
          if length rest \<le> length cs then rep @ rx_sub r rep prev' rest
          else c # rx_sub r rep (Some c) cs)"
  by pat_completeness auto
termination
  by (relation "measure (\<lambda>(_, _, _, s). length s)") auto

lemma many_ends_suffix:
  "p \<in> set (many_ends P lo hi prev s) \<Longrightarrow> \<exists>t. s = t @ snd p \<and> list_all P t"
proof (induction P lo hi prev s rule: many_ends.induct)
  case (2 P lo hi prev c cs)
  show ?case
  proof (cases "p = (prev, c # cs)")
    case True
    then show ?thesis by simp
  next
    case False
    with 2 have "P c" "\<exists>t. cs = t @ snd p \<and> list_all P t" by (auto split: if_splits)
    then obtain t where "P c" "cs = t @ snd p" "list_all P t" by blast
    then show ?thesis by (intro exI [of _ "c # t"]) simp
  qed
qed (auto split: if_splits)

text \<open>A match ends at a suffix of where it starts.\<close>

lemma rx_ends_suffix: "p' \<in> set (rx_ends r p) \<Longrightarrow> \<exists>t. snd p = t @ snd p'"
proof (induction r arbitrary: p p')
  case (RSeq r q)
  then obtain m where "m \<in> set (rx_ends r p)" "p' \<in> set (rx_ends q m)" by auto
  with RSeq.IH obtain t u where "snd p = t @ snd m" "snd m = u @ snd p'" by metis
  then show ?case by simp
qed (auto split: list.splits if_splits dest: many_ends_suffix)

end
