(* ===== verification/CompletionGate.thy ===== *)
theory CompletionGate
  imports PyRegex PyJson
begin

text \<open>
  The completion gate, \<open>agent/completion_gate.py\<close>: the evidence a finalization is judged by, the
  decision to let the answer through or to send the checklist once, and the controller that bounds
  how often a repair of the same evidence is asked for. \<open>sha\<close> is the SHA-256 of a text in
  hexadecimal.
\<close>

datatype decision_kind = ALLOW_FINAL | NUDGE_ONCE

definition decision_value :: "decision_kind \<Rightarrow> string" where
  "decision_value k = (case k of ALLOW_FINAL \<Rightarrow> ''ALLOW_FINAL'' | NUDGE_ONCE \<Rightarrow> ''NUDGE_ONCE'')"

datatype action_kind =
  NoAction | ImplementMaterialWork | RunVerification | RepairVerificationFailure | SatisfyAcceptance

definition action_value :: "action_kind \<Rightarrow> string" where
  "action_value k =
     (case k of NoAction \<Rightarrow> ''none'' | ImplementMaterialWork \<Rightarrow> ''implement_material_work''
      | RunVerification \<Rightarrow> ''run_verification''
      | RepairVerificationFailure \<Rightarrow> ''repair_verification_failure''
      | SatisfyAcceptance \<Rightarrow> ''satisfy_acceptance'')"

section \<open>Failure signatures\<close>

definition r_range :: "nat \<Rightarrow> nat \<Rightarrow> rx" where "r_range a b = RClass (\<lambda>c. a \<le> code c \<and> code c \<le> b)"

definition r_digits_n :: "nat \<Rightarrow> rx" where "r_digits_n n = RMany is_digit n (Some n)"

definition r_some_digits :: rx where "r_some_digits = RMany is_digit 1 None"

text \<open>\<open>(?:\.\d+)?\<close>.\<close>

definition r_fraction :: rx where "r_fraction = r_opt (RSeq (r_exact ''.'') r_some_digits)"

definition is_path_char :: "char \<Rightarrow> bool" where
  "is_path_char c = (\<not> py_is_space c \<and> c \<notin> {CHR '':'', CHR '';'', CHR '','', CHR '']'', CHR '')''})"

definition is_hex_digit_i :: "char \<Rightarrow> bool" where
  "is_hex_digit_i c = (is_digit c \<or> (97 \<le> code (lower_char c) \<and> code (lower_char c) \<le> 102))"

definition backslash :: string where "backslash = [CHR 0x5C]"

definition ABS_TEMP_PATH_RE :: rx where
  "ABS_TEMP_PATH_RE =
     r_alt
       [r_seq [r_opt (r_exact ''/private''), r_exact ''/'', r_alt [r_exact ''tmp'', r_exact ''var/folders''],
               r_exact ''/'', RMany is_path_char 1 None],
        r_seq [RClass (\<lambda>c. is_ascii_lower c \<or> is_ascii_upper c), r_exact '':'', r_exact backslash,
               RMany is_path_char 0 None, r_exact backslash, r_alt [r_exact ''Temp'', r_exact ''tmp''],
               r_exact backslash, RMany is_path_char 1 None]]"

definition ISO_TIMESTAMP_RE :: rx where
  "ISO_TIMESTAMP_RE =
     r_seq [RWordEdge, r_digits_n 4, r_exact ''-'', r_digits_n 2, r_exact ''-'', r_digits_n 2,
            RClass (\<lambda>c. c = CHR ''T'' \<or> c = CHR '' ''), r_range 48 50, r_digits_n 1, r_exact '':'',
            r_range 48 53, r_digits_n 1, r_exact '':'', r_range 48 53, r_digits_n 1, r_fraction,
            r_opt (r_alt [r_exact ''Z'',
                          r_seq [RClass (\<lambda>c. c = CHR ''+'' \<or> c = CHR ''-''), r_digits_n 2,
                                 r_opt (r_exact '':''), r_digits_n 2]]),
            RWordEdge]"

definition CLOCK_TIME_RE :: rx where
  "CLOCK_TIME_RE =
     r_seq [RWordEdge, r_opt (r_range 48 50), r_digits_n 1, r_exact '':'', r_range 48 53, r_digits_n 1,
            r_opt (r_seq [r_exact '':'', r_range 48 53, r_digits_n 1, r_fraction]), RWordEdge]"

definition DURATION_RE :: rx where
  "DURATION_RE =
     r_seq [RWordEdge, r_some_digits, r_fraction, RMany py_is_space 0 (Some 1),
            r_alt (map r_lit [''ms'', ''s'', ''sec'', ''secs'', ''seconds'', ''msec'']), RWordEdge]"

definition r_hex_n :: "nat \<Rightarrow> rx" where "r_hex_n n = RMany is_hex_digit_i n (Some n)"

definition UUID_RE :: rx where
  "UUID_RE =
     r_seq [RWordEdge, r_hex_n 8, r_exact ''-'', r_hex_n 4, r_exact ''-'', r_hex_n 4, r_exact ''-'',
            r_hex_n 4, r_exact ''-'', r_hex_n 12, RWordEdge]"

definition HEX_ADDRESS_RE :: rx where
  "HEX_ADDRESS_RE = r_seq [RWordEdge, r_lit ''0x'', RMany is_hex_digit_i 6 None, RWordEdge]"

definition LONG_NUMBER_RE :: rx where
  "LONG_NUMBER_RE = r_seq [RWordEdge, RMany is_digit 5 None, RWordEdge]"

definition rx_sub_all :: "rx \<Rightarrow> string \<Rightarrow> string \<Rightarrow> string" where
  "rx_sub_all r rep s = rx_sub r rep None s"

definition normalize_command :: "string \<Rightarrow> string" where
  "normalize_command command = py_join '' '' (py_words (py_strip command))"

definition normalize_completion_gate_failure_signature :: "string \<Rightarrow> string" where
  "normalize_completion_gate_failure_signature txt0 =
     (let clean = py_strip txt0 in
      if clean = [] then []
      else py_strip
        (rx_sub_all r_spaces '' ''
        (rx_sub_all LONG_NUMBER_RE ''<number>''
        (rx_sub_all HEX_ADDRESS_RE ''<hex>''
        (rx_sub_all UUID_RE ''<uuid>''
        (rx_sub_all DURATION_RE ''<duration>''
        (rx_sub_all CLOCK_TIME_RE ''<time>''
        (rx_sub_all ISO_TIMESTAMP_RE ''<timestamp>''
        (rx_sub_all ABS_TEMP_PATH_RE ''<temp-path>'' clean)))))))))"

section \<open>The snapshot\<close>

record gate_snapshot =
  gs_stage :: string
  gs_problems :: "string list"
  gs_material_edit_count :: int
  gs_material_edit_tools :: "string list"
  gs_touched_repo_paths :: "string list"
  gs_edit_generation :: int
  gs_last_successful_generation :: "int option"
  gs_expected_commands :: "string list"
  gs_covered_commands :: "string list"
  gs_missing_commands :: "string list"
  gs_failed_signatures :: "string list"
  gs_coverage_stale :: bool
  gs_last_passed :: "bool option"
  gs_last_failure_category :: string
  gs_accepted_blocker :: bool
  gs_blocked_response :: bool
  gs_blocked_allows_completion :: bool
  gs_verification_expected :: bool
  gs_final_text_present :: bool
  gs_repo_activity :: bool
  gs_acceptance_counts :: "(string \<times> int) list"
  gs_acceptance_problems :: "string list"
  gs_acceptance_signatures :: "string list"

definition strings :: "string list \<Rightarrow> pyval" where
  "strings xs = PList (map PStr xs)"

definition snapshot_payload :: "gate_snapshot \<Rightarrow> (pykey \<times> pyval) list" where
  "snapshot_payload s =
     [(KStr ''stage'', PStr (gs_stage s)),
      (KStr ''problems'', strings (gs_problems s)),
      (KStr ''material_edit_count'', PInt (gs_material_edit_count s)),
      (KStr ''material_edit_tools'', strings (gs_material_edit_tools s)),
      (KStr ''touched_repo_paths'', strings (gs_touched_repo_paths s)),
      (KStr ''verification_relevant_edit_generation'', PInt (gs_edit_generation s)),
      (KStr ''last_successful_verification_generation'',
       case gs_last_successful_generation s of None \<Rightarrow> PNone | Some n \<Rightarrow> PInt n),
      (KStr ''expected_verification_commands'', strings (gs_expected_commands s)),
      (KStr ''covered_verification_commands'', strings (gs_covered_commands s)),
      (KStr ''missing_verification_commands'', strings (gs_missing_commands s)),
      (KStr ''failed_verification_signatures'', strings (gs_failed_signatures s)),
      (KStr ''verification_coverage_stale'', PBool (gs_coverage_stale s)),
      (KStr ''last_verification_passed'', case gs_last_passed s of None \<Rightarrow> PNone | Some b \<Rightarrow> PBool b),
      (KStr ''last_verification_failure_category'', PStr (gs_last_failure_category s)),
      (KStr ''accepted_blocker'', PBool (gs_accepted_blocker s)),
      (KStr ''blocked_response'', PBool (gs_blocked_response s)),
      (KStr ''blocked_response_allows_completion'', PBool (gs_blocked_allows_completion s)),
      (KStr ''verification_expected'', PBool (gs_verification_expected s)),
      (KStr ''final_text_present'', PBool (gs_final_text_present s)),
      (KStr ''repo_tool_activity_observed'', PBool (gs_repo_activity s)),
      (KStr ''acceptance_status_counts'',
       PDict (map (\<lambda>(k, n). (KStr k, PInt n)) (sort (gs_acceptance_counts s)))),
      (KStr ''acceptance_problems'', strings (gs_acceptance_problems s)),
      (KStr ''acceptance_failure_signatures'', strings (gs_acceptance_signatures s))]"

text \<open>
  What a snapshot is built from: the keyword arguments, with sets as lists of their members and the
  dictionary of failed commands as its items.
\<close>

record gate_evidence =
  ge_stage :: string
  ge_problems :: "string list"
  ge_material_edit_count :: int
  ge_material_edit_tools :: "string list"
  ge_touched_repo_paths :: "string list"
  ge_edit_generation :: int
  ge_last_successful_generation :: "int option"
  ge_expected_commands :: "string list"
  ge_covered_commands :: "string list"
  ge_missing_commands :: "string list"
  ge_failed_snippets :: "(string \<times> string) list"
  ge_coverage_stale :: bool
  ge_last_passed :: "bool option"
  ge_last_failure_category :: string
  ge_accepted_blocker :: bool
  ge_blocked_response :: bool
  ge_blocked_allows_completion :: bool
  ge_verification_expected :: bool
  ge_final_text :: string
  ge_repo_activity :: bool
  ge_acceptance_counts :: "(string \<times> int) list"
  ge_acceptance_problems :: "string list"
  ge_acceptance_summaries :: "string list"

definition is_colon_or_blank :: "char \<Rightarrow> bool" where
  "is_colon_or_blank c = (c = CHR '':'' \<or> c = CHR '' '')"

definition failed_signature :: "string \<times> string \<Rightarrow> string option" where
  "failed_signature cs =
     (let command = normalize_command (fst cs);
          snippet = normalize_completion_gate_failure_signature (snd cs)
      in if command \<noteq> [] \<or> snippet \<noteq> []
         then Some (py_strip_of is_colon_or_blank (command @ '': '' @ snippet)) else None)"

definition sorted_texts :: "string list \<Rightarrow> string list" where
  "sorted_texts xs = sort (filter (\<lambda>x. x \<noteq> []) xs)"

definition sorted_commands :: "string list \<Rightarrow> string list" where
  "sorted_commands xs = sort (map normalize_command (filter (\<lambda>x. x \<noteq> []) xs))"

definition build_completion_gate_snapshot :: "gate_evidence \<Rightarrow> gate_snapshot" where
  "build_completion_gate_snapshot e =
     \<lparr>gs_stage = (if ge_stage e = [] then ''generic'' else ge_stage e),
      gs_problems = ge_problems e,
      gs_material_edit_count = max 0 (ge_material_edit_count e),
      gs_material_edit_tools = sorted_texts (ge_material_edit_tools e),
      gs_touched_repo_paths = sorted_texts (ge_touched_repo_paths e),
      gs_edit_generation = max 0 (ge_edit_generation e),
      gs_last_successful_generation = ge_last_successful_generation e,
      gs_expected_commands = sorted_commands (ge_expected_commands e),
      gs_covered_commands = sorted_commands (ge_covered_commands e),
      gs_missing_commands = sorted_commands (ge_missing_commands e),
      gs_failed_signatures = sort (List.map_filter failed_signature (sort (ge_failed_snippets e))),
      gs_coverage_stale = ge_coverage_stale e,
      gs_last_passed = ge_last_passed e,
      gs_last_failure_category = ge_last_failure_category e,
      gs_accepted_blocker = ge_accepted_blocker e,
      gs_blocked_response = ge_blocked_response e,
      gs_blocked_allows_completion = ge_blocked_allows_completion e,
      gs_verification_expected = ge_verification_expected e,
      gs_final_text_present = (py_strip (ge_final_text e) \<noteq> []),
      gs_repo_activity = ge_repo_activity e,
      gs_acceptance_counts = ge_acceptance_counts e,
      gs_acceptance_problems = sorted_texts (ge_acceptance_problems e),
      gs_acceptance_signatures = sort (map normalize_completion_gate_failure_signature
        (filter (\<lambda>x. py_strip x \<noteq> []) (ge_acceptance_summaries e)))\<rparr>"

section \<open>The controller\<close>

record gate_controller =
  gc_checklist_sent :: bool
  gc_rejected :: int
  gc_last_decision_kind :: string
  gc_last_reason :: string
  gc_last_stage :: string
  gc_last_problems :: "string list"
  gc_last_snapshot :: "(pykey \<times> pyval) list"
  gc_by_generation :: "(int \<times> nat) list"
  gc_by_evidence :: "(string \<times> nat) list"

definition new_controller :: gate_controller where
  "new_controller = \<lparr>gc_checklist_sent = False, gc_rejected = 0, gc_last_decision_kind = [],
     gc_last_reason = [], gc_last_stage = [], gc_last_problems = [], gc_last_snapshot = [],
     gc_by_generation = [], gc_by_evidence = []\<rparr>"

definition STABLE_EVIDENCE_KEYS :: "string list" where
  "STABLE_EVIDENCE_KEYS =
     [''verification_relevant_edit_generation'', ''problems'', ''missing_verification_commands'',
      ''covered_verification_commands'', ''failed_verification_signatures'', ''acceptance_problems'',
      ''acceptance_failure_signatures'', ''acceptance_status_counts'']"

definition stable_evidence :: "(pykey \<times> pyval) list \<Rightarrow> pyval" where
  "stable_evidence snapshot = PDict (map (\<lambda>k. (KStr k, dget snapshot k)) STABLE_EVIDENCE_KEYS)"

text \<open>\<open>json.dumps\<close> with the default separators, on a value that can be encoded.\<close>

fun json_text :: "pyval \<Rightarrow> string"
and json_text_list :: "pyval list \<Rightarrow> string"
and json_text_items :: "(pykey \<times> pyval) list \<Rightarrow> string" where
  "json_text (PList xs) = CHR ''['' # json_text_list xs @ '']''"
| "json_text (PTuple xs) = CHR ''['' # json_text_list xs @ '']''"
| "json_text (PDict kvs) = CHR ''{'' # json_text_items kvs @ ''}''"
| "json_text v = json_enc True v"
| "json_text_list [] = []"
| "json_text_list (v # vs) = json_text v @ (if vs = [] then [] else '', '' @ json_text_list vs)"
| "json_text_items [] = []"
| "json_text_items ((k, v) # kvs) =
     json_enc_str True (key_text k) @ '': '' @ json_text v @
       (if kvs = [] then [] else '', '' @ json_text_items kvs)"

definition evidence_signature :: "(string \<Rightarrow> string) \<Rightarrow> (pykey \<times> pyval) list \<Rightarrow> py_exc + string" where
  "evidence_signature sha snapshot =
     (let stable = stable_evidence snapshot in
      if json_ok True stable then Inr (sha (json_text (json_sort stable))) else Inl TypeError)"

definition claim_generation :: "(pykey \<times> pyval) list \<Rightarrow> py_exc + int" where
  "claim_generation snapshot =
     (let v = dget snapshot ''verification_relevant_edit_generation'' in
      if py_truthy v then py_int v else Inr 0)"

definition rounds :: "('k \<times> nat) list \<Rightarrow> 'k \<Rightarrow> nat" where
  "rounds counts k = (case map_of counts k of None \<Rightarrow> 0 | Some n \<Rightarrow> n)"

text \<open>The refusal, \<open>None\<close> for a repair that may go ahead, which is then counted.\<close>

definition claim_repair ::
    "(string \<Rightarrow> string) \<Rightarrow> (pykey \<times> pyval) list \<Rightarrow> gate_controller \<Rightarrow>
     py_exc + string option \<times> gate_controller" where
  "claim_repair sha snapshot c =
     res_bind (claim_generation snapshot) (\<lambda>generation.
     res_bind (evidence_signature sha snapshot) (\<lambda>signature.
       if rounds (gc_by_evidence c) signature \<ge> 2
       then Inr (Some ''unchanged_evidence_repair_exhausted'', c)
       else if rounds (gc_by_generation c) generation \<ge> 3
       then Inr (Some ''shared_generation_repair_exhausted'', c)
       else Inr (None, c\<lparr>
         gc_by_generation :=
           alist_put generation (rounds (gc_by_generation c) generation + 1) (gc_by_generation c),
         gc_by_evidence :=
           alist_put signature (rounds (gc_by_evidence c) signature + 1) (gc_by_evidence c)\<rparr>)))"

definition controller_payload :: "gate_controller \<Rightarrow> (pykey \<times> pyval) list" where
  "controller_payload c =
     [(KStr ''checklist_sent'', PBool (gc_checklist_sent c)),
      (KStr ''total_rejected_finalizations'', PInt (gc_rejected c)),
      (KStr ''last_decision_kind'', PStr (gc_last_decision_kind c)),
      (KStr ''last_reason'', PStr (gc_last_reason c)),
      (KStr ''last_stage'', PStr (gc_last_stage c)),
      (KStr ''last_problems'', strings (gc_last_problems c)),
      (KStr ''last_snapshot_payload'', PDict (gc_last_snapshot c)),
      (KStr ''repair_rounds_by_generation'',
       PDict (map (\<lambda>(g, n). (KInt g, PInt (int n))) (gc_by_generation c)))]"

section \<open>Decisions\<close>

record gate_decision =
  gd_kind :: decision_kind
  gd_stage :: string
  gd_problems :: "string list"
  gd_reason :: string
  gd_action :: string
  gd_tool_names :: "string list"
  gd_snapshot :: "(pykey \<times> pyval) list"
  gd_already_sent :: bool

definition completion_gate_decision_payload :: "gate_decision \<Rightarrow> (pykey \<times> pyval) list" where
  "completion_gate_decision_payload d =
     [(KStr ''decision'', PStr (decision_value (gd_kind d))),
      (KStr ''stage'', PStr (gd_stage d)),
      (KStr ''problems'', strings (gd_problems d)),
      (KStr ''reason'', PStr (gd_reason d)),
      (KStr ''recommended_action'', PStr (gd_action d)),
      (KStr ''preferred_tool_names'', strings (gd_tool_names d)),
      (KStr ''snapshot_payload'', PDict (gd_snapshot d)),
      (KStr ''checklist_already_sent'', PBool (gd_already_sent d))]"

definition recommended_action_for_snapshot :: "gate_snapshot \<Rightarrow> string" where
  "recommended_action_for_snapshot s =
     action_value
       (let problems = set (gs_problems s) in
        if ''no_material_edits'' \<in> problems then ImplementMaterialWork
        else if ''verification_failed'' \<in> problems then RepairVerificationFailure
        else if ''verification_incomplete'' \<in> problems \<or> ''verification_not_attempted'' \<in> problems
        then RunVerification
        else if ''acceptance_criteria_failed'' \<in> problems \<or> ''unexpected_scope_changes'' \<in> problems \<or>
                ''acceptance_criteria_unverified'' \<in> problems \<or>
                ''acceptance_evidence_insufficient'' \<in> problems
        then SatisfyAcceptance
        else NoAction)"

definition decide_completion_gate :: "gate_controller \<Rightarrow> gate_snapshot \<Rightarrow> bool \<Rightarrow> gate_decision" where
  "decide_completion_gate c s budget_exhausted =
     (if gs_problems s = [] then
        \<lparr>gd_kind = ALLOW_FINAL, gd_stage = gs_stage s, gd_problems = [],
         gd_reason = ''requirements_satisfied'', gd_action = action_value NoAction, gd_tool_names = [],
         gd_snapshot = snapshot_payload s, gd_already_sent = False\<rparr>
      else if gc_checklist_sent c then
        \<lparr>gd_kind = ALLOW_FINAL, gd_stage = gs_stage s, gd_problems = gs_problems s,
         gd_reason = ''advisory_checklist_already_sent'', gd_action = recommended_action_for_snapshot s,
         gd_tool_names = [], gd_snapshot = snapshot_payload s, gd_already_sent = True\<rparr>
      else
        \<lparr>gd_kind = NUDGE_ONCE, gd_stage = gs_stage s, gd_problems = gs_problems s,
         gd_reason = ''advisory_checklist_needed'', gd_action = recommended_action_for_snapshot s,
         gd_tool_names = [], gd_snapshot = snapshot_payload s, gd_already_sent = False\<rparr>)"

definition record_completion_gate_decision :: "gate_decision \<Rightarrow> gate_controller \<Rightarrow> gate_controller" where
  "record_completion_gate_decision d c =
     (let c' = c\<lparr>gc_last_decision_kind := decision_value (gd_kind d), gc_last_reason := gd_reason d,
                 gc_last_stage := gd_stage d, gc_last_problems := gd_problems d,
                 gc_last_snapshot := gd_snapshot d\<rparr>
      in if gd_kind d = NUDGE_ONCE
         then c'\<lparr>gc_checklist_sent := True, gc_rejected := gc_rejected c' + 1\<rparr> else c')"

section \<open>Repairs are bounded\<close>

text \<open>The claims made one after the other on a controller, with what each answered.\<close>

fun claim_all ::
    "(string \<Rightarrow> string) \<Rightarrow> (pykey \<times> pyval) list list \<Rightarrow> gate_controller \<Rightarrow> (py_exc + string option) list" where
  "claim_all sha [] c = []"
| "claim_all sha (s # ss) c =
     (case claim_repair sha s c of
        Inl e \<Rightarrow> Inl e # claim_all sha ss c
      | Inr (r, c') \<Rightarrow> Inr r # claim_all sha ss c')"

definition claim_keys :: "(string \<Rightarrow> string) \<Rightarrow> (pykey \<times> pyval) list \<Rightarrow> (int \<times> string) option" where
  "claim_keys sha s =
     (case (claim_generation s, evidence_signature sha s) of
        (Inr g, Inr e) \<Rightarrow> Some (g, e) | _ \<Rightarrow> None)"

text \<open>
  The reference: the repairs granted so far as a history of generations and signatures, and whether one
  more is granted.
\<close>

definition may_repair :: "(int \<times> string) list \<Rightarrow> int \<times> string \<Rightarrow> bool" where
  "may_repair history k \<longleftrightarrow>
     length (filter (\<lambda>h. snd h = snd k) history) < 2 \<and> length (filter (\<lambda>h. fst h = fst k) history) < 3"

fun granted :: "(int \<times> string) option list \<Rightarrow> (int \<times> string) list \<Rightarrow> bool list" where
  "granted [] history = []"
| "granted (None # ks) history = False # granted ks history"
| "granted (Some k # ks) history =
     (if may_repair history k then True # granted ks (history @ [k]) else False # granted ks history)"

definition counts_match :: "(int \<times> string) list \<Rightarrow> gate_controller \<Rightarrow> bool" where
  "counts_match history c \<longleftrightarrow>
     (\<forall>g. rounds (gc_by_generation c) g = length (filter (\<lambda>h. fst h = g) history)) \<and>
     (\<forall>e. rounds (gc_by_evidence c) e = length (filter (\<lambda>h. snd h = e) history))"

lemma rounds_put: "rounds (alist_put k n counts) k' = (if k' = k then n else rounds counts k')"
  by (simp add: rounds_def)

lemma claim_repair_cases:
  "claim_repair sha s c =
     (case claim_keys sha s of
        None \<Rightarrow> Inl (case claim_generation s of Inl e \<Rightarrow> e | Inr _ \<Rightarrow> projl (evidence_signature sha s))
      | Some (g, e) \<Rightarrow>
          if rounds (gc_by_evidence c) e \<ge> 2 then Inr (Some ''unchanged_evidence_repair_exhausted'', c)
          else if rounds (gc_by_generation c) g \<ge> 3
          then Inr (Some ''shared_generation_repair_exhausted'', c)
          else Inr (None, c\<lparr>gc_by_generation := alist_put g (rounds (gc_by_generation c) g + 1) (gc_by_generation c),
                             gc_by_evidence := alist_put e (rounds (gc_by_evidence c) e + 1) (gc_by_evidence c)\<rparr>))"
  by (cases "claim_generation s"; cases "evidence_signature sha s")
    (simp_all add: claim_repair_def claim_keys_def)

lemma claims_granted:
  "counts_match history c \<Longrightarrow>
     map (\<lambda>r. r = Inr None) (claim_all sha ss c) = granted (map (claim_keys sha) ss) history"
proof (induction ss arbitrary: c history)
  case (Cons s ss)
  show ?case
  proof (cases "claim_keys sha s")
    case None
    with Cons show ?thesis by (simp add: claim_repair_cases)
  next
    case (Some k)
    obtain g e where k: "k = (g, e)" by (cases k)
    have m: "may_repair history k \<longleftrightarrow>
        \<not> rounds (gc_by_evidence c) e \<ge> 2 \<and> \<not> rounds (gc_by_generation c) g \<ge> 3"
      using Cons.prems by (simp add: may_repair_def counts_match_def k not_le)
    show ?thesis
    proof (cases "may_repair history k")
      case True
      let ?c = "c\<lparr>gc_by_generation := alist_put g (rounds (gc_by_generation c) g + 1) (gc_by_generation c),
                    gc_by_evidence := alist_put e (rounds (gc_by_evidence c) e + 1) (gc_by_evidence c)\<rparr>"
      have "counts_match (history @ [k]) ?c"
        using Cons.prems by (simp add: counts_match_def rounds_put k)
      with True m Some k Cons.IH [of "history @ [k]" ?c] show ?thesis by (simp add: claim_repair_cases)
    next
      case False
      with m Some k Cons.IH [OF Cons.prems] show ?thesis by (auto simp: claim_repair_cases)
    qed
  qed
qed simp

definition granted_keys :: "(int \<times> string) option list \<Rightarrow> (int \<times> string) list \<Rightarrow> (int \<times> string) list" where
  "granted_keys ks history =
     List.map_filter (\<lambda>(k, b). if b then k else None) (zip ks (granted ks history))"

definition within_bounds :: "(int \<times> string) list \<Rightarrow> bool" where
  "within_bounds history \<longleftrightarrow>
     (\<forall>g. length (filter (\<lambda>h. fst h = g) history) \<le> 3) \<and>
     (\<forall>e. length (filter (\<lambda>h. snd h = e) history) \<le> 2)"

lemma granted_keys_Cons:
  "granted_keys (k # ks) history =
     (case k of None \<Rightarrow> granted_keys ks history
      | Some k' \<Rightarrow> if may_repair history k' then k' # granted_keys ks (history @ [k'])
                   else granted_keys ks history)"
  by (cases k) (simp_all add: granted_keys_def map_filter_simps)

lemma may_repair_within: "within_bounds history \<Longrightarrow> may_repair history k \<Longrightarrow> within_bounds (history @ [k])"
  by (auto simp: within_bounds_def may_repair_def)

lemma granted_within: "within_bounds history \<Longrightarrow> within_bounds (history @ granted_keys ks history)"
proof (induction ks arbitrary: history)
  case Nil
  then show ?case by (simp add: granted_keys_def map_filter_simps)
next
  case (Cons k ks)
  show ?case
  proof (cases k)
    case None
    with Cons show ?thesis by (simp add: granted_keys_Cons)
  next
    case (Some k')
    show ?thesis
    proof (cases "may_repair history k'")
      case True
      with Cons.IH [OF may_repair_within [OF Cons.prems True]] Some show ?thesis
        by (simp add: granted_keys_Cons)
    next
      case False
      with Cons Some show ?thesis by (simp add: granted_keys_Cons)
    qed
  qed
qed

lemma count_true: "length ks = length bs \<Longrightarrow> list_all2 (\<lambda>k b. b \<longrightarrow> k \<noteq> None) ks bs \<Longrightarrow>
    length (filter (\<lambda>b. b) bs) = length (List.map_filter (\<lambda>(k, b). if b then k else None) (zip ks bs))"
  by (induction ks bs rule: list_induct2) (auto simp: map_filter_simps)

lemma granted_some: "list_all2 (\<lambda>k b. b \<longrightarrow> k \<noteq> None) ks (granted ks history)"
  by (induction ks history rule: granted.induct) auto

lemma length_granted: "length (filter (\<lambda>b. b) (granted ks history)) = length (granted_keys ks history)"
  unfolding granted_keys_def
  by (rule count_true [OF list_all2_lengthD [OF granted_some] granted_some])

lemma set_granted_keys: "Some ` set (granted_keys ks history) \<subseteq> set ks"
  by (auto simp: granted_keys_def List.map_filter_def dest!: set_zip_leftD split: if_splits)

lemma length_by_class:
  assumes "\<And>g. length (filter (\<lambda>x. f x = g) xs) \<le> n"
  shows "length xs \<le> n * card (f ` set xs)"
proof -
  have "length xs = sum (count_list (map f xs)) (f ` set xs)"
    using sum_count_set [of "map f xs" "f ` set xs"] by simp
  also have "\<dots> \<le> sum (\<lambda>_. n) (f ` set xs)"
    using assms by (intro sum_mono) (simp add: count_list_eq_length_filter filter_map comp_def eq_commute)
  finally show ?thesis by (simp add: mult.commute)
qed

lemma granted_keys_card:
  assumes "within_bounds (granted_keys ks [])"
  shows "length (granted_keys ks []) \<le> 3 * card {g. \<exists>e. Some (g, e) \<in> set ks}"
proof -
  have sub: "fst ` set (granted_keys ks []) \<subseteq> {g. \<exists>e. Some (g, e) \<in> set ks}"
    using set_granted_keys [of ks "[]"] by force
  have "{g. \<exists>e. Some (g, e) \<in> set ks} \<subseteq> (fst \<circ> the) ` set ks" by force
  then have "finite {g. \<exists>e. Some (g, e) \<in> set ks}" by (rule finite_subset) simp
  then have "card (fst ` set (granted_keys ks [])) \<le> card {g. \<exists>e. Some (g, e) \<in> set ks}"
    using sub by (rule card_mono)
  moreover have "length (granted_keys ks []) \<le> 3 * card (fst ` set (granted_keys ks []))"
    using assms by (intro length_by_class) (simp add: within_bounds_def)
  ultimately show ?thesis by linarith
qed

text \<open>
  Finalization repairs end: the claims made on a new controller are granted exactly as the reference
  says, which looks at the history of granted repairs alone: fewer than two on the same evidence
  and fewer than three for the same generation of edits. So at most two repairs are granted per
  evidence signature, at most three per generation, and in total at most three times as many as
  there are generations; a snapshot that cannot be encoded is never granted.
\<close>

theorem repairs_are_bounded:
  fixes snapshots :: "(pykey \<times> pyval) list list" and sha :: "string \<Rightarrow> string"
  defines "ks \<equiv> map (claim_keys sha) snapshots"
    and "answers \<equiv> map (\<lambda>r. r = Inr None) (claim_all sha snapshots new_controller)"
  shows "answers = granted ks [] \<and> length (filter (\<lambda>b. b) answers) = length (granted_keys ks []) \<and>
    length (filter (\<lambda>k. fst k = g) (granted_keys ks [])) \<le> 3 \<and>
    length (filter (\<lambda>k. snd k = e) (granted_keys ks [])) \<le> 2 \<and>
    length (granted_keys ks []) \<le> 3 * card {g. \<exists>e. Some (g, e) \<in> set ks}"
proof -
  have "counts_match [] new_controller" by (simp add: counts_match_def new_controller_def rounds_def)
  then have answers: "answers = granted ks []" unfolding answers_def ks_def by (rule claims_granted)
  have "within_bounds ([] @ granted_keys ks [])" by (rule granted_within) (simp add: within_bounds_def)
  then have within: "within_bounds (granted_keys ks [])" by simp
  then show ?thesis
    using answers length_granted [of ks "[]"] granted_keys_card [OF within]
    by (simp add: within_bounds_def)
qed

section \<open>One checklist\<close>

text \<open>A run of finalizations: each is decided on and the decision recorded.\<close>

fun finalize_all :: "gate_snapshot list \<Rightarrow> gate_controller \<Rightarrow> gate_decision list \<times> gate_controller" where
  "finalize_all [] c = ([], c)"
| "finalize_all (s # ss) c =
     (let d = decide_completion_gate c s False;
          (ds, c') = finalize_all ss (record_completion_gate_decision d c)
      in (d # ds, c'))"

lemma length_finalize: "length (fst (finalize_all ss c)) = length ss"
  by (induction ss arbitrary: c) (simp_all add: split_beta Let_def)

lemma finalize_sent:
  "gc_checklist_sent c \<Longrightarrow>
     list_all (\<lambda>d. gd_kind d = ALLOW_FINAL) (fst (finalize_all ss c)) \<and>
     gc_rejected (snd (finalize_all ss c)) = gc_rejected c"
proof (induction ss arbitrary: c)
  case (Cons s ss)
  then show ?case
    using Cons.IH [of "record_completion_gate_decision (decide_completion_gate c s False) c"]
    by (simp add: decide_completion_gate_def record_completion_gate_decision_def split_beta Let_def)
qed simp

lemma finalize_unsent:
  "\<not> gc_checklist_sent c \<Longrightarrow> i < length ss \<Longrightarrow>
     (gd_kind (fst (finalize_all ss c) ! i) = NUDGE_ONCE \<longleftrightarrow>
        gs_problems (ss ! i) \<noteq> [] \<and> (\<forall>j<i. gs_problems (ss ! j) = [])) \<and>
     gc_rejected (snd (finalize_all ss c)) =
       gc_rejected c + (if list_ex (\<lambda>s. gs_problems s \<noteq> []) ss then 1 else 0)"
proof (induction ss arbitrary: c i)
  case (Cons s ss)
  let ?d = "decide_completion_gate c s False"
  let ?c = "record_completion_gate_decision ?d c"
  show ?case
  proof (cases "gs_problems s = []")
    case True
    then have c: "\<not> gc_checklist_sent ?c" "gc_rejected ?c = gc_rejected c" "gd_kind ?d = ALLOW_FINAL"
      using Cons.prems
      by (simp_all add: decide_completion_gate_def record_completion_gate_decision_def Let_def)
    show ?thesis
    proof (cases i)
      case 0
      have "gc_rejected (snd (finalize_all ss ?c)) =
          gc_rejected ?c + (if list_ex (\<lambda>s. gs_problems s \<noteq> []) ss then 1 else 0)"
        using Cons.IH [OF c(1), of 0] by (cases ss) auto
      with 0 True c show ?thesis by (simp add: split_beta Let_def)
    next
      case (Suc k)
      with Cons.IH [OF c(1), of k] Cons.prems True c show ?thesis
        by (auto simp: split_beta Let_def less_Suc_eq_0_disj)
    qed
  next
    case False
    then have c: "gc_checklist_sent ?c" "gc_rejected ?c = gc_rejected c + 1" "gd_kind ?d = NUDGE_ONCE"
      using Cons.prems
      by (simp_all add: decide_completion_gate_def record_completion_gate_decision_def Let_def)
    from finalize_sent [OF c(1), of ss] Cons.prems False c show ?thesis
      using length_finalize [of ss ?c] by (cases i) (auto simp: split_beta Let_def list_all_length)
  qed
qed simp

text \<open>
  An incomplete turn is sent back once: over any run of finalizations on a new controller the
  checklist is sent at exactly the first one whose snapshot names a problem, every other is let
  through, and the count of rejected finalizations says whether there was one. A snapshot without
  problems is always let through with nothing to do.
\<close>

theorem checklist_sent_once:
  assumes "i < length ss"
  shows "(gd_kind (fst (finalize_all ss new_controller) ! i) = NUDGE_ONCE \<longleftrightarrow>
      gs_problems (ss ! i) \<noteq> [] \<and> (\<forall>j<i. gs_problems (ss ! j) = [])) \<and>
    gc_rejected (snd (finalize_all ss new_controller)) = (if \<exists>s\<in>set ss. gs_problems s \<noteq> [] then 1 else 0) \<and>
    (gs_problems s = [] \<longrightarrow>
       gd_kind (decide_completion_gate c s budget_exhausted) = ALLOW_FINAL \<and>
       gd_action (decide_completion_gate c s budget_exhausted) = action_value NoAction)"
  using finalize_unsent [of new_controller i ss] assms
  by (simp add: new_controller_def list_ex_iff decide_completion_gate_def)

definition sample_evidence :: "string list \<Rightarrow> string \<Rightarrow> gate_evidence" where
  "sample_evidence problems snippet =
     \<lparr>ge_stage = [], ge_problems = problems, ge_material_edit_count = 1,
      ge_material_edit_tools = [''fs_edit''], ge_touched_repo_paths = [''a.py''], ge_edit_generation = 2,
      ge_last_successful_generation = None, ge_expected_commands = [''pytest''],
      ge_covered_commands = [], ge_missing_commands = [''pytest''],
      ge_failed_snippets = [(''pytest'', snippet)], ge_coverage_stale = False, ge_last_passed = Some False,
      ge_last_failure_category = [], ge_accepted_blocker = False, ge_blocked_response = False,
      ge_blocked_allows_completion = False, ge_verification_expected = True, ge_final_text = ''done'',
      ge_repo_activity = True, ge_acceptance_counts = [], ge_acceptance_problems = [],
      ge_acceptance_summaries = []\<rparr>"

definition sample_snapshot :: "string list \<Rightarrow> string \<Rightarrow> gate_snapshot" where
  "sample_snapshot problems snippet = build_completion_gate_snapshot (sample_evidence problems snippet)"

theorem checklist_sent_once_witness:
  "gd_kind (fst (finalize_all [sample_snapshot [] [], sample_snapshot [''verification_failed''] [],
      sample_snapshot [''verification_failed''] []] new_controller) ! 1) = NUDGE_ONCE"
  using checklist_sent_once [of 1 "[sample_snapshot [] [], sample_snapshot [''verification_failed''] [],
      sample_snapshot [''verification_failed''] []]"]
  by (simp add: sample_snapshot_def sample_evidence_def build_completion_gate_snapshot_def)

lemma same_evidence_signature:
  "normalize_completion_gate_failure_signature
     ''FAILED /tmp/pytest-3/a.py in 0.31s at 2026-01-02 10:11:12'' =
   normalize_completion_gate_failure_signature
     ''FAILED  /private/tmp/pytest-17/a.py in 12 secs at 2026-01-02T23:59:01.5Z''"
  by code_simp

lemma sample_claims:
  "claim_all (take 40) (replicate 3 [(KStr ''problems'', PList [PStr ''x''])]) new_controller =
     [Inr None, Inr None, Inr (Some ''unchanged_evidence_repair_exhausted'')]"
  by code_simp

end
