(* ===== verification/TransportRetry.thy ===== *)
theory TransportRetry
  imports PyRegex
begin

text \<open>
  Retrying a response whose connection dropped, \<open>transport_retry.py\<close>: which errors count as such a
  drop, how long to wait before each retry, and how many retries there are. Exceptions are objects
  that refer to one another: a store maps the identity of an exception to its type's name, its text,
  whether it is one of the two built-in connection errors, its tag, and its cause and context.
\<close>

definition STOP_REASON_TRANSPORT_CONNECTION_FAILURE :: string where
  "STOP_REASON_TRANSPORT_CONNECTION_FAILURE = ''transport_connection_failure''"

definition DEFAULT_CONNECTION_DROP_MAX_RETRIES :: int where "DEFAULT_CONNECTION_DROP_MAX_RETRIES = 5"
definition DEFAULT_CONNECTION_DROP_BASE_DELAY_SECONDS :: rat where
  "DEFAULT_CONNECTION_DROP_BASE_DELAY_SECONDS = 2"
definition DEFAULT_CONNECTION_DROP_MAX_DELAY_SECONDS :: rat where
  "DEFAULT_CONNECTION_DROP_MAX_DELAY_SECONDS = 32"
definition JITTER_RATIO :: rat where "JITTER_RATIO = 1 / 4"

definition CONNECTION_DROP_MESSAGE_MARKERS :: "string list" where
  "CONNECTION_DROP_MESSAGE_MARKERS =
     [''peer closed connection'', ''incomplete chunked read'',
      ''server disconnected without sending complete message body'', ''server disconnected'',
      ''remote protocol error'', ''connection reset'', ''connection aborted'',
      ''response body ended early'', ''remoteprotocolerror'', ''connectionreseterror'',
      ''connectionabortederror'', ''incompleteread'', ''chunkedencodingerror'']"

definition CONNECTION_DROP_TYPE_NAMES :: "string list" where
  "CONNECTION_DROP_TYPE_NAMES =
     [''ChunkedEncodingError'', ''ConnectionAbortedError'', ''ConnectionResetError'', ''IncompleteRead'',
      ''ProtocolError'', ''RemoteProtocolError'']"

section \<open>Errors\<close>

record exc =
  ex_type_name :: string
  ex_message :: string
  ex_connection_error :: bool
  ex_tagged :: bool
  ex_cause :: "nat option"
  ex_context :: "nat option"

type_synonym store = "exc list"

definition next_exc :: "store \<Rightarrow> nat \<Rightarrow> nat option" where
  "next_exc st e = (case ex_cause (st ! e) of Some c \<Rightarrow> Some c | None \<Rightarrow> ex_context (st ! e))"

text \<open>
  The generator: the exception, then what it was raised from, until none is left or one comes up
  again. An identity outside the store does not occur; it ends the walk.
\<close>

function exception_chain :: "store \<Rightarrow> nat list \<Rightarrow> nat option \<Rightarrow> nat list" where
  "exception_chain st seen None = []"
| "exception_chain st seen (Some e) =
     (if e \<in> set seen \<or> \<not> e < length st then []
      else e # exception_chain st (e # seen) (next_exc st e))"
  by pat_completeness auto
termination
proof (relation "measure (\<lambda>(st, seen, _). card ({..<length st} - set seen))")
  fix st :: store and seen e
  assume "\<not> (e \<in> set seen \<or> \<not> e < length st)"
  then have "{..<length st} - set (e # seen) \<subset> {..<length st} - set seen" by auto
  then show "((st, e # seen, next_exc st e), st, seen, Some e) \<in>
      measure (\<lambda>(st, seen, _). card ({..<length st} - set seen))"
    by (simp add: psubset_card_mono)
qed simp

definition is_connection_drop_message :: "string option \<Rightarrow> string list \<Rightarrow> bool" where
  "is_connection_drop_message message markers =
     (let body = py_casefold (case message of None \<Rightarrow> [] | Some m \<Rightarrow> m) in
      if body = [] then False else list_ex (\<lambda>marker. py_contains marker body) markers)"

definition is_drop :: "exc \<Rightarrow> bool" where
  "is_drop x =
     (ex_connection_error x \<or> ex_type_name x \<in> set CONNECTION_DROP_TYPE_NAMES \<or>
      is_connection_drop_message (Some (ex_message x)) CONNECTION_DROP_MESSAGE_MARKERS)"

definition is_connection_drop_error :: "store \<Rightarrow> nat option \<Rightarrow> bool" where
  "is_connection_drop_error st error =
     list_ex (\<lambda>e. is_drop (st ! e)) (exception_chain st [] error)"

text \<open>\<open>frozen\<close>: the exception forbids setting attributes.\<close>

definition mark_transport_connection_failure :: "bool \<Rightarrow> nat option \<Rightarrow> store \<Rightarrow> store" where
  "mark_transport_connection_failure frozen error st =
     (case error of
        None \<Rightarrow> st
      | Some e \<Rightarrow> if frozen then st else st[e := (st ! e)\<lparr>ex_tagged := True\<rparr>])"

definition transport_connection_failure_reason :: "store \<Rightarrow> nat option \<Rightarrow> string option" where
  "transport_connection_failure_reason st error =
     (if list_ex (\<lambda>e. ex_tagged (st ! e)) (exception_chain st [] error) \<or> is_connection_drop_error st error
      then Some STOP_REASON_TRANSPORT_CONNECTION_FAILURE else None)"

section \<open>Delays and budgets\<close>

definition connection_drop_delay_seconds :: "int \<Rightarrow> rat \<Rightarrow> rat \<Rightarrow> rat \<Rightarrow> rat" where
  "connection_drop_delay_seconds retry_index base_delay max_delay jitter_sample =
     (let index = max 0 retry_index;
          base = max 0 base_delay;
          ceiling = max base max_delay;
          raw = min ceiling (base * 2 ^ nat index);
          sample = min (max jitter_sample 0) 1;
          offset = (sample - 1 / 2) * 2 * JITTER_RATIO * raw
      in max 0 (min ceiling (raw + offset)))"

definition connection_drop_backoff_schedule :: "int \<Rightarrow> rat \<Rightarrow> rat \<Rightarrow> rat list" where
  "connection_drop_backoff_schedule retries base_delay max_delay =
     map (\<lambda>i. connection_drop_delay_seconds (int i) base_delay max_delay (1 / 2)) [0..<nat (max 0 retries)]"

definition connection_drop_retry_budget :: "int \<Rightarrow> int \<Rightarrow> int" where
  "connection_drop_retry_budget general_max_retries connection_drop_max_retries =
     max general_max_retries connection_drop_max_retries"

definition connection_drop_budget_exhausted :: "int \<Rightarrow> int \<Rightarrow> bool" where
  "connection_drop_budget_exhausted retries_used retries_allowed = (retries_used \<ge> retries_allowed)"

section \<open>The chain is what was raised from what\<close>

text \<open>What an exception was raised from is its cause, or without one its context.\<close>

inductive raised_from :: "store \<Rightarrow> nat \<Rightarrow> nat \<Rightarrow> bool" for st where
  here: "raised_from st e e"
| from_cause: "raised_from st e d \<Longrightarrow> ex_cause (st ! d) = Some c \<Longrightarrow> raised_from st e c"
| from_context: "raised_from st e d \<Longrightarrow> ex_cause (st ! d) = None \<Longrightarrow> ex_context (st ! d) = Some c \<Longrightarrow>
    raised_from st e c"

definition well_linked :: "store \<Rightarrow> bool" where
  "well_linked st \<longleftrightarrow>
     (\<forall>x\<in>set st. \<forall>c. ex_cause x = Some c \<or> ex_cause x = None \<and> ex_context x = Some c \<longrightarrow> c < length st)"

lemma next_exc_Some:
  "next_exc st e = Some c \<longleftrightarrow> ex_cause (st ! e) = Some c \<or> ex_cause (st ! e) = None \<and> ex_context (st ! e) = Some c"
  by (auto simp: next_exc_def split: option.split)

lemma raised_from_next: "raised_from st e d \<Longrightarrow> next_exc st d = Some c \<Longrightarrow> raised_from st e c"
  by (auto simp: next_exc_Some intro: raised_from.intros)

lemma raised_from_start:
  "next_exc st e = Some c \<Longrightarrow> raised_from st c d \<Longrightarrow> raised_from st e d"
  by (rotate_tac 1, induction rule: raised_from.induct) (auto simp: next_exc_Some intro: raised_from.intros)

lemma chain_head:
  "e \<notin> set seen \<Longrightarrow> e < length st \<Longrightarrow> e \<in> set (exception_chain st seen (Some e))"
  by simp

lemma chain_raised:
  "d \<in> set (exception_chain st seen x) \<Longrightarrow> x = Some e \<Longrightarrow> raised_from st e d"
proof (induction st seen x arbitrary: e rule: exception_chain.induct)
  case (2 st seen e')
  show ?case
  proof (cases "d = e'")
    case True
    with 2(3) show ?thesis by (simp add: raised_from.here)
  next
    case False
    with 2(2) have c: "\<not> (e' \<in> set seen \<or> \<not> e' < length st)"
        and d: "d \<in> set (exception_chain st (e' # seen) (next_exc st e'))"
      by (auto split: if_splits)
    from d obtain c where n: "next_exc st e' = Some c" by (cases "next_exc st e'") auto
    then have "raised_from st c d" using 2(1) [OF c d] by blast
    with n 2(3) show ?thesis by (auto intro: raised_from_start)
  qed
qed simp

lemma chain_distinct:
  "distinct (exception_chain st seen x) \<and> set (exception_chain st seen x) \<inter> set seen = {}"
  by (induction st seen x rule: exception_chain.induct) auto

lemma chain_closed:
  "d \<in> set (exception_chain st seen x) \<Longrightarrow> next_exc st d = Some c \<Longrightarrow> c < length st \<Longrightarrow>
     c \<in> set (exception_chain st seen x) \<union> set seen"
proof (induction st seen x rule: exception_chain.induct)
  case (2 st seen e)
  have c: "\<not> (e \<in> set seen \<or> \<not> e < length st)" using "2.prems"(1) by (auto split: if_splits)
  show ?case
  proof (cases "d = e")
    case True
    with c "2.prems" show ?thesis by auto
  next
    case False
    with c "2.prems" have "d \<in> set (exception_chain st (e # seen) (next_exc st e))" by simp
    from "2.IH" [OF c this "2.prems"(2,3)] c show ?thesis by auto
  qed
qed simp

lemma chain_complete:
  assumes "raised_from st e d" "well_linked st" "e < length st"
  shows "d \<in> set (exception_chain st [] (Some e)) \<and> d < length st"
proof -
  have step: "c \<in> set (exception_chain st [] (Some e)) \<and> c < length st"
    if d: "d \<in> set (exception_chain st [] (Some e))" "d < length st" and n: "next_exc st d = Some c" for e d c
  proof -
    have "c < length st" using n d(2) assms(2) unfolding next_exc_Some well_linked_def by (metis nth_mem)
    then show ?thesis using chain_closed [OF d(1) n] by simp
  qed
  from assms(1,3) show ?thesis
  proof (induction rule: raised_from.induct)
    case (from_cause e d c)
    with step [of d e c] show ?case by (simp add: next_exc_def del: exception_chain.simps)
  next
    case (from_context e d c)
    with step [of d e c] show ?case by (simp add: next_exc_def del: exception_chain.simps)
  qed simp
qed

text \<open>
  C31. Walking the causes of an error ends, even when they form a cycle, and misses none: the walk visits
  every exception the error was raised from, directly or not, once, and no other, for every way
  exceptions refer to one another; so an error counts as a dropped connection exactly if one of them
  is such a drop, and names the transport as the stop reason exactly if one of them is a drop or tagged.
\<close>

theorem exception_walk_is_complete:
  assumes "well_linked st" and "e < length st"
  shows "distinct (exception_chain st [] (Some e)) \<and>
    set (exception_chain st [] (Some e)) = {d. raised_from st e d} \<and>
    (is_connection_drop_error st (Some e) \<longleftrightarrow> (\<exists>d. raised_from st e d \<and> is_drop (st ! d))) \<and>
    (transport_connection_failure_reason st (Some e) = Some STOP_REASON_TRANSPORT_CONNECTION_FAILURE \<longleftrightarrow>
       (\<exists>d. raised_from st e d \<and> (is_drop (st ! d) \<or> ex_tagged (st ! d)))) \<and>
    transport_connection_failure_reason (mark_transport_connection_failure False (Some e) st) (Some e) =
      Some STOP_REASON_TRANSPORT_CONNECTION_FAILURE"
proof -
  have set: "set (exception_chain st [] (Some e)) = {d. raised_from st e d}"
    using chain_raised chain_complete [OF _ assms] by blast
  have "ex_tagged (mark_transport_connection_failure False (Some e) st ! e)"
    "e < length (mark_transport_connection_failure False (Some e) st)"
    using assms(2) by (simp_all add: mark_transport_connection_failure_def)
  then have "transport_connection_failure_reason (mark_transport_connection_failure False (Some e) st) (Some e) =
      Some STOP_REASON_TRANSPORT_CONNECTION_FAILURE"
    by (simp add: transport_connection_failure_reason_def)
  then show ?thesis
    using set chain_distinct [of st "[]" "Some e"]
    by (auto simp: is_connection_drop_error_def transport_connection_failure_reason_def list_ex_iff)
qed

definition sample_store :: store where
  "sample_store =
     [\<lparr>ex_type_name = ''LLMError'', ex_message = ''request failed'', ex_connection_error = False,
       ex_tagged = False, ex_cause = Some 1, ex_context = None\<rparr>,
      \<lparr>ex_type_name = ''ReadError'', ex_message = ''Peer closed connection'', ex_connection_error = False,
       ex_tagged = False, ex_cause = None, ex_context = Some 0\<rparr>]"

theorem exception_walk_is_complete_witness: "is_connection_drop_error sample_store (Some 0)"
proof -
  have "well_linked sample_store"
    by (simp add: well_linked_def sample_store_def)
  moreover have "raised_from sample_store 0 1"
    by (rule raised_from_next [OF raised_from.here]) (simp add: next_exc_def sample_store_def)
  moreover have "is_drop (sample_store ! 1)" by code_simp
  ultimately show ?thesis
    using exception_walk_is_complete [of sample_store 0] by (auto simp: sample_store_def)
qed

section \<open>Delays\<close>

lemma jitter_near:
  fixes raw c s :: rat
  assumes "0 \<le> raw" "raw \<le> c" "0 \<le> s" "s \<le> 1"
  shows "\<bar>max 0 (min c (raw + (s - 1 / 2) * 2 * JITTER_RATIO * raw)) - raw\<bar> \<le> raw / 4"
proof -
  define d where "d = (s - 1 / 2) * 2 * JITTER_RATIO * raw"
  have "(s - 1 / 2) * 2 * JITTER_RATIO \<le> 1 / 4" "- (1 / 4) \<le> (s - 1 / 2) * 2 * JITTER_RATIO"
    using assms(3,4) by (simp_all add: JITTER_RATIO_def)
  then have "d \<le> 1 / 4 * raw" "- (1 / 4) * raw \<le> d"
    unfolding d_def using assms(1) by (blast intro: mult_right_mono)+
  then have "\<bar>max 0 (min c (raw + d)) - raw\<bar> \<le> raw / 4"
    using assms(1,2) by linarith
  then show ?thesis by (simp only: d_def)
qed

text \<open>
  Waiting stays within its bounds: whatever the index, the delays configured and the jitter drawn,
  a delay is never negative, never above the larger of the base and the maximal delay, and never more
  than a quarter away from the delay without jitter; without jitter the delays grow with the index. The
  default schedule is 2, 4, 8, 16, 32 seconds, and a drop is given no fewer retries than any other error.
\<close>

theorem retry_delays_bounded:
  "0 \<le> connection_drop_delay_seconds i b m j \<and>
   connection_drop_delay_seconds i b m j \<le> max (max 0 b) m \<and>
   \<bar>connection_drop_delay_seconds i b m j - connection_drop_delay_seconds i b m (1 / 2)\<bar> \<le>
     connection_drop_delay_seconds i b m (1 / 2) / 4 \<and>
   connection_drop_delay_seconds i b m (1 / 2) \<le> connection_drop_delay_seconds (i + 1) b m (1 / 2) \<and>
   connection_drop_backoff_schedule DEFAULT_CONNECTION_DROP_MAX_RETRIES
     DEFAULT_CONNECTION_DROP_BASE_DELAY_SECONDS DEFAULT_CONNECTION_DROP_MAX_DELAY_SECONDS =
     [2, 4, 8, 16, 32] \<and>
   n \<le> connection_drop_retry_budget n k \<and> k \<le> connection_drop_retry_budget n k"
proof -
  let ?raw = "\<lambda>i. min (max (max 0 b) m) (max 0 b * 2 ^ nat (max 0 i)) :: rat"
  have raw: "0 \<le> ?raw i" "?raw i \<le> max (max 0 b) m" for i by simp_all
  have mid: "connection_drop_delay_seconds i b m (1 / 2) = ?raw i" for i
    using raw by (simp add: connection_drop_delay_seconds_def Let_def)
  let ?s = "min (max j 0) 1"
  let ?o = "(?s - 1 / 2) * 2 * JITTER_RATIO * ?raw i"
  have d: "connection_drop_delay_seconds i b m j = max 0 (min (max (max 0 b) m) (?raw i + ?o))"
    by (simp add: connection_drop_delay_seconds_def Let_def)
  have near: "\<bar>connection_drop_delay_seconds i b m j - ?raw i\<bar> \<le> ?raw i / 4"
    unfolding d by (rule jitter_near [OF raw]) simp_all
  have "max 0 b * 2 ^ nat (max 0 i) \<le> max 0 b * 2 ^ nat (max 0 (i + 1))"
    by (intro mult_left_mono power_increasing) auto
  then have mono: "?raw i \<le> ?raw (i + 1)" by (intro min.mono) auto
  have sched: "connection_drop_backoff_schedule DEFAULT_CONNECTION_DROP_MAX_RETRIES
     DEFAULT_CONNECTION_DROP_BASE_DELAY_SECONDS DEFAULT_CONNECTION_DROP_MAX_DELAY_SECONDS =
     [2, 4, 8, 16, 32]"
    by code_simp
  have range: "0 \<le> connection_drop_delay_seconds i b m j" "connection_drop_delay_seconds i b m j \<le> max (max 0 b) m"
    unfolding d by (simp_all only: max.cobounded1 max.bounded_iff min.cobounded1 simp_thms)
  show ?thesis
    unfolding mid using range near mono sched
    by (simp only: connection_drop_retry_budget_def max.cobounded1 max.cobounded2 simp_thms)
qed

end
