(* ===== verification/Shlex.thy ===== *)
theory Shlex
  imports PyRegex
begin

text \<open>
  \<open>shlex.split\<close> of the standard library, the tokenizer the shell policy and the patch parser call:
  POSIX mode, split at blanks, tabs and line ends only, no comments, no punctuation characters.
  \<open>sh_scan\<close> reads one character per step in the states of \<open>shlex.read_token\<close>; the two ends of input
  it rejects (inside quotes, after a backslash) are the \<open>ValueError\<close> the callers catch.
\<close>

datatype sh_state =
    ShSpace
  | ShWord
  | ShQuote char
  | ShEscape "char option"

definition sh_space :: "char \<Rightarrow> bool" where
  "sh_space c = (code c = 32 \<or> code c = 9 \<or> code c = 13 \<or> code c = 10)"

definition sh_quote :: "char \<Rightarrow> bool" where
  "sh_quote c = (code c = 34 \<or> code c = 39)"

definition sh_backslash :: "char \<Rightarrow> bool" where
  "sh_backslash c = (code c = 92)"

definition sh_emit :: "string \<Rightarrow> bool \<Rightarrow> string list" where
  "sh_emit tok quoted = (if tok \<noteq> [] \<or> quoted then [tok] else [])"

definition sh_prepend :: "string list \<Rightarrow> py_exc + string list \<Rightarrow> py_exc + string list" where
  "sh_prepend ts r = res_bind r (\<lambda>us. Inr (ts @ us))"

text \<open>The arguments are the state, the token so far, whether a quote was seen in it, and the input.\<close>

fun sh_scan :: "sh_state \<Rightarrow> string \<Rightarrow> bool \<Rightarrow> string \<Rightarrow> py_exc + string list" where
  "sh_scan ShSpace tok quoted [] = Inr []"
| "sh_scan ShWord tok quoted [] = Inr (sh_emit tok quoted)"
| "sh_scan (ShQuote q) tok quoted [] = Inl ValueError"
| "sh_scan (ShEscape e) tok quoted [] = Inl ValueError"
| "sh_scan ShSpace tok quoted (c # cs) =
     (if sh_space c then sh_prepend (sh_emit tok quoted) (sh_scan ShSpace [] False cs)
      else if sh_backslash c then sh_scan (ShEscape None) tok quoted cs
      else if sh_quote c then sh_scan (ShQuote c) tok quoted cs
      else sh_scan ShWord [c] quoted cs)"
| "sh_scan ShWord tok quoted (c # cs) =
     (if sh_space c then sh_prepend (sh_emit tok quoted) (sh_scan ShSpace [] False cs)
      else if sh_quote c then sh_scan (ShQuote c) tok quoted cs
      else if sh_backslash c then sh_scan (ShEscape None) tok quoted cs
      else sh_scan ShWord (tok @ [c]) quoted cs)"
| "sh_scan (ShQuote q) tok quoted (c # cs) =
     (if c = q then sh_scan ShWord tok True cs
      else if sh_backslash c \<and> code q = 34 then sh_scan (ShEscape (Some q)) tok True cs
      else sh_scan (ShQuote q) (tok @ [c]) True cs)"
| "sh_scan (ShEscape None) tok quoted (c # cs) = sh_scan ShWord (tok @ [c]) quoted cs"
| "sh_scan (ShEscape (Some q)) tok quoted (c # cs) =
     sh_scan (ShQuote q)
       (tok @ (if sh_backslash c \<or> c = q then [c] else [CHR 0x5C, c])) quoted cs"

definition shlex_split :: "string \<Rightarrow> py_exc + string list" where
  "shlex_split s = sh_scan ShSpace [] False s"

section \<open>Plain words and quoted words\<close>

definition sh_plain_char :: "char \<Rightarrow> bool" where
  "sh_plain_char c = (\<not> sh_space c \<and> \<not> sh_quote c \<and> \<not> sh_backslash c)"

definition sh_plain :: "string \<Rightarrow> bool" where
  "sh_plain w = (w \<noteq> [] \<and> list_all sh_plain_char w)"

lemma sh_prepend_Inr [simp]: "sh_prepend ts (Inr us) = Inr (ts @ us)"
  by (simp add: sh_prepend_def)

lemma sh_prepend_Inl [simp]: "sh_prepend ts (Inl e) = Inl e"
  by (simp add: sh_prepend_def)

lemma sh_prepend_eq_Inr [simp]: "sh_prepend ts r = Inr vs \<longleftrightarrow> (\<exists>us. r = Inr us \<and> vs = ts @ us)"
  by (cases r) auto

lemma sh_space_blank [simp]: "sh_space CHR '' ''"
  by (simp add: sh_space_def code_def)

lemma sh_word_plain:
  "list_all sh_plain_char w \<Longrightarrow> sh_scan ShWord tok q (w @ s) = sh_scan ShWord (tok @ w) q s"
  by (induction w arbitrary: tok) (auto simp: sh_plain_char_def)

lemma sh_space_plain:
  assumes "sh_plain w"
  shows "sh_scan ShSpace tok q (w @ s) = sh_scan ShWord w q s"
proof (cases w)
  case Nil
  with assms show ?thesis by (simp add: sh_plain_def)
next
  case (Cons c cs)
  with assms show ?thesis
    using sh_word_plain [of cs "[c]" q s] by (simp add: sh_plain_def sh_plain_char_def)
qed

lemma sh_join_plain:
  "list_all sh_plain ws \<Longrightarrow> sh_scan ShSpace [] False (py_join '' '' ws) = Inr ws"
proof (induction ws rule: induct_list012)
  case (2 w)
  then show ?case using sh_space_plain [of w "[]" False "[]"]
    by (auto simp: sh_emit_def sh_plain_def)
next
  case (3 w v ws)
  have "sh_scan ShSpace [] False (py_join '' '' (w # v # ws)) =
        sh_prepend [w] (sh_scan ShSpace [] False (py_join '' '' (v # ws)))"
    using 3(3) sh_space_plain [of w "[]" False "CHR '' '' # py_join '' '' (v # ws)"]
    by (auto simp: sh_emit_def sh_plain_def)
  with 3 show ?case by simp
qed simp

text \<open>Splitting a line of plain words gives the words back.\<close>

lemma shlex_split_words: "list_all sh_plain ws \<Longrightarrow> shlex_split (py_join '' '' ws) = Inr ws"
  by (simp add: shlex_split_def sh_join_plain)

text \<open>A text with one apostrophe and no other quote or backslash cannot be split.\<close>

lemma sh_quote_never_closed:
  "list_all (\<lambda>c. \<not> sh_quote c \<and> \<not> sh_backslash c) s \<Longrightarrow> sh_quote q \<Longrightarrow>
   sh_scan (ShQuote q) tok b s = Inl ValueError"
  by (induction s arbitrary: tok b) auto

lemma sh_unbalanced:
  assumes "list_all (\<lambda>c. \<not> sh_quote c \<and> \<not> sh_backslash c) (s @ t)" "sh_quote q"
  shows "st \<in> {ShSpace, ShWord} \<Longrightarrow> sh_scan st tok b (s @ q # t) = Inl ValueError"
  using assms
proof (induction s arbitrary: st tok b)
  case Nil
  then have "\<not> sh_space q" "\<not> sh_backslash q"
    by (auto simp: sh_quote_def sh_space_def sh_backslash_def)
  with Nil show ?case by (auto intro: sh_quote_never_closed)
qed (auto split: if_splits)

lemma shlex_split_unbalanced:
  assumes "list_all (\<lambda>c. \<not> sh_quote c \<and> \<not> sh_backslash c) (s @ t)"
  shows "shlex_split (s @ CHR 0x27 # t) = Inl ValueError"
  unfolding shlex_split_def
  by (rule sh_unbalanced [OF assms]) (simp_all add: sh_quote_def code_def)

end
