(* ===== verification/ShellPolicy.thy ===== *)
theory ShellPolicy
  imports Shlex
begin

text \<open>
  The shell command policy, \<open>policy.py\<close>: which commands are refused, which need a confirmation,
  and why. A destructive \<open>rm\<close> is looked for in the tokens of the lower-cased command, everything
  else by patterns in its text, first match first.
\<close>

record policy_decision =
  pd_allowed :: bool
  pd_needs_confirm :: bool
  pd_reason :: string

section \<open>Patterns\<close>

text \<open>\<open>.\<close> matches every character except a line end.\<close>

definition r_any :: rx where "r_any = RMany (\<lambda>c. code c \<noteq> 10) 0 None"

definition r_some_words :: rx where "r_some_words = RMany word_char 1 None"

definition DANGEROUS_PATTERNS :: "(rx \<times> string) list" where
  "DANGEROUS_PATTERNS =
     [(r_seq [RWordEdge, r_lit ''mkfs'', r_opt (r_seq [r_lit ''.'', r_some_words]), RWordEdge],
       ''Filesystem formatting (mkfs)''),
      (r_words [''wipefs''], ''Filesystem wipe (wipefs)''),
      (r_seq [r_words [''dd''], r_any, RWordEdge, r_lit ''of=''],
       ''Raw disk write (dd ... of=)''),
      (r_words [''parted'', ''fdisk'', ''sfdisk'', ''sgdisk''], ''Disk partitioning tool'')]"

text \<open>\<open>\bw\b\s+v\b\<close>.\<close>

definition r_subcommand :: "rx \<Rightarrow> string \<Rightarrow> rx" where
  "r_subcommand r v = r_seq [RWordEdge, r, RWordEdge, r_spaces, r_lit v, RWordEdge]"

definition CONFIRM_PATTERNS :: "(rx \<times> string) list" where
  "CONFIRM_PATTERNS =
     [(r_subcommand (r_lit ''git'') ''push'', ''git push''),
      (r_seq [r_words [''curl'', ''wget''], r_any, r_lit ''|'', RMany py_is_space 0 None,
              r_alt [r_lit ''sh'', r_lit ''bash''], RWordEdge],
       ''pipe-to-shell installer''),
      (r_subcommand (r_seq [r_lit ''apt'', r_opt (r_lit ''-get'')]) ''install'',
       ''system package install''),
      (r_subcommand (r_lit ''brew'') ''install'', ''package install''),
      (r_subcommand (r_lit ''pip'') ''install'', ''python package install''),
      (r_subcommand (r_lit ''npm'') ''install'', ''node package install'')]"

fun first_match :: "(rx \<times> string) list \<Rightarrow> string \<Rightarrow> string option" where
  "first_match [] s = None"
| "first_match ((r, reason) # rs) s = (if rx_search r s then Some reason else first_match rs s)"

section \<open>Destructive removal\<close>

definition is_rm_command_token :: "string \<Rightarrow> bool" where
  "is_rm_command_token token = (token \<noteq> [] \<and> last (py_split CHR ''/'' token) = ''rm'')"

definition is_control_operator :: "string \<Rightarrow> bool" where
  "is_control_operator token = (token \<in> {''&&'', ''||'', '';'', ''|''})"

definition rm_option :: "string \<Rightarrow> bool" where
  "rm_option opt =
     (\<not> (is_control_operator opt \<or> opt = ''--'') \<and> \<not> (\<not> py_startswith opt ''-'' \<or> opt = ''-''))"

definition rm_recursive :: "string \<Rightarrow> bool" where
  "rm_recursive opt =
     (if py_startswith opt ''--'' then opt = ''--recursive'' \<or> py_startswith opt ''--recursive=''
      else CHR ''r'' \<in> set (tl opt) \<or> CHR ''R'' \<in> set (tl opt))"

definition rm_force :: "string \<Rightarrow> bool" where
  "rm_force opt =
     (if py_startswith opt ''--'' then opt = ''--force'' \<or> py_startswith opt ''--force=''
      else CHR ''f'' \<in> set (tl opt))"

text \<open>The inner loop, from the token after \<open>rm\<close>, with the flags seen so far.\<close>

fun rm_flags :: "bool \<Rightarrow> bool \<Rightarrow> string list \<Rightarrow> bool" where
  "rm_flags has_recursive has_force [] = False"
| "rm_flags has_recursive has_force (opt # opts) =
     (if \<not> rm_option opt then False
      else if (has_recursive \<or> rm_recursive opt) \<and> (has_force \<or> rm_force opt) then True
      else rm_flags (has_recursive \<or> rm_recursive opt) (has_force \<or> rm_force opt) opts)"

fun destructive_tokens :: "string list \<Rightarrow> bool" where
  "destructive_tokens [] = False"
| "destructive_tokens (token # tokens) =
     ((is_rm_command_token token \<and> rm_flags False False tokens) \<or> destructive_tokens tokens)"

definition is_destructive_rm :: "string \<Rightarrow> bool" where
  "is_destructive_rm lowered_cmd =
     (case shlex_split lowered_cmd of Inl _ \<Rightarrow> False | Inr tokens \<Rightarrow> destructive_tokens tokens)"

section \<open>The decision\<close>

definition evaluate_shell_command :: "string \<Rightarrow> policy_decision" where
  "evaluate_shell_command cmd =
     (let c = py_strip cmd; lowered = py_lower c in
      if c = [] then \<lparr>pd_allowed = False, pd_needs_confirm = False, pd_reason = ''Empty command''\<rparr>
      else if is_destructive_rm lowered
      then \<lparr>pd_allowed = False, pd_needs_confirm = False, pd_reason = ''Destructive remove (rm -rf)''\<rparr>
      else (case first_match DANGEROUS_PATTERNS lowered of
          Some reason \<Rightarrow> \<lparr>pd_allowed = False, pd_needs_confirm = False, pd_reason = reason\<rparr>
        | None \<Rightarrow>
            (case first_match CONFIRM_PATTERNS lowered of
               Some reason \<Rightarrow> \<lparr>pd_allowed = True, pd_needs_confirm = True, pd_reason = reason\<rparr>
             | None \<Rightarrow> \<lparr>pd_allowed = True, pd_needs_confirm = False, pd_reason = ''OK''\<rparr>)))"

section \<open>What counts as destructive\<close>

text \<open>The option loop succeeds exactly if some run of options carries both flags.\<close>

lemma rm_flags_iff:
  "rm_flags r f tokens \<longleftrightarrow>
     (\<exists>opts post. tokens = opts @ post \<and> opts \<noteq> [] \<and> list_all rm_option opts \<and>
        (r \<or> list_ex rm_recursive opts) \<and> (f \<or> list_ex rm_force opts))"
proof (induction tokens arbitrary: r f)
  case (Cons opt tokens)
  show ?case (is "_ \<longleftrightarrow> ?R")
  proof
    assume flags: "rm_flags r f (opt # tokens)"
    then have opt: "rm_option opt" by (auto split: if_splits)
    show ?R
    proof (cases "(r \<or> rm_recursive opt) \<and> (f \<or> rm_force opt)")
      case True
      with opt show ?thesis by (intro exI [of _ "[opt]"] exI [of _ tokens]) auto
    next
      case False
      with flags opt have "rm_flags (r \<or> rm_recursive opt) (f \<or> rm_force opt) tokens"
        by (auto split: if_splits)
      then obtain opts post where "tokens = opts @ post" "list_all rm_option opts"
          "r \<or> rm_recursive opt \<or> list_ex rm_recursive opts"
          "f \<or> rm_force opt \<or> list_ex rm_force opts"
        unfolding Cons.IH by blast
      with opt show ?thesis by (intro exI [of _ "opt # opts"] exI [of _ post]) auto
    qed
  next
    assume ?R
    then obtain opts post where o: "opt # tokens = opts @ post" "opts \<noteq> []"
        "list_all rm_option opts" "r \<or> list_ex rm_recursive opts" "f \<or> list_ex rm_force opts"
      by blast
    then obtain rest where rest: "opts = opt # rest" "tokens = rest @ post"
      by (cases opts) auto
    show "rm_flags r f (opt # tokens)"
    proof (cases "(r \<or> rm_recursive opt) \<and> (f \<or> rm_force opt)")
      case True
      with o rest show ?thesis by simp
    next
      case False
      with o rest have "rest \<noteq> []" by auto
      with o rest have "rm_flags (r \<or> rm_recursive opt) (f \<or> rm_force opt) tokens"
        unfolding Cons.IH by (intro exI [of _ rest] exI [of _ post]) auto
      with o rest show ?thesis by auto
    qed
  qed
qed simp

lemma destructive_tokens_iff:
  "destructive_tokens tokens \<longleftrightarrow>
     (\<exists>pre token rest. tokens = pre @ token # rest \<and> is_rm_command_token token \<and>
        rm_flags False False rest)"
proof (induction tokens)
  case (Cons t tokens)
  have "(\<exists>pre token rest. t # tokens = pre @ token # rest \<and> P token rest) \<longleftrightarrow>
        P t tokens \<or> (\<exists>pre token rest. tokens = pre @ token # rest \<and> P token rest)" for P
    by (auto simp: Cons_eq_append_conv)
  with Cons show ?case by simp
qed simp

text \<open>\<open>rm\<close>, then options only, among them a recursive and a force flag.\<close>

definition removes_recursively :: "string list \<Rightarrow> bool" where
  "removes_recursively tokens \<longleftrightarrow>
     (\<exists>pre token opts post. tokens = pre @ token # opts @ post \<and> is_rm_command_token token \<and>
        list_all rm_option opts \<and> list_ex rm_recursive opts \<and> list_ex rm_force opts)"

lemma destructive_removes: "destructive_tokens tokens \<longleftrightarrow> removes_recursively tokens"
proof
  assume "destructive_tokens tokens"
  then obtain pre token rest where t: "tokens = pre @ token # rest" "is_rm_command_token token"
      "rm_flags False False rest"
    unfolding destructive_tokens_iff by blast
  then obtain opts post where "rest = opts @ post" "list_all rm_option opts"
      "list_ex rm_recursive opts" "list_ex rm_force opts"
    unfolding rm_flags_iff by blast
  with t show "removes_recursively tokens"
    unfolding removes_recursively_def by blast
next
  assume "removes_recursively tokens"
  then obtain pre token opts post where t: "tokens = pre @ token # opts @ post"
      "is_rm_command_token token" "list_all rm_option opts" "list_ex rm_recursive opts"
      "list_ex rm_force opts"
    unfolding removes_recursively_def by blast
  moreover from t have "opts \<noteq> []" by auto
  ultimately have "rm_flags False False (opts @ post)"
    unfolding rm_flags_iff by blast
  with t show "destructive_tokens tokens"
    unfolding destructive_tokens_iff by blast
qed

section \<open>What the policy promises\<close>

abbreviation refused_removal :: policy_decision where
  "refused_removal \<equiv>
     \<lparr>pd_allowed = False, pd_needs_confirm = False, pd_reason = ''Destructive remove (rm -rf)''\<rparr>"

lemma first_match_in: "first_match rs s = Some reason \<Longrightarrow> reason \<in> snd ` set rs"
  by (induction rs) (auto split: if_splits)

lemma first_match_reason:
  "first_match DANGEROUS_PATTERNS s \<noteq> Some ''Destructive remove (rm -rf)''"
  by (auto dest!: first_match_in simp: DANGEROUS_PATTERNS_def)

lemma refused_removal_iff:
  "evaluate_shell_command cmd = refused_removal \<longleftrightarrow>
     py_strip cmd \<noteq> [] \<and> is_destructive_rm (py_lower (py_strip cmd))"
  using first_match_reason [of "py_lower (py_strip cmd)"]
  by (auto simp: evaluate_shell_command_def Let_def split: option.splits)

lemma is_destructive_rm_iff:
  "is_destructive_rm s \<longleftrightarrow> (\<exists>tokens. shlex_split s = Inr tokens \<and> removes_recursively tokens)"
  by (auto simp: is_destructive_rm_def destructive_removes split: sum.splits)

lemma not_destructive_Nil: "\<not> is_destructive_rm []"
  by (simp add: is_destructive_rm_def shlex_split_def)

text \<open>
  The shell policy refuses destructive removals and calls nothing else one: a command is
  refused as \<open>rm -rf\<close> exactly when its tokens contain \<open>rm\<close>, plain or with a directory in front,
  followed by a run of options that asks for recursion and for force, in any letter case, order or
  spelling the policy knows.
\<close>

theorem policy_refuses_removals:
  "evaluate_shell_command cmd = refused_removal \<longleftrightarrow>
     (\<exists>tokens. shlex_split (py_lower (py_strip cmd)) = Inr tokens \<and> removes_recursively tokens)"
  using not_destructive_Nil
  by (auto simp: refused_removal_iff is_destructive_rm_iff [symmetric] py_lower_def)

section \<open>A removal the policy misses\<close>

lemma lower_char_quote [simp]: "sh_quote (lower_char c) = sh_quote c"
  by (auto simp: sh_quote_def lower_char_def Let_def)

lemma lower_char_backslash [simp]: "sh_backslash (lower_char c) = sh_backslash c"
  by (auto simp: sh_backslash_def lower_char_def Let_def)

lemma strip_around:
  assumes "\<not> py_is_space c"
  shows "py_strip (s @ c # t) = py_lstrip s @ c # py_rstrip t"
proof -
  have "py_lstrip (s @ c # t) = py_lstrip s @ c # t"
    using assms by (induction s) (auto simp: py_lstrip_def)
  moreover have "dropWhile py_is_space (rev t @ c # rev u) = dropWhile py_is_space (rev t) @ c # rev u" for u
    using assms by (induction t rule: rev_induct) auto
  ultimately show ?thesis by (simp add: py_strip_def py_rstrip_def)
qed

lemma not_destructive_unbalanced:
  assumes "list_all (\<lambda>c. \<not> sh_quote c \<and> \<not> sh_backslash c) (s @ t)"
  shows "\<not> is_destructive_rm (py_lower (py_strip (s @ CHR 0x27 # t)))"
proof -
  let ?s = "map lower_char (py_lstrip s)" and ?t = "map lower_char (py_rstrip t)"
  have apostrophe: "\<not> py_is_space CHR 0x27" "lower_char CHR 0x27 = CHR 0x27"
    by (simp_all add: py_is_space_def lower_char_def code_def)
  have "list_all (\<lambda>c. \<not> sh_quote c \<and> \<not> sh_backslash c) (?s @ ?t)"
    using assms by (auto simp: list_all_iff py_lstrip_def py_rstrip_def dest!: set_dropWhileD)
  then have "shlex_split (?s @ CHR 0x27 # ?t) = Inl ValueError"
    by (rule shlex_split_unbalanced)
  then show ?thesis
    by (simp add: is_destructive_rm_def strip_around apostrophe py_lower_def)
qed

text \<open>
  C40. The check fails open on text the tokenizer rejects: a command that contains one apostrophe and
  apart from it no quote character and no backslash, as one with an apostrophe in a trailing comment, is
  never refused as a destructive removal; the \<open>rm -rf /\<close> of the first example is allowed without
  confirmation. So is the removal of the second example, which follows a separator with no blank between.
\<close>

theorem destructive_rm_missed:
  "(list_all (\<lambda>c. \<not> sh_quote c \<and> \<not> sh_backslash c) (s @ t) \<longrightarrow>
      evaluate_shell_command (s @ CHR 0x27 # t) \<noteq> refused_removal) \<and>
   evaluate_shell_command ''rm -rf / # don't ask'' =
     \<lparr>pd_allowed = True, pd_needs_confirm = False, pd_reason = ''OK''\<rparr> \<and>
   evaluate_shell_command ''cd /srv;rm -rf data'' =
     \<lparr>pd_allowed = True, pd_needs_confirm = False, pd_reason = ''OK''\<rparr>"
proof (intro conjI impI)
  assume "list_all (\<lambda>c. \<not> sh_quote c \<and> \<not> sh_backslash c) (s @ t)"
  then show "evaluate_shell_command (s @ CHR 0x27 # t) \<noteq> refused_removal"
    using not_destructive_unbalanced by (auto simp: refused_removal_iff)
qed code_simp+

theorem destructive_rm_missed_witness:
  "evaluate_shell_command (''rm -rf / # don'' @ CHR 0x27 # ''t ask'') \<noteq> refused_removal"
  using destructive_rm_missed [of "''rm -rf / # don''" "''t ask''"]
  by (simp add: sh_quote_def sh_backslash_def code_def)

end
