(* ===== verification/FileClassification.thy ===== *)
theory FileClassification
  imports PyRegex
begin

text \<open>
  What kind of file a repository path names, \<open>file_classification.py\<close>: tests, fixtures, docs,
  configuration, generated and vendored trees, implementation code. A path is text; its parts,
  name, stem and suffix are those of \<open>PurePosixPath\<close>.
\<close>

section \<open>Tables\<close>

definition LANGUAGE_EXTENSIONS :: "(string \<times> string list) list" where
  "LANGUAGE_EXTENSIONS =
     [(''python'', [''.py'']), (''javascript'', [''.cjs'', ''.js'', ''.jsx'', ''.mjs'']),
      (''typescript'', [''.cts'', ''.mts'', ''.ts'', ''.tsx'']), (''rust'', [''.rs'']),
      (''go'', [''.go'']), (''java'', [''.java'']), (''kotlin'', [''.kt'', ''.kts'']),
      (''c'', [''.c'', ''.h'']), (''cpp'', [''.cc'', ''.cpp'', ''.cxx'', ''.hpp'', ''.hxx'']),
      (''csharp'', [''.cs'']), (''php'', [''.php'']), (''ruby'', [''.rb'']),
      (''shell'', [''.bash'', ''.sh'']), (''swift'', [''.swift''])]"

definition extensions_of :: "string \<Rightarrow> string list" where
  "extensions_of lang = (case map_of LANGUAGE_EXTENSIONS lang of None \<Rightarrow> [] | Some es \<Rightarrow> es)"

definition SOURCE_EXTENSIONS_BY_LANGUAGE :: "(string \<times> string list) list" where
  "SOURCE_EXTENSIONS_BY_LANGUAGE =
     alist_put ''node'' (extensions_of ''javascript'' @ extensions_of ''typescript'')
       (alist_put ''java'' (extensions_of ''java'' @ extensions_of ''kotlin'') LANGUAGE_EXTENSIONS)"

definition BROAD_SOURCE_EXTENSIONS :: "string list" where
  "BROAD_SOURCE_EXTENSIONS = concat (map snd LANGUAGE_EXTENSIONS)"

definition CODE_IMPLEMENTATION_EXTENSIONS :: "string list" where
  "CODE_IMPLEMENTATION_EXTENSIONS =
     [''.cjs'', ''.go'', ''.java'', ''.js'', ''.jsx'', ''.mjs'', ''.mts'', ''.py'', ''.rs'', ''.ts'', ''.tsx'']"

definition SYMBOL_SEARCH_BACKEND_BY_EXTENSION :: "(string \<times> string) list" where
  "SYMBOL_SEARCH_BACKEND_BY_EXTENSION =
     [(''.py'', ''python_ast''), (''.cjs'', ''js_ts_heuristic''), (''.js'', ''js_ts_heuristic''),
      (''.jsx'', ''js_ts_heuristic''), (''.mjs'', ''js_ts_heuristic''), (''.mts'', ''js_ts_heuristic''),
      (''.ts'', ''js_ts_heuristic''), (''.tsx'', ''js_ts_heuristic''), (''.java'', ''java_heuristic'')]"

definition RUNTIME_ARTIFACT_DIR_NAMES :: "string list" where
  "RUNTIME_ARTIFACT_DIR_NAMES =
     [''.alysis'', ''.alysis_images'', ''.git'', ''alysis-feedback'',
      ''__pycache__'', ''.mypy_cache'', ''.pytest_cache'', ''.ruff_cache'']"

definition CODE_SCAN_SKIP_DIR_NAMES :: "string list" where
  "CODE_SCAN_SKIP_DIR_NAMES =
     [''.git'', ''.hg'', ''.mypy_cache'', ''.pytest_cache'', ''.ruff_cache'', ''.svn'', ''.alysis'',
      ''.tox'', ''.venv'', ''__pycache__'', ''build'', ''coverage'', ''dist'', ''node_modules'',
      ''target'', ''vendor'', ''venv'', ''_vendor'', ''externals'', ''third_party'', ''thirdparty''] @
     RUNTIME_ARTIFACT_DIR_NAMES"

definition GENERATED_DIR_NAMES :: "string list" where
  "GENERATED_DIR_NAMES = [''gen'', ''generated'', ''out'']"

definition TEST_DIR_NAMES :: "string list" where
  "TEST_DIR_NAMES = [''__tests__'', ''spec'', ''specs'', ''test'', ''tests'']"

definition FIXTURE_DIR_NAMES :: "string list" where
  "FIXTURE_DIR_NAMES =
     [''__snapshots__'', ''fixture'', ''fixtures'', ''golden'', ''goldens'', ''sample'', ''samples'',
      ''snapshot'', ''snapshots'', ''test-data'', ''test_data'', ''testdata'']"

definition CONTENT_SURFACE_EXTENSIONS :: "string list" where
  "CONTENT_SURFACE_EXTENSIONS = [''.adoc'', ''.markdown'', ''.md'', ''.mdx'', ''.rst'', ''.txt'']"

definition FRONTEND_SURFACE_EXTENSIONS :: "string list" where
  "FRONTEND_SURFACE_EXTENSIONS = [''.css'', ''.htm'', ''.html'', ''.less'', ''.sass'', ''.scss'']"

definition CONFIG_EXTENSIONS :: "string list" where
  "CONFIG_EXTENSIONS =
     [''.cfg'', ''.conf'', ''.env'', ''.gradle'', ''.ini'', ''.json'', ''.properties'', ''.toml'',
      ''.xml'', ''.yaml'', ''.yml'']"

definition CONFIG_FILENAMES :: "string list" where
  "CONFIG_FILENAMES =
     [''.env'', ''cargo.toml'', ''dockerfile'', ''go.mod'', ''go.sum'', ''makefile'', ''mix.exs'',
      ''package-lock.json'', ''package.json'', ''pnpm-lock.yaml'', ''poetry.lock'', ''pom.xml'',
      ''pyproject.toml'', ''requirements-dev.txt'', ''requirements.txt'', ''setup.cfg'', ''setup.py'',
      ''tox.ini'', ''yarn.lock'']"

definition LANGUAGE_DISPLAY :: "(string \<times> string) list" where
  "LANGUAGE_DISPLAY =
     [(''cpp'', ''C++''), (''csharp'', ''C#''), (''go'', ''Go''), (''java'', ''Java''),
      (''javascript'', ''JavaScript''), (''kotlin'', ''Kotlin''), (''php'', ''PHP''),
      (''python'', ''Python''), (''ruby'', ''Ruby''), (''rust'', ''Rust''), (''shell'', ''shell''),
      (''swift'', ''Swift''), (''typescript'', ''TypeScript'')]"

definition DERIVED_ARTIFACT_FILENAMES :: "string list" where
  "DERIVED_ARTIFACT_FILENAMES =
     [''bun.lockb'', ''cargo.lock'', ''composer.lock'', ''flake.lock'', ''gemfile.lock'', ''go.sum'',
      ''gradle.lockfile'', ''mix.lock'', ''npm-shrinkwrap.json'', ''package-lock.json'',
      ''packages.lock.json'', ''pipfile.lock'', ''pnpm-lock.yaml'', ''podfile.lock'', ''poetry.lock'',
      ''pubspec.lock'', ''uv.lock'', ''yarn.lock'']"

section \<open>Paths\<close>

definition is_slash :: "char \<Rightarrow> bool" where "is_slash c = (c = CHR ''/'')"

fun drop_dot_slash :: "string \<Rightarrow> string" where
  "drop_dot_slash (c # d # cs) =
     (if c = CHR ''.'' \<and> d = CHR ''/'' then drop_dot_slash cs else c # d # cs)"
| "drop_dot_slash s = s"

definition back_to_slash :: "string \<Rightarrow> string" where
  "back_to_slash s = py_replace_char (CHR 0x5C) (CHR ''/'') s"

definition normalize_classification_path :: "string \<Rightarrow> string" where
  "normalize_classification_path path =
     py_strip_of is_slash (drop_dot_slash (py_strip (back_to_slash (py_strip path))))"

text \<open>\<open>PurePosixPath(p).parts\<close> of a relative path.\<close>

definition pure_parts :: "string \<Rightarrow> string list" where
  "pure_parts p = filter (\<lambda>w. w \<noteq> [] \<and> w \<noteq> ''.'') (py_split (CHR ''/'') p)"

definition pure_name :: "string \<Rightarrow> string" where
  "pure_name p = (if pure_parts p = [] then [] else last (pure_parts p))"

text \<open>The suffix starts at the last dot, unless that is the first or the last character.\<close>

definition suffix_length :: "string \<Rightarrow> nat" where
  "suffix_length name =
     (let k = length (takeWhile (\<lambda>c. c \<noteq> CHR ''.'') (rev name))
      in if k < length name \<and> k + 1 < length name \<and> 0 < k then k + 1 else 0)"

definition name_suffix :: "string \<Rightarrow> string" where
  "name_suffix name = drop (length name - suffix_length name) name"

definition name_stem :: "string \<Rightarrow> string" where
  "name_stem name = take (length name - suffix_length name) name"

definition path_parts :: "string \<Rightarrow> string list" where
  "path_parts path = map py_casefold (pure_parts (normalize_classification_path path))"

definition path_suffix :: "string \<Rightarrow> string" where
  "path_suffix path = py_casefold (name_suffix (pure_name (normalize_classification_path path)))"

section \<open>Languages\<close>

definition language_for_path :: "string \<Rightarrow> string option" where
  "language_for_path path =
     map_option fst (find (\<lambda>(_, es). path_suffix path \<in> set es) LANGUAGE_EXTENSIONS)"

definition upper_ascii :: "char \<Rightarrow> char" where
  "upper_ascii c = (if is_ascii_lower c then char_of (code c - 32) else c)"

text \<open>Languages outside the table are single words of letters: their title is capitalised.\<close>

definition language_display_name :: "string option \<Rightarrow> string option" where
  "language_display_name lang =
     (case lang of
        None \<Rightarrow> None
      | Some [] \<Rightarrow> None
      | Some (c # cs) \<Rightarrow>
          Some (case map_of LANGUAGE_DISPLAY (c # cs) of
                  Some name \<Rightarrow> name | None \<Rightarrow> upper_ascii c # py_lower cs))"

definition source_extensions_for_languages :: "string list \<Rightarrow> string set" where
  "source_extensions_for_languages hints =
     (let es = concat (map (\<lambda>h. case map_of SOURCE_EXTENSIONS_BY_LANGUAGE (py_casefold h) of
                               None \<Rightarrow> [] | Some es \<Rightarrow> es) hints)
      in if es = [] then set BROAD_SOURCE_EXTENSIONS else set es)"

section \<open>Predicates\<close>

definition has_part :: "string \<Rightarrow> string list \<Rightarrow> bool" where
  "has_part path names = list_ex (\<lambda>w. w \<in> set names) (path_parts path)"

definition is_generated_or_vendor_path :: "string \<Rightarrow> bool" where
  "is_generated_or_vendor_path path = has_part path (CODE_SCAN_SKIP_DIR_NAMES @ GENERATED_DIR_NAMES)"

definition derived_artifact_reason :: "string \<Rightarrow> string option" where
  "derived_artifact_reason path =
     (let normalized = normalize_classification_path path;
          name = py_casefold (pure_name normalized)
      in if normalized = [] then None
         else if name \<in> set DERIVED_ARTIFACT_FILENAMES then Some ''dependency lockfile''
         else if list_ex (py_endswith name) [''.min.js'', ''.min.mjs'', ''.min.cjs'', ''.min.css'']
         then Some ''minified bundle''
         else if list_ex (py_endswith name) [''.js.map'', ''.mjs.map'', ''.cjs.map'', ''.css.map'']
         then Some ''source map''
         else if py_endswith name ''.lock'' then Some ''lockfile''
         else if is_generated_or_vendor_path normalized then Some ''generated or vendored path''
         else None)"

definition is_fixture_path :: "string \<Rightarrow> bool" where
  "is_fixture_path path = has_part path FIXTURE_DIR_NAMES"

definition is_test_path :: "string \<Rightarrow> bool" where
  "is_test_path path =
     (let normalized = normalize_classification_path path;
          name = pure_name normalized;
          lowered_name = py_casefold name;
          stem = name_stem name;
          lowered_stem = py_casefold stem;
          suffix = py_casefold (name_suffix name)
      in if normalized = [] then False
         else if has_part path TEST_DIR_NAMES then True
         else if list_ex (py_startswith lowered_name) [''test_'', ''test-''] \<or>
                 list_ex (py_endswith lowered_stem) [''_test'', ''-test'', ''_spec'', ''-spec''] \<or>
                 py_contains ''.test.'' lowered_name \<or> py_contains ''.spec.'' lowered_name then True
         else if suffix = ''.py'' \<and> py_endswith lowered_name ''_test.py'' then True
         else if suffix \<in> {''.java'', ''.kt'', ''.kts''} then
           (py_startswith stem ''Test'' \<and> length stem > 4) \<or>
           list_ex (\<lambda>m. py_endswith stem m \<and> length stem > length m) [''Test'', ''Tests'', ''Spec'', ''IT'']
         else if suffix = ''.go'' \<and> py_endswith lowered_name ''_test.go'' then True
         else suffix = ''.rs'' \<and>
           (py_endswith lowered_name ''_test.rs'' \<or>
            list_ex (py_endswith lowered_stem) [''_tests'', ''-tests'']))"

definition is_symbol_scannable_path :: "string \<Rightarrow> bool" where
  "is_symbol_scannable_path path =
     (path_suffix path \<in> set CODE_IMPLEMENTATION_EXTENSIONS \<and> \<not> is_generated_or_vendor_path path)"

definition symbol_search_backend_for_path :: "string \<Rightarrow> string option" where
  "symbol_search_backend_for_path path =
     (if is_generated_or_vendor_path path then None
      else map_of SYMBOL_SEARCH_BACKEND_BY_EXTENSION (path_suffix path))"

definition is_code_implementation_path :: "string \<Rightarrow> bool" where
  "is_code_implementation_path path =
     (path_suffix path \<in> set CODE_IMPLEMENTATION_EXTENSIONS \<and> \<not> is_test_path path \<and>
      \<not> is_fixture_path path \<and> \<not> is_generated_or_vendor_path path)"

definition is_docs_path :: "string \<Rightarrow> bool" where
  "is_docs_path path =
     (let normalized = py_casefold (normalize_classification_path path)
      in normalized \<in> {''readme'', ''readme.md'', ''todo'', ''todo.md''} \<or>
         list_ex (py_startswith normalized) [''docs/'', ''doc/'', ''notes/'', ''note/''] \<or>
         path_suffix normalized \<in> set CONTENT_SURFACE_EXTENSIONS)"

definition is_frontend_surface_path :: "string \<Rightarrow> bool" where
  "is_frontend_surface_path path = (path_suffix path \<in> set FRONTEND_SURFACE_EXTENSIONS)"

definition is_config_path :: "string \<Rightarrow> bool" where
  "is_config_path path =
     (let normalized = py_casefold (normalize_classification_path path)
      in pure_name normalized \<in> set CONFIG_FILENAMES \<or>
         path_suffix normalized \<in> set CONFIG_EXTENSIONS)"

section \<open>Classification\<close>

record path_classification =
  pc_path :: string
  pc_suffix :: string
  pc_language :: "string option"
  pc_kind :: string
  pc_label :: string

definition named_label :: "string option \<Rightarrow> string \<Rightarrow> string \<Rightarrow> string \<Rightarrow> string" where
  "named_label lang before after plain =
     (case lang of None \<Rightarrow> plain | Some n \<Rightarrow> before @ n @ after)"

definition classify_path :: "string \<Rightarrow> path_classification" where
  "classify_path path =
     (let normalized = normalize_classification_path path;
          suffix = path_suffix normalized;
          lang = language_for_path normalized;
          name = language_display_name lang;
          result = (\<lambda>kind label. \<lparr>pc_path = normalized, pc_suffix = suffix, pc_language = lang,
                      pc_kind = kind, pc_label = label\<rparr>)
      in if is_code_implementation_path normalized then
           result ''implementation'' (named_label name [] '' implementation files'' ''implementation files'')
         else if is_generated_or_vendor_path normalized then
           result ''generated_or_vendor''
             (named_label name ''generated/vendor '' '' files'' ''generated/vendor paths'')
         else if is_test_path normalized then
           result ''test'' (named_label name [] '' test files'' ''test files'')
         else if is_fixture_path normalized then
           result ''fixture'' (named_label name [] '' fixture files'' ''fixture files'')
         else if is_docs_path normalized then result ''docs'' ''docs''
         else if is_frontend_surface_path normalized then result ''frontend_surface'' ''frontend surface files''
         else if is_config_path normalized then result ''config'' ''config''
         else case name of
           Some n \<Rightarrow> result ''source'' (n @ '' source files'')
         | None \<Rightarrow>
             if suffix \<noteq> [] then result ''unknown'' (''unknown '' @ suffix @ '' files'')
             else result ''unknown'' ''unknown extensionless paths'')"

definition describe_path_kinds :: "string list \<Rightarrow> string" where
  "describe_path_kinds paths =
     (let labels = map (\<lambda>p. pc_label (classify_path p))
                     (filter (\<lambda>p. normalize_classification_path p \<noteq> []) paths);
          unique = dedup labels
      in if labels = [] then ''unknown paths''
         else if list_all (\<lambda>l. l = ''docs'' \<or> l = ''config'') unique then
           (if list_all (\<lambda>l. l = ''docs'') unique then ''docs only''
            else if list_all (\<lambda>l. l = ''config'') unique then ''config only''
            else ''docs/config only'')
         else if length unique = 1 then hd unique @ '' only''
         else py_join '', '' unique)"

end
