(* ===== verification/TaskScope.thy ===== *)
theory TaskScope
  imports FileClassification
begin

text \<open>
  Normalisation of the repository paths a task claims, the part of \<open>task_scope.py\<close> the scheduler
  and the readiness checks rest on. \<open>is_dir cleaned\<close> says that a root was given and the path
  names an existing directory inside it; without a root it is constantly false.
\<close>

definition SPECIAL_FILENAMES :: "string list" where
  "SPECIAL_FILENAMES =
     [''README'', ''README.md'', ''Dockerfile'', ''Makefile'', ''LICENSE'', ''NOTICE'', ''CHANGELOG'']"

definition README_ALIAS_FILENAMES :: "string list" where
  "README_ALIAS_FILENAMES = [''README'', ''README.md'']"

definition BROAD_NON_PACKAGE_DIR_NAMES :: "string list" where
  "BROAD_NON_PACKAGE_DIR_NAMES =
     [''app'', ''apps'', ''bin'', ''doc'', ''docs'', ''example'', ''examples'', ''lib'', ''scripts'',
      ''src'', ''tool'', ''tools'']"

definition scope_normalize_path :: "string \<Rightarrow> string" where
  "scope_normalize_path s = drop_dot_slash (back_to_slash (py_strip s))"

definition has_glob :: "string \<Rightarrow> bool" where
  "has_glob s = list_ex (\<lambda>c. c \<in> set s) [CHR ''*'', CHR ''?'', CHR ''['']"

function strip_tail_marks :: "string \<Rightarrow> string" where
  "strip_tail_marks s =
     (if s \<noteq> [] \<and> last s \<in> set '',;:.)]}'' then strip_tail_marks (py_rstrip (butlast s)) else s)"
  by pat_completeness auto

function strip_head_marks :: "string \<Rightarrow> string" where
  "strip_head_marks s =
     (if s \<noteq> [] \<and> hd s \<in> set ''([{:'' then strip_head_marks (py_lstrip (tl s)) else s)"
  by pat_completeness auto

lemma length_py_rstrip: "length (py_rstrip s) \<le> length s"
  by (simp add: py_rstrip_def) (metis length_dropWhile_le length_rev)

termination strip_tail_marks
proof (relation "measure length")
  fix s :: string
  assume s: "s \<noteq> [] \<and> last s \<in> set '',;:.)]}''"
  have "length (py_rstrip (butlast s)) \<le> length (butlast s)" by (rule length_py_rstrip)
  also have "\<dots> < length s" using s by simp
  finally show "(py_rstrip (butlast s), s) \<in> measure length" by simp
qed simp

termination strip_head_marks
proof (relation "measure length")
  fix s :: string
  assume s: "s \<noteq> [] \<and> hd s \<in> set ''([{:''"
  have "length (py_lstrip (tl s)) \<le> length (tl s)"
    unfolding py_lstrip_def by (rule length_dropWhile_le)
  also have "\<dots> < length s" using s by simp
  finally show "(py_lstrip (tl s), s) \<in> measure length" by simp
qed simp

declare strip_tail_marks.simps [simp del] strip_head_marks.simps [simp del]

definition strip_wrapping_punctuation :: "string \<Rightarrow> string" where
  "strip_wrapping_punctuation s =
     strip_head_marks (strip_tail_marks
       (py_strip_of (\<lambda>c. c = CHR ''`'' \<or> c = CHR 0x27 \<or> c = CHR 0x22) (py_strip s)))"

definition is_extensionless_char :: "char \<Rightarrow> bool" where
  "is_extensionless_char c = (is_ascii_alnum c \<or> c = CHR ''_'' \<or> c = CHR ''-'')"

definition existing_directory_scope_pattern :: "(string \<Rightarrow> bool) \<Rightarrow> string \<Rightarrow> string option" where
  "existing_directory_scope_pattern is_dir v =
     (let cleaned = py_strip_of is_slash (back_to_slash (py_strip v))
      in if cleaned = [] \<or> has_glob cleaned then None
         else if is_dir cleaned then Some (cleaned @ ''/**'') else None)"

definition normalize_repo_path_entry :: "(string \<Rightarrow> bool) \<Rightarrow> bool \<Rightarrow> string \<Rightarrow> string option" where
  "normalize_repo_path_entry is_dir allow_extensionless v =
     (let cleaned0 = scope_normalize_path (strip_wrapping_punctuation v);
          cleaned = (if py_endswith cleaned0 ''/''
                     then rev (dropWhile is_slash (rev cleaned0)) @ ''/**'' else cleaned0)
      in if cleaned0 = [] then None
         else if py_startswith cleaned0 ''/'' \<or> py_startswith cleaned0 ''../'' then None
         else if py_contains ''://'' cleaned0 \<or> char_of (10 :: nat) \<in> set cleaned0 \<or>
                 char_of (9 :: nat) \<in> set cleaned0 then None
         else if CHR '' '' \<in> set cleaned0 then None
         else if cleaned0 = ''.'' \<or> cleaned0 = ''..'' then None
         else if cleaned \<in> set SPECIAL_FILENAMES then Some cleaned
         else if has_glob cleaned then Some cleaned
         else case existing_directory_scope_pattern is_dir cleaned of
           Some pattern \<Rightarrow> Some pattern
         | None \<Rightarrow>
             if CHR ''/'' \<in> set cleaned \<or> CHR ''.'' \<in> set cleaned then Some cleaned
             else if allow_extensionless \<and> cleaned \<notin> set BROAD_NON_PACKAGE_DIR_NAMES \<and>
                     cleaned \<noteq> [] \<and> list_all is_extensionless_char cleaned then Some cleaned
             else None)"

definition rstrip_slash :: "string \<Rightarrow> string" where
  "rstrip_slash s = rev (dropWhile is_slash (rev s))"

definition is_root_readme_alias :: "string \<Rightarrow> bool" where
  "is_root_readme_alias v =
     (let normalized = rstrip_slash (scope_normalize_path v)
      in CHR ''/'' \<notin> set normalized \<and> normalized \<in> set README_ALIAS_FILENAMES)"

definition scope_pattern_identity_key :: "string \<Rightarrow> string" where
  "scope_pattern_identity_key v =
     (let normalized = rstrip_slash (scope_normalize_path v)
      in if is_root_readme_alias normalized then ''__readme_alias__'' else normalized)"

text \<open>The loop keeps the identity keys it has seen, the entries kept and those dropped.\<close>

fun split_paths ::
    "(string \<Rightarrow> bool) \<Rightarrow> string list \<Rightarrow> pyval list \<Rightarrow> string list \<times> string list" where
  "split_paths is_dir seen [] = ([], [])"
| "split_paths is_dir seen (item # items) =
     (let raw = py_strip (py_str item) in
      if raw = [] then split_paths is_dir seen items
      else case normalize_repo_path_entry is_dir True raw of
        None \<Rightarrow> (let (out, dropped) = split_paths is_dir seen items in (out, raw # dropped))
      | Some normalized \<Rightarrow>
          let key = scope_pattern_identity_key normalized in
          if key \<in> set seen then split_paths is_dir seen items
          else let (out, dropped) = split_paths is_dir (key # seen) items in (normalized # out, dropped))"

definition split_normalized_repo_path_list ::
    "(string \<Rightarrow> bool) \<Rightarrow> pyval \<Rightarrow> string list \<times> string list" where
  "split_normalized_repo_path_list is_dir v =
     (case v of PList items \<Rightarrow> split_paths is_dir [] items | _ \<Rightarrow> ([], []))"

definition normalize_repo_path_list :: "(string \<Rightarrow> bool) \<Rightarrow> pyval \<Rightarrow> string list" where
  "normalize_repo_path_list is_dir v = fst (split_normalized_repo_path_list is_dir v)"

definition is_explicit_repo_path_pattern :: "string \<Rightarrow> bool" where
  "is_explicit_repo_path_pattern v =
     (case normalize_repo_path_entry (\<lambda>_. False) True v of
        None \<Rightarrow> False | Some normalized \<Rightarrow> \<not> has_glob normalized)"

fun dedup_by_key :: "(string \<Rightarrow> string) \<Rightarrow> string list \<Rightarrow> string list \<Rightarrow> string list" where
  "dedup_by_key key seen [] = []"
| "dedup_by_key key seen (x # xs) =
     (if key x \<in> set seen then dedup_by_key key seen xs
      else x # dedup_by_key key (key x # seen) xs)"

definition normalize_claimed_scope_patterns ::
    "(string \<Rightarrow> bool) \<Rightarrow> (pykey \<times> pyval) list \<Rightarrow> string list" where
  "normalize_claimed_scope_patterns is_dir task =
     dedup_by_key scope_pattern_identity_key []
       (normalize_repo_path_list is_dir (dget task ''write_scope'') @
        normalize_repo_path_list is_dir (dget task ''estimated_files''))"

section \<open>Normal form\<close>

lemma dedup_by_key_distinct:
  "distinct (map key (dedup_by_key key seen xs)) \<and> key ` set (dedup_by_key key seen xs) \<inter> set seen = {}"
  by (induction key seen xs rule: dedup_by_key.induct) auto

lemma dedup_by_key_subset: "set (dedup_by_key key seen xs) \<subseteq> set xs"
  by (induction key seen xs rule: dedup_by_key.induct) auto

lemma claimed_patterns_distinct: "distinct (normalize_claimed_scope_patterns is_dir task)"
  unfolding normalize_claimed_scope_patterns_def
  using dedup_by_key_distinct [of scope_pattern_identity_key "[]"] distinct_map by blast

end
