(* ===== verification/Fnmatch.thy ===== *)
theory Fnmatch
  imports PyRegex
begin

text \<open>
  \<open>fnmatch.fnmatchcase\<close> of the standard library, which decides whether a path is inside a claimed
  scope. A pattern is read into items; \<open>*\<close> and \<open>?\<close> match slashes too. In a bracket set a hyphen
  between two characters is a range (empty if reversed), \<open>!\<close> negates, a \<open>]\<close> that comes first is a
  member, and a bracket that is never closed stands for itself.
\<close>

datatype glob_item =
    GStar
  | GAny
  | GLit char
  | GSet bool "(char \<times> char) list"

fun set_ranges :: "string \<Rightarrow> (char \<times> char) list" where
  "set_ranges [] = []"
| "set_ranges [a] = [(a, a)]"
| "set_ranges [a, b] = [(a, a), (b, b)]"
| "set_ranges (a # b # c # cs) =
     (if b = CHR ''-'' then (a, c) # set_ranges cs else (a, a) # set_ranges (b # c # cs))"

text \<open>The text up to the next closing bracket and the text after it.\<close>

definition until_bracket :: "string \<Rightarrow> (string \<times> string) option" where
  "until_bracket s =
     (case dropWhile (\<lambda>c. c \<noteq> CHR '']'') s of
        [] \<Rightarrow> None
      | _ # rest \<Rightarrow> Some (takeWhile (\<lambda>c. c \<noteq> CHR '']'') s, rest))"

text \<open>What follows an opening bracket: the set and the rest of the pattern.\<close>

definition bracket_set :: "string \<Rightarrow> (glob_item \<times> string) option" where
  "bracket_set s =
     (let negated = (s \<noteq> [] \<and> hd s = CHR ''!'');
          body = (if negated then tl s else s) in
      case body of
        [] \<Rightarrow> None
      | c # cs \<Rightarrow>
          (if c = CHR '']''
           then map_option (\<lambda>(members, rest). (GSet negated (set_ranges (c # members)), rest)) (until_bracket cs)
           else map_option (\<lambda>(members, rest). (GSet negated (set_ranges members), rest)) (until_bracket body)))"

lemma until_bracket_shorter: "until_bracket s = Some (m, rest) \<Longrightarrow> length rest < length s"
  unfolding until_bracket_def
  by (cases "dropWhile (\<lambda>c. c \<noteq> CHR '']'') s")
    (use length_dropWhile_le [of "\<lambda>c. c \<noteq> CHR '']''" s] in auto)

lemma bracket_set_shorter: "bracket_set s = Some (i, rest) \<Longrightarrow> length rest < length s"
  by (cases s)
    (auto simp: bracket_set_def Let_def split: if_splits list.splits dest!: until_bracket_shorter)

function glob_items :: "string \<Rightarrow> glob_item list" where
  "glob_items [] = []"
| "glob_items (c # cs) =
     (if c = CHR ''*'' then GStar # glob_items cs
      else if c = CHR ''?'' then GAny # glob_items cs
      else if c = CHR ''['' then
        (case bracket_set cs of
           Some (item, rest) \<Rightarrow> item # glob_items rest
         | None \<Rightarrow> GLit c # glob_items cs)
      else GLit c # glob_items cs)"
  by pat_completeness auto
termination
  by (relation "measure length") (auto dest!: bracket_set_shorter)

definition in_ranges :: "(char \<times> char) list \<Rightarrow> char \<Rightarrow> bool" where
  "in_ranges rs c = list_ex (\<lambda>(lo, hi). code lo \<le> code c \<and> code c \<le> code hi) rs"

fun item_matches :: "glob_item \<Rightarrow> char \<Rightarrow> bool" where
  "item_matches GStar c = True"
| "item_matches GAny c = True"
| "item_matches (GLit d) c = (c = d)"
| "item_matches (GSet negated rs) c = (in_ranges rs c \<noteq> negated)"

fun glob_match :: "glob_item list \<Rightarrow> string \<Rightarrow> bool" where
  "glob_match [] s = (s = [])"
| "glob_match (GStar # items) [] = glob_match items []"
| "glob_match (GStar # items) (c # cs) = (glob_match items (c # cs) \<or> glob_match (GStar # items) cs)"
| "glob_match (item # items) [] = False"
| "glob_match (item # items) (c # cs) = (item_matches item c \<and> glob_match items cs)"

definition fnmatchcase :: "string \<Rightarrow> string \<Rightarrow> bool" where
  "fnmatchcase name pattern = glob_match (glob_items pattern) name"

section \<open>Literal prefixes\<close>

definition glob_free :: "string \<Rightarrow> bool" where
  "glob_free s = list_all (\<lambda>c. c \<noteq> CHR ''*'' \<and> c \<noteq> CHR ''?'' \<and> c \<noteq> CHR ''['') s"

lemma glob_items_literal: "glob_free d \<Longrightarrow> glob_items (d @ s) = map GLit d @ glob_items s"
  by (induction d) (auto simp: glob_free_def)

lemma glob_match_literal: "glob_match (map GLit d @ items) s \<longleftrightarrow> (\<exists>r. s = d @ r \<and> glob_match items r)"
proof (induction d arbitrary: s)
  case (Cons a d)
  then show ?case by (cases s) auto
qed simp

lemma glob_match_star: "glob_match [GStar] s"
  by (induction s) auto

lemma glob_match_two_stars: "glob_match [GStar, GStar] s"
  by (cases s) (auto simp: glob_match_star)

text \<open>A pattern that ends in \<open>/**\<close> after literal text matches exactly what is below that directory.\<close>

lemma fnmatch_directory:
  assumes "glob_free d"
  shows "fnmatchcase name (d @ ''/**'') \<longleftrightarrow> (\<exists>r. name = d @ ''/'' @ r)"
proof -
  have "glob_items (d @ ''/**'') = map GLit (d @ ''/'') @ [GStar, GStar]"
    using glob_items_literal [of "d @ ''/''" "''**''"] assms by (simp add: glob_free_def)
  then show ?thesis
    unfolding fnmatchcase_def by (simp only: glob_match_literal glob_match_two_stars) auto
qed

text \<open>A pattern without wildcards matches itself only.\<close>

lemma fnmatch_literal:
  assumes "glob_free d"
  shows "fnmatchcase name d \<longleftrightarrow> name = d"
  using glob_items_literal [OF assms, of "[]"] glob_match_literal [of d "[]" name]
  by (auto simp: fnmatchcase_def)

end
