(* ===== verification/ScopeMatch.thy ===== *)
theory ScopeMatch
  imports TaskScope Fnmatch
begin

text \<open>
  Matching paths against claimed scopes and expanding a scope by its support files, the part of
  \<open>task_scope.py\<close> the write guards rest on. The work tree is a parameter: \<open>rf_is_dir\<close> and
  \<open>rf_is_file\<close> say what a path under the root is (the latter for a list of segments), \<open>rf_read\<close> is the
  text of a file, \<open>None\<close> when reading fails. Functions that take \<open>repo_files option\<close> get \<open>None\<close> where
  the code gets no root.
\<close>

record repo_files =
  rf_is_dir :: "string \<Rightarrow> bool"
  rf_is_file :: "string list \<Rightarrow> bool"
  rf_read :: "string list \<Rightarrow> string option"

definition path_of :: "string list \<Rightarrow> string" where
  "path_of segs = (if segs = [] then ''.'' else py_join ''/'' segs)"

text \<open>\<open>s.replace(old, new)\<close> for a non-empty \<open>old\<close>.\<close>

function py_replace :: "string \<Rightarrow> string \<Rightarrow> string \<Rightarrow> string" where
  "py_replace old new [] = []"
| "py_replace old new (c # cs) =
     (if old \<noteq> [] \<and> py_startswith (c # cs) old
      then new @ py_replace old new (drop (length old) (c # cs))
      else c # py_replace old new cs)"
  by pat_completeness auto
termination
  by (relation "measure (\<lambda>(_, _, s). length s)") (auto simp: Suc_le_eq)

section \<open>Matching\<close>

definition scope_glob_variants :: "string \<Rightarrow> string list" where
  "scope_glob_variants pattern =
     (let direct_child = py_replace ''/**/'' ''/'' pattern in
      if py_contains ''/**/'' pattern \<and> direct_child \<noteq> pattern then [pattern, direct_child]
      else [pattern])"

definition is_existing_directory_scope :: "repo_files option \<Rightarrow> string \<Rightarrow> bool" where
  "is_existing_directory_scope rt pattern =
     (case rt of
        None \<Rightarrow> False
      | Some fs \<Rightarrow> \<not> has_glob pattern \<and> \<not> is_root_readme_alias pattern \<and> rf_is_dir fs pattern)"

definition normalize_scope_match_pattern :: "string \<Rightarrow> string option" where
  "normalize_scope_match_pattern v =
     (case normalize_repo_path_entry (\<lambda>_. False) True v of
        Some normalized \<Rightarrow> Some normalized
      | None \<Rightarrow>
          (let cleaned = scope_normalize_path (strip_wrapping_punctuation v) in
           if cleaned = [] then None
           else if py_startswith cleaned ''/'' \<or> py_startswith cleaned ''../'' then None
           else if py_contains ''://'' cleaned \<or> char_of (10 :: nat) \<in> set cleaned \<or>
                   char_of (9 :: nat) \<in> set cleaned then None
           else if cleaned = ''.'' \<or> cleaned = ''..'' then None
           else if py_endswith cleaned ''/'' then Some (rstrip_slash cleaned @ ''/**'')
           else Some cleaned))"

definition is_root_readme_alias_match :: "string \<Rightarrow> string \<Rightarrow> bool" where
  "is_root_readme_alias_match path pattern =
     (is_root_readme_alias path \<and> is_root_readme_alias pattern)"

definition scope_path_matches_pattern :: "repo_files option \<Rightarrow> string \<Rightarrow> string \<Rightarrow> bool" where
  "scope_path_matches_pattern rt path pattern =
     (let p = rstrip_slash (scope_normalize_path path) in
      case normalize_scope_match_pattern pattern of
        None \<Rightarrow> False
      | Some q \<Rightarrow>
          if p = [] \<or> q = [] then False
          else if py_startswith p ''/'' \<or> py_startswith p ''../'' then False
          else if is_root_readme_alias_match p q then True
          else if has_glob q then list_ex (fnmatchcase p) (scope_glob_variants q)
          else if p = q then True
          else if is_existing_directory_scope rt q then py_startswith p (rstrip_slash q @ ''/'')
          else False)"

section \<open>Cargo manifests\<close>

definition CARGO_MANIFEST_FILENAME :: string where
  "CARGO_MANIFEST_FILENAME = ''Cargo.toml''"

definition CARGO_LOCK_FILENAME :: string where
  "CARGO_LOCK_FILENAME = ''Cargo.lock''"

definition RUST_SCOPE_DIR_NAMES :: "string list" where
  "RUST_SCOPE_DIR_NAMES = [''src'', ''tests'', ''test'', ''benches'', ''examples'']"

definition RUST_ENTRYPOINT_FILENAMES :: "string list" where
  "RUST_ENTRYPOINT_FILENAMES = [''lib.rs'', ''main.rs'']"

text \<open>\<open>^\s*\[name\]\s*$\<close> in multi-line mode: some line is the header between white space.\<close>

definition has_table_header :: "string \<Rightarrow> string \<Rightarrow> bool" where
  "has_table_header name text =
     list_ex (\<lambda>line. py_strip line = ''['' @ name @ '']'') (py_split (char_of (10 :: nat)) text)"

definition manifest_declares :: "repo_files \<Rightarrow> string \<Rightarrow> string list \<Rightarrow> bool" where
  "manifest_declares fs name manifest =
     (case rf_read fs manifest of None \<Rightarrow> False | Some text \<Rightarrow> has_table_header name text)"

definition cargo_manifest_declares_workspace :: "repo_files \<Rightarrow> string list \<Rightarrow> bool" where
  "cargo_manifest_declares_workspace fs = manifest_declares fs ''workspace''"

definition cargo_manifest_declares_package :: "repo_files \<Rightarrow> string list \<Rightarrow> bool" where
  "cargo_manifest_declares_package fs = manifest_declares fs ''package''"

text \<open>The walks towards the root; a directory is the list of its segments, innermost first.\<close>

fun nearest_manifest :: "repo_files \<Rightarrow> string list \<Rightarrow> string list option" where
  "nearest_manifest fs rsegs =
     (if rf_is_file fs (rev rsegs @ [CARGO_MANIFEST_FILENAME]) then Some (rev rsegs)
      else case rsegs of [] \<Rightarrow> None | _ # outer \<Rightarrow> nearest_manifest fs outer)"

fun workspace_manifest :: "repo_files \<Rightarrow> string list \<Rightarrow> string list option" where
  "workspace_manifest fs rsegs =
     (let manifest = rev rsegs @ [CARGO_MANIFEST_FILENAME] in
      if rf_is_file fs manifest \<and> cargo_manifest_declares_workspace fs manifest then Some (rev rsegs)
      else case rsegs of [] \<Rightarrow> None | _ # outer \<Rightarrow> workspace_manifest fs outer)"

declare nearest_manifest.simps [simp del] workspace_manifest.simps [simp del]

definition nearest_cargo_manifest_dir :: "repo_files \<Rightarrow> string list \<Rightarrow> string list option" where
  "nearest_cargo_manifest_dir fs parent = nearest_manifest fs (rev parent)"

definition workspace_cargo_manifest_dir :: "repo_files \<Rightarrow> string list \<Rightarrow> string list option" where
  "workspace_cargo_manifest_dir fs manifest_dir = workspace_manifest fs (rev manifest_dir)"

definition scope_concrete_lookup_path :: "string \<Rightarrow> string list option" where
  "scope_concrete_lookup_path path =
     (case normalize_repo_path_entry (\<lambda>_. False) True path of
        None \<Rightarrow> None
      | Some normalized \<Rightarrow>
          if py_endswith normalized ''.rs'' then Some (butlast (pure_parts normalized))
          else (let concrete = takeWhile (\<lambda>g. \<not> has_glob g) (pure_parts normalized) in
                if concrete = [] then None else Some concrete))"

fun strip_segments :: "string list \<Rightarrow> string list \<Rightarrow> string list option" where
  "strip_segments [] segs = Some segs"
| "strip_segments (p # ps) [] = None"
| "strip_segments (p # ps) (s # ss) = (if p = s then strip_segments ps ss else None)"

definition rust_scope_lookup_dir :: "repo_files \<Rightarrow> string \<Rightarrow> string list option" where
  "rust_scope_lookup_dir fs path =
     (case scope_concrete_lookup_path path of
        None \<Rightarrow> None
      | Some concrete \<Rightarrow>
          if cargo_manifest_declares_package fs (concrete @ [CARGO_MANIFEST_FILENAME]) then Some concrete
          else (case nearest_cargo_manifest_dir fs concrete of
              None \<Rightarrow> None
            | Some manifest_dir \<Rightarrow>
                if \<not> cargo_manifest_declares_package fs (manifest_dir @ [CARGO_MANIFEST_FILENAME]) then None
                else (case strip_segments manifest_dir concrete of
                    Some (first # _) \<Rightarrow> if first \<in> set RUST_SCOPE_DIR_NAMES then Some concrete else None
                  | _ \<Rightarrow> None)))"

definition cargo_lock_of :: "repo_files \<Rightarrow> string list \<Rightarrow> string list" where
  "cargo_lock_of fs manifest_dir =
     (let lock_parent = (case workspace_cargo_manifest_dir fs manifest_dir of
            None \<Rightarrow> manifest_dir | Some w \<Rightarrow> w)
      in [path_of (lock_parent @ [CARGO_LOCK_FILENAME])])"

definition cargo_lock_support_patterns_for_path :: "repo_files \<Rightarrow> string \<Rightarrow> string list" where
  "cargo_lock_support_patterns_for_path fs path =
     (case normalize_repo_path_entry (\<lambda>_. False) True path of
        None \<Rightarrow> []
      | Some normalized \<Rightarrow>
          (case rust_scope_lookup_dir fs normalized of
             None \<Rightarrow> []
           | Some lookup_dir \<Rightarrow>
               (case nearest_cargo_manifest_dir fs lookup_dir of
                  None \<Rightarrow> []
                | Some manifest_dir \<Rightarrow> cargo_lock_of fs manifest_dir)))"

definition cargo_lock_support_patterns_for_manifest :: "repo_files \<Rightarrow> string \<Rightarrow> string list" where
  "cargo_lock_support_patterns_for_manifest fs path =
     (case normalize_repo_path_entry (\<lambda>_. False) True path of
        None \<Rightarrow> []
      | Some normalized \<Rightarrow>
          (let manifest_dir = butlast (pure_parts normalized);
               manifest = manifest_dir @ [CARGO_MANIFEST_FILENAME] in
           if pure_name normalized \<noteq> CARGO_MANIFEST_FILENAME then []
           else if \<not> rf_is_file fs manifest then []
           else if \<not> (cargo_manifest_declares_package fs manifest \<or>
                      cargo_manifest_declares_workspace fs manifest) then []
           else cargo_lock_of fs manifest_dir))"

section \<open>Lock files of other ecosystems\<close>

definition NODE_LOCKFILES_BY_PACKAGE_MANAGER :: "(string \<times> string) list" where
  "NODE_LOCKFILES_BY_PACKAGE_MANAGER =
     [(''npm'', ''package-lock.json''), (''pnpm'', ''pnpm-lock.yaml''), (''yarn'', ''yarn.lock''),
      (''bun'', ''bun.lockb'')]"

definition PYPROJECT_LOCKFILE_RULES :: "(string \<times> string) list" where
  "PYPROJECT_LOCKFILE_RULES =
     [(''poetry.lock'', ''[tool.poetry]''), (''uv.lock'', ''[tool.uv]''), (''pdm.lock'', ''[tool.pdm]'')]"

text \<open>A document that is not an object has no \<open>get\<close>: that error is not caught.\<close>

definition package_manager_from_package_json ::
    "repo_files \<Rightarrow> string list \<Rightarrow> py_exc + string option" where
  "package_manager_from_package_json fs package_json =
     (case rf_read fs package_json of
        None \<Rightarrow> Inr None
      | Some text \<Rightarrow>
          (case json_loads text of
             None \<Rightarrow> Inr None
           | Some (PDict payload) \<Rightarrow>
               (let raw = py_casefold (py_strip (str_or (dget payload ''packageManager'') []));
                    name = py_strip (hd (py_split CHR ''@'' raw)) in
                Inr (if raw = [] \<or> name = [] then None else Some name))
           | Some _ \<Rightarrow> Inl AttributeError))"

definition node_lock_name :: "repo_files \<Rightarrow> string list \<Rightarrow> string option \<Rightarrow> string option" where
  "node_lock_name fs parent manager =
     (case (case manager of None \<Rightarrow> None | Some m \<Rightarrow> map_of NODE_LOCKFILES_BY_PACKAGE_MANAGER m) of
        Some lock_name \<Rightarrow> Some lock_name
      | None \<Rightarrow>
          (case filter (\<lambda>name. rf_is_file fs (parent @ [name]))
                  (sort (map snd NODE_LOCKFILES_BY_PACKAGE_MANAGER)) of
             [lock_name] \<Rightarrow> Some lock_name | _ \<Rightarrow> None))"

definition node_lock_support_patterns_for_path :: "repo_files \<Rightarrow> string \<Rightarrow> py_exc + string list" where
  "node_lock_support_patterns_for_path fs path =
     (case normalize_repo_path_entry (\<lambda>_. False) True path of
        None \<Rightarrow> Inr []
      | Some normalized \<Rightarrow>
          (let parent = butlast (pure_parts normalized);
               package_json = parent @ [''package.json''] in
           if pure_name normalized \<noteq> ''package.json'' then Inr []
           else if \<not> rf_is_file fs package_json then Inr []
           else res_bind (package_manager_from_package_json fs package_json) (\<lambda>manager.
             Inr (case node_lock_name fs parent manager of
                    None \<Rightarrow> [] | Some lock_name \<Rightarrow> [path_of (parent @ [lock_name])]))))"

definition pyproject_lock_support_patterns_for_path :: "repo_files \<Rightarrow> string \<Rightarrow> string list" where
  "pyproject_lock_support_patterns_for_path fs path =
     (case normalize_repo_path_entry (\<lambda>_. False) True path of
        None \<Rightarrow> []
      | Some normalized \<Rightarrow>
          (let parent = butlast (pure_parts normalized);
               pyproject = parent @ [''pyproject.toml''];
               text = (case rf_read fs pyproject of None \<Rightarrow> [] | Some t \<Rightarrow> py_casefold t) in
           if pure_name normalized \<noteq> ''pyproject.toml'' then []
           else if \<not> rf_is_file fs pyproject then []
           else map (\<lambda>(lock_name, marker). path_of (parent @ [lock_name]))
                  (filter (\<lambda>(lock_name, marker).
                       rf_is_file fs (parent @ [lock_name]) \<or> py_contains (py_casefold marker) text)
                     PYPROJECT_LOCKFILE_RULES)))"

definition REQUIREMENTS_LOCKFILES :: "string list" where
  "REQUIREMENTS_LOCKFILES = [''constraints.txt'', ''requirements.lock'', ''requirements.lock.txt'']"

definition requirements_lock_support_patterns_for_path :: "repo_files \<Rightarrow> string \<Rightarrow> string list" where
  "requirements_lock_support_patterns_for_path fs path =
     (case normalize_repo_path_entry (\<lambda>_. False) True path of
        None \<Rightarrow> []
      | Some normalized \<Rightarrow>
          (let parent = butlast (pure_parts normalized);
               name = py_casefold (pure_name normalized) in
           if \<not> (py_startswith name ''requirements'' \<and> py_endswith name ''.txt'') then []
           else map (\<lambda>candidate. path_of (parent @ [candidate]))
                  (filter (\<lambda>candidate. rf_is_file fs (parent @ [candidate])) REQUIREMENTS_LOCKFILES)))"

section \<open>Expansion\<close>

definition companion_patterns_for_path :: "repo_files option \<Rightarrow> string \<Rightarrow> py_exc + string list" where
  "companion_patterns_for_path rt path =
     (case (rt, normalize_repo_path_entry (\<lambda>_. False) True path) of
        (Some fs, Some normalized) \<Rightarrow>
          (if has_glob normalized then Inr (dedup (cargo_lock_support_patterns_for_path fs normalized))
           else res_bind (node_lock_support_patterns_for_path fs normalized) (\<lambda>node.
             Inr (dedup (cargo_lock_support_patterns_for_manifest fs normalized @
                         cargo_lock_support_patterns_for_path fs normalized @ node @
                         pyproject_lock_support_patterns_for_path fs normalized @
                         requirements_lock_support_patterns_for_path fs normalized))))
      | _ \<Rightarrow> Inr [])"

definition rust_entrypoint_support_patterns_for_path :: "repo_files \<Rightarrow> string \<Rightarrow> string list" where
  "rust_entrypoint_support_patterns_for_path fs path =
     (case normalize_repo_path_entry (\<lambda>_. False) True path of
        None \<Rightarrow> []
      | Some normalized \<Rightarrow>
          if \<not> py_endswith normalized ''.rs'' then []
          else if pure_name normalized \<in> set RUST_ENTRYPOINT_FILENAMES then []
          else (case rust_scope_lookup_dir fs normalized of
              None \<Rightarrow> []
            | Some lookup_dir \<Rightarrow>
                (case nearest_cargo_manifest_dir fs lookup_dir of
                   None \<Rightarrow> []
                 | Some manifest_dir \<Rightarrow>
                     map (\<lambda>filename. path_of (manifest_dir @ [''src'', filename]))
                       (filter (\<lambda>filename. rf_is_file fs (manifest_dir @ [''src'', filename]))
                          RUST_ENTRYPOINT_FILENAMES))))"

definition is_python_file_path :: "string \<Rightarrow> bool" where
  "is_python_file_path path = (py_endswith path ''.py'' \<and> CHR ''/'' \<in> set path)"

definition is_python_test_file :: "string list \<Rightarrow> bool" where
  "is_python_test_file parts =
     (parts \<noteq> [] \<and> ''tests'' \<in> set (butlast parts) \<and>
      (py_startswith (last parts) ''test_'' \<or> py_endswith (last parts) ''_test.py''))"

definition supports_python_package_init :: "string list \<Rightarrow> bool" where
  "supports_python_package_init parts =
     (let parent_name = (if butlast parts = [] then [] else last (butlast parts)) in
      if parent_name = [] \<or> parent_name = ''.'' then False
      else if parent_name = ''tests'' then True
      else parent_name \<notin> set BROAD_NON_PACKAGE_DIR_NAMES)"

definition support_file_patterns_for_path :: "repo_files option \<Rightarrow> string \<Rightarrow> py_exc + string list" where
  "support_file_patterns_for_path rt path =
     (case normalize_repo_path_entry (\<lambda>_. False) True path of
        None \<Rightarrow> Inr []
      | Some normalized \<Rightarrow>
          (let parts = pure_parts normalized;
               parent = butlast parts;
               python =
                 (if \<not> has_glob normalized \<and> is_python_file_path normalized \<and> parent \<noteq> [] then
                    (if pure_name normalized \<noteq> ''__init__.py'' \<and> supports_python_package_init parts
                     then [path_of parent @ ''/__init__.py''] else []) @
                    (if is_python_test_file parts then [path_of parent @ ''/conftest.py''] else [])
                  else []) in
           case rt of
             None \<Rightarrow> Inr python
           | Some fs \<Rightarrow>
               res_bind (companion_patterns_for_path rt normalized) (\<lambda>companions.
                 Inr (python @ companions @ rust_entrypoint_support_patterns_for_path fs normalized))))"

text \<open>One pattern: itself, then its support files, each unless its identity key was seen.\<close>

definition add_patterns :: "string list \<Rightarrow> string list \<Rightarrow> string list \<Rightarrow> string list \<times> string list" where
  "add_patterns seen expanded items =
     foldl (\<lambda>(seen, expanded) item.
        let key = scope_pattern_identity_key item in
        if key \<in> set seen then (seen, expanded) else (key # seen, expanded @ [item]))
       (seen, expanded) items"

fun expand_patterns ::
    "repo_files option \<Rightarrow> string list \<Rightarrow> string list \<Rightarrow> string list \<Rightarrow> py_exc + string list" where
  "expand_patterns rt seen expanded [] = Inr expanded"
| "expand_patterns rt seen expanded (pattern # patterns) =
     (case normalize_repo_path_entry (\<lambda>_. False) True pattern of
        None \<Rightarrow> expand_patterns rt seen expanded patterns
      | Some normalized \<Rightarrow>
          res_bind (support_file_patterns_for_path rt normalized) (\<lambda>support.
            let (seen', expanded') = add_patterns seen expanded (normalized # support)
            in expand_patterns rt seen' expanded' patterns))"

definition expand_support_file_patterns ::
    "repo_files option \<Rightarrow> string list \<Rightarrow> py_exc + string list" where
  "expand_support_file_patterns rt patterns = expand_patterns rt [] [] patterns"

text \<open>The proper ancestors of a path, nearest first, without the root.\<close>

definition proper_ancestors :: "string \<Rightarrow> string list" where
  "proper_ancestors normalized =
     (let parent = butlast (pure_parts normalized)
      in map (\<lambda>n. path_of (take n parent)) (rev [1..<Suc (length parent)]))"

definition ancestor_directory_scope_patterns ::
    "repo_files option \<Rightarrow> string list \<Rightarrow> py_exc + string list" where
  "ancestor_directory_scope_patterns rt patterns =
     res_bind (expand_support_file_patterns rt patterns) (\<lambda>expanded.
       Inr (dedup (concat (map (\<lambda>pattern.
         case normalize_repo_path_entry (\<lambda>_. False) True pattern of
           None \<Rightarrow> []
         | Some normalized \<Rightarrow> if has_glob normalized then [] else proper_ancestors normalized) expanded))))"

section \<open>What a scope covers\<close>

lemma has_glob_free: "\<not> has_glob q \<longleftrightarrow> glob_free q"
  by (auto simp: has_glob_def glob_free_def list_all_iff)

lemma no_double_star_inside: "glob_free d \<Longrightarrow> \<not> py_contains ''/**/'' (d @ ''/**'')"
proof (induction d)
  case (Cons c d)
  then have "\<not> py_startswith (c # d @ ''/**'') ''/**/''"
    by (cases d; cases "tl d"; auto simp: py_startswith_def glob_free_def)
  with Cons show ?case by (simp add: glob_free_def)
qed (simp add: py_startswith_def)

lemma variants_directory: "glob_free d \<Longrightarrow> scope_glob_variants (d @ ''/**'') = [d @ ''/**'']"
  by (simp add: scope_glob_variants_def no_double_star_inside)

text \<open>The part of the decision that does not depend on the pattern.\<close>

definition matchable_path :: "string \<Rightarrow> string option" where
  "matchable_path path =
     (let p = rstrip_slash (scope_normalize_path path) in
      if p = [] \<or> py_startswith p ''/'' \<or> py_startswith p ''../'' then None else Some p)"

lemma readme_not_directory: "glob_free d \<Longrightarrow> \<not> is_root_readme_alias (d @ ''/**'')"
proof -
  have strip: "rstrip_slash (scope_normalize_path (d @ ''/**'')) = scope_normalize_path (d @ ''/**'') \<and>
      last (scope_normalize_path (d @ ''/**'')) = CHR ''*''"
  proof -
    have dot: "\<exists>e. drop_dot_slash (e' @ ''**'') = e @ ''**''" for e'
    proof (induction e' rule: induct_list012)
      case (3 a b e')
      then show ?case by (cases "a = CHR ''.'' \<and> b = CHR ''/''") auto
    next
      case (2 a)
      then show ?case by (intro exI [of _ "[a]"]) simp
    qed (auto intro: exI [of _ "[]"])
    have "\<exists>e. back_to_slash (py_strip (d @ ''/**'')) = e @ ''**''"
    proof -
      have "py_strip (d @ ''/**'') = py_lstrip (d @ ''/'') @ ''**''"
      proof -
        have "py_lstrip (d @ ''/**'') = py_lstrip (d @ ''/'') @ ''**''"
          by (induction d) (auto simp: py_lstrip_def py_is_space_def code_def)
        then show ?thesis
          by (simp add: py_strip_def py_rstrip_def py_is_space_def code_def)
      qed
      then show ?thesis
        by (intro exI [of _ "back_to_slash (py_lstrip (d @ ''/''))"])
          (simp add: back_to_slash_def py_replace_char_def)
    qed
    with dot obtain e where "scope_normalize_path (d @ ''/**'') = e @ ''**''"
      unfolding scope_normalize_path_def by metis
    then show ?thesis by (simp add: rstrip_slash_def is_slash_def)
  qed
  then have "last (rstrip_slash (scope_normalize_path (d @ ''/**''))) = CHR ''*''" by simp
  then show ?thesis
    by (auto simp: is_root_readme_alias_def Let_def README_ALIAS_FILENAMES_def)
qed

text \<open>
  What a claimed scope covers: a path is matched only if it is relative and does not start by
  leaving the root. A pattern without wildcards covers itself, the other spelling of a root README,
  and, if it names an existing directory, what lies below that; a pattern that ends in \<open>/**\<close> after
  literal text covers exactly what lies below that directory.
\<close>

theorem scope_covers:
  assumes "normalize_scope_match_pattern pattern = Some q" and "q \<noteq> []"
  shows "(glob_free q \<longrightarrow>
      (scope_path_matches_pattern rt path pattern \<longleftrightarrow>
        (\<exists>p. matchable_path path = Some p \<and>
          (p = q \<or> is_root_readme_alias p \<and> is_root_readme_alias q \<or>
           is_existing_directory_scope rt q \<and> (\<exists>r. p = rstrip_slash q @ ''/'' @ r))))) \<and>
    (\<forall>d. q = d @ ''/**'' \<and> glob_free d \<longrightarrow>
      (scope_path_matches_pattern rt path pattern \<longleftrightarrow>
        (\<exists>p r. matchable_path path = Some p \<and> p = d @ ''/'' @ r)))"
proof (intro conjI impI allI)
  assume "glob_free q"
  then show "scope_path_matches_pattern rt path pattern \<longleftrightarrow>
      (\<exists>p. matchable_path path = Some p \<and>
          (p = q \<or> is_root_readme_alias p \<and> is_root_readme_alias q \<or>
           is_existing_directory_scope rt q \<and> (\<exists>r. p = rstrip_slash q @ ''/'' @ r)))"
    using assms has_glob_free [of q]
    by (auto simp: scope_path_matches_pattern_def matchable_path_def Let_def
        is_root_readme_alias_match_def py_startswith_append)
next
  fix d
  assume d: "q = d @ ''/**'' \<and> glob_free d"
  then have "has_glob q" by (simp add: has_glob_def)
  then show "scope_path_matches_pattern rt path pattern \<longleftrightarrow>
      (\<exists>p r. matchable_path path = Some p \<and> p = d @ ''/'' @ r)"
    using assms d readme_not_directory [of d]
    by (auto simp: scope_path_matches_pattern_def matchable_path_def Let_def
        is_root_readme_alias_match_def variants_directory fnmatch_directory)
qed

text \<open>A small work tree, for the examples.\<close>

definition sample_tree :: repo_files where
  "sample_tree =
     \<lparr>rf_is_dir = (\<lambda>p. p \<in> {''src'', ''src/app'', ''tests''}),
      rf_is_file = (\<lambda>segs. segs \<in> {[''package.json''], [''yarn.lock''], [''Cargo.toml'']}),
      rf_read = (\<lambda>segs. if segs = [''Cargo.toml''] then Some ''[package]''
                        else if segs = [''package.json''] then Some ''{}'' else None)\<rparr>"

theorem scope_covers_witness:
  "scope_path_matches_pattern (Some sample_tree) ''src/app/x.py'' ''src/app/**'' \<and>
   \<not> scope_path_matches_pattern (Some sample_tree) ''src/apple.py'' ''src/app/**''"
proof -
  have q: "normalize_scope_match_pattern ''src/app/**'' = Some (''src/app'' @ ''/**'')"
    by code_simp
  have "glob_free ''src/app''" by code_simp
  with scope_covers [OF q, THEN conjunct2, rule_format, of "''src/app''" "Some sample_tree"]
  have covers: "scope_path_matches_pattern (Some sample_tree) path ''src/app/**'' \<longleftrightarrow>
      (\<exists>p r. matchable_path path = Some p \<and> p = ''src/app'' @ ''/'' @ r)" for path
    by blast
  have "matchable_path ''src/app/x.py'' = Some ''src/app/x.py''"
    "matchable_path ''src/apple.py'' = Some ''src/apple.py''"
    by code_simp+
  then show ?thesis unfolding covers by simp
qed

section \<open>What expansion adds\<close>

definition SUPPORT_FILENAMES :: "string list" where
  "SUPPORT_FILENAMES =
     [''__init__.py'', ''conftest.py'', CARGO_LOCK_FILENAME] @ map snd NODE_LOCKFILES_BY_PACKAGE_MANAGER @
     map fst PYPROJECT_LOCKFILE_RULES @ REQUIREMENTS_LOCKFILES @ RUST_ENTRYPOINT_FILENAMES"

definition is_support_path :: "string \<Rightarrow> bool" where
  "is_support_path p = (last (py_split CHR ''/'' p) \<in> set SUPPORT_FILENAMES)"

lemma py_split_no_sep: "c \<notin> set s \<Longrightarrow> py_split c s = [s]"
  by (induction s) auto

lemma path_of_snoc: "path_of (segs @ [name]) = (if segs = [] then name else py_join ''/'' segs @ ''/'' @ name)"
proof (cases segs)
  case (Cons s ss)
  have "py_join ''/'' (segs @ [name]) = py_join ''/'' segs @ ''/'' @ name" if "segs \<noteq> []" for segs
    using that by (induction segs rule: induct_list012) auto
  from this [of segs] Cons show ?thesis by (simp add: path_of_def)
qed (simp add: path_of_def)

lemma is_support_path_of:
  assumes "name \<in> set SUPPORT_FILENAMES"
  shows "is_support_path (path_of (segs @ [name]))" and "is_support_path (p @ CHR ''/'' # name)"
proof -
  have "list_all (\<lambda>n. CHR ''/'' \<notin> set n) SUPPORT_FILENAMES" by code_simp
  then have "py_split CHR ''/'' name = [name]"
    using assms by (intro py_split_no_sep) (simp add: list_all_iff)
  then show "is_support_path (path_of (segs @ [name]))" "is_support_path (p @ CHR ''/'' # name)"
    using assms by (auto simp: is_support_path_def path_of_snoc py_split_append)
qed

lemma support_names:
  "''__init__.py'' \<in> set SUPPORT_FILENAMES" "''conftest.py'' \<in> set SUPPORT_FILENAMES"
  "CARGO_LOCK_FILENAME \<in> set SUPPORT_FILENAMES"
  "n \<in> set RUST_ENTRYPOINT_FILENAMES \<Longrightarrow> n \<in> set SUPPORT_FILENAMES"
  "n \<in> set REQUIREMENTS_LOCKFILES \<Longrightarrow> n \<in> set SUPPORT_FILENAMES"
  "(n, m) \<in> set PYPROJECT_LOCKFILE_RULES \<Longrightarrow> n \<in> set SUPPORT_FILENAMES"
  "(m, n) \<in> set NODE_LOCKFILES_BY_PACKAGE_MANAGER \<Longrightarrow> n \<in> set SUPPORT_FILENAMES"
  by (force simp: SUPPORT_FILENAMES_def)+

lemma cargo_lock_support: "p \<in> set (cargo_lock_of fs d) \<Longrightarrow> is_support_path p"
  by (auto simp: cargo_lock_of_def Let_def support_names intro: is_support_path_of)

lemma rules_support:
  "(n, m) \<in> set PYPROJECT_LOCKFILE_RULES \<Longrightarrow> is_support_path (path_of (segs @ [n]))"
  "n \<in> set REQUIREMENTS_LOCKFILES \<Longrightarrow> is_support_path (path_of (segs @ [n]))"
  by (intro is_support_path_of support_names; assumption)+

lemma companions_support:
  "p \<in> set (cargo_lock_support_patterns_for_path fs path) \<Longrightarrow> is_support_path p"
  "p \<in> set (cargo_lock_support_patterns_for_manifest fs path) \<Longrightarrow> is_support_path p"
  "p \<in> set (pyproject_lock_support_patterns_for_path fs path) \<Longrightarrow> is_support_path p"
  "p \<in> set (requirements_lock_support_patterns_for_path fs path) \<Longrightarrow> is_support_path p"
  by (auto simp: cargo_lock_support_patterns_for_path_def cargo_lock_support_patterns_for_manifest_def
      pyproject_lock_support_patterns_for_path_def requirements_lock_support_patterns_for_path_def Let_def
      intro: rules_support dest: cargo_lock_support split: option.splits if_splits)

lemma node_lock_name_known:
  assumes "node_lock_name fs parent manager = Some n"
  shows "\<exists>m. (m, n) \<in> set NODE_LOCKFILES_BY_PACKAGE_MANAGER"
proof (cases "case manager of None \<Rightarrow> None | Some m \<Rightarrow> map_of NODE_LOCKFILES_BY_PACKAGE_MANAGER m")
  case None
  with assms have "filter (\<lambda>name. rf_is_file fs (parent @ [name]))
      (sort (map snd NODE_LOCKFILES_BY_PACKAGE_MANAGER)) = [n]"
    by (auto simp: node_lock_name_def split: list.splits)
  then have "n \<in> set (filter (\<lambda>name. rf_is_file fs (parent @ [name]))
      (sort (map snd NODE_LOCKFILES_BY_PACKAGE_MANAGER)))" by simp
  then have "n \<in> snd ` set NODE_LOCKFILES_BY_PACKAGE_MANAGER"
    unfolding set_filter set_sort set_map by blast
  then show ?thesis by auto
next
  case (Some k)
  with assms have "k = n" by (simp add: node_lock_name_def)
  with Some show ?thesis by (auto split: option.splits dest!: map_of_SomeD)
qed

lemma node_support:
  assumes "node_lock_support_patterns_for_path fs path = Inr ps" "p \<in> set ps"
  shows "is_support_path p"
proof -
  have named: "is_support_path (path_of (segs @ [n]))" if "node_lock_name fs parent manager = Some n"
    for segs parent manager n
    using node_lock_name_known [OF that] by (auto intro: is_support_path_of support_names(7))
  show ?thesis
    using assms
    by (auto simp: node_lock_support_patterns_for_path_def Let_def res_bind_eq_Inr
        split: option.splits if_splits) (erule named)
qed

lemma companion_patterns_support:
  assumes "companion_patterns_for_path rt path = Inr ps" "p \<in> set ps"
  shows "is_support_path p"
  using assms
  by (auto simp: companion_patterns_for_path_def res_bind_eq_Inr
      split: option.splits if_splits dest: companions_support node_support)

lemma entrypoint_support:
  "p \<in> set (rust_entrypoint_support_patterns_for_path fs path) \<Longrightarrow> is_support_path p"
proof -
  assume "p \<in> set (rust_entrypoint_support_patterns_for_path fs path)"
  then obtain d n where "p = path_of ((d @ [''src'']) @ [n])" "n \<in> set RUST_ENTRYPOINT_FILENAMES"
    by (auto simp: rust_entrypoint_support_patterns_for_path_def split: option.splits if_splits)
  then show ?thesis using is_support_path_of(1) support_names(4) by blast
qed

lemma python_support:
  "is_support_path (p @ ''/__init__.py'')" "is_support_path (p @ ''/conftest.py'')"
  using is_support_path_of(2) [OF support_names(1), of p] is_support_path_of(2) [OF support_names(2), of p]
  by simp_all

lemma support_patterns_support:
  assumes "support_file_patterns_for_path rt path = Inr ps" "p \<in> set ps"
  shows "is_support_path p"
  using assms
  by (auto simp: support_file_patterns_for_path_def Let_def res_bind_eq_Inr python_support
      split: option.splits if_splits dest: companion_patterns_support entrypoint_support)

text \<open>The loop: keys stay distinct, every item leaves one with its key, nothing else comes in.\<close>

lemma add_patterns_append:
  "add_patterns seen expanded (x # xs) =
     (if scope_pattern_identity_key x \<in> set seen then add_patterns seen expanded xs
      else add_patterns (scope_pattern_identity_key x # seen) (expanded @ [x]) xs)"
  by (simp add: add_patterns_def Let_def)

lemma add_patterns_props:
  assumes "add_patterns seen expanded items = (seen', expanded')"
    and "set seen = scope_pattern_identity_key ` set expanded"
  shows "set seen' = scope_pattern_identity_key ` set expanded' \<and> set expanded \<subseteq> set expanded' \<and>
    set expanded' \<subseteq> set expanded \<union> set items \<and>
    scope_pattern_identity_key ` set items \<subseteq> set seen' \<and>
    (distinct (map scope_pattern_identity_key expanded) \<longrightarrow>
       distinct (map scope_pattern_identity_key expanded'))"
  using assms
proof (induction items arbitrary: seen expanded)
  case Nil
  then show ?case by (simp add: add_patterns_def)
next
  case (Cons x xs)
  show ?case
  proof (cases "scope_pattern_identity_key x \<in> set seen")
    case True
    with Cons.prems Cons.IH [of seen expanded] show ?thesis by (auto simp: add_patterns_append)
  next
    case False
    with Cons.prems Cons.IH [of "scope_pattern_identity_key x # seen" "expanded @ [x]"]
    show ?thesis by (auto simp: add_patterns_append)
  qed
qed

lemma expand_patterns_props:
  assumes "expand_patterns rt seen expanded patterns = Inr xs"
    and "set seen = scope_pattern_identity_key ` set expanded"
    and "distinct (map scope_pattern_identity_key expanded)"
  shows "set expanded \<subseteq> set xs \<and>
    (\<forall>x\<in>set xs. x \<in> set expanded \<or> is_support_path x \<or>
       (\<exists>p\<in>set patterns. normalize_repo_path_entry (\<lambda>_. False) True p = Some x)) \<and>
    (\<forall>p\<in>set patterns. \<forall>q. normalize_repo_path_entry (\<lambda>_. False) True p = Some q \<longrightarrow>
       scope_pattern_identity_key q \<in> scope_pattern_identity_key ` set xs) \<and>
    distinct (map scope_pattern_identity_key xs)"
  using assms
proof (induction patterns arbitrary: seen expanded)
  case (Cons p patterns)
  show ?case
  proof (cases "normalize_repo_path_entry (\<lambda>_. False) True p")
    case None
    with Cons show ?thesis by auto
  next
    case (Some q)
    then obtain support where s: "support_file_patterns_for_path rt q = Inr support"
      using Cons.prems(1) by (auto simp: res_bind_eq_Inr)
    obtain seen' expanded' where a: "add_patterns seen expanded (q # support) = (seen', expanded')"
      by (cases "add_patterns seen expanded (q # support)")
    have sup: "\<forall>x\<in>set support. is_support_path x" using support_patterns_support [OF s] by blast
    have e: "expand_patterns rt seen' expanded' patterns = Inr xs"
      using Cons.prems(1) Some s a by simp
    note props = add_patterns_props [OF a Cons.prems(2)]
    have "set seen' = scope_pattern_identity_key ` set expanded'"
      and "distinct (map scope_pattern_identity_key expanded')"
      using props Cons.prems(3) by simp_all
    note rest = Cons.IH [OF e this]
    have IH: "set expanded' \<subseteq> set xs"
      "\<forall>x\<in>set xs. x \<in> set expanded' \<or> is_support_path x \<or>
         (\<exists>p\<in>set patterns. normalize_repo_path_entry (\<lambda>_. False) True p = Some x)"
      "\<forall>p\<in>set patterns. \<forall>q. normalize_repo_path_entry (\<lambda>_. False) True p = Some q \<longrightarrow>
         scope_pattern_identity_key q \<in> scope_pattern_identity_key ` set xs"
      "distinct (map scope_pattern_identity_key xs)"
      using rest by simp_all
    have key: "scope_pattern_identity_key q \<in> scope_pattern_identity_key ` set xs"
      using props image_mono [OF IH(1), of scope_pattern_identity_key] by simp blast
    have from_q: "x \<in> set expanded \<or> is_support_path x \<or> x = q" if "x \<in> set expanded'" for x
      using props sup that by auto
    show ?thesis
    proof (intro conjI ballI allI impI)
      show "set expanded \<subseteq> set xs" using props IH(1) by blast
      show "distinct (map scope_pattern_identity_key xs)" by (rule IH(4))
    next
      fix x assume "x \<in> set xs"
      then show "x \<in> set expanded \<or> is_support_path x \<or>
          (\<exists>p'\<in>set (p # patterns). normalize_repo_path_entry (\<lambda>_. False) True p' = Some x)"
        using IH(2) from_q Some by (metis list.set_intros(1,2))
    next
      fix p' q' assume "p' \<in> set (p # patterns)"
        "normalize_repo_path_entry (\<lambda>_. False) True p' = Some q'"
      then show "scope_pattern_identity_key q' \<in> scope_pattern_identity_key ` set xs"
        using IH(3) key Some by auto
    qed
  qed
qed simp

text \<open>
  Expanding a scope never claims another source file: every pattern of the expansion is one of
  the given patterns in normal form, or its file name is on the fixed list of support files (package
  markers, test configuration, lock files, the two Rust entry points). Every given pattern that is
  valid is still there, up to the spelling of a root README, and no two patterns are the same claim.
\<close>

theorem expansion_adds_only_support_files:
  assumes "expand_support_file_patterns rt patterns = Inr xs"
  shows "(\<forall>x\<in>set xs. is_support_path x \<or>
      (\<exists>p\<in>set patterns. normalize_repo_path_entry (\<lambda>_. False) True p = Some x)) \<and>
    (\<forall>p\<in>set patterns. \<forall>q. normalize_repo_path_entry (\<lambda>_. False) True p = Some q \<longrightarrow>
       scope_pattern_identity_key q \<in> scope_pattern_identity_key ` set xs) \<and>
    distinct (map scope_pattern_identity_key xs)"
  using expand_patterns_props [of rt "[]" "[]" patterns xs] assms
  by (auto simp: expand_support_file_patterns_def)

theorem expansion_adds_only_support_files_witness:
  "\<exists>xs. expand_support_file_patterns (Some sample_tree) [''src/app/x.py'', ''package.json''] = Inr xs \<and>
     distinct (map scope_pattern_identity_key xs) \<and> ''yarn.lock'' \<in> set xs"
proof -
  have "expand_support_file_patterns (Some sample_tree) [''src/app/x.py'', ''package.json''] =
      Inr [''src/app/x.py'', ''Cargo.lock'', ''package.json'', ''yarn.lock'']"
    by code_simp
  from this expansion_adds_only_support_files [OF this] show ?thesis by simp
qed

end
