(* ===== verification/ToolGuards.thy ===== *)
theory ToolGuards
  imports ShellPolicy ScopeMatch ApprovalBroker
begin

text \<open>
  The guards every built-in tool call passes, the nested functions \<open>guard_shell\<close>, \<open>guard_verify\<close>,
  \<open>guard_write\<close>, \<open>guard_sensitive_files\<close>, \<open>guard_terminal_op\<close> and \<open>_guard_write_path\<close> of
  \<open>agent/tools_assembly.py\<close>, with \<open>classify_sensitive_path\<close> of \<open>tools/fs.py\<close>.

  What the closures capture is the record \<open>tool_session\<close>. A guard returns the approval requests it
  made and its outcome. \<open>ask\<close> is \<open>surface.request_approval\<close>: the answer to a request; the texts shown
  with it are left out of the request, as in the approval theories. \<open>sha\<close> is SHA-256.
\<close>

record tool_session =
  ts_mode :: string
  ts_yes :: bool
  ts_non_interactive :: bool
  ts_host_managed :: bool
  ts_deny_prefixes :: "string list"
  ts_allow_globs :: "string list option"
  ts_persona_globs :: "string list option"

datatype agent_error = Blocked string | Declined string

type_synonym 'a guarded = "approval_request list \<times> (agent_error + 'a)"

definition persona_write_scope_active :: "tool_session \<Rightarrow> bool" where
  "persona_write_scope_active s = (ts_persona_globs s \<noteq> None)"

definition is_full_access_mode :: "tool_session \<Rightarrow> bool" where
  "is_full_access_mode s = (ts_mode s = ''fullaccess'' \<and> \<not> persona_write_scope_active s)"

definition cannot_ask :: "tool_session \<Rightarrow> bool" where
  "cannot_ask s = (ts_non_interactive s \<and> \<not> ts_host_managed s)"

definition confirmation_required :: string where
  "confirmation_required =
     ''Confirmation required for sensitive command. Re-run with --yes or adjust plan.''"

section \<open>The deny list\<close>

definition normalize_fullaccess_shell_command :: "string \<Rightarrow> string" where
  "normalize_fullaccess_shell_command cmd = py_join '' '' (py_words (py_strip cmd))"

definition is_ascii_alpha :: "char \<Rightarrow> bool" where
  "is_ascii_alpha c = (is_ascii_lower c \<or> is_ascii_upper c)"

definition r_letters :: rx where "r_letters = RMany is_ascii_alpha 0 None"

definition r_spaces0 :: rx where "r_spaces0 = RMany py_is_space 0 None"

text \<open>\<open>\brm\s+(-[a-zA-Z]*r[a-zA-Z]*f|-[a-zA-Z]*f[a-zA-Z]*r)\s+/\<close>.\<close>

definition r_rm_rf_root :: rx where
  "r_rm_rf_root =
     r_seq [RWordEdge, r_lit ''rm'', r_spaces,
            RAlt (r_seq [r_lit ''-'', r_letters, r_lit ''r'', r_letters, r_lit ''f''])
                 (r_seq [r_lit ''-'', r_letters, r_lit ''f'', r_letters, r_lit ''r'']),
            r_spaces, r_lit ''/'']"

definition r_pipe_sh :: "string \<Rightarrow> rx" where
  "r_pipe_sh tool =
     r_seq [RWordEdge, r_lit tool, r_spaces, RMany (\<lambda>c. c \<noteq> CHR ''|'') 0 None, r_lit ''|'',
            r_spaces0, r_lit ''sh'', RWordEdge]"

text \<open>A pattern as text, with \<open>%\<close> for the backslash.\<close>

definition raw_text :: "string \<Rightarrow> string" where
  "raw_text s = py_replace_char CHR ''%'' CHR 0x5C s"

definition FULLACCESS_DENYLIST_PATTERNS :: "(rx \<times> string) list" where
  "FULLACCESS_DENYLIST_PATTERNS =
     [(r_seq [r_rm_rf_root, r_spaces0, REnd],
       raw_text ''%brm%s+(-[a-zA-Z]*r[a-zA-Z]*f|-[a-zA-Z]*f[a-zA-Z]*r)%s+/%s*$''),
      (r_seq [r_rm_rf_root, r_lit ''*''],
       raw_text ''%brm%s+(-[a-zA-Z]*r[a-zA-Z]*f|-[a-zA-Z]*f[a-zA-Z]*r)%s+/%*''),
      (r_seq [RWordEdge, r_lit ''git'', r_spaces, r_lit ''push'', r_spaces, r_any, r_lit ''--force'',
              r_any, RWordEdge, r_alt [r_lit ''main'', r_lit ''master''], RWordEdge],
       raw_text ''%bgit%s+push%s+.*--force.*%b(main|master)%b''),
      (r_words [''sudo''], raw_text ''%bsudo%b''),
      (r_pipe_sh ''curl'', raw_text ''%bcurl%s+[^|]*%|%s*sh%b''),
      (r_pipe_sh ''wget'', raw_text ''%bwget%s+[^|]*%|%s*sh%b''),
      (r_seq [RWordEdge, r_lit ''dd'', r_spaces, r_lit ''if=/dev/''], raw_text ''%bdd%s+if=/dev/''),
      (r_seq [RWordEdge, r_lit ''mkfs.''], raw_text ''%bmkfs%.''),
      (r_seq [r_lit '':()'', r_spaces0, r_lit ''{'', r_spaces0, r_lit '':|:&'', r_spaces0, r_lit ''}'',
              r_spaces0, r_lit '';'', r_spaces0, r_lit '':''],
       raw_text '':%(%)%s*%{%s*:%|:&%s*%}%s*;%s*:''),
      (r_seq [RWordEdge, r_lit ''chmod'', r_spaces, r_lit ''-R'', r_spaces, r_lit ''777'', r_spaces,
              r_lit ''/''], raw_text ''%bchmod%s+-R%s+777%s+/''),
      (r_seq [r_lit ''>'', r_spaces0, r_lit ''/dev/sd'', RClass is_ascii_alpha], raw_text ''>%s*/dev/sd[a-z]'')]"

definition fullaccess_denylist_match :: "string \<Rightarrow> string option" where
  "fullaccess_denylist_match cmd =
     first_match FULLACCESS_DENYLIST_PATTERNS (normalize_fullaccess_shell_command cmd)"

section \<open>Sensitive files\<close>

definition SAFE_ENV_TEMPLATE_SUFFIXES :: "string list" where
  "SAFE_ENV_TEMPLATE_SUFFIXES = [''.example'', ''.sample'', ''.template'', ''.dist'', ''.defaults'']"

definition PRIVATE_KEY_SUFFIXES :: "string list" where
  "PRIVATE_KEY_SUFFIXES = [''.key'', ''.pem'', ''.p12'', ''.pfx'', ''.ppk'', ''.jks'', ''.keystore'']"

definition PRIVATE_KEY_NAMES :: "string list" where
  "PRIVATE_KEY_NAMES = [''id_dsa'', ''id_ecdsa'', ''id_ed25519'', ''id_rsa'']"

definition CREDENTIAL_FILE_NAMES :: "string list" where
  "CREDENTIAL_FILE_NAMES =
     [''.git-credentials'', ''.netrc'', ''.npmrc'', ''.pypirc'', ''application_default_credentials.json'',
      ''auth.json'', ''credentials'', ''credentials.json'', ''credentials.tfrc.json'',
      ''dockerconfigjson'', ''kubeconfig'', ''netrc'', ''service-account.json'', ''service_account.json'']"

definition SENSITIVE_DIRECTORY_NAMES :: "string list" where
  "SENSITIVE_DIRECTORY_NAMES =
     [''.aws'', ''.azure'', ''.docker'', ''.git'', ''.gnupg'', ''.kube'', ''.ssh'', ''.alysis'']"

definition ends_with_any :: "string \<Rightarrow> string list \<Rightarrow> bool" where
  "ends_with_any s suffixes = list_ex (py_endswith s) suffixes"

definition starts_with_any :: "string \<Rightarrow> string list \<Rightarrow> bool" where
  "starts_with_any s prefixes = list_ex (py_startswith s) prefixes"

text \<open>The last two segments of a path.\<close>

definition last_two :: "string list \<Rightarrow> string list" where
  "last_two parts = (if length parts \<ge> 2 then drop (length parts - 2) parts else [])"

text \<open>The category of a sensitive path, \<open>None\<close> for one that is not.\<close>

definition classify_sensitive_path :: "string \<Rightarrow> string option" where
  "classify_sensitive_path path =
     (let parts = map py_casefold (filter (\<lambda>part. part \<noteq> [])
            (py_split CHR ''/'' (py_strip_of is_slash (back_to_slash path))));
          name = last parts in
      if parts = [] then None
      else if list_ex (\<lambda>part. part \<in> set SENSITIVE_DIRECTORY_NAMES) parts then Some ''credential_directory''
      else if name = ''.env'' \<or> py_startswith name ''.env.'' then
        (if ends_with_any name SAFE_ENV_TEMPLATE_SUFFIXES then None else Some ''environment_file'')
      else if name \<in> set PRIVATE_KEY_NAMES \<or>
              ends_with_any name PRIVATE_KEY_SUFFIXES \<and> \<not> py_endswith name ''.pub'' then Some ''private_key''
      else if name \<in> set CREDENTIAL_FILE_NAMES then Some ''credential_file''
      else if starts_with_any name [''service-account-'', ''service_account_''] \<and>
              py_endswith name ''.json'' then Some ''credential_file''
      else if starts_with_any name [''secret.'', ''secrets.''] \<or>
              name \<in> {''secret'', ''secrets'', ''secrets.json'', ''secrets.yaml'', ''secrets.yml''}
      then Some ''secret_file''
      else if last_two parts = [''.aws'', ''credentials''] then Some ''credential_file''
      else if last_two parts = [''.docker'', ''config.json''] then Some ''credential_file''
      else if last_two parts = [''.azure'', ''accesstokens.json''] then Some ''credential_file''
      else None)"

definition sensitive_path_findings :: "string list \<Rightarrow> (string \<times> string) list" where
  "sensitive_path_findings paths =
     List.map_filter (\<lambda>path. map_option (\<lambda>category. (path, category)) (classify_sensitive_path path)) paths"

section \<open>Asking\<close>

definition ask_for ::
    "(approval_request \<Rightarrow> approval_decision) \<Rightarrow> approval_request \<Rightarrow> string \<Rightarrow> unit guarded" where
  "ask_for ask rq kind = ([rq], if dec_allow (ask rq) then Inr () else Inl (Declined kind))"

text \<open>The three requests: for a command, for a set of commands, and for files.\<close>

definition command_request :: "(string \<Rightarrow> string) \<Rightarrow> string \<Rightarrow> string \<Rightarrow> approval_request" where
  "command_request sha cmd kind =
     \<lparr>rq_kind = PStr kind, rq_files = PList [], rq_command = PStr cmd, rq_metadata = PDict [],
      rq_scope = PDict (exact_command_scope sha cmd kind)\<rparr>"

definition verify_request :: "(string \<Rightarrow> string) \<Rightarrow> string list \<Rightarrow> approval_request" where
  "verify_request sha commands =
     \<lparr>rq_kind = PStr ''verify_run'', rq_files = PList [],
      rq_command = PStr (case commands of [c] \<Rightarrow> c
        | _ \<Rightarrow> show_int (int (length commands)) @ '' verification commands''),
      rq_metadata = PDict [],
      rq_scope = PDict (exact_verify_command_set_scope sha (map PStr commands))\<rparr>"

definition files_request :: "(string \<Rightarrow> string) \<Rightarrow> string list \<Rightarrow> string \<Rightarrow> approval_request" where
  "files_request sha files kind =
     \<lparr>rq_kind = PStr kind, rq_files = PList (map PStr files), rq_command = PNone, rq_metadata = PDict [],
      rq_scope = (if files = [] then PNone
                  else PDict (exact_file_set_scope sha (map PStr files) kind))\<rparr>"

definition sensitive_request :: "(string \<times> string) list \<Rightarrow> string \<Rightarrow> approval_request" where
  "sensitive_request findings kind =
     \<lparr>rq_kind = PStr kind, rq_files = PList (map (PStr \<circ> fst) findings), rq_command = PNone,
      rq_metadata = PDict
        [(KStr ''mandatory_explicit_approval'', PBool True),
         (KStr ''allow_for_session_disabled'', PBool True),
         (KStr ''sensitive_categories'', PList (map PStr (sort (dedup (map snd findings)))))],
      rq_scope = PNone\<rparr>"

section \<open>The guards\<close>

definition guard_shell ::
    "(string \<Rightarrow> string) \<Rightarrow> (approval_request \<Rightarrow> approval_decision) \<Rightarrow> tool_session \<Rightarrow> string \<Rightarrow> string \<Rightarrow>
     unit guarded" where
  "guard_shell sha ask s cmd tool =
     (if persona_write_scope_active s then
        ([], Inl (Blocked (''Blocked while persona write scope is active: '' @ tool @
          ''. Use scoped filesystem and inspection tools instead.'')))
      else case fullaccess_denylist_match cmd of
        Some pattern \<Rightarrow>
          ([], Inl (Blocked
            (if tool \<noteq> ''shell_run'' \<and> \<not> is_full_access_mode s
             then ''Blocked command: denylist pattern '' @ pattern
             else ''Blocked fullaccess shell command by denylist pattern: '' @ pattern)))
      | None \<Rightarrow>
          if is_full_access_mode s then ([], Inr ())
          else if ts_mode s = ''readonly'' then
            ([], Inl (Blocked (''Blocked in readonly mode: '' @ tool)))
          else
            let decision = evaluate_shell_command cmd in
            if \<not> pd_allowed decision then
              ([], Inl (Blocked (''Blocked command: '' @ pd_reason decision)))
            else if ts_mode s = ''review'' then
              (if cannot_ask s then ([], Inl (Blocked confirmation_required))
               else ask_for ask (command_request sha cmd tool) tool)
            else if pd_needs_confirm decision \<and> \<not> ts_yes s then
              (if cannot_ask s then ([], Inl (Blocked confirmation_required))
               else ask_for ask (command_request sha cmd tool) tool)
            else ([], Inr ()))"

definition guard_terminal_op :: "tool_session \<Rightarrow> string \<Rightarrow> unit guarded" where
  "guard_terminal_op s op_name =
     (if is_full_access_mode s then ([], Inr ())
      else if ts_mode s = ''readonly'' then
        ([], Inl (Blocked (''Blocked in readonly mode: '' @ op_name)))
      else ([], Inr ()))"

text \<open>The commands in order: the first refused one, or else the first reason to ask.\<close>

fun verify_policy :: "string list \<Rightarrow> string + string option" where
  "verify_policy [] = Inr None"
| "verify_policy (command # commands) =
     (let decision = evaluate_shell_command command in
      if \<not> pd_allowed decision then Inl (pd_reason decision)
      else res_bind (verify_policy commands) (\<lambda>later.
        Inr (if pd_needs_confirm decision then Some (pd_reason decision) else later)))"

definition guard_verify ::
    "(string \<Rightarrow> string) \<Rightarrow> (approval_request \<Rightarrow> approval_decision) \<Rightarrow> tool_session \<Rightarrow> string list \<Rightarrow>
     unit guarded" where
  "guard_verify sha ask s commands =
     (if persona_write_scope_active s then
        ([], Inl (Blocked (''Blocked while persona write scope is active: verify_run. '' @
          ''Verification commands can write paths the persona scope cannot constrain.'')))
      else if is_full_access_mode s then ([], Inr ())
      else if ts_mode s = ''readonly'' then ([], Inl (Blocked ''Blocked in readonly mode: verify_run''))
      else (case verify_policy commands of
          Inl reason \<Rightarrow> ([], Inl (Blocked (''Blocked command: '' @ reason)))
        | Inr sensitive_reason \<Rightarrow>
            if ts_mode s = ''review'' \<or>
               (case sensitive_reason of None \<Rightarrow> False | Some r \<Rightarrow> r \<noteq> []) \<and> \<not> ts_yes s then
              (if cannot_ask s then ([], Inl (Blocked confirmation_required))
               else ask_for ask (verify_request sha commands) ''verify_run'')
            else ([], Inr ())))"

definition guard_write ::
    "(string \<Rightarrow> string) \<Rightarrow> (approval_request \<Rightarrow> approval_decision) \<Rightarrow> tool_session \<Rightarrow> string \<Rightarrow>
     string list \<Rightarrow> unit guarded" where
  "guard_write sha ask s kind files =
     (if is_full_access_mode s then ([], Inr ())
      else if ts_mode s = ''readonly'' then
        ([], Inl (Blocked (''Blocked in readonly mode: '' @ kind)))
      else if ts_mode s = ''review'' \<or> ts_mode s = ''auto'' \<and> kind = ''fs_delete'' \<and> \<not> ts_yes s then
        (if cannot_ask s then ([], Inl (Blocked confirmation_required))
         else ask_for ask (files_request sha files kind) kind)
      else ([], Inr ()))"

definition guard_sensitive_files ::
    "(approval_request \<Rightarrow> approval_decision) \<Rightarrow> tool_session \<Rightarrow> string \<Rightarrow> string list \<Rightarrow>
     (string \<times> string) list guarded" where
  "guard_sensitive_files ask s kind files =
     (let findings = sensitive_path_findings files; rq = sensitive_request findings kind in
      if findings = [] then ([], Inr [])
      else if cannot_ask s then
        ([], Inl (Blocked (''Explicit one-time user approval is required for '' @ kind @
           '' on a sensitive file.'')))
      else if \<not> dec_allow (ask rq) then ([rq], Inl (Declined kind))
      else if dec_session (ask rq) then
        ([rq], Inl (Blocked (''Automatic or session approval cannot authorize '' @ kind @
           '' on a sensitive file. Switch approvals to ask and approve this operation once.'')))
      else ([rq], Inr findings))"

section \<open>Write paths\<close>

definition ALWAYS_PROTECTED_WRITE_PREFIXES :: "string list" where
  "ALWAYS_PROTECTED_WRITE_PREFIXES =
     [''.alysis'', ''.alysis_images'', ''.git'', ''alysis-feedback'', ''.sylliptor'', ''.sylliptor_images'',
      ''sylliptor-feedback'']"

definition normalize_rel_match_path :: "string \<Rightarrow> string" where
  "normalize_rel_match_path raw = rstrip_slash (drop_dot_slash (back_to_slash (py_strip raw)))"

definition clean_paths :: "string list \<Rightarrow> string list" where
  "clean_paths raws = filter (\<lambda>cleaned. cleaned \<noteq> []) (map normalize_rel_match_path raws)"

text \<open>The protected prefixes, folded, each once.\<close>

definition deny_prefixes_cf :: "tool_session \<Rightarrow> string list" where
  "deny_prefixes_cf s =
     (if is_full_access_mode s then []
      else dedup (map py_casefold (clean_paths (ALWAYS_PROTECTED_WRITE_PREFIXES @ ts_deny_prefixes s))))"

definition scope_groups :: "tool_session \<Rightarrow> string list list" where
  "scope_groups s =
     (if is_full_access_mode s then []
      else List.map_filter id [ts_allow_globs s, ts_persona_globs s])"

definition allow_pattern_groups :: "tool_session \<Rightarrow> string list list" where
  "allow_pattern_groups s = map clean_paths (scope_groups s)"

text \<open>Without a root the expansion reads no file and cannot fail.\<close>

definition allowed_ancestor_dir_groups_cf :: "tool_session \<Rightarrow> string list list" where
  "allowed_ancestor_dir_groups_cf s =
     map (\<lambda>globs. map py_casefold (clean_paths (projr (ancestor_directory_scope_patterns None globs))))
       (scope_groups s)"

definition is_denied_path :: "tool_session \<Rightarrow> string \<Rightarrow> bool" where
  "is_denied_path s rel_path =
     (let rel_cf = py_casefold (normalize_rel_match_path rel_path) in
      list_ex (\<lambda>pref. rel_cf = pref \<or> py_startswith rel_cf (pref @ ''/'')) (deny_prefixes_cf s))"

definition group_allows :: "repo_files \<Rightarrow> string \<Rightarrow> string list \<Rightarrow> bool" where
  "group_allows fs rel_norm patterns =
     (list_ex (scope_path_matches_pattern (Some fs) rel_norm) patterns \<or>
      list_ex (\<lambda>pattern. py_casefold rel_norm = py_casefold (normalize_rel_match_path pattern))
        (filter (\<lambda>pattern. \<not> has_glob pattern) patterns))"

definition guard_write_path :: "repo_files \<Rightarrow> tool_session \<Rightarrow> string \<Rightarrow> agent_error + unit" where
  "guard_write_path fs s rel_path =
     (if is_full_access_mode s then Inr ()
      else if is_denied_path s rel_path then
        Inl (Blocked (''Blocked write to protected path: '' @ rel_path))
      else if \<not> list_all (group_allows fs (normalize_rel_match_path rel_path)) (allow_pattern_groups s) then
        Inl (Blocked (''Blocked write outside allowed scope: '' @ rel_path))
      else Inr ())"

definition is_allowed_ancestor_dir_creation :: "tool_session \<Rightarrow> string \<Rightarrow> bool" where
  "is_allowed_ancestor_dir_creation s rel_path =
     (if is_full_access_mode s \<or> allow_pattern_groups s = [] then False
      else list_all (\<lambda>ancestors. py_casefold (normalize_rel_match_path rel_path) \<in> set ancestors)
             (allowed_ancestor_dir_groups_cf s))"

lemma expansion_without_root: "\<exists>xs. expand_patterns None seen expanded patterns = Inr xs"
proof (induction patterns arbitrary: seen expanded)
  case (Cons p patterns)
  show ?case
  proof (cases "normalize_repo_path_entry (\<lambda>_. False) True p")
    case None
    with Cons show ?thesis by simp
  next
    case (Some q)
    obtain ps where ps: "support_file_patterns_for_path None q = Inr ps"
      unfolding support_file_patterns_for_path_def Let_def
      by (cases "normalize_repo_path_entry (\<lambda>_. False) True q") simp_all
    obtain seen' expanded' where "add_patterns seen expanded (q # ps) = (seen', expanded')"
      by (cases "add_patterns seen expanded (q # ps)")
    with Some ps Cons [of seen' expanded'] show ?thesis by simp
  qed
qed simp

lemma ancestors_without_root: "is_ok (ancestor_directory_scope_patterns None globs)"
  using expansion_without_root [of "[]" "[]" globs]
  by (auto simp: ancestor_directory_scope_patterns_def expand_support_file_patterns_def)

section \<open>What the guards promise\<close>

definition sample_session :: "string \<Rightarrow> tool_session" where
  "sample_session mode =
     \<lparr>ts_mode = mode, ts_yes = False, ts_non_interactive = False, ts_host_managed = False,
      ts_deny_prefixes = [], ts_allow_globs = None, ts_persona_globs = None\<rparr>"

text \<open>
  C29. Sensitive files need a fresh, explicit yes: when an operation on files that include sensitive
  ones is let through, exactly one request was made for exactly those files and was answered with a
  plain yes. No stored consent can give that answer: the request has no session scope the broker
  supports, so no broker in any state answers it from memory, and no folder grant matches it.
\<close>

theorem sensitive_access_needs_fresh_consent:
  assumes "guard_sensitive_files ask s kind files = (asked, Inr findings)" and "findings \<noteq> []"
  shows "findings = sensitive_path_findings files \<and> asked = [sensitive_request findings kind] \<and>
    \<not> cannot_ask s \<and> ask (sensitive_request findings kind) = \<lparr>dec_allow = True, dec_session = False\<rparr> \<and>
    (\<exists>info. approval_session_scope_for_request sha (sensitive_request findings kind) = Inr info \<and>
       (\<forall>sid now b. fst (request_check sid info now b) = None)) \<and>
    (\<forall>env grants. \<not> request_matches_dir_grants env (sensitive_request findings kind) grants) \<and>
    (\<forall>env. approval_dir_grant_candidate env (sensitive_request findings kind) = None)"
proof -
  let ?rq = "sensitive_request findings kind"
  have f: "findings = sensitive_path_findings files" "asked = [?rq]" "\<not> cannot_ask s"
    "dec_allow (ask ?rq)" "\<not> dec_session (ask ?rq)"
    using assms by (auto simp: guard_sensitive_files_def Let_def split: if_splits)
  have "ask ?rq = \<lparr>dec_allow = True, dec_session = False\<rparr>"
    using f(4,5) by (cases "ask ?rq") simp
  moreover have "approval_session_scope_for_request sha ?rq =
      Inr (unsupported ''this approval did not include an exact safe scope.'')"
    by (simp add: approval_session_scope_for_request_def raw_scope_of_def sensitive_request_def dget_def)
  moreover have "session_disabled ?rq"
    by (simp add: session_disabled_def sensitive_request_def dget_def)
  ultimately show ?thesis
    using f by (auto simp: request_check_def allowance_key_def Let_def request_matches_dir_grants_def
        approval_dir_grant_candidate_def)
qed

theorem sensitive_access_needs_fresh_consent_witness:
  "sensitive_path_findings [''src/a.py'', ''deploy/.env''] = [(''deploy/.env'', ''environment_file'')] \<and>
   (\<forall>env grants. \<not> request_matches_dir_grants env
      (sensitive_request [(''deploy/.env'', ''environment_file'')] ''fs_read'') grants)"
proof -
  let ?ask = "\<lambda>_. \<lparr>dec_allow = True, dec_session = False\<rparr>"
  have f: "sensitive_path_findings [''src/a.py'', ''deploy/.env''] = [(''deploy/.env'', ''environment_file'')]"
    by code_simp
  then have "guard_sensitive_files ?ask (sample_session ''auto'') ''fs_read'' [''src/a.py'', ''deploy/.env''] =
      ([sensitive_request [(''deploy/.env'', ''environment_file'')] ''fs_read''],
       Inr [(''deploy/.env'', ''environment_file'')])"
    by (simp add: guard_sensitive_files_def Let_def sample_session_def cannot_ask_def)
  from sensitive_access_needs_fresh_consent [OF this] f show ?thesis by simp
qed

text \<open>
  A read-only session changes nothing: in read-only mode, whatever else is set, every shell
  command, verification run, terminal operation and file write is refused without asking anybody.
  In review mode each of them, except a terminal operation, passes only on a yes given to a request
  made for it.
\<close>

theorem readonly_refuses_review_asks:
  "(ts_mode s = ''readonly'' \<longrightarrow>
      (\<forall>r\<in>{guard_shell sha ask s cmd tool, guard_verify sha ask s commands,
            guard_write sha ask s kind files, guard_terminal_op s op_name}.
         fst r = [] \<and> (\<exists>m. snd r = Inl (Blocked m)))) \<and>
   (ts_mode s = ''review'' \<longrightarrow>
      (\<forall>(r, rq)\<in>{(guard_shell sha ask s cmd tool, command_request sha cmd tool),
                  (guard_verify sha ask s commands, verify_request sha commands),
                  (guard_write sha ask s kind files, files_request sha files kind)}.
         snd r = Inr () \<longrightarrow> fst r = [rq] \<and> dec_allow (ask rq) \<and> \<not> cannot_ask s))"
  by (auto simp: guard_shell_def guard_verify_def guard_write_def guard_terminal_op_def ask_for_def
      is_full_access_mode_def Let_def split: option.splits sum.splits if_splits)

theorem readonly_refuses_review_asks_witness:
  "fst (guard_write sample_sha (\<lambda>_. deny) (sample_session ''readonly'') ''fs_write'' [''a.py'']) = []"
  using readonly_refuses_review_asks [of "sample_session ''readonly''" sample_sha "\<lambda>_. deny" "[]" "[]" "[]"
      "''fs_write''" "[''a.py'']" "[]"]
  by (simp add: sample_session_def)

lemma protected_prefixes_folded:
  "map py_casefold (clean_paths ALWAYS_PROTECTED_WRITE_PREFIXES) = ALWAYS_PROTECTED_WRITE_PREFIXES"
  by code_simp

lemma protected_prefixes_denied:
  assumes "\<not> is_full_access_mode s"
  shows "set ALWAYS_PROTECTED_WRITE_PREFIXES \<subseteq> set (deny_prefixes_cf s)"
proof -
  have "deny_prefixes_cf s = dedup (map py_casefold (clean_paths ALWAYS_PROTECTED_WRITE_PREFIXES) @
      map py_casefold (clean_paths (ts_deny_prefixes s)))"
    using assms by (simp add: deny_prefixes_cf_def clean_paths_def)
  then show ?thesis unfolding protected_prefixes_folded by simp
qed

text \<open>
  Protected directories stay protected: without full access no write below one of the product's
  own directories or \<open>.git\<close>, in any letter case and spelling of the path, gets past the path guard,
  whatever scopes are set. Any path that does get past it is covered by every scope that is active,
  the task's and the persona's: a pattern of each matches it or names it up to letter case, so an empty
  scope admits nothing.
\<close>

theorem protected_paths_never_written:
  assumes "\<not> is_full_access_mode s"
  shows "(\<forall>pref\<in>set ALWAYS_PROTECTED_WRITE_PREFIXES.
      py_casefold (normalize_rel_match_path p) = pref \<or>
      py_startswith (py_casefold (normalize_rel_match_path p)) (pref @ ''/'') \<longrightarrow>
      guard_write_path fs s p \<noteq> Inr ()) \<and>
    (guard_write_path fs s p = Inr () \<longrightarrow>
      (\<forall>globs\<in>set (List.map_filter id [ts_allow_globs s, ts_persona_globs s]).
         \<exists>pattern\<in>set (clean_paths globs).
           scope_path_matches_pattern (Some fs) (normalize_rel_match_path p) pattern \<or>
           py_casefold (normalize_rel_match_path p) = py_casefold (normalize_rel_match_path pattern)))"
proof (intro conjI ballI impI)
  fix pref
  assume pref: "pref \<in> set ALWAYS_PROTECTED_WRITE_PREFIXES"
    and below: "py_casefold (normalize_rel_match_path p) = pref \<or>
      py_startswith (py_casefold (normalize_rel_match_path p)) (pref @ ''/'')"
  have "pref \<in> set (deny_prefixes_cf s)"
    using pref protected_prefixes_denied [OF assms] by blast
  with below have "is_denied_path s p" by (auto simp: is_denied_path_def Let_def list_ex_iff)
  with assms show "guard_write_path fs s p \<noteq> Inr ()" by (simp add: guard_write_path_def)
next
  fix globs
  assume "guard_write_path fs s p = Inr ()"
    and globs: "globs \<in> set (List.map_filter id [ts_allow_globs s, ts_persona_globs s])"
  with assms have "list_all (group_allows fs (normalize_rel_match_path p)) (allow_pattern_groups s)"
    by (simp add: guard_write_path_def split: if_splits)
  moreover have "clean_paths globs \<in> set (allow_pattern_groups s)"
    using globs assms by (simp add: allow_pattern_groups_def scope_groups_def)
  ultimately have "group_allows fs (normalize_rel_match_path p) (clean_paths globs)"
    by (simp add: list_all_iff)
  then show "\<exists>pattern\<in>set (clean_paths globs).
      scope_path_matches_pattern (Some fs) (normalize_rel_match_path p) pattern \<or>
      py_casefold (normalize_rel_match_path p) = py_casefold (normalize_rel_match_path pattern)"
    by (auto simp: group_allows_def list_ex_iff)
qed

theorem protected_paths_never_written_witness:
  "guard_write_path sample_tree (sample_session ''auto'') ''./.Git/config'' \<noteq> Inr ()"
proof -
  have "\<not> is_full_access_mode (sample_session ''auto'')"
    "''.git'' \<in> set ALWAYS_PROTECTED_WRITE_PREFIXES"
    "py_startswith (py_casefold (normalize_rel_match_path ''./.Git/config'')) (''.git'' @ ''/'')"
    by code_simp+
  then show ?thesis
    using protected_paths_never_written [of "sample_session ''auto''" "''./.Git/config''" sample_tree] by blast
qed


text \<open>
  The deny list is not always on: \<open>guard_verify\<close> never consults it. In full access it lets every
  list of verification commands pass unasked, and in automatic mode a command under \<open>sudo\<close>, which
  \<open>guard_shell\<close> refuses in every session.
\<close>

theorem verify_skips_denylist:
  "(\<forall>s commands. is_full_access_mode s \<longrightarrow> guard_verify sha ask s commands = ([], Inr ())) \<and>
   guard_verify sha ask (sample_session ''auto'') [''sudo make check''] = ([], Inr ()) \<and>
   (\<forall>s. snd (guard_shell sha ask s ''sudo make check'' ''shell_run'') \<noteq> Inr ())"
proof (intro conjI allI impI)
  fix s commands
  assume "is_full_access_mode s"
  then show "guard_verify sha ask s commands = ([], Inr ())"
    by (simp add: guard_verify_def is_full_access_mode_def)
next
  have "evaluate_shell_command ''sudo make check'' =
      \<lparr>pd_allowed = True, pd_needs_confirm = False, pd_reason = ''OK''\<rparr>"
    by code_simp
  then show "guard_verify sha ask (sample_session ''auto'') [''sudo make check''] = ([], Inr ())"
    by (simp add: guard_verify_def sample_session_def persona_write_scope_active_def
        is_full_access_mode_def)
next
  fix s
  have "fullaccess_denylist_match ''sudo make check'' \<noteq> None" by code_simp
  then show "snd (guard_shell sha ask s ''sudo make check'' ''shell_run'') \<noteq> Inr ()"
    by (auto simp: guard_shell_def split: option.splits)
qed

theorem verify_skips_denylist_witness:
  "guard_verify sample_sha (\<lambda>_. deny) (sample_session ''fullaccess'') [''sudo rm -rf /''] = ([], Inr ())"
  using verify_skips_denylist [of sample_sha "\<lambda>_. deny"]
  by (simp add: is_full_access_mode_def sample_session_def persona_write_scope_active_def)

end
