(* ===== verification/ForgeLedger.thy ===== *)
theory ForgeLedger
  imports PromptQueueInput Machines
begin

text \<open>
  Durable acceptance of Forge plan requests, \<open>ide/forge_request_ledger.py\<close>: the SQLite table of
  requests and every operation on it as a transaction. A bridge accepts a request under an idempotency
  key and gets a dispatch lease; a worker turns the lease into a worker lease before it calls the
  planner, renews it and finishes; a request whose running lease expired is indeterminate for good.

  As in the prompt queue an operation returns \<open>Inl\<close> with the exception raised, after which the
  transaction was rolled back, or \<open>Inr\<close> with its result and the committed table. The clock reading, the
  generated job id and lease token, SHA-256 and what resolving the workspace path gave are arguments.
  The keys of a payload are text, as in every object read from JSON; \<open>os.path.normcase\<close> is the identity,
  as on POSIX systems.
\<close>

datatype fr_error =
    FrValidation string
  | FrConflict string
  | FrNotFound string
  | FrLeaseLost string
  | FrStorage string

datatype fr_state = FrQueued | FrRunning | FrCompleted | FrFailed | FrCancelled | FrIndeterminate

definition FR_TERMINAL_STATES :: "fr_state set" where
  "FR_TERMINAL_STATES = {FrCompleted, FrFailed, FrCancelled, FrIndeterminate}"

section \<open>Limits and input\<close>

definition MIN_LEASE_SECONDS :: rat where "MIN_LEASE_SECONDS = 1"
definition MAX_LEASE_SECONDS :: rat where "MAX_LEASE_SECONDS = 15 * 60"

definition fr_duration :: "float_arg \<Rightarrow> rat \<Rightarrow> string \<Rightarrow> fr_error + rat" where
  "fr_duration v maximum label =
     (let outside = Inl (FrValidation (''Forge request '' @ label @ '' is outside the allowed range.'')) in
      case v of
        ArgFinite clean \<Rightarrow> if clean < MIN_LEASE_SECONDS \<or> clean > maximum then outside else Inr clean
      | ArgNonFinite \<Rightarrow> outside
      | _ \<Rightarrow> Inl (FrValidation (''Forge request '' @ label @ '' must be numeric.'')))"

record fr_limits =
  fr_lease_seconds :: rat
  fr_max_records :: int
  fr_retention :: rat

definition fr_config_post_init ::
    "float_arg \<Rightarrow> float_arg \<Rightarrow> pyval \<Rightarrow> float_arg \<Rightarrow> fr_error + fr_limits" where
  "fr_config_post_init busy_timeout lease max_records retention =
     res_bind (fr_duration busy_timeout 60 ''busy timeout'') (\<lambda>_.
     res_bind (fr_duration lease MAX_LEASE_SECONDS ''lease'') (\<lambda>lease_seconds.
       case max_records of
         PInt n \<Rightarrow>
           if n < 100 \<or> n > 1000000
           then Inl (FrValidation ''Forge request record limit is outside the allowed range.'')
           else res_bind (fr_duration retention (10 * 365 * 24 * 60 * 60) ''terminal retention'')
             (\<lambda>keep. Inr \<lparr>fr_lease_seconds = lease_seconds, fr_max_records = n, fr_retention = keep\<rparr>)
       | _ \<Rightarrow> Inl (FrValidation ''Forge request record limit must be an integer.'')))"

definition fr_default_limits :: fr_limits where
  "fr_default_limits =
     \<lparr>fr_lease_seconds = 30, fr_max_records = 50000, fr_retention = 90 * 24 * 60 * 60\<rparr>"

definition fr_identifier :: "pyval \<Rightarrow> string \<Rightarrow> nat \<Rightarrow> fr_error + string" where
  "fr_identifier v label maximum =
     (let clean = py_strip (str_or v []) in
      if clean = [] \<or> length clean > maximum \<or> \<not> identifier_re clean
      then Inl (FrValidation (''Forge request '' @ label @ '' identifier is invalid.''))
      else Inr clean)"

definition fr_lease_token :: "pyval \<Rightarrow> fr_error + string" where
  "fr_lease_token v = fr_identifier v ''lease'' 256"

definition fr_error_code :: "pyval \<Rightarrow> fr_error + string" where
  "fr_error_code v =
     (let clean = py_strip (str_or v []) in
      if clean = [] \<or> length clean > 128 \<or> \<not> error_code_re clean
      then Inl (FrValidation ''Forge request error code is invalid.'') else Inr clean)"

text \<open>What resolving the workspace path gave: an error, no directory, or the directory.\<close>

datatype workspace_arg = BadPath | NotDirectory | Directory string

definition fr_workspace :: "workspace_arg \<Rightarrow> fr_error + string" where
  "fr_workspace w =
     (case w of
        BadPath \<Rightarrow> Inl (FrValidation ''Forge request workspace is invalid.'')
      | NotDirectory \<Rightarrow> Inl (FrValidation ''Forge request workspace must be a directory.'')
      | Directory path \<Rightarrow> Inr path)"

definition fr_payload_digest :: "(string \<Rightarrow> string) \<Rightarrow> (pykey \<times> pyval) list \<Rightarrow> fr_error + string" where
  "fr_payload_digest sha payload =
     (case json_dumps False False True (PDict payload) of
        Inl _ \<Rightarrow> Inl (FrValidation ''Forge request payload is not valid JSON.'')
      | Inr encoded \<Rightarrow> Inr (sha encoded))"

definition fr_now :: "float_arg \<Rightarrow> fr_error + rat" where
  "fr_now clock =
     (case clock of
        ArgBool b \<Rightarrow> Inr (if b then 1 else 0)
      | ArgFinite v \<Rightarrow> if v < 0 then Inl (FrStorage ''Forge request ledger clock failed.'') else Inr v
      | _ \<Rightarrow> Inl (FrStorage ''Forge request ledger clock failed.''))"

section \<open>The table\<close>

record fr_row =
  fr_job :: string
  fr_workspace_sha :: string
  fr_root :: string
  fr_session :: string
  fr_key_sha :: string
  fr_payload_sha :: string
  fr_status :: fr_state
  fr_generation :: int
  fr_attempts :: int
  fr_token_sha :: "string option"
  fr_expires :: "rat option"
  fr_plan :: "string option"
  fr_code :: "string option"
  fr_created :: rat
  fr_updated :: rat
  fr_started :: "rat option"
  fr_terminal :: "rat option"

type_synonym fr_table = "fr_row list"

definition fr_key :: "fr_row \<Rightarrow> string \<times> string" where
  "fr_key r = (fr_workspace_sha r, fr_key_sha r)"

definition fr_is_terminal :: "fr_row \<Rightarrow> bool" where
  "fr_is_terminal r = (fr_status r \<in> FR_TERMINAL_STATES)"

text \<open>The primary key and the unique index; the check of the state is its type's.\<close>

definition fr_unique :: "fr_table \<Rightarrow> bool" where
  "fr_unique t = (distinct (map fr_job t) \<and> distinct (map fr_key t))"

text \<open>\<open>UPDATE ... WHERE job_id = ?\<close>; no update touches a column of an index.\<close>

definition fr_update :: "string \<Rightarrow> (fr_row \<Rightarrow> fr_row) \<Rightarrow> fr_table \<Rightarrow> fr_table" where
  "fr_update job f t = map (\<lambda>r. if fr_job r = job then f r else r) t"

definition fr_find :: "string \<Rightarrow> fr_table \<Rightarrow> fr_row option" where
  "fr_find job t = find (\<lambda>r. fr_job r = job) t"

definition row_by_job :: "string \<Rightarrow> fr_table \<Rightarrow> fr_error + fr_row" where
  "row_by_job job t =
     (case fr_find job t of
        None \<Rightarrow> Inl (FrNotFound ''Durable Forge plan request was not found.'') | Some r \<Rightarrow> Inr r)"

record fr_record =
  rec_job :: string
  rec_session :: string
  rec_root :: string
  rec_state :: fr_state
  rec_created :: rat
  rec_updated :: rat
  rec_started :: "rat option"
  rec_terminal :: "rat option"
  rec_plan :: "string option"
  rec_code :: "string option"
  rec_attempts :: int

definition fr_record_of :: "fr_row \<Rightarrow> fr_record" where
  "fr_record_of r =
     \<lparr>rec_job = fr_job r, rec_session = fr_session r, rec_root = fr_root r, rec_state = fr_status r,
      rec_created = fr_created r, rec_updated = fr_updated r, rec_started = fr_started r,
      rec_terminal = fr_terminal r, rec_plan = fr_plan r, rec_code = fr_code r, rec_attempts = fr_attempts r\<rparr>"

text \<open>Dispatch leases and worker leases have the same fields.\<close>

record fr_lease =
  fl_job :: string
  fl_generation :: int
  fl_expires :: rat
  fl_token :: string

record fr_acceptance =
  ac_record :: fr_record
  ac_created :: bool
  ac_lease :: "fr_lease option"

section \<open>Leases\<close>

text \<open>\<open>float(row["lease_expires_at"] or 0.0)\<close>.\<close>

definition fr_expiry :: "fr_row \<Rightarrow> rat" where
  "fr_expiry r = (case fr_expires r of None \<Rightarrow> 0 | Some e \<Rightarrow> e)"

definition fr_require_lease ::
    "(string \<Rightarrow> string) \<Rightarrow> fr_lease \<Rightarrow> fr_state \<Rightarrow> rat \<Rightarrow> fr_table \<Rightarrow> fr_error + fr_row" where
  "fr_require_lease sha lease expected now t =
     res_bind (fr_identifier (PStr (fl_job lease)) ''job'' 128) (\<lambda>job.
     res_bind (row_by_job job t) (\<lambda>r.
       if fr_status r \<noteq> expected \<or> fr_generation r \<noteq> fl_generation lease \<or>
          (case fr_token_sha r of None \<Rightarrow> [] | Some h \<Rightarrow> h) \<noteq> sha (fl_token lease) \<or> fr_expiry r \<le> now
       then Inl (FrLeaseLost ''Forge plan worker lease is no longer valid.'')
       else Inr r))"

definition indeterminate_row :: "rat \<Rightarrow> fr_row \<Rightarrow> fr_row" where
  "indeterminate_row now r =
     r\<lparr>fr_status := FrIndeterminate, fr_code := Some ''worker_lease_expired'', fr_terminal := Some now,
       fr_updated := now, fr_token_sha := None, fr_expires := None\<rparr>"

definition fr_expired_running :: "rat \<Rightarrow> fr_row \<Rightarrow> bool" where
  "fr_expired_running now r = (fr_status r = FrRunning \<and> fr_expiry r \<le> now)"

text \<open>The table afterwards; an expiry that is not set never satisfies the condition of the update.\<close>

definition reconcile_expired_running :: "rat \<Rightarrow> fr_row \<Rightarrow> fr_table \<Rightarrow> fr_table" where
  "reconcile_expired_running now row t =
     (if \<not> fr_expired_running now row then t
      else fr_update (fr_job row)
        (\<lambda>r. if fr_status r = FrRunning \<and> (case fr_expires r of None \<Rightarrow> False | Some e \<Rightarrow> e \<le> now)
             then indeterminate_row now r else r) t)"

definition redispatched_row :: "string \<Rightarrow> rat \<Rightarrow> rat \<Rightarrow> int \<Rightarrow> fr_row \<Rightarrow> fr_row" where
  "redispatched_row token_sha expires now generation r =
     (if fr_status r = FrQueued
      then r\<lparr>fr_generation := generation, fr_token_sha := Some token_sha, fr_expires := Some expires,
             fr_updated := now\<rparr>
      else r)"

definition replace_dispatch_lease ::
    "fr_limits \<Rightarrow> (string \<Rightarrow> string) \<Rightarrow> pyval \<Rightarrow> rat \<Rightarrow> fr_row \<Rightarrow> fr_table \<Rightarrow> fr_error + fr_lease \<times> fr_table" where
  "replace_dispatch_lease cfg sha new_token now row t =
     res_bind (fr_lease_token new_token) (\<lambda>token.
       let generation = fr_generation row + 1; expires = now + fr_lease_seconds cfg in
       Inr (\<lparr>fl_job = fr_job row, fl_generation = generation, fl_expires = expires, fl_token = token\<rparr>,
            fr_update (fr_job row) (redispatched_row (sha token) expires now generation) t))"

section \<open>Acceptance\<close>

text \<open>The terminal requests to delete: the ones that ended first. Times are not negative.\<close>

definition oldest_terminal :: "int \<Rightarrow> fr_table \<Rightarrow> string list" where
  "oldest_terminal limit t =
     map fr_job (take (nat limit)
       (sort_key (\<lambda>r. case fr_terminal r of None \<Rightarrow> - 1 | Some e \<Rightarrow> e) (filter fr_is_terminal t)))"

definition prune_for_insert :: "fr_limits \<Rightarrow> rat \<Rightarrow> fr_table \<Rightarrow> fr_error + fr_table" where
  "prune_for_insert cfg now t =
     (let cutoff = now - fr_retention cfg;
          kept = filter (\<lambda>r. \<not> (fr_is_terminal r \<and>
                   (case fr_terminal r of None \<Rightarrow> False | Some e \<Rightarrow> e < cutoff))) t;
          overflow = int (length kept) - fr_max_records cfg + 1;
          left = (if overflow > 0
                  then filter (\<lambda>r. fr_job r \<notin> set (oldest_terminal overflow kept)) kept else kept)
      in if int (length left) \<ge> fr_max_records cfg
         then Inl (FrStorage ''Durable Forge plan request storage is full.'')
         else Inr left)"

definition new_fr_row ::
    "string \<Rightarrow> string \<Rightarrow> string \<Rightarrow> string \<Rightarrow> string \<Rightarrow> string \<Rightarrow> string \<Rightarrow> rat \<Rightarrow> rat \<Rightarrow> fr_row" where
  "new_fr_row job workspace_sha path session key_sha payload_sha token_sha expires now =
     \<lparr>fr_job = job, fr_workspace_sha = workspace_sha, fr_root = path, fr_session = session,
      fr_key_sha = key_sha, fr_payload_sha = payload_sha, fr_status = FrQueued, fr_generation = 1,
      fr_attempts = 0, fr_token_sha = Some token_sha, fr_expires = Some expires, fr_plan = None,
      fr_code = None, fr_created = now, fr_updated = now, fr_started = None, fr_terminal = None\<rparr>"

definition rebound_row :: "string \<Rightarrow> rat \<Rightarrow> fr_row \<Rightarrow> fr_row" where
  "rebound_row session now r =
     r\<lparr>fr_session := session, fr_updated := (if fr_session r = session then fr_updated r else now)\<rparr>"

text \<open>The request is known: its row, reconciled and bound to the session.\<close>

definition accept_known ::
    "fr_limits \<Rightarrow> (string \<Rightarrow> string) \<Rightarrow> string \<Rightarrow> string \<Rightarrow> rat \<Rightarrow> pyval \<Rightarrow> fr_row \<Rightarrow> fr_table \<Rightarrow>
     fr_error + fr_acceptance \<times> fr_table" where
  "accept_known cfg sha session payload_sha now new_token row t =
     (if fr_payload_sha row \<noteq> payload_sha
      then Inl (FrConflict ''Idempotency key was already used for a different Forge plan request.'')
      else
        let t1 = fr_update (fr_job row) (rebound_row session now) (reconcile_expired_running now row t) in
        res_bind (row_by_job (fr_job row) t1) (\<lambda>row1.
          if fr_status row1 = FrQueued \<and> fr_expiry row1 \<le> now then
            res_bind (replace_dispatch_lease cfg sha new_token now row1 t1) (\<lambda>(lease, t2).
            res_bind (row_by_job (fl_job lease) t2) (\<lambda>row2.
              Inr (\<lparr>ac_record = fr_record_of row2, ac_created = False, ac_lease = Some lease\<rparr>, t2)))
          else Inr (\<lparr>ac_record = fr_record_of row1, ac_created = False, ac_lease = None\<rparr>, t1)))"

definition accept_new ::
    "fr_limits \<Rightarrow> (string \<Rightarrow> string) \<Rightarrow> string \<Rightarrow> string \<Rightarrow> string \<Rightarrow> string \<Rightarrow> rat \<Rightarrow> pyval \<Rightarrow> pyval \<Rightarrow>
     fr_table \<Rightarrow> fr_error + fr_acceptance \<times> fr_table" where
  "accept_new cfg sha path session key_sha payload_sha now new_id new_token t =
     res_bind (fr_identifier new_id ''generated job'' 128) (\<lambda>job.
     res_bind (prune_for_insert cfg now t) (\<lambda>t1.
     res_bind (fr_lease_token new_token) (\<lambda>token.
       let expires = now + fr_lease_seconds cfg;
           row = new_fr_row job (sha path) path session key_sha payload_sha (sha token) expires now
       in if \<not> fr_unique (t1 @ [row])
          then Inl (FrStorage ''Could not allocate a durable Forge plan request.'')
          else Inr (\<lparr>ac_record = fr_record_of row, ac_created = True,
                     ac_lease = Some \<lparr>fl_job = job, fl_generation = 1, fl_expires = expires,
                                      fl_token = token\<rparr>\<rparr>, t1 @ [row]))))"

definition accept_request ::
    "fr_limits \<Rightarrow> (string \<Rightarrow> string) \<Rightarrow> workspace_arg \<Rightarrow> pyval \<Rightarrow> pyval \<Rightarrow> (pykey \<times> pyval) list \<Rightarrow>
     float_arg \<Rightarrow> pyval \<Rightarrow> pyval \<Rightarrow> fr_table \<Rightarrow> fr_error + fr_acceptance \<times> fr_table" where
  "accept_request cfg sha workspace_arg session_arg key_arg payload clock new_id new_token t =
     res_bind (fr_workspace workspace_arg) (\<lambda>path.
     res_bind (fr_identifier session_arg ''session'' 256) (\<lambda>session.
     res_bind (fr_identifier key_arg ''idempotency'' 256) (\<lambda>key.
     res_bind (fr_payload_digest sha payload) (\<lambda>payload_sha.
     res_bind (fr_now clock) (\<lambda>now.
       case find (\<lambda>r. fr_key r = (sha path, sha key)) t of
         Some row \<Rightarrow> accept_known cfg sha session payload_sha now new_token row t
       | None \<Rightarrow> accept_new cfg sha path session (sha key) payload_sha now new_id new_token t)))))"

section \<open>Work\<close>

definition begun_row :: "rat \<Rightarrow> rat \<Rightarrow> fr_row \<Rightarrow> fr_row" where
  "begun_row expires now r =
     r\<lparr>fr_status := FrRunning, fr_attempts := fr_attempts r + 1,
       fr_started := Some (case fr_started r of None \<Rightarrow> now | Some s \<Rightarrow> s), fr_updated := now,
       fr_expires := Some expires\<rparr>"

definition begin_work ::
    "fr_limits \<Rightarrow> (string \<Rightarrow> string) \<Rightarrow> fr_lease \<Rightarrow> float_arg \<Rightarrow> fr_table \<Rightarrow> fr_error + fr_lease \<times> fr_table" where
  "begin_work cfg sha lease clock t =
     res_bind (fr_now clock) (\<lambda>now.
     let expires = now + fr_lease_seconds cfg in
     res_bind (fr_require_lease sha lease FrQueued now t) (\<lambda>row.
       Inr (lease\<lparr>fl_expires := expires\<rparr>, fr_update (fr_job row) (begun_row expires now) t)))"

definition renewed_fr_row :: "rat \<Rightarrow> rat \<Rightarrow> fr_row \<Rightarrow> fr_row" where
  "renewed_fr_row expires now r = r\<lparr>fr_expires := Some expires, fr_updated := now\<rparr>"

definition renew_work ::
    "fr_limits \<Rightarrow> (string \<Rightarrow> string) \<Rightarrow> fr_lease \<Rightarrow> float_arg \<Rightarrow> fr_table \<Rightarrow> fr_error + fr_lease \<times> fr_table" where
  "renew_work cfg sha lease clock t =
     res_bind (fr_now clock) (\<lambda>now.
     let expires = now + fr_lease_seconds cfg in
     res_bind (fr_require_lease sha lease FrRunning now t) (\<lambda>row.
       Inr (lease\<lparr>fl_expires := expires\<rparr>, fr_update (fl_job lease) (renewed_fr_row expires now) t)))"

definition ended_row :: "fr_state \<Rightarrow> string option \<Rightarrow> string option \<Rightarrow> rat \<Rightarrow> fr_row \<Rightarrow> fr_row" where
  "ended_row st plan err now r =
     r\<lparr>fr_status := st, fr_plan := plan, fr_code := err, fr_terminal := Some now, fr_updated := now,
       fr_token_sha := None, fr_expires := None\<rparr>"

definition finish_work ::
    "(string \<Rightarrow> string) \<Rightarrow> fr_lease \<Rightarrow> fr_state \<Rightarrow> string option \<Rightarrow> string option \<Rightarrow> float_arg \<Rightarrow> fr_table \<Rightarrow>
     fr_error + fr_record \<times> fr_table" where
  "finish_work sha lease st plan err clock t =
     res_bind (fr_now clock) (\<lambda>now.
     res_bind (fr_require_lease sha lease FrRunning now t) (\<lambda>_.
       let t' = fr_update (fl_job lease) (ended_row st plan err now) t in
       res_bind (row_by_job (fl_job lease) t') (\<lambda>r. Inr (fr_record_of r, t'))))"

definition complete_work ::
    "(string \<Rightarrow> string) \<Rightarrow> fr_lease \<Rightarrow> pyval \<Rightarrow> float_arg \<Rightarrow> fr_table \<Rightarrow> fr_error + fr_record \<times> fr_table" where
  "complete_work sha lease plan_arg clock t =
     res_bind (fr_identifier plan_arg ''plan'' 128) (\<lambda>plan.
       finish_work sha lease FrCompleted (Some plan) None clock t)"

definition fail_work ::
    "(string \<Rightarrow> string) \<Rightarrow> fr_lease \<Rightarrow> pyval \<Rightarrow> float_arg \<Rightarrow> fr_table \<Rightarrow> fr_error + fr_record \<times> fr_table" where
  "fail_work sha lease code_arg clock t =
     res_bind (fr_error_code code_arg) (\<lambda>err. finish_work sha lease FrFailed None (Some err) clock t)"

definition cancel_work ::
    "(string \<Rightarrow> string) \<Rightarrow> fr_lease \<Rightarrow> pyval \<Rightarrow> float_arg \<Rightarrow> fr_table \<Rightarrow> fr_error + fr_record \<times> fr_table" where
  "cancel_work sha lease code_arg clock t =
     res_bind (fr_error_code code_arg) (\<lambda>err. finish_work sha lease FrCancelled None (Some err) clock t)"

definition rejected_row :: "string \<Rightarrow> rat \<Rightarrow> fr_row \<Rightarrow> fr_row" where
  "rejected_row err now r =
     r\<lparr>fr_status := FrFailed, fr_code := Some err, fr_terminal := Some now, fr_updated := now,
       fr_token_sha := None, fr_expires := None\<rparr>"

definition reject_work ::
    "(string \<Rightarrow> string) \<Rightarrow> fr_lease \<Rightarrow> pyval \<Rightarrow> float_arg \<Rightarrow> fr_table \<Rightarrow> fr_error + fr_record \<times> fr_table" where
  "reject_work sha lease code_arg clock t =
     res_bind (fr_now clock) (\<lambda>now.
     res_bind (fr_require_lease sha lease FrQueued now t) (\<lambda>_.
     res_bind (fr_error_code code_arg) (\<lambda>err.
       let t' = fr_update (fl_job lease) (rejected_row err now) t in
       res_bind (row_by_job (fl_job lease) t') (\<lambda>r. Inr (fr_record_of r, t')))))"

definition get_request :: "pyval \<Rightarrow> float_arg \<Rightarrow> fr_table \<Rightarrow> fr_error + fr_record option \<times> fr_table" where
  "get_request job_arg clock t =
     res_bind (fr_identifier job_arg ''job'' 128) (\<lambda>job.
     res_bind (fr_now clock) (\<lambda>now.
       case fr_find job t of
         None \<Rightarrow> Inr (None, t)
       | Some row \<Rightarrow>
           let t' = reconcile_expired_running now row t in
           res_bind (row_by_job (fr_job row) t') (\<lambda>r. Inr (Some (fr_record_of r), t'))))"

definition attached_row :: "string \<Rightarrow> rat \<Rightarrow> fr_row \<Rightarrow> fr_row" where
  "attached_row session now r = r\<lparr>fr_session := session, fr_updated := now\<rparr>"

definition attach_request ::
    "(string \<Rightarrow> string) \<Rightarrow> pyval \<Rightarrow> pyval \<Rightarrow> workspace_arg \<Rightarrow> float_arg \<Rightarrow> fr_table \<Rightarrow>
     fr_error + fr_record \<times> fr_table" where
  "attach_request sha job_arg session_arg workspace_arg clock t =
     res_bind (fr_identifier job_arg ''job'' 128) (\<lambda>job.
     res_bind (fr_identifier session_arg ''session'' 256) (\<lambda>session.
     res_bind (fr_workspace workspace_arg) (\<lambda>path.
     res_bind (fr_now clock) (\<lambda>now.
     res_bind (row_by_job job t) (\<lambda>row.
       if fr_workspace_sha row \<noteq> sha path
       then Inl (FrValidation ''Durable Forge plan request workspace binding does not match.'')
       else
         let t' = fr_update job (attached_row session now) t in
         res_bind (row_by_job job t') (\<lambda>r. Inr (fr_record_of r, t')))))))"

text \<open>Opening the database; a new one has version 0.\<close>

definition fr_prepare_storage :: "int \<Rightarrow> fr_table \<Rightarrow> fr_error + int \<times> fr_table" where
  "fr_prepare_storage version t =
     (if version \<notin> {0, 1} then Inl (FrStorage ''Durable Forge plan request storage schema is unsupported.'')
      else Inr (1, t))"

end
