(* ===== verification/ForgeLedgerProps.thy ===== *)
theory ForgeLedgerProps
  imports ForgeLedger
begin

text \<open>
  What the ledger of Forge requests guarantees. Rows move by \<open>fr_row_step\<close>, one rule per UPDATE of the
  code under the guard that protects it; a table changes by such updates, by inserting a fresh queued
  row and by pruning ended ones (\<open>fr_change\<close>). Every operation is a sequence of changes; the invariant
  and the order in which rows move are proved over the relations.
\<close>

section \<open>Operations as steps\<close>

datatype fr_op =
    Accept workspace_arg pyval pyval "(pykey \<times> pyval) list" float_arg pyval pyval
  | Begin fr_lease float_arg
  | Renew fr_lease float_arg
  | Complete fr_lease pyval float_arg
  | Fail fr_lease pyval float_arg
  | Cancel fr_lease pyval float_arg
  | Reject fr_lease pyval float_arg
  | Get pyval float_arg
  | Attach pyval pyval workspace_arg float_arg

text \<open>The table a transaction leaves: the committed one, or the old one after an exception.\<close>

definition committed :: "'e + 'a \<times> 't \<Rightarrow> 't \<Rightarrow> 't" where
  "committed result t = (case result of Inl _ \<Rightarrow> t | Inr (_, t') \<Rightarrow> t')"

fun fr_step :: "fr_limits \<Rightarrow> (string \<Rightarrow> string) \<Rightarrow> fr_op \<Rightarrow> fr_table \<Rightarrow> fr_table" where
  "fr_step cfg sha (Accept w s k p c i tok) t = committed (accept_request cfg sha w s k p c i tok t) t"
| "fr_step cfg sha (Begin l c) t = committed (begin_work cfg sha l c t) t"
| "fr_step cfg sha (Renew l c) t = committed (renew_work cfg sha l c t) t"
| "fr_step cfg sha (Complete l p c) t = committed (complete_work sha l p c t) t"
| "fr_step cfg sha (Fail l e c) t = committed (fail_work sha l e c t) t"
| "fr_step cfg sha (Cancel l e c) t = committed (cancel_work sha l e c t) t"
| "fr_step cfg sha (Reject l e c) t = committed (reject_work sha l e c t) t"
| "fr_step cfg sha (Get j c) t = committed (get_request j c t) t"
| "fr_step cfg sha (Attach j s w c) t = committed (attach_request sha j s w c t) t"

lemma committed_cases:
  "(\<And>x t'. result = Inr (x, t') \<Longrightarrow> P t') \<Longrightarrow> P t \<Longrightarrow> P (committed result t)"
  by (auto simp: committed_def split: sum.splits)

section \<open>Rows\<close>

inductive fr_row_step :: "fr_row \<Rightarrow> fr_row \<Rightarrow> bool" where
  bound: "fr_row_step r (r\<lparr>fr_session := s, fr_updated := u\<rparr>)"
| lost: "fr_status r = FrRunning \<Longrightarrow> fr_row_step r (indeterminate_row now r)"
| redispatched: "fr_status r = FrQueued \<Longrightarrow>
     fr_row_step r (redispatched_row h expires now (fr_generation r + 1) r)"
| begun: "fr_status r = FrQueued \<Longrightarrow> fr_row_step r (begun_row expires now r)"
| renewed: "fr_status r = FrRunning \<Longrightarrow> fr_row_step r (renewed_fr_row expires now r)"
| ended: "fr_status r = FrRunning \<Longrightarrow> st \<in> {FrCompleted, FrFailed, FrCancelled} \<Longrightarrow>
     (plan \<noteq> None \<longleftrightarrow> st = FrCompleted) \<Longrightarrow> fr_row_step r (ended_row st plan err now r)"
| rejected: "fr_status r = FrQueued \<Longrightarrow> fr_row_step r (rejected_row err now r)"

lemmas fr_row_defs =
  indeterminate_row_def redispatched_row_def begun_row_def renewed_fr_row_def ended_row_def
  rejected_row_def rebound_row_def attached_row_def

definition fr_row_ok :: "fr_row \<Rightarrow> bool" where
  "fr_row_ok r =
     (fr_identifier (PStr (fr_job r)) ''job'' 128 = Inr (fr_job r) \<and>
      (case fr_status r of
         FrQueued \<Rightarrow> fr_attempts r = 0 \<and> fr_token_sha r \<noteq> None \<and> fr_expires r \<noteq> None \<and>
           fr_started r = None \<and> fr_terminal r = None \<and> fr_plan r = None
       | FrRunning \<Rightarrow> fr_attempts r = 1 \<and> fr_token_sha r \<noteq> None \<and> fr_expires r \<noteq> None \<and>
           fr_started r \<noteq> None \<and> fr_terminal r = None \<and> fr_plan r = None
       | st \<Rightarrow> fr_attempts r \<in> {0, 1} \<and> (st \<noteq> FrFailed \<longrightarrow> fr_attempts r = 1) \<and>
           fr_token_sha r = None \<and> fr_expires r = None \<and> fr_terminal r \<noteq> None \<and>
           (fr_plan r \<noteq> None \<longleftrightarrow> st = FrCompleted)))"

definition fr_row_le :: "fr_row \<Rightarrow> fr_row \<Rightarrow> bool" where
  "fr_row_le r r' \<longleftrightarrow>
     fr_job r' = fr_job r \<and> fr_key r' = fr_key r \<and> fr_payload_sha r' = fr_payload_sha r \<and>
     fr_root r' = fr_root r \<and> fr_created r' = fr_created r \<and>
     fr_generation r \<le> fr_generation r' \<and> fr_attempts r \<le> fr_attempts r' \<and>
     (fr_is_terminal r \<longrightarrow> r'\<lparr>fr_session := fr_session r, fr_updated := fr_updated r\<rparr> = r)"

lemma fr_row_le_refl [simp]: "fr_row_le r r"
  by (simp add: fr_row_le_def)

lemma same_but_session:
  assumes "r'\<lparr>fr_session := s, fr_updated := u\<rparr> = r"
  shows "fr_status r' = fr_status r" "fr_is_terminal r' = fr_is_terminal r"
  using assms by (auto simp: fr_is_terminal_def)

lemma fr_row_le_trans:
  assumes "fr_row_le a b" "fr_row_le b c"
  shows "fr_row_le a c"
proof -
  have "c\<lparr>fr_session := fr_session a, fr_updated := fr_updated a\<rparr> = a" if "fr_is_terminal a"
  proof -
    have b: "b\<lparr>fr_session := fr_session a, fr_updated := fr_updated a\<rparr> = a"
      using assms(1) that by (simp add: fr_row_le_def)
    then have "fr_is_terminal b" using that same_but_session(2) by blast
    then have c: "c\<lparr>fr_session := fr_session b, fr_updated := fr_updated b\<rparr> = b"
      using assms(2) by (simp add: fr_row_le_def)
    have "c\<lparr>fr_session := fr_session a, fr_updated := fr_updated a\<rparr> =
        (c\<lparr>fr_session := fr_session b, fr_updated := fr_updated b\<rparr>)
          \<lparr>fr_session := fr_session a, fr_updated := fr_updated a\<rparr>" by simp
    also have "\<dots> = b\<lparr>fr_session := fr_session a, fr_updated := fr_updated a\<rparr>" by (simp only: c)
    finally show ?thesis by (simp only: b)
  qed
  with assms show ?thesis unfolding fr_row_le_def by simp
qed

lemma fr_row_step_ok: "fr_row_step r r' \<Longrightarrow> fr_row_ok r \<Longrightarrow> fr_row_ok r'"
  by (induction rule: fr_row_step.induct)
    (auto simp: fr_row_ok_def fr_row_defs split: fr_state.splits)

lemma fr_row_step_le: "fr_row_step r r' \<Longrightarrow> fr_row_le r r'"
  by (induction rule: fr_row_step.induct)
    (auto simp: fr_row_le_def fr_key_def fr_row_defs fr_is_terminal_def FR_TERMINAL_STATES_def)

lemma fr_identifier_Inr: "fr_identifier v label n = Inr s \<Longrightarrow> py_strip s = s"
  by (auto simp: fr_identifier_def Let_def split: if_splits)

lemma fr_row_ok_job: "fr_row_ok r \<Longrightarrow> py_strip (fr_job r) = fr_job r"
  by (auto simp: fr_row_ok_def intro: fr_identifier_Inr)

section \<open>Tables\<close>

inductive fr_grow :: "fr_table \<Rightarrow> fr_table \<Rightarrow> bool" where
  updated: "(\<And>r. r \<in> set t \<Longrightarrow> fr_job r = job \<Longrightarrow> f r = r \<or> fr_row_step r (f r)) \<Longrightarrow>
     fr_grow t (fr_update job f t)"
| inserted: "fr_unique (t @ [row]) \<Longrightarrow> fr_row_ok row \<Longrightarrow> fr_grow t (t @ [row])"

definition fr_table_ok :: "fr_table \<Rightarrow> bool" where
  "fr_table_ok t = (fr_unique t \<and> list_all fr_row_ok t)"

definition fr_table_le :: "fr_table \<Rightarrow> fr_table \<Rightarrow> bool" where
  "fr_table_le t t' \<longleftrightarrow> (\<forall>r\<in>set t. \<exists>r'\<in>set t'. fr_row_le r r')"

lemma fr_table_le_refl [simp]: "fr_table_le t t"
  by (auto simp: fr_table_le_def intro: fr_row_le_refl)

lemma fr_table_le_trans: "fr_table_le a b \<Longrightarrow> fr_table_le b c \<Longrightarrow> fr_table_le a c"
  unfolding fr_table_le_def by (meson fr_row_le_trans)

lemma fr_update_rows:
  assumes "\<And>r. r \<in> set t \<Longrightarrow> fr_job r = job \<Longrightarrow> f r = r \<or> fr_row_step r (f r)" and "r \<in> set t"
  shows "fr_row_le r (if fr_job r = job then f r else r)"
  using assms(1) [OF assms(2)] fr_row_step_le by auto

lemma fr_grow_ok: "fr_grow t t' \<Longrightarrow> fr_table_ok t \<Longrightarrow> fr_table_ok t'"
proof (induction rule: fr_grow.induct)
  case (updated t job f)
  let ?g = "\<lambda>r. if fr_job r = job then f r else r"
  have le: "fr_row_le r (?g r)" if "r \<in> set t" for r using fr_update_rows [OF updated(1) that] .
  have "map fr_job (map ?g t) = map fr_job t" "map fr_key (map ?g t) = map fr_key t"
    using le by (auto simp: fr_row_le_def)
  moreover have "fr_row_ok (?g r)" if "r \<in> set t" for r
    using updated.prems updated.hyps [OF that] fr_row_step_ok that by (auto simp: fr_table_ok_def list_all_iff)
  then have "list_all fr_row_ok (map ?g t)" unfolding list_all_iff set_map by blast
  ultimately show ?case
    using updated.prems unfolding fr_table_ok_def fr_unique_def fr_update_def by (simp only: simp_thms)
qed (auto simp: fr_table_ok_def)

lemma fr_grow_le: "fr_grow t t' \<Longrightarrow> fr_table_le t t'"
proof (induction rule: fr_grow.induct)
  case (updated t job f)
  have "fr_row_le r (if fr_job r = job then f r else r)" if "r \<in> set t" for r
    using updated that by (rule fr_update_rows)
  then show ?case unfolding fr_table_le_def fr_update_def set_map by blast
next
  case (inserted t row)
  show ?case unfolding fr_table_le_def set_append using fr_row_le_refl by blast
qed

definition fr_pruned :: "fr_table \<Rightarrow> fr_table \<Rightarrow> bool" where
  "fr_pruned t t' \<longleftrightarrow> (\<exists>P. t' = filter P t \<and> (\<forall>r\<in>set t. \<not> P r \<longrightarrow> fr_is_terminal r))"

lemma fr_pruned_ok: "fr_pruned t t' \<Longrightarrow> fr_table_ok t \<Longrightarrow> fr_table_ok t'"
  by (auto simp: fr_pruned_def fr_table_ok_def fr_unique_def list_all_iff distinct_map inj_on_def)

section \<open>Every operation is such a change\<close>

lemma fr_find_Some: "fr_find job t = Some r \<longleftrightarrow> (\<exists>i<length t. t ! i = r \<and> fr_job r = job \<and> (\<forall>j<i. fr_job (t ! j) \<noteq> job))"
  by (auto simp: fr_find_def find_Some_iff)

lemma row_by_job_in: "row_by_job job t = Inr r \<Longrightarrow> r \<in> set t \<and> fr_job r = job"
  by (auto simp: row_by_job_def fr_find_Some split: option.splits)

lemma unique_job: "fr_table_ok t \<Longrightarrow> r \<in> set t \<Longrightarrow> s \<in> set t \<Longrightarrow> fr_job s = fr_job r \<Longrightarrow> s = r"
  by (auto simp: fr_table_ok_def fr_unique_def distinct_map dest: inj_onD)

lemma row_by_job_unique: "fr_table_ok t \<Longrightarrow> r \<in> set t \<Longrightarrow> row_by_job (fr_job r) t = Inr r"
proof -
  assume ok: "fr_table_ok t" "r \<in> set t"
  then have "fr_find (fr_job r) t \<noteq> None" by (auto simp: fr_find_def find_None_iff)
  then obtain s where s: "fr_find (fr_job r) t = Some s" by auto
  then have "row_by_job (fr_job r) t = Inr s" by (simp add: row_by_job_def)
  with row_by_job_in [OF this] unique_job [OF ok] show ?thesis by simp
qed

lemma find_in: "find P t = Some r \<Longrightarrow> r \<in> set t \<and> P r"
  by (auto simp: find_Some_iff)

lemma require_lease_Inr:
  assumes "fr_require_lease sha lease st now t = Inr r"
  shows "r \<in> set t" "fr_job r = py_strip (fl_job lease)" "fr_status r = st"
    "fr_generation r = fl_generation lease" "now < fr_expiry r"
    "(case fr_token_sha r of None \<Rightarrow> [] | Some h \<Rightarrow> h) = sha (fl_token lease)"
  using assms
  by (auto simp: fr_require_lease_def res_bind_eq_Inr fr_identifier_def Let_def
      dest!: row_by_job_in split: if_splits)

text \<open>Updating the row a lease names; a lease whose job id is not trimmed names no row.\<close>

lemma update_leased:
  assumes "fr_table_ok t" "fr_require_lease sha lease st now t = Inr r"
    and "f r = r \<or> fr_row_step r (f r)"
  shows "fr_grow t (fr_update (fr_job r) f t)" "fr_grow t (fr_update (fl_job lease) f t)"
proof -
  note r = require_lease_Inr [OF assms(2)]
  show "fr_grow t (fr_update (fr_job r) f t)"
    by (rule fr_grow.updated) (use assms unique_job r in blast)
  have "s = r" if "s \<in> set t" "fr_job s = fl_job lease" for s
  proof -
    have "py_strip (fr_job s) = fr_job s" 
      using that(1) assms(1) fr_row_ok_job unfolding fr_table_ok_def list_all_iff by blast
    then show ?thesis using unique_job [OF assms(1)] r that by metis
  qed
  then show "fr_grow t (fr_update (fl_job lease) f t)"
    by (intro fr_grow.updated) (use assms(3) in blast)
qed

lemma begin_grows: "fr_table_ok t \<Longrightarrow> begin_work cfg sha lease clock t = Inr (x, t') \<Longrightarrow> fr_grow t t'"
  unfolding begin_work_def Let_def
  by (auto simp: res_bind_eq_Inr intro!: update_leased(1) fr_row_step.begun dest: require_lease_Inr(3))

lemma renew_grows: "fr_table_ok t \<Longrightarrow> renew_work cfg sha lease clock t = Inr (x, t') \<Longrightarrow> fr_grow t t'"
  unfolding renew_work_def Let_def
  by (auto simp: res_bind_eq_Inr intro!: update_leased(2) fr_row_step.renewed dest: require_lease_Inr(3))

lemma finish_grows:
  assumes "fr_table_ok t" "finish_work sha lease st plan err clock t = Inr (x, t')"
    and "st \<in> {FrCompleted, FrFailed, FrCancelled}" "plan \<noteq> None \<longleftrightarrow> st = FrCompleted"
  shows "fr_grow t t'"
proof -
  obtain now r where r: "fr_require_lease sha lease FrRunning now t = Inr r"
    and t': "t' = fr_update (fl_job lease) (ended_row st plan err now) t"
    using assms(2) by (auto simp: finish_work_def res_bind_eq_Inr Let_def)
  have "fr_row_step r (ended_row st plan err now r)"
    by (rule fr_row_step.ended [OF require_lease_Inr(3) [OF r] assms(3,4)])
  then show ?thesis unfolding t' by (intro update_leased(2) [OF assms(1) r]) simp
qed

lemma ending_grows:
  "fr_table_ok t \<Longrightarrow> complete_work sha lease p clock t = Inr (x, t') \<Longrightarrow> fr_grow t t'"
  "fr_table_ok t \<Longrightarrow> fail_work sha lease p clock t = Inr (x, t') \<Longrightarrow> fr_grow t t'"
  "fr_table_ok t \<Longrightarrow> cancel_work sha lease p clock t = Inr (x, t') \<Longrightarrow> fr_grow t t'"
  by (auto simp: complete_work_def fail_work_def cancel_work_def res_bind_eq_Inr intro: finish_grows)

lemma reject_grows: "fr_table_ok t \<Longrightarrow> reject_work sha lease p clock t = Inr (x, t') \<Longrightarrow> fr_grow t t'"
  unfolding reject_work_def Let_def
  by (auto simp: res_bind_eq_Inr intro!: update_leased(2) fr_row_step.rejected dest: require_lease_Inr(3))

lemma reconcile_grows:
  assumes "fr_table_ok t" "r \<in> set t"
  shows "fr_grow t (reconcile_expired_running now r t)"
proof (cases "fr_expired_running now r")
  case False
  then have "reconcile_expired_running now r t = fr_update (fr_job r) id t"
    by (auto simp: reconcile_expired_running_def fr_update_def intro!: map_idI [symmetric])
  then show ?thesis using fr_grow.updated [of t "fr_job r" id] by simp
next
  case True
  then show ?thesis
    unfolding reconcile_expired_running_def
    by (auto intro!: fr_grow.updated fr_row_step.lost split: option.splits)
qed

lemma get_grows:
  assumes "fr_table_ok t" "get_request j clock t = Inr (x, t')"
  shows "t' = t \<or> fr_grow t t'"
proof -
  obtain job now where "t' = t \<or> (\<exists>r. fr_find job t = Some r \<and> t' = reconcile_expired_running now r t)"
    using assms(2) by (auto simp: get_request_def res_bind_eq_Inr Let_def split: option.splits)
  then show ?thesis using reconcile_grows [OF assms(1)] find_in unfolding fr_find_def by metis
qed

lemma attach_grows: "attach_request sha j s w clock t = Inr (x, t') \<Longrightarrow> fr_grow t t'"
  by (auto simp: attach_request_def res_bind_eq_Inr Let_def attached_row_def split: if_splits
      intro!: fr_grow.updated fr_row_step.bound)

section \<open>Acceptance\<close>

lemma updated_row_in: "r \<in> set t \<Longrightarrow> f r \<in> set (fr_update (fr_job r) f t)"
  by (force simp: fr_update_def)

text \<open>The row a dispatch lease was given for.\<close>

definition fr_leased :: "(string \<Rightarrow> string) \<Rightarrow> fr_lease \<Rightarrow> fr_row \<Rightarrow> bool" where
  "fr_leased sha l r =
     (fr_job r = fl_job l \<and> fr_status r = FrQueued \<and> fr_generation r = fl_generation l \<and>
      fr_token_sha r = Some (sha (fl_token l)) \<and> fr_expires r = Some (fl_expires l))"

lemma rtranclp_two: "r a b \<Longrightarrow> r b c \<Longrightarrow> r\<^sup>*\<^sup>* a c"
  by simp

lemma payload_or_conflict:
  assumes "fr_table_ok t" "row \<in> set t"
    and "accept_known cfg sha session payload now tok row t = Inr (a, t')"
  shows "fr_payload_sha row = payload \<and> fr_grow\<^sup>*\<^sup>* t t' \<and> \<not> ac_created a \<and> rec_job (ac_record a) = fr_job row \<and>
    (\<forall>l. ac_lease a = Some l \<longrightarrow> (\<exists>r\<in>set t'. fr_leased sha l r))"
proof -
  let ?t1 = "reconcile_expired_running now row t"
  let ?t2 = "fr_update (fr_job row) (rebound_row session now) ?t1"
  have 1: "fr_grow t ?t1" by (rule reconcile_grows [OF assms(1,2)])
  have 2: "fr_grow ?t1 ?t2" by (rule fr_grow.updated) (simp add: rebound_row_def fr_row_step.bound)
  have steps: "fr_grow\<^sup>*\<^sup>* t ?t2" using 1 2 by (rule rtranclp_two)
  have pay: "fr_payload_sha row = payload" using assms(3) by (auto simp: accept_known_def split: if_splits)
  obtain row1 where r1: "row_by_job (fr_job row) ?t2 = Inr row1"
    using assms(3) pay unfolding accept_known_def Let_def
    by (cases "row_by_job (fr_job row) ?t2") simp_all
  note in2 = row_by_job_in [OF r1]
  show ?thesis
  proof (cases "fr_status row1 = FrQueued \<and> fr_expiry row1 \<le> now")
    case False
    then have "t' = ?t2" "a = \<lparr>ac_record = fr_record_of row1, ac_created = False, ac_lease = None\<rparr>"
      using assms(3) pay r1 unfolding accept_known_def Let_def by (simp_all split: if_splits)
    with steps pay in2 show ?thesis by (simp add: fr_record_of_def)
  next
    case True
    then obtain token row2 where
      t': "t' = fr_update (fr_job row1) (redispatched_row (sha token) (now + fr_lease_seconds cfg) now
          (fr_generation row1 + 1)) ?t2"
      and r2: "row_by_job (fr_job row1) t' = Inr row2" and a: "ac_record a = fr_record_of row2" "\<not> ac_created a"
        "ac_lease a = Some \<lparr>fl_job = fr_job row1, fl_generation = fr_generation row1 + 1,
           fl_expires = now + fr_lease_seconds cfg, fl_token = token\<rparr>"
      using assms(3) pay r1 unfolding accept_known_def replace_dispatch_lease_def Let_def
      by (auto simp: res_bind_eq_Inr simp del: res_bind_split)
    have ok2: "fr_table_ok ?t2" using 1 2 assms(1) fr_grow_ok by blast
    have "fr_grow ?t2 t'" unfolding t'
    proof (rule fr_grow.updated)
      fix r assume "r \<in> set ?t2" "fr_job r = fr_job row1"
      then have "r = row1" using unique_job [OF ok2] in2 by blast
      then show "redispatched_row (sha token) (now + fr_lease_seconds cfg) now (fr_generation row1 + 1) r = r \<or>
          fr_row_step r (redispatched_row (sha token) (now + fr_lease_seconds cfg) now (fr_generation row1 + 1) r)"
        using True fr_row_step.redispatched [of row1] by simp
    qed
    with steps have "fr_grow\<^sup>*\<^sup>* t t'" by simp
    moreover have "redispatched_row (sha token) (now + fr_lease_seconds cfg) now (fr_generation row1 + 1) row1 \<in> set t'"
      unfolding t' using in2 by (intro updated_row_in) simp
    ultimately show ?thesis
      using pay a row_by_job_in [OF r2] in2 True
      by (auto simp: fr_record_of_def fr_leased_def redispatched_row_def intro: rev_bexI)
  qed
qed

lemma new_row_ok: "fr_identifier i label 128 = Inr job \<Longrightarrow> fr_row_ok (new_fr_row job w p s k pay tok e now)"
  by (auto simp: fr_row_ok_def new_fr_row_def fr_identifier_def Let_def split: if_splits)

lemma oldest_terminal_ended:
  assumes "fr_table_ok t" "r \<in> set t" "fr_job r \<in> set (oldest_terminal n (filter Q t))"
  shows "fr_is_terminal r"
proof -
  obtain s where "s \<in> set t" "fr_is_terminal s" "fr_job s = fr_job r"
    using assms(3) by (auto simp: oldest_terminal_def dest!: in_set_takeD)
  with unique_job [OF assms(1,2)] show ?thesis by blast
qed

lemma prune_Inr:
  assumes "prune_for_insert cfg now t = Inr t'"
  shows "fr_table_ok t \<Longrightarrow> fr_pruned t t'" "int (length t') < fr_max_records cfg"
proof -
  let ?Q = "\<lambda>r. \<not> (fr_is_terminal r \<and> (case fr_terminal r of None \<Rightarrow> False | Some e \<Rightarrow> e < now - fr_retention cfg))"
  let ?kept = "filter ?Q t"
  let ?over = "int (length ?kept) - fr_max_records cfg + 1"
  let ?P = "\<lambda>r. ?over > 0 \<longrightarrow> fr_job r \<notin> set (oldest_terminal ?over ?kept)"
  have t': "t' = filter ?P ?kept" "int (length t') < fr_max_records cfg"
    using assms unfolding prune_for_insert_def Let_def by (auto split: if_splits)
  then show "int (length t') < fr_max_records cfg" by simp
  assume "fr_table_ok t"
  then have "fr_is_terminal r" if "r \<in> set t" "\<not> (?Q r \<and> ?P r)" for r
    using that oldest_terminal_ended [of t r] by blast
  then show "fr_pruned t t'"
    unfolding fr_pruned_def t'(1) filter_filter by blast
qed

text \<open>Does an operation leave every request in the table?\<close>

definition prune_free :: "fr_limits \<Rightarrow> fr_op \<Rightarrow> fr_table \<Rightarrow> bool" where
  "prune_free cfg op t =
     (case op of
        Accept w s k p c i tok \<Rightarrow>
          (case fr_now c of Inl _ \<Rightarrow> True
           | Inr now \<Rightarrow> (case prune_for_insert cfg now t of Inl _ \<Rightarrow> True | Inr t1 \<Rightarrow> t1 = t))
      | _ \<Rightarrow> True)"

lemma fr_pruned_refl [simp]: "fr_pruned t t"
  by (auto simp: fr_pruned_def intro!: exI [of _ "\<lambda>_. True"])

lemma grows_ok: "fr_grow\<^sup>*\<^sup>* t t' \<Longrightarrow> fr_table_ok t \<Longrightarrow> fr_table_ok t'"
  by (induction rule: rtranclp_induct) (auto intro: fr_grow_ok)

lemma grows_le: "fr_grow\<^sup>*\<^sup>* t t' \<Longrightarrow> fr_table_le t t'"
  by (induction rule: rtranclp_induct) (auto intro: fr_grow_le fr_table_le_trans)

lemma accept_new_path:
  assumes "fr_table_ok t" "accept_new cfg sha path session k pay now i tok t = Inr (a, t')"
  shows "\<exists>t1. prune_for_insert cfg now t = Inr t1 \<and> fr_grow t1 t' \<and> length t' = length t1 + 1 \<and>
    ac_created a \<and> (\<exists>r\<in>set t'. fr_job r = rec_job (ac_record a) \<and> fr_key r = (sha path, k) \<and> fr_payload_sha r = pay) \<and>
    (\<forall>l. ac_lease a = Some l \<longrightarrow> (\<exists>r\<in>set t'. fr_leased sha l r))"
proof -
  obtain job t1 token where parts: "fr_identifier i ''generated job'' 128 = Inr job"
    "prune_for_insert cfg now t = Inr t1" "fr_lease_token tok = Inr token"
    using assms(2) by (auto simp: accept_new_def res_bind_eq_Inr)
  let ?row = "new_fr_row job (sha path) path session k pay (sha token) (now + fr_lease_seconds cfg) now"
  have res: "fr_unique (t1 @ [?row])" "t' = t1 @ [?row]" "ac_created a" "ac_record a = fr_record_of ?row"
    "ac_lease a = Some \<lparr>fl_job = job, fl_generation = 1, fl_expires = now + fr_lease_seconds cfg, fl_token = token\<rparr>"
    using assms(2) parts by (auto simp: accept_new_def Let_def split: if_splits)
  have "fr_row_ok ?row" using parts(1) by (rule new_row_ok)
  then have "fr_grow t1 t'" unfolding res(2) by (rule fr_grow.inserted [OF res(1)])
  with res parts show ?thesis by (auto simp: new_fr_row_def fr_record_of_def fr_key_def fr_leased_def)
qed

text \<open>The three things an acceptance reads off its arguments, and the case it is in.\<close>

lemma accept_cases:
  assumes "accept_request cfg sha w s k p c i tok t = Inr (a, t')"
  obtains path session key pay now where "fr_workspace w = Inr path" "fr_identifier k ''idempotency'' 256 = Inr key"
    "fr_payload_digest sha p = Inr pay" "fr_now c = Inr now"
    "(\<exists>row. find (\<lambda>r. fr_key r = (sha path, sha key)) t = Some row \<and>
        accept_known cfg sha session pay now tok row t = Inr (a, t')) \<or>
     find (\<lambda>r. fr_key r = (sha path, sha key)) t = None \<and>
        accept_new cfg sha path session (sha key) pay now i tok t = Inr (a, t')"
proof -
  obtain path session key pay now where "fr_workspace w = Inr path" "fr_identifier k ''idempotency'' 256 = Inr key"
      "fr_payload_digest sha p = Inr pay" "fr_now c = Inr now" and
    last: "(case find (\<lambda>r. fr_key r = (sha path, sha key)) t of
         Some row \<Rightarrow> accept_known cfg sha session pay now tok row t
       | None \<Rightarrow> accept_new cfg sha path session (sha key) pay now i tok t) = Inr (a, t')"
    using assms by (auto simp: accept_request_def res_bind_eq_Inr)
  then show thesis
    using that [of path key pay now session] by (cases "find (\<lambda>r. fr_key r = (sha path, sha key)) t") auto
qed

lemma accept_path:
  assumes "fr_table_ok t" "accept_request cfg sha w s k p c i tok t = Inr (a, t')"
  shows "\<exists>t1. fr_pruned t t1 \<and> fr_grow\<^sup>*\<^sup>* t1 t' \<and> (prune_free cfg (Accept w s k p c i tok) t \<longrightarrow> t1 = t)"
proof (rule accept_cases [OF assms(2)])
  fix path session key pay now
  assume now: "fr_now c = Inr now"
    and "(\<exists>row. find (\<lambda>r. fr_key r = (sha path, sha key)) t = Some row \<and>
          accept_known cfg sha session pay now tok row t = Inr (a, t')) \<or>
       find (\<lambda>r. fr_key r = (sha path, sha key)) t = None \<and>
          accept_new cfg sha path session (sha key) pay now i tok t = Inr (a, t')"
  then consider row where "row \<in> set t" "accept_known cfg sha session pay now tok row t = Inr (a, t')"
    | "accept_new cfg sha path session (sha key) pay now i tok t = Inr (a, t')"
    using find_in by metis
  then show ?thesis
  proof cases
    case 1
    then show ?thesis using payload_or_conflict [OF assms(1)] fr_pruned_refl by blast
  next
    case 2
    then obtain t1 where "prune_for_insert cfg now t = Inr t1" "fr_grow t1 t'"
      using accept_new_path [OF assms(1)] by blast
    with prune_Inr(1) [OF _ assms(1)] now show ?thesis
      by (intro exI [of _ t1]) (auto simp: prune_free_def)
  qed
qed

lemma step_path:
  assumes "fr_table_ok t"
  shows "\<exists>t1. fr_pruned t t1 \<and> fr_grow\<^sup>*\<^sup>* t1 (fr_step cfg sha op t) \<and> (prune_free cfg op t \<longrightarrow> t1 = t)"
proof -
  have one: ?thesis if "\<And>x t'. result = Inr (x, t') \<Longrightarrow> t' = t \<or> fr_grow t t'" "fr_step cfg sha op t = committed result t"
    for result :: "fr_error + 'b \<times> fr_table"
    by (rule exI [of _ t]) (use that in \<open>auto simp: committed_def split: sum.splits\<close>)
  show ?thesis
  proof (cases op)
    case (Accept w s k p c i tok)
    show ?thesis
    proof (cases "accept_request cfg sha w s k p c i tok t")
      case (Inl e)
      with Accept show ?thesis by (intro exI [of _ t]) (simp add: committed_def)
    next
      case (Inr r)
      then show ?thesis
        using accept_path [OF assms, of cfg sha w s k p c i tok "fst r" "snd r"] Accept
        by (cases r) (simp add: committed_def)
    qed
  next
    case (Get j c)
    with get_grows [OF assms] show ?thesis by (intro one) auto
  next
    case (Attach j s w c)
    with attach_grows show ?thesis by (intro one [of "attach_request sha j s w c t"]) auto
  qed (rule one; use assms begin_grows renew_grows ending_grows reject_grows in auto)+
qed

lemma fr_step_ok: "fr_table_ok t \<Longrightarrow> fr_table_ok (fr_step cfg sha op t)"
  using step_path [of t cfg sha op] fr_pruned_ok grows_ok by blast

lemma step_keeps_unfinished:
  assumes "fr_table_ok t" "r \<in> set t" "\<not> fr_is_terminal r"
  shows "\<exists>r'\<in>set (fr_step cfg sha op t). fr_row_le r r'"
proof -
  obtain t1 where "fr_pruned t t1" "fr_grow\<^sup>*\<^sup>* t1 (fr_step cfg sha op t)" using step_path [OF assms(1)] by blast
  moreover have "r \<in> set t1" using calculation(1) assms(2,3) by (auto simp: fr_pruned_def)
  ultimately show ?thesis using grows_le unfolding fr_table_le_def by blast
qed

lemma fr_step_le: "fr_table_ok t \<Longrightarrow> prune_free cfg op t \<Longrightarrow> fr_table_le t (fr_step cfg sha op t)"
  using step_path [of t cfg sha op] grows_le by blast

fun keeps_all :: "fr_limits \<Rightarrow> (string \<Rightarrow> string) \<Rightarrow> fr_op list \<Rightarrow> fr_table \<Rightarrow> bool" where
  "keeps_all cfg sha [] t = True"
| "keeps_all cfg sha (op # ops) t = (prune_free cfg op t \<and> keeps_all cfg sha ops (fr_step cfg sha op t))"

lemma fr_run_ok: "fr_table_ok t \<Longrightarrow> fr_table_ok (run (fr_step cfg sha) ops t)"
  by (induction ops arbitrary: t) (auto intro: fr_step_ok)

lemma fr_run_le: "fr_table_ok t \<Longrightarrow> keeps_all cfg sha ops t \<Longrightarrow> fr_table_le t (run (fr_step cfg sha) ops t)"
  by (induction ops arbitrary: t) (auto intro: fr_step_ok fr_step_le fr_table_le_trans)

section \<open>Size\<close>

lemma length_update [simp]: "length (fr_update job f t) = length t"
  by (simp add: fr_update_def)

lemma length_reconcile [simp]: "length (reconcile_expired_running now r t) = length t"
  by (simp add: reconcile_expired_running_def)

lemma length_accept:
  assumes "fr_table_ok t" "accept_request cfg sha w s k p c i tok t = Inr (a, t')"
  shows "length t' = length t \<or> int (length t') \<le> fr_max_records cfg"
proof (rule accept_cases [OF assms(2)])
  fix path session key pay now
  assume "(\<exists>row. find (\<lambda>r. fr_key r = (sha path, sha key)) t = Some row \<and>
          accept_known cfg sha session pay now tok row t = Inr (a, t')) \<or>
       find (\<lambda>r. fr_key r = (sha path, sha key)) t = None \<and>
          accept_new cfg sha path session (sha key) pay now i tok t = Inr (a, t')"
  then show ?thesis
  proof (elim disjE exE conjE)
    fix row assume "accept_known cfg sha session pay now tok row t = Inr (a, t')"
    then have "length t' = length t"
      by (auto simp: accept_known_def replace_dispatch_lease_def res_bind_eq_Inr Let_def split: if_splits)
    then show ?thesis by simp
  next
    assume "accept_new cfg sha path session (sha key) pay now i tok t = Inr (a, t')"
    from accept_new_path [OF assms(1) this] show ?thesis using prune_Inr(2) by fastforce
  qed
qed

lemma length_step:
  assumes "fr_table_ok t"
  shows "length (fr_step cfg sha op t) = length t \<or> int (length (fr_step cfg sha op t)) \<le> fr_max_records cfg"
proof (cases op)
  case (Accept w s k p c i tok)
  then show ?thesis
    using length_accept [OF assms, of cfg sha w s k p c i tok] by (simp add: committed_def split: sum.splits prod.splits)
qed (auto simp: committed_def begin_work_def renew_work_def complete_work_def fail_work_def cancel_work_def
    finish_work_def reject_work_def get_request_def attach_request_def res_bind_eq_Inr Let_def
    split: sum.splits option.splits if_splits)

section \<open>What the ledger guarantees\<close>

definition fr_inv :: "fr_limits \<Rightarrow> fr_table \<Rightarrow> bool" where
  "fr_inv cfg t = (fr_table_ok t \<and> (0 \<le> fr_max_records cfg \<longrightarrow> int (length t) \<le> fr_max_records cfg))"

interpretation frm: safe_machine "fr_step cfg sha" "\<lambda>_. True" "fr_inv cfg"
proof
  fix op t assume "fr_inv cfg t"
  then show "fr_inv cfg (fr_step cfg sha op t)"
    using fr_step_ok [of t cfg sha op] length_step [of t cfg sha op] by (auto simp: fr_inv_def)
qed

text \<open>
  C30. The ledger stays consistent and bounded: after any operations on a new ledger job ids and
  idempotency keys are unique, at most the configured number of records is stored, every row has the
  lease, times and result its state calls for and was begun at most once, and no operation, not even
  one that prunes, ever drops a request that has not ended.
\<close>

theorem fr_ledger_invariant:
  fixes ops :: "fr_op list" and cfg :: fr_limits and sha :: "string \<Rightarrow> string"
  defines "t \<equiv> run (fr_step cfg sha) ops []"
  shows "fr_unique t \<and> list_all fr_row_ok t \<and> list_all (\<lambda>r. fr_attempts r \<le> 1) t \<and>
    (0 \<le> fr_max_records cfg \<longrightarrow> int (length t) \<le> fr_max_records cfg) \<and>
    (\<forall>r\<in>set t. \<not> fr_is_terminal r \<longrightarrow> (\<exists>r'\<in>set (fr_step cfg sha op t). fr_row_le r r'))"
proof -
  have inv: "fr_inv cfg t"
    using frm.run_inv [of ops cfg "[]" sha] by (simp add: t_def list_all_iff fr_inv_def fr_table_ok_def fr_unique_def)
  then have ok: "fr_table_ok t" by (simp add: fr_inv_def)
  have "fr_row_ok r \<Longrightarrow> fr_attempts r \<le> 1" for r by (auto simp: fr_row_ok_def split: fr_state.splits)
  then have "list_all (\<lambda>r. fr_attempts r \<le> 1) t" using ok by (auto simp: fr_table_ok_def list_all_iff)
  then show ?thesis
    using inv ok step_keeps_unfinished [OF ok] by (simp add: fr_inv_def fr_table_ok_def)
qed

text \<open>The idempotency keys whose work was begun, in order.\<close>

definition begun_key :: "fr_limits \<Rightarrow> (string \<Rightarrow> string) \<Rightarrow> fr_op \<Rightarrow> fr_table \<Rightarrow> (string \<times> string) list" where
  "begun_key cfg sha op t =
     (case op of
        Begin l c \<Rightarrow>
          (case begin_work cfg sha l c t of
             Inl _ \<Rightarrow> [] | Inr _ \<Rightarrow> map fr_key (filter (\<lambda>r. fr_job r = py_strip (fl_job l)) t))
      | _ \<Rightarrow> [])"

fun begun_keys :: "fr_limits \<Rightarrow> (string \<Rightarrow> string) \<Rightarrow> fr_op list \<Rightarrow> fr_table \<Rightarrow> (string \<times> string) list" where
  "begun_keys cfg sha [] t = []"
| "begun_keys cfg sha (op # ops) t =
     begun_key cfg sha op t @ begun_keys cfg sha ops (fr_step cfg sha op t)"

lemma unique_key: "fr_table_ok t \<Longrightarrow> r \<in> set t \<Longrightarrow> s \<in> set t \<Longrightarrow> fr_key s = fr_key r \<Longrightarrow> s = r"
  by (auto simp: fr_table_ok_def fr_unique_def distinct_map dest: inj_onD)

lemma filter_distinct_key: "distinct (map f xs) \<Longrightarrow> r \<in> set xs \<Longrightarrow> filter (\<lambda>s. f s = f r) xs = [r]"
  by (induction xs) (auto simp: filter_empty_conv, metis image_eqI)

lemma filter_unique_job: "fr_table_ok t \<Longrightarrow> r \<in> set t \<Longrightarrow> filter (\<lambda>s. fr_job s = fr_job r) t = [r]"
  by (simp add: fr_table_ok_def fr_unique_def filter_distinct_key)

lemma begun_key_cases:
  assumes "fr_table_ok t" "begun_key cfg sha op t = k # ks"
  shows "ks = [] \<and> (\<exists>r\<in>set t. fr_key r = k \<and> fr_attempts r = 0) \<and>
    (\<exists>r\<in>set (fr_step cfg sha op t). fr_key r = k \<and> 1 \<le> fr_attempts r)"
proof -
  obtain l c x t' where op: "op = Begin l c" "begin_work cfg sha l c t = Inr (x, t')"
    using assms(2) by (auto simp: begun_key_def split: fr_op.splits sum.splits)
  then obtain now r where r: "fr_require_lease sha l FrQueued now t = Inr r"
    and t': "t' = fr_update (fr_job r) (begun_row (now + fr_lease_seconds cfg) now) t"
    by (auto simp: begin_work_def res_bind_eq_Inr Let_def)
  note rs = require_lease_Inr [OF r]
  have k: "k = fr_key r" "ks = []"
    using assms(2) op filter_unique_job [OF assms(1) rs(1)] by (auto simp: begun_key_def rs(2))
  have a: "fr_attempts r = 0"
    using assms(1) rs(1,3) by (auto simp: fr_table_ok_def list_all_iff fr_row_ok_def)
  let ?r' = "begun_row (now + fr_lease_seconds cfg) now r"
  have "?r' \<in> set t'" unfolding t' fr_update_def using rs(1) by force
  moreover have "fr_key ?r' = fr_key r" "fr_attempts ?r' = 1" using a by (simp_all add: begun_row_def fr_key_def)
  ultimately show ?thesis using k a rs(1) op by (auto simp: committed_def)
qed

lemma started_not_begun:
  assumes "fr_table_ok t" "keeps_all cfg sha ops t" "r \<in> set t" "1 \<le> fr_attempts r"
  shows "fr_key r \<notin> set (begun_keys cfg sha ops t)"
  using assms
proof (induction ops arbitrary: t r)
  case (Cons op ops)
  let ?t = "fr_step cfg sha op t"
  have "fr_key r \<notin> set (begun_key cfg sha op t)"
  proof
    assume "fr_key r \<in> set (begun_key cfg sha op t)"
    then obtain k ks where "begun_key cfg sha op t = k # ks" "fr_key r = k"
      using begun_key_cases [OF Cons.prems(1)] by (cases "begun_key cfg sha op t") fastforce+
    with begun_key_cases [OF Cons.prems(1), of cfg sha op k ks] unique_key [OF Cons.prems(1,3)] Cons.prems(4)
    show False by fastforce
  qed
  moreover obtain r' where "r' \<in> set ?t" "fr_row_le r r'"
    using fr_step_le [OF Cons.prems(1)] Cons.prems(2,3) by (fastforce simp: fr_table_le_def)
  moreover have "fr_key r' \<notin> set (begun_keys cfg sha ops ?t)"
    using Cons.IH [OF fr_step_ok [OF Cons.prems(1)] _ \<open>r' \<in> set ?t\<close>] Cons.prems(2,4) \<open>fr_row_le r r'\<close>
    by (auto simp: fr_row_le_def)
  ultimately show ?case by (auto simp: fr_row_le_def)
qed simp

lemma begun_distinct: "fr_table_ok t \<Longrightarrow> keeps_all cfg sha ops t \<Longrightarrow> distinct (begun_keys cfg sha ops t)"
proof (induction ops arbitrary: t)
  case (Cons op ops)
  let ?t = "fr_step cfg sha op t"
  have rest: "distinct (begun_keys cfg sha ops ?t)"
    using Cons.IH [OF fr_step_ok [OF Cons.prems(1)]] Cons.prems(2) by simp
  show ?case
  proof (cases "begun_key cfg sha op t")
    case (Cons k ks)
    with begun_key_cases [OF Cons.prems(1) Cons] obtain r where "ks = []" "r \<in> set ?t" "fr_key r = k" "1 \<le> fr_attempts r"
      by blast
    with started_not_begun [OF fr_step_ok [OF Cons.prems(1)] _ \<open>r \<in> set ?t\<close>] Cons.prems(2) rest Cons
    show ?thesis by auto
  qed (use rest in simp)
qed simp

text \<open>
  C2. A Forge plan request is executed at most once: as long as no ended request is pruned, over any
  operations on a new ledger, whatever leases expire, workers crash or callers retry, work is begun at
  most once for each workspace and idempotency key.
\<close>

theorem forge_work_begins_once:
  assumes "keeps_all cfg sha ops []"
  shows "distinct (begun_keys cfg sha ops [])"
  by (rule begun_distinct [OF _ assms]) (simp add: fr_table_ok_def fr_unique_def)

definition sample_fr_digest :: "string \<Rightarrow> string" where "sample_fr_digest s = ''h'' @ s"

definition sample_accept :: "rat \<Rightarrow> string \<Rightarrow> string \<Rightarrow> fr_op" where
  "sample_accept now job token =
     Accept (Directory ''/w'') (PStr ''s'') (PStr ''key'') [(KStr ''goal'', PStr ''g'')] (ArgFinite now)
       (PStr job) (PStr token)"

definition sample_fr_lease :: "int \<Rightarrow> string \<Rightarrow> fr_lease" where
  "sample_fr_lease generation token =
     \<lparr>fl_job = ''job1'', fl_generation = generation, fl_expires = 0, fl_token = token\<rparr>"

definition sample_fr_ops :: "fr_op list" where
  "sample_fr_ops =
     [sample_accept 1 ''job1'' ''t1'', sample_accept 40 ''job2'' ''t2'',
      Begin (sample_fr_lease 1 ''t1'') (ArgFinite 41), Begin (sample_fr_lease 2 ''t2'') (ArgFinite 41),
      Begin (sample_fr_lease 2 ''t2'') (ArgFinite 42), sample_accept 99 ''job3'' ''t3'',
      Begin (sample_fr_lease 3 ''t3'') (ArgFinite 99)]"

theorem forge_work_begins_once_witness:
  "begun_keys fr_default_limits sample_fr_digest sample_fr_ops [] = [(''h/w'', ''hkey'')] \<and>
   distinct (begun_keys fr_default_limits sample_fr_digest sample_fr_ops [])"
proof -
  have "keeps_all fr_default_limits sample_fr_digest sample_fr_ops []"
    "begun_keys fr_default_limits sample_fr_digest sample_fr_ops [] = [(''h/w'', ''hkey'')]"
    by code_simp+
  with forge_work_begins_once [of fr_default_limits sample_fr_digest sample_fr_ops] show ?thesis by blast
qed

text \<open>Pruning is why the claim has its condition: a request whose record is gone runs again.\<close>

lemma pruned_request_runs_again:
  "begun_keys (fr_default_limits\<lparr>fr_retention := 1\<rparr>) sample_fr_digest
     [sample_accept 1 ''job1'' ''t1'', Begin (sample_fr_lease 1 ''t1'') (ArgFinite 2),
      Complete (sample_fr_lease 1 ''t1'') (PStr ''plan1'') (ArgFinite 3),
      Accept (Directory ''/w'') (PStr ''s'') (PStr ''other'') [] (ArgFinite 5) (PStr ''job2'') (PStr ''t2''),
      sample_accept 6 ''job1'' ''t1'', Begin (sample_fr_lease 1 ''t1'') (ArgFinite 7)] [] =
     [(''h/w'', ''hkey''), (''h/w'', ''hkey'')]"
  by code_simp

lemma reachable_ok: "fr_table_ok (run (fr_step cfg sha) ops [])"
  by (rule fr_run_ok) (simp add: fr_table_ok_def fr_unique_def)

text \<open>The row of an accepted request.\<close>

lemma accepted_row:
  assumes "fr_table_ok t" "accept_request cfg sha w s k p c i tok t = Inr (a, t')"
    and "fr_workspace w = Inr path" "fr_identifier k ''idempotency'' 256 = Inr key"
    and "fr_payload_digest sha p = Inr pay"
  shows "fr_table_ok t' \<and> (\<exists>r\<in>set t'. fr_job r = rec_job (ac_record a) \<and> fr_key r = (sha path, sha key) \<and>
    fr_payload_sha r = pay)"
proof (rule accept_cases [OF assms(2)], elim disjE exE conjE)
  fix path' session key' pay' now row
  assume e: "fr_workspace w = Inr path'" "fr_identifier k ''idempotency'' 256 = Inr key'"
    "fr_payload_digest sha p = Inr pay'"
    and f: "find (\<lambda>r. fr_key r = (sha path', sha key')) t = Some row"
    and known: "accept_known cfg sha session pay' now tok row t = Inr (a, t')"
  from find_in [OF f] have row: "row \<in> set t" "fr_key row = (sha path, sha key)" using e assms(3,4) by auto
  note k = payload_or_conflict [OF assms(1) row(1) known]
  then obtain r where "r \<in> set t'" "fr_row_le row r" using grows_le row(1) unfolding fr_table_le_def by blast
  with k row(2) e(3) assms(5) grows_ok [OF _ assms(1)] show ?thesis by (auto simp: fr_row_le_def)
next
  fix path' session key' pay' now
  assume e: "fr_workspace w = Inr path'" "fr_identifier k ''idempotency'' 256 = Inr key'"
    "fr_payload_digest sha p = Inr pay'"
    and new: "accept_new cfg sha path' session (sha key') pay' now i tok t = Inr (a, t')"
  from accept_new_path [OF assms(1) new] obtain t1 r where "prune_for_insert cfg now t = Inr t1" "fr_grow t1 t'"
    "r \<in> set t'" "fr_job r = rec_job (ac_record a)" "fr_key r = (sha path', sha key')" "fr_payload_sha r = pay'"
    by blast
  then show ?thesis using e assms(3-5) fr_grow_ok fr_pruned_ok [OF prune_Inr(1) assms(1)] assms(1) by auto
qed

text \<open>
  C26. Accepting is idempotent: once a request was accepted under a workspace and key, then as long as
  nothing is pruned, whatever happens in between, accepting under the same workspace and key never
  creates a second job. It answers with the same job, and only if the payload has the same digest.
\<close>

theorem acceptance_is_idempotent:
  assumes "accept_request cfg sha w s k p c i tok (run (fr_step cfg sha) before []) = Inr (a, t)"
    and "keeps_all cfg sha between t"
    and "accept_request cfg sha w s' k p' c' i' tok' (run (fr_step cfg sha) between t) = Inr (a', t')"
  shows "\<not> ac_created a' \<and> rec_job (ac_record a') = rec_job (ac_record a) \<and>
    fr_payload_digest sha p' = fr_payload_digest sha p"
proof (rule accept_cases [OF assms(1)], rule accept_cases [OF assms(3)])
  fix path session key pay now path' session' key' pay' now'
  let ?t2 = "run (fr_step cfg sha) between t"
  assume e: "fr_workspace w = Inr path" "fr_identifier k ''idempotency'' 256 = Inr key" "fr_payload_digest sha p = Inr pay"
    and e': "fr_workspace w = Inr path'" "fr_identifier k ''idempotency'' 256 = Inr key'" "fr_payload_digest sha p' = Inr pay'"
    and or: "(\<exists>row. find (\<lambda>r. fr_key r = (sha path', sha key')) ?t2 = Some row \<and>
          accept_known cfg sha session' pay' now' tok' row ?t2 = Inr (a', t')) \<or>
       find (\<lambda>r. fr_key r = (sha path', sha key')) ?t2 = None \<and>
          accept_new cfg sha path' session' (sha key') pay' now' i' tok' ?t2 = Inr (a', t')"
  from accepted_row [OF reachable_ok assms(1) e] obtain r where ok: "fr_table_ok t" and
    r: "r \<in> set t" "fr_job r = rec_job (ac_record a)" "fr_key r = (sha path, sha key)" "fr_payload_sha r = pay" by blast
  from fr_run_le [OF ok assms(2)] r(1) obtain r2 where r2: "r2 \<in> set ?t2" "fr_row_le r r2" by (auto simp: fr_table_le_def)
  have same: "path' = path" "key' = key" using e e' by auto
  have "find (\<lambda>r. fr_key r = (sha path', sha key')) ?t2 \<noteq> None"
    using r2 r(3) same by (auto simp: find_None_iff fr_row_le_def)
  with or obtain row where row: "find (\<lambda>r. fr_key r = (sha path', sha key')) ?t2 = Some row"
    "accept_known cfg sha session' pay' now' tok' row ?t2 = Inr (a', t')" by blast
  have "row = r2"
    using unique_key [OF fr_run_ok [OF ok] r2(1)] find_in [OF row(1)] r2(2) r(3) same by (auto simp: fr_row_le_def)
  with payload_or_conflict [OF fr_run_ok [OF ok] _ row(2)] r2 r e(3) e'(3) show ?thesis by (auto simp: fr_row_le_def)
qed

theorem acceptance_is_idempotent_witness:
  "case accept_request fr_default_limits sample_fr_digest (Directory ''/w'') (PStr ''s2'') (PStr ''key'')
       [(KStr ''goal'', PStr ''g'')] (ArgFinite 99) (PStr ''job3'') (PStr ''t3'')
       (run (fr_step fr_default_limits sample_fr_digest) (take 5 sample_fr_ops) []) of
     Inl _ \<Rightarrow> False | Inr (a, _) \<Rightarrow> \<not> ac_created a \<and> rec_job (ac_record a) = ''job1''"
proof -
  let ?run = "run (fr_step fr_default_limits sample_fr_digest)"
  let ?acc = "accept_request fr_default_limits sample_fr_digest (Directory ''/w'') (PStr ''s2'') (PStr ''key'')
       [(KStr ''goal'', PStr ''g'')] (ArgFinite 99) (PStr ''job3'') (PStr ''t3'')"
  have ops: "take 5 sample_fr_ops = sample_accept 1 ''job1'' ''t1'' # take 4 (tl sample_fr_ops)"
    by (simp add: sample_fr_ops_def)
  have "is_ok (?acc (?run (take 5 sample_fr_ops) []))" by code_simp
  then obtain a' t' where second: "?acc (?run (take 5 sample_fr_ops) []) = Inr (a', t')" by (auto simp: is_ok_iff)
  let ?first = "accept_request fr_default_limits sample_fr_digest (Directory ''/w'') (PStr ''s'') (PStr ''key'')
      [(KStr ''goal'', PStr ''g'')] (ArgFinite 1) (PStr ''job1'') (PStr ''t1'')"
  have "case ?first [] of Inl _ \<Rightarrow> False | Inr (a, t) \<Rightarrow> rec_job (ac_record a) = ''job1'' \<and>
      keeps_all fr_default_limits sample_fr_digest (take 4 (tl sample_fr_ops)) t"
    by code_simp
  then obtain a t where first: "?first (?run [] []) = Inr (a, t)" "rec_job (ac_record a) = ''job1''"
    "keeps_all fr_default_limits sample_fr_digest (take 4 (tl sample_fr_ops)) t"
    by (auto split: sum.splits)
  have "?run (take 4 (tl sample_fr_ops)) t = ?run (take 5 sample_fr_ops) []"
    using first(1) by (simp add: ops sample_accept_def committed_def)
  with acceptance_is_idempotent [OF first(1,3)] second first(2) show ?thesis by simp
qed

theorem fr_ledger_invariant_witness:
  "int (length (run (fr_step fr_default_limits sample_fr_digest) sample_fr_ops [])) \<le> 50000 \<and>
   list_all (\<lambda>r. fr_attempts r \<le> 1) (run (fr_step fr_default_limits sample_fr_digest) sample_fr_ops [])"
  using fr_ledger_invariant [of fr_default_limits sample_fr_digest sample_fr_ops] by (simp add: fr_default_limits_def)

section \<open>Leases\<close>

lemma stale_lease:
  assumes "fr_table_ok t" "r \<in> set t" "fr_job r = py_strip (fl_job l)" "fr_generation r \<noteq> fl_generation l"
  shows "\<not> is_ok (fr_require_lease sha l st now t)"
proof
  assume "is_ok (fr_require_lease sha l st now t)"
  then obtain r' where "fr_require_lease sha l st now t = Inr r'" by (auto simp: is_ok_iff)
  from require_lease_Inr [OF this] unique_job [OF assms(1,2)] assms(3,4) show False by metis
qed

text \<open>
  A superseded lease is dead: a lease whose generation is older than that of its job's row, as every
  dispatch lease is once the request was dispatched again, cannot begin, renew, finish or reject the
  work, now or after any further operations that prune nothing.
\<close>

theorem superseded_lease_is_dead:
  assumes "r \<in> set (run (fr_step cfg sha) before [])"
    and "fr_job r = py_strip (fl_job l)" and "fl_generation l < fr_generation r"
    and "keeps_all cfg sha later (run (fr_step cfg sha) before [])"
  shows "let t = run (fr_step cfg sha) (before @ later) [] in
    \<not> is_ok (begin_work cfg sha l c t) \<and> \<not> is_ok (renew_work cfg sha l c t) \<and>
    \<not> is_ok (finish_work sha l st plan err c t) \<and> \<not> is_ok (reject_work sha l e c t)"
proof -
  let ?t = "run (fr_step cfg sha) (before @ later) []"
  obtain r' where "r' \<in> set ?t" "fr_row_le r r'"
    using fr_run_le [OF reachable_ok assms(4)] assms(1) by (auto simp: fr_table_le_def)
  moreover have "fr_job r' = py_strip (fl_job l)" "fr_generation r' \<noteq> fl_generation l"
    using calculation(2) assms(2,3) by (auto simp: fr_row_le_def)
  ultimately have "\<not> is_ok (fr_require_lease sha l s now ?t)" for s now
    by (intro stale_lease [OF reachable_ok])
  then show ?thesis
    by (auto simp: Let_def begin_work_def renew_work_def finish_work_def reject_work_def is_ok_iff res_bind_eq_Inr)
qed

theorem superseded_lease_is_dead_witness:
  "\<not> is_ok (begin_work fr_default_limits sample_fr_digest (sample_fr_lease 1 ''t1'') (ArgFinite 41)
       (run (fr_step fr_default_limits sample_fr_digest) (take 2 sample_fr_ops @ []) []))"
proof -
  let ?t = "run (fr_step fr_default_limits sample_fr_digest) (take 2 sample_fr_ops) []"
  have "map (\<lambda>r. (fr_job r, fr_generation r)) ?t = [(''job1'', 2)]" by code_simp
  then obtain r where "r \<in> set ?t" "fr_job r = ''job1''" "fr_generation r = 2" by (auto simp: map_eq_Cons_conv)
  moreover have "py_strip (fl_job (sample_fr_lease 1 ''t1'')) = ''job1''" by code_simp
  ultimately show ?thesis
    using superseded_lease_is_dead [of r fr_default_limits sample_fr_digest "take 2 sample_fr_ops"
        "sample_fr_lease 1 ''t1''" "[]"]
    by (simp add: Let_def sample_fr_lease_def)
qed

text \<open>A row whose lease a holder presents in time.\<close>

lemma require_lease_ok:
  assumes "fr_table_ok t" "r \<in> set t" "fr_job r = fl_job l" "fr_status r = st" "fr_generation r = fl_generation l"
    and "fr_token_sha r = Some (sha (fl_token l))" "fr_expires r = Some e" "now < e"
  shows "fr_require_lease sha l st now t = Inr r"
proof -
  have "fr_identifier (PStr (fl_job l)) ''job'' 128 = Inr (fl_job l)"
    using assms(1-3) by (auto simp: fr_table_ok_def list_all_iff fr_row_ok_def)
  with row_by_job_unique [OF assms(1,2)] assms show ?thesis
    by (simp add: fr_require_lease_def fr_expiry_def)
qed

lemma begin_then_complete:
  assumes "fr_table_ok t" "r \<in> set t" "fr_job r = fl_job l" "fr_status r = FrQueued"
    and "fr_generation r = fl_generation l" "fr_token_sha r = Some (sha (fl_token l))" "fr_expires r = Some e"
    and "0 \<le> now" "now < e" "now \<le> later" "later < now + fr_lease_seconds cfg"
    and "fr_identifier p ''plan'' 128 = Inr plan"
  shows "\<exists>w t1 rec t2. begin_work cfg sha l (ArgFinite now) t = Inr (w, t1) \<and>
    complete_work sha w p (ArgFinite later) t1 = Inr (rec, t2) \<and>
    rec_job rec = fl_job l \<and> rec_state rec = FrCompleted \<and> rec_attempts rec = 1 \<and> rec_plan rec = Some plan"
proof -
  let ?e = "now + fr_lease_seconds cfg"
  let ?w = "l\<lparr>fl_expires := ?e\<rparr>" and ?r = "begun_row ?e now r" and ?t1 = "fr_update (fr_job r) (begun_row ?e now) t"
  have beg: "begin_work cfg sha l (ArgFinite now) t = Inr (?w, ?t1)"
    using require_lease_ok [where sha = sha, OF assms(1-7,9)] assms(8) by (simp add: begin_work_def fr_now_def Let_def)
  have ok1: "fr_table_ok ?t1" using begin_grows [OF assms(1) beg] fr_grow_ok assms(1) by blast
  have in1: "?r \<in> set ?t1" by (rule updated_row_in [OF assms(2)])
  have a: "fr_attempts r = 0" using assms(1,2,4) by (auto simp: fr_table_ok_def list_all_iff fr_row_ok_def)
  have req: "fr_require_lease sha ?w FrRunning later ?t1 = Inr ?r"
    by (rule require_lease_ok [where sha = sha, OF ok1 in1]) (use assms in \<open>simp_all add: begun_row_def\<close>)
  let ?f = "ended_row FrCompleted (Some plan) None later"
  let ?t2 = "fr_update (fl_job l) ?f ?t1"
  have job: "fr_job ?r = fl_job l" using assms(3) by (simp add: begun_row_def)
  have "fr_row_step ?r (?f ?r)" by (rule fr_row_step.ended) (simp_all add: begun_row_def)
  then have "fr_table_ok ?t2" using update_leased(2) [OF ok1 req] fr_grow_ok ok1 by fastforce
  moreover have "?f ?r \<in> set ?t2" using updated_row_in [OF in1, of ?f] job by simp
  ultimately have "row_by_job (fl_job l) ?t2 = Inr (?f ?r)"
    using row_by_job_unique [of ?t2 "?f ?r"] job by (simp add: ended_row_def)
  then have "complete_work sha ?w p (ArgFinite later) ?t1 = Inr (fr_record_of (?f ?r), ?t2)"
    using req assms(8,10,12) by (simp add: complete_work_def finish_work_def fr_now_def Let_def)
  moreover have "rec_job (fr_record_of (?f ?r)) = fl_job l" "rec_state (fr_record_of (?f ?r)) = FrCompleted"
    "rec_attempts (fr_record_of (?f ?r)) = 1" "rec_plan (fr_record_of (?f ?r)) = Some plan"
    using a job by (simp_all add: fr_record_of_def ended_row_def begun_row_def)
  ultimately show ?thesis using beg by blast
qed

lemma accepted_lease:
  assumes "fr_table_ok t" "accept_request cfg sha w s k p c i tok t = Inr (a, t')" "ac_lease a = Some l"
  shows "fr_table_ok t' \<and> (\<exists>r\<in>set t'. fr_leased sha l r)"
proof (rule accept_cases [OF assms(2)])
  fix path session key pay now
  assume e: "fr_workspace w = Inr path" "fr_identifier k ''idempotency'' 256 = Inr key" "fr_payload_digest sha p = Inr pay"
    and "(\<exists>row. find (\<lambda>r. fr_key r = (sha path, sha key)) t = Some row \<and>
          accept_known cfg sha session pay now tok row t = Inr (a, t')) \<or>
       find (\<lambda>r. fr_key r = (sha path, sha key)) t = None \<and>
          accept_new cfg sha path session (sha key) pay now i tok t = Inr (a, t')"
  then consider row where "row \<in> set t" "accept_known cfg sha session pay now tok row t = Inr (a, t')"
    | "accept_new cfg sha path session (sha key) pay now i tok t = Inr (a, t')"
    using find_in by metis
  then have "\<exists>r\<in>set t'. fr_leased sha l r"
  proof cases
    case 1
    show ?thesis using payload_or_conflict [OF assms(1) 1] assms(3) by blast
  next
    case 2
    show ?thesis using accept_new_path [OF assms(1) 2] assms(3) by blast
  qed
  then show ?thesis using accepted_row [OF assms(1,2) e] by blast
qed

text \<open>
  Accepted work can be done: a dispatch lease an acceptance hands out is for a job that is queued
  and was never begun; whoever holds it can begin before it expires and then, within the lease this
  gives, complete with a valid plan id, which leaves the job completed after one attempt.
\<close>

theorem accepted_work_can_finish:
  assumes "accept_request cfg sha w s k p c i tok (run (fr_step cfg sha) before []) = Inr (a, t)"
    and "ac_lease a = Some l" and "fr_identifier q ''plan'' 128 = Inr plan"
    and "0 \<le> now" "now < fl_expires l" "now \<le> later" "later < now + fr_lease_seconds cfg"
  shows "(\<exists>r\<in>set t. fr_leased sha l r \<and> fr_attempts r = 0) \<and>
    (\<exists>wl t1 rec t2. begin_work cfg sha l (ArgFinite now) t = Inr (wl, t1) \<and>
      complete_work sha wl q (ArgFinite later) t1 = Inr (rec, t2) \<and>
      rec_job rec = fl_job l \<and> rec_state rec = FrCompleted \<and> rec_attempts rec = 1 \<and> rec_plan rec = Some plan)"
proof -
  obtain r where r: "fr_table_ok t" "r \<in> set t" "fr_leased sha l r"
    using accepted_lease [OF reachable_ok assms(1,2)] by blast
  then have "fr_attempts r = 0"
    by (auto simp: fr_leased_def fr_table_ok_def list_all_iff fr_row_ok_def)
  with r begin_then_complete [OF r(1,2) _ _ _ _ _ assms(4-7,3), of l sha] show ?thesis
    unfolding fr_leased_def by blast
qed

theorem accepted_work_can_finish_witness:
  "\<exists>a t l. accept_request fr_default_limits sample_fr_digest (Directory ''/w'') (PStr ''s'') (PStr ''key'') []
       (ArgFinite 1) (PStr ''job1'') (PStr ''t1'') [] = Inr (a, t) \<and> ac_lease a = Some l \<and>
     is_ok (begin_work fr_default_limits sample_fr_digest l (ArgFinite 2) t)"
proof -
  let ?acc = "accept_request fr_default_limits sample_fr_digest (Directory ''/w'') (PStr ''s'') (PStr ''key'') []
       (ArgFinite 1) (PStr ''job1'') (PStr ''t1'')"
  have "case ?acc [] of Inl _ \<Rightarrow> False | Inr (a, t) \<Rightarrow> map_option fl_expires (ac_lease a) = Some 31" by code_simp
  then obtain a t l where acc: "?acc (run (fr_step fr_default_limits sample_fr_digest) [] []) = Inr (a, t)"
    "ac_lease a = Some l" "fl_expires l = 31"
    by (auto split: sum.splits)
  have "fr_identifier (PStr ''plan1'') ''plan'' 128 = Inr ''plan1''" by code_simp
  from accepted_work_can_finish [OF acc(1,2) this, of 2 3] acc show ?thesis
    by (auto simp: fr_default_limits_def is_ok_iff)
qed

end
