(* ===== verification/ExecutionBudget.thy ===== *)
theory ExecutionBudget
  imports Prelude
begin

text \<open>
  How the context window of an execution prompt is split between the fixed prefix, the response
  reserve, the headroom reserve and the instructions: \<open>_resolve_execution_reserves\<close> of
  \<open>execution_budget.py\<close>. The token estimates it is given come from the prompt and the tool
  schemas. Token counts are Python integers.
\<close>

definition DEFAULT_EXECUTION_SAFETY_MARGIN_TOKENS :: int where
  "DEFAULT_EXECUTION_SAFETY_MARGIN_TOKENS = 512"
definition DEFAULT_EXECUTION_RESPONSE_RESERVE_TOKENS :: int where
  "DEFAULT_EXECUTION_RESPONSE_RESERVE_TOKENS = 1024"
definition DEFAULT_EXECUTION_HEADROOM_RESERVE_TOKENS :: int where
  "DEFAULT_EXECUTION_HEADROOM_RESERVE_TOKENS = 1024"
definition DEFAULT_MINIMUM_EXECUTION_INSTRUCTION_BUDGET_TOKENS :: int where
  "DEFAULT_MINIMUM_EXECUTION_INSTRUCTION_BUDGET_TOKENS = 1200"
definition DEFAULT_MIN_EXECUTION_RESPONSE_RESERVE_TOKENS :: int where
  "DEFAULT_MIN_EXECUTION_RESPONSE_RESERVE_TOKENS = 256"

record reserve_request =
  context_window :: int
  model_max_output :: int
  safety_margin :: int
  prefix_estimate :: int
  schema_estimate :: int
  response_request :: int
  headroom_request :: int
  minimum_instruction :: int
  image_reserve :: int
  minimum_response :: int

record reserve_resolution =
  requested_response :: int
  effective_response :: int
  requested_headroom :: int
  effective_headroom :: int
  minimum_budget :: int
  adjustment_applied :: bool
  adjustment_reason :: "string option"
  final_budget :: int

definition available_before_reserves :: "reserve_request \<Rightarrow> int" where
  "available_before_reserves q =
     max 0 (context_window q - max 0 (safety_margin q) - max 0 (prefix_estimate q)
       - max 0 (schema_estimate q) - max 0 (image_reserve q))"

definition reserve_reason :: "int \<Rightarrow> int \<Rightarrow> bool \<Rightarrow> string option" where
  "reserve_reason headroom_cut response_cut still_short =
     (if headroom_cut > 0 \<or> response_cut > 0 then
        Some ((if response_cut > 0 \<and> headroom_cut > 0 then
            ''reduced execution headroom and response reserves to preserve the minimum instruction budget''
          else if headroom_cut > 0 then
            ''reduced execution headroom reserve to preserve the minimum instruction budget''
          else ''reduced execution response reserve to preserve the minimum instruction budget'') @
          (if still_short then '' (minimum floor still limited by context)'' else []))
      else None)"

definition resolve_execution_reserves :: "reserve_request \<Rightarrow> reserve_resolution" where
  "resolve_execution_reserves q =
     (let available = available_before_reserves q;
          response = max 0 (min (model_max_output q) (response_request q));
          headroom = max 0 (headroom_request q);
          floor_budget = max 0 (minimum_instruction q);
          final = max 0 (available - response - headroom)
      in if final < floor_budget then
           let shortfall = floor_budget - final;
               headroom_cut = min shortfall headroom;
               headroom' = headroom - headroom_cut;
               shortfall' = shortfall - headroom_cut;
               least_response = min response (max 0 (minimum_response q));
               response_cut = (if shortfall' > 0 then min shortfall' (max 0 (response - least_response)) else 0);
               response' = response - response_cut;
               final' = max 0 (available - response' - headroom')
           in \<lparr>requested_response = response, effective_response = response',
               requested_headroom = headroom, effective_headroom = headroom',
               minimum_budget = floor_budget,
               adjustment_applied = (headroom_cut > 0 \<or> response_cut > 0),
               adjustment_reason = reserve_reason headroom_cut response_cut (final' < floor_budget),
               final_budget = final'\<rparr>
         else \<lparr>requested_response = response, effective_response = response,
               requested_headroom = headroom, effective_headroom = headroom,
               minimum_budget = floor_budget, adjustment_applied = False,
               adjustment_reason = None, final_budget = final\<rparr>)"

section \<open>Bounds\<close>

text \<open>The cuts made to the two reserves, and the remainder left for the instructions.\<close>

lemma reserve_cuts:
  fixes q :: reserve_request
  defines "res \<equiv> resolve_execution_reserves q"
  shows "\<exists>hc rc. 0 \<le> hc \<and> hc \<le> requested_headroom res \<and> 0 \<le> rc \<and>
      rc \<le> requested_response res - min (requested_response res) (max 0 (minimum_response q)) \<and>
      (0 < rc \<longrightarrow> hc = requested_headroom res) \<and>
      effective_headroom res = requested_headroom res - hc \<and>
      effective_response res = requested_response res - rc \<and>
      adjustment_applied res = (0 < hc \<or> 0 < rc) \<and>
      (adjustment_reason res = None) = (\<not> adjustment_applied res) \<and>
      minimum_budget res = max 0 (minimum_instruction q) \<and>
      requested_headroom res = max 0 (headroom_request q) \<and>
      requested_response res = max 0 (min (model_max_output q) (response_request q)) \<and>
      final_budget res = max 0 (available_before_reserves q - effective_response res - effective_headroom res) \<and>
      (minimum_budget res \<le> final_budget res \<or>
        (hc = requested_headroom res \<and>
         rc = requested_response res - min (requested_response res) (max 0 (minimum_response q))) \<or>
        available_before_reserves q < requested_response res + requested_headroom res)"
proof -
  define av where "av = available_before_reserves q"
  define r where "r = max 0 (min (model_max_output q) (response_request q))"
  define h where "h = max 0 (headroom_request q)"
  define f where "f = max 0 (minimum_instruction q)"
  define final where "final = max 0 (av - r - h)"
  define least where "least = min r (max 0 (minimum_response q))"
  define hc where "hc = min (f - final) h"
  define rc where "rc = (if f - final - hc > 0 then min (f - final - hc) (max 0 (r - least)) else 0)"
  have pos: "0 \<le> r" "0 \<le> h" "0 \<le> f" "0 \<le> final" "least \<le> r" "0 \<le> least"
    by (simp_all add: r_def h_def f_def final_def least_def)
  show ?thesis
  proof (cases "final < f")
    case False
    have "res = \<lparr>requested_response = r, effective_response = r, requested_headroom = h,
        effective_headroom = h, minimum_budget = f, adjustment_applied = False,
        adjustment_reason = None, final_budget = final\<rparr>"
      using False unfolding res_def resolve_execution_reserves_def Let_def r_def [symmetric]
        h_def [symmetric] f_def [symmetric] av_def [symmetric] final_def [symmetric] by simp
    then show ?thesis
      unfolding av_def [symmetric] r_def [symmetric] h_def [symmetric] f_def [symmetric]
      by (intro exI [of _ 0]) (use False pos in \<open>simp add: final_def [symmetric] least_def [symmetric]\<close>)
  next
    case True
    have res: "res = \<lparr>requested_response = r, effective_response = r - rc, requested_headroom = h,
        effective_headroom = h - hc, minimum_budget = f, adjustment_applied = (0 < hc \<or> 0 < rc),
        adjustment_reason = reserve_reason hc rc (max 0 (av - (r - rc) - (h - hc)) < f),
        final_budget = max 0 (av - (r - rc) - (h - hc))\<rparr>"
      using True unfolding res_def resolve_execution_reserves_def Let_def r_def [symmetric]
        h_def [symmetric] f_def [symmetric] av_def [symmetric] final_def [symmetric]
        least_def [symmetric] hc_def [symmetric] rc_def [symmetric] by simp
    have hc: "0 \<le> hc" "hc \<le> h" "hc \<le> f - final" "hc = h \<or> hc = f - final"
      using pos True by (auto simp: hc_def)
    have rc: "0 \<le> rc" "rc \<le> r - least" "0 < rc \<longrightarrow> hc = h" "rc = r - least \<or> rc = f - final - hc"
      using hc pos by (auto simp: rc_def)
    have enough: "f \<le> max 0 (av - (r - rc) - (h - hc)) \<or> (hc = h \<and> rc = r - least) \<or> av < r + h"
    proof (cases "av < r + h")
      case False
      then have fin: "final = av - r - h" by (simp add: final_def)
      show ?thesis
      proof (cases "rc = f - final - hc")
        case True
        then have "f = av - (r - rc) - (h - hc)" by (simp add: fin)
        then show ?thesis by simp
      next
        case False
        with rc(4) have "rc = r - least" by blast
        moreover have "hc = h"
        proof (rule ccontr)
          assume "hc \<noteq> h"
          with hc(4) have "hc = f - final" by blast
          then have "rc = 0" by (simp add: rc_def)
          with False \<open>hc = f - final\<close> show False by simp
        qed
        ultimately show ?thesis by blast
      qed
    qed simp
    have reason: "(reserve_reason hc rc b = None) = (\<not> (0 < hc \<or> 0 < rc))" for b
      by (simp add: reserve_reason_def)
    show ?thesis
      unfolding res av_def [symmetric] r_def [symmetric] h_def [symmetric] f_def [symmetric]
      by (intro exI [of _ hc] exI [of _ rc])
        (use hc rc enough reason in \<open>simp add: least_def [symmetric]\<close>)
  qed
qed

text \<open>
  The two reserves are only ever cut, the headroom first and the response never below its
  minimum; the instructions get exactly what the reserves leave, never less than nothing; and if
  the window holds both requested reserves and the minimum instruction budget fits beside the
  minimum response, the instructions get at least that minimum. An adjustment is reported, with
  a reason, exactly when a reserve was cut.
\<close>

theorem execution_reserves_bounds:
  "0 \<le> effective_response (resolve_execution_reserves q) \<and>
   min (requested_response (resolve_execution_reserves q)) (max 0 (minimum_response q))
     \<le> effective_response (resolve_execution_reserves q) \<and>
   effective_response (resolve_execution_reserves q) \<le> requested_response (resolve_execution_reserves q) \<and>
   requested_response (resolve_execution_reserves q) \<le> max 0 (model_max_output q) \<and>
   0 \<le> effective_headroom (resolve_execution_reserves q) \<and>
   effective_headroom (resolve_execution_reserves q) \<le> requested_headroom (resolve_execution_reserves q) \<and>
   final_budget (resolve_execution_reserves q) =
     max 0 (available_before_reserves q - effective_response (resolve_execution_reserves q)
       - effective_headroom (resolve_execution_reserves q)) \<and>
   (effective_response (resolve_execution_reserves q) < requested_response (resolve_execution_reserves q) \<longrightarrow>
     effective_headroom (resolve_execution_reserves q) = 0) \<and>
   adjustment_applied (resolve_execution_reserves q) =
     (effective_headroom (resolve_execution_reserves q) < requested_headroom (resolve_execution_reserves q) \<or>
      effective_response (resolve_execution_reserves q) < requested_response (resolve_execution_reserves q)) \<and>
   (adjustment_reason (resolve_execution_reserves q) = None) =
     (\<not> adjustment_applied (resolve_execution_reserves q)) \<and>
   (requested_response (resolve_execution_reserves q) + requested_headroom (resolve_execution_reserves q)
      \<le> available_before_reserves q \<and>
    minimum_budget (resolve_execution_reserves q) +
      min (requested_response (resolve_execution_reserves q)) (max 0 (minimum_response q))
      \<le> available_before_reserves q \<longrightarrow>
    minimum_budget (resolve_execution_reserves q) \<le> final_budget (resolve_execution_reserves q))"
proof -
  define res where "res = resolve_execution_reserves q"
  define least where "least = min (requested_response res) (max 0 (minimum_response q))"
  obtain hc rc where c: "0 \<le> hc" "hc \<le> requested_headroom res" "0 \<le> rc"
      "rc \<le> requested_response res - least"
      "0 < rc \<longrightarrow> hc = requested_headroom res"
      "effective_headroom res = requested_headroom res - hc"
      "effective_response res = requested_response res - rc"
      "adjustment_applied res = (0 < hc \<or> 0 < rc)"
      "(adjustment_reason res = None) = (\<not> adjustment_applied res)"
      "requested_response res = max 0 (min (model_max_output q) (response_request q))"
      "final_budget res = max 0 (available_before_reserves q - effective_response res - effective_headroom res)"
      "minimum_budget res \<le> final_budget res \<or>
        (hc = requested_headroom res \<and> rc = requested_response res - least) \<or>
        available_before_reserves q < requested_response res + requested_headroom res"
    using reserve_cuts [of q] unfolding res_def [symmetric] least_def [symmetric] by (elim exE conjE)
  have least: "0 \<le> least" by (simp add: least_def c(10))
  have resp: "requested_response res \<le> max 0 (model_max_output q)" by (simp add: c(10))
  have floor: "minimum_budget res \<le> final_budget res"
    if "requested_response res + requested_headroom res \<le> available_before_reserves q"
      "minimum_budget res + least \<le> available_before_reserves q"
    using c(12) that by (elim disjE conjE) (simp_all add: c(6,7,11))
  have "0 \<le> effective_response res" "least \<le> effective_response res"
    "effective_response res \<le> requested_response res" "0 \<le> effective_headroom res"
    "effective_headroom res \<le> requested_headroom res"
    "effective_response res < requested_response res \<longrightarrow> effective_headroom res = 0"
    "adjustment_applied res = (effective_headroom res < requested_headroom res \<or>
       effective_response res < requested_response res)"
    using c(1-8) least by auto
  then show ?thesis
    unfolding res_def [symmetric] least_def [symmetric] using resp floor c(9,11) by blast
qed


text \<open>The default reserves in a window with \<open>n\<close> tokens beside the prefix.\<close>

definition default_reserves :: "int \<Rightarrow> reserve_request" where
  "default_reserves n =
     \<lparr>context_window = n + DEFAULT_EXECUTION_SAFETY_MARGIN_TOKENS, model_max_output = 4096,
      safety_margin = DEFAULT_EXECUTION_SAFETY_MARGIN_TOKENS, prefix_estimate = 0, schema_estimate = 0,
      response_request = DEFAULT_EXECUTION_RESPONSE_RESERVE_TOKENS,
      headroom_request = DEFAULT_EXECUTION_HEADROOM_RESERVE_TOKENS,
      minimum_instruction = DEFAULT_MINIMUM_EXECUTION_INSTRUCTION_BUDGET_TOKENS, image_reserve = 0,
      minimum_response = DEFAULT_MIN_EXECUTION_RESPONSE_RESERVE_TOKENS\<rparr>"

lemmas reserve_defaults =
  default_reserves_def DEFAULT_EXECUTION_SAFETY_MARGIN_TOKENS_def
  DEFAULT_EXECUTION_RESPONSE_RESERVE_TOKENS_def DEFAULT_EXECUTION_HEADROOM_RESERVE_TOKENS_def
  DEFAULT_MINIMUM_EXECUTION_INSTRUCTION_BUDGET_TOKENS_def
  DEFAULT_MIN_EXECUTION_RESPONSE_RESERVE_TOKENS_def

theorem execution_reserves_bounds_witness:
  "requested_response (resolve_execution_reserves (default_reserves 2500)) +
     requested_headroom (resolve_execution_reserves (default_reserves 2500))
     \<le> available_before_reserves (default_reserves 2500) \<and>
   adjustment_applied (resolve_execution_reserves (default_reserves 2500)) \<and>
   minimum_budget (resolve_execution_reserves (default_reserves 2500))
     \<le> final_budget (resolve_execution_reserves (default_reserves 2500))"
proof -
  let ?q = "default_reserves 2500"
  have fits: "requested_response (resolve_execution_reserves ?q) + requested_headroom (resolve_execution_reserves ?q)
      \<le> available_before_reserves ?q" by code_simp
  have floor: "minimum_budget (resolve_execution_reserves ?q) +
      min (requested_response (resolve_execution_reserves ?q)) (max 0 (minimum_response ?q))
      \<le> available_before_reserves ?q" by code_simp
  have adj: "adjustment_applied (resolve_execution_reserves ?q)" by code_simp
  from execution_reserves_bounds [of ?q] fits floor
  have "minimum_budget (resolve_execution_reserves ?q) \<le> final_budget (resolve_execution_reserves ?q)"
    by (elim conjE) (drule mp, blast, assumption)
  with fits adj show ?thesis by blast
qed

text \<open>
  With the default reserves the minimum instruction budget is missed in a whole range of
  windows in which it fits: the shortfall is measured from the budget after it was raised to
  zero, so an overcommitted window is cut by too little. From 1456 to 2047 available tokens, the
  minimum of 1200 fits beside the minimum response of 256, but the response keeps 848 and the
  instructions get less than 1200, with a reason that blames the context.
\<close>

theorem reserve_floor_missed:
  assumes "1456 \<le> n" "n < 2048"
  shows "minimum_budget (resolve_execution_reserves (default_reserves n)) +
      minimum_response (default_reserves n) \<le> available_before_reserves (default_reserves n) \<and>
    effective_response (resolve_execution_reserves (default_reserves n)) = 848 \<and>
    final_budget (resolve_execution_reserves (default_reserves n))
      < minimum_budget (resolve_execution_reserves (default_reserves n)) \<and>
    adjustment_reason (resolve_execution_reserves (default_reserves n)) =
      Some (''reduced execution headroom and response reserves to preserve the minimum instruction budget'' @
        '' (minimum floor still limited by context)'')"
proof -
  have av: "available_before_reserves (default_reserves n) = n"
    using assms by (simp add: available_before_reserves_def reserve_defaults)
  have "max 0 (n - 1024 - 1024) = 0" "max 0 (n - 848 - 0) = n - 848" using assms by simp_all
  then show ?thesis
    using assms av by (simp add: resolve_execution_reserves_def Let_def reserve_defaults reserve_reason_def)
qed

theorem reserve_floor_missed_witness:
  "minimum_budget (resolve_execution_reserves (default_reserves 1500)) +
      minimum_response (default_reserves 1500) \<le> available_before_reserves (default_reserves 1500) \<and>
    final_budget (resolve_execution_reserves (default_reserves 1500))
      < minimum_budget (resolve_execution_reserves (default_reserves 1500))"
  using reserve_floor_missed [of 1500] by simp

end
