(* ===== verification/TokenBudget.thy ===== *)
theory TokenBudget
  imports PyRegex
begin

text \<open>
  Token estimates and trimming, \<open>token_budget.py\<close>. \<open>enc\<close> is the tokenizer of the tiktoken
  package: \<open>None\<close> when it cannot be loaded, otherwise a function that counts the tokens of a
  text or fails. The trimming loop is a partial function, so that not returning would be \<open>None\<close>;
  \<open>int(n * 0.9)\<close> is \<open>9 * n div 10\<close>, as it is for every length below \<open>2 ^ 48\<close>.
\<close>

section \<open>Estimates\<close>

text \<open>\<open>re.findall(r"\w+|[^\w\s]", text)\<close>: maximal words, and single other characters.\<close>

function token_pieces :: "string \<Rightarrow> string list" where
  "token_pieces [] = []"
| "token_pieces (c # cs) =
     (if word_char c
      then (c # takeWhile word_char cs) # token_pieces (dropWhile word_char cs)
      else if py_is_space c then token_pieces cs
      else [c] # token_pieces cs)"
  by pat_completeness auto
termination
  by (relation "measure length") (auto simp: le_imp_less_Suc length_dropWhile_le)

definition fallback_estimate_tokens :: "string \<Rightarrow> int" where
  "fallback_estimate_tokens s =
     (let pieces = token_pieces s
      in if pieces = [] then (if s = [] then 0 else 1)
         else sum_list (map (\<lambda>p. if list_all word_char p then max 1 ((utf8_length p + 3) div 4) else 1)
                pieces))"

definition estimate_tokens :: "(string \<Rightarrow> int option) option \<Rightarrow> string \<Rightarrow> int" where
  "estimate_tokens enc s =
     (if s = [] then 0
      else case enc of
        None \<Rightarrow> fallback_estimate_tokens s
      | Some count \<Rightarrow> (case count s of Some n \<Rightarrow> n | None \<Rightarrow> fallback_estimate_tokens s))"

section \<open>Trimming\<close>

definition trim_marker :: string where
  "trim_marker = [char_of (10 :: nat), char_of (10 :: nat)] @ ''...[TRUNCATED FOR TOKEN BUDGET]...'' @
     [char_of (10 :: nat), char_of (10 :: nat)]"

definition trim_build :: "string \<Rightarrow> nat \<Rightarrow> nat \<Rightarrow> string" where
  "trim_build s head_chars tail_chars =
     (if head_chars + tail_chars \<ge> length s then s
      else take head_chars s @ trim_marker @ take_last tail_chars s)"

definition shrink_chars :: "nat \<Rightarrow> nat" where
  "shrink_chars n = max 32 (9 * n div 10)"

partial_function (option) trim_loop ::
    "(string \<Rightarrow> int) \<Rightarrow> string \<Rightarrow> int \<Rightarrow> nat \<Rightarrow> nat \<Rightarrow> string option" where
  "trim_loop est s max_tokens head_chars tail_chars =
     (if est (trim_build s head_chars tail_chars) > max_tokens \<and> (head_chars > 32 \<or> tail_chars > 32)
      then trim_loop est s max_tokens (shrink_chars head_chars) (shrink_chars tail_chars)
      else Some (trim_build s head_chars tail_chars))"

definition trim_text_to_budget ::
    "(string \<Rightarrow> int option) option \<Rightarrow> string \<Rightarrow> int \<Rightarrow> (string \<times> bool) option" where
  "trim_text_to_budget enc s max_tokens =
     (if max_tokens \<le> 0 then Some ([], s \<noteq> [])
      else
        let current = estimate_tokens enc s in
        if current \<le> max_tokens then Some (s, False)
        else
          let marker_tokens = max 1 (estimate_tokens enc trim_marker) in
          if max_tokens \<le> marker_tokens + 2 then Some (trim_marker, True)
          else
            let avg = max 1 (int (length s) div max 1 current);
                available = max_tokens - marker_tokens;
                head_tokens = available div 2;
                tail_tokens = available - head_tokens;
                head_chars = nat (max 32 (head_tokens * avg));
                tail_chars = nat (max 32 (tail_tokens * avg))
            in map_option (\<lambda>t. (t, True)) (trim_loop (estimate_tokens enc) s max_tokens head_chars tail_chars))"

definition compute_input_budget :: "int option \<Rightarrow> int option \<Rightarrow> int \<Rightarrow> int" where
  "compute_input_budget context_window max_output safety_margin =
     (let context = (case context_window of None \<Rightarrow> 8192 | Some c \<Rightarrow> c);
          output0 = (case max_output of None \<Rightarrow> 2048 | Some m \<Rightarrow> m);
          output = (if output0 \<ge> context \<and> context > 0
                    then min output0 (max 4096 (context div 8)) else output0)
      in max 512 (context - output - max 0 safety_margin))"

section \<open>Termination\<close>

lemma shrink_chars_ge [simp]: "32 \<le> shrink_chars n"
  by (simp add: shrink_chars_def)

lemma shrink_chars_less: "32 < n \<Longrightarrow> shrink_chars n < n"
  by (simp add: shrink_chars_def)

text \<open>Each pass lowers how far the two lengths are above 32, so the loop ends.\<close>

lemma trim_loop_returns:
  "\<exists>h t. trim_loop est s mx a b = Some (trim_build s h t) \<and>
     (est (trim_build s h t) \<le> mx \<or> (h \<le> 32 \<and> t \<le> 32)) \<and> h \<le> max 32 a \<and> t \<le> max 32 b"
proof (induction "(a - 32) + (b - 32)" arbitrary: a b rule: less_induct)
  case less
  show ?case
  proof (cases "est (trim_build s a b) > mx \<and> (a > 32 \<or> b > 32)")
    case False
    then have "trim_loop est s mx a b = Some (trim_build s a b)" by (subst trim_loop.simps) auto
    with False show ?thesis by (intro exI [of _ a] exI [of _ b]) auto
  next
    case True
    have dec: "shrink_chars a - 32 + (shrink_chars b - 32) < a - 32 + (b - 32)"
      using True by (auto simp: shrink_chars_def)
    have le: "shrink_chars a \<le> max 32 a" "shrink_chars b \<le> max 32 b"
      by (auto simp: shrink_chars_def)
    have eq: "trim_loop est s mx a b = trim_loop est s mx (shrink_chars a) (shrink_chars b)"
      using True by (subst trim_loop.simps) simp
    obtain h t where "trim_loop est s mx (shrink_chars a) (shrink_chars b) = Some (trim_build s h t)"
      "est (trim_build s h t) \<le> mx \<or> (h \<le> 32 \<and> t \<le> 32)"
      "h \<le> max 32 (shrink_chars a)" "t \<le> max 32 (shrink_chars b)"
      using less [OF dec] by blast
    with eq le show ?thesis by (intro exI [of _ h] exI [of _ t]) auto
  qed
qed

text \<open>
  Trimming returns for every text, budget and tokenizer. The text comes back unchanged and
  unflagged exactly when the budget is positive and its estimate fits, or when it is empty and
  the budget is not positive; a flagged text is empty, the bare marker, or a head and a tail of
  the original around the marker (the whole original when they would meet), and in that last
  case its estimate fits unless head and tail are down to 32 characters each.
\<close>

theorem trim_text_returns:
  "\<exists>t flag. trim_text_to_budget enc s mx = Some (t, flag) \<and>
     flag = (if mx \<le> 0 then s \<noteq> [] else estimate_tokens enc s > mx) \<and>
     (if \<not> flag then t = s
      else t = [] \<and> mx \<le> 0 \<or> t = trim_marker \<or>
        (\<exists>h k. t = trim_build s h k \<and> (estimate_tokens enc t \<le> mx \<or> (h \<le> 32 \<and> k \<le> 32))))"
proof -
  consider (none) "mx \<le> 0" | (fits) "mx > 0" "estimate_tokens enc s \<le> mx"
    | (tiny) "mx > 0" "estimate_tokens enc s > mx" "mx \<le> max 1 (estimate_tokens enc trim_marker) + 2"
    | (trim) "mx > 0" "estimate_tokens enc s > mx" "mx > max 1 (estimate_tokens enc trim_marker) + 2"
    by linarith
  then show ?thesis
  proof cases
    case none
    then show ?thesis by (intro exI [of _ "[]"] exI [of _ "s \<noteq> []"]) (simp add: trim_text_to_budget_def)
  next
    case fits
    then show ?thesis by (intro exI [of _ s] exI [of _ False]) (simp add: trim_text_to_budget_def)
  next
    case tiny
    then show ?thesis
      by (intro exI [of _ trim_marker] exI [of _ True]) (simp add: trim_text_to_budget_def Let_def)
  next
    case trim
    then obtain a b where eq: "trim_text_to_budget enc s mx =
        map_option (\<lambda>t. (t, True)) (trim_loop (estimate_tokens enc) s mx a b)"
      by (simp add: trim_text_to_budget_def Let_def)
    obtain h k where "trim_loop (estimate_tokens enc) s mx a b = Some (trim_build s h k)"
      "estimate_tokens enc (trim_build s h k) \<le> mx \<or> (h \<le> 32 \<and> k \<le> 32)"
      using trim_loop_returns [of "estimate_tokens enc" s mx a b] by blast
    with eq trim show ?thesis
      by (intro exI [of _ "trim_build s h k"] exI [of _ True]) auto
  qed
qed

end
