(* ===== verification/TaskReadiness.thy ===== *)
theory TaskReadiness
  imports TaskScope
begin

text \<open>
  What kind of work a planned task describes, \<open>task_readiness.py\<close>: the word tables, the clause
  heuristics on its title, description and acceptance criteria, and the lifecycle
  classification that decides whether the task needs a runnable file scope.
\<close>

section \<open>Word tables\<close>

definition MUTATING_TASK_ACTIONS :: "string list" where
  "MUTATING_TASK_ACTIONS =
     [''add'', ''build'', ''change'', ''configure'', ''create'', ''document'', ''edit'',
      ''enable'', ''fix'', ''implement'', ''improve'', ''make'', ''migrate'', ''modify'',
      ''patch'', ''refactor'', ''remove'', ''rename'', ''repair'', ''support'', ''test'',
      ''touch'', ''update'', ''upgrade'', ''wire'', ''write'']"

definition WEAK_MUTATING_TASK_ACTIONS :: "string list" where
  "WEAK_MUTATING_TASK_ACTIONS =
     [''change'', ''test'']"

definition NON_MUTATING_TASK_ACTIONS :: "string list" where
  "NON_MUTATING_TASK_ACTIONS =
     [''analyse'', ''analyze'', ''assess'', ''audit'', ''compare'', ''diagnose'', ''examine'',
      ''explain'', ''explore'', ''find'', ''identify'', ''inspect'', ''investigate'', ''locate'',
      ''map'', ''report'', ''review'', ''summarise'', ''summarize'', ''survey'', ''triage'',
      ''understand'']"

definition NON_MUTATING_TASK_PHRASES :: "string list" where
  "NON_MUTATING_TASK_PHRASES =
     [''analysis only'', ''explain the issue'', ''investigate and report'', ''no code changes'',
      ''no file changes'', ''read current'', ''read-only'', ''readonly'', ''report findings'',
      ''report only'', ''review and report'', ''summarize findings'', ''summarise findings'']"

definition REPORT_ONLY_DOCUMENTATION_PHRASES :: "string list" where
  "REPORT_ONLY_DOCUMENTATION_PHRASES =
     [''document findings'', ''document the findings'', ''findings documented'',
      ''findings are documented'', ''root cause documented'', ''root cause is documented'',
      ''summary documented'', ''summary is documented'']"

definition REPORT_ONLY_DOCUMENTATION_MUTATING_TOKENS :: "string list" where
  "REPORT_ONLY_DOCUMENTATION_MUTATING_TOKENS =
     [''document'']"

definition NOUN_PRONE_MUTATING_TASK_ACTIONS :: "string list" where
  "NOUN_PRONE_MUTATING_TASK_ACTIONS =
     [''build'', ''change'', ''make'', ''patch'', ''repair'', ''support'', ''test'']"

definition TASK_ACTION_CLAUSE_CONNECTORS :: "string list" where
  "TASK_ACTION_CLAUSE_CONNECTORS =
     [''and'', ''must'', ''need'', ''needs'', ''require'', ''requires'', ''should'', ''then'',
      ''to'', ''will'']"

definition TASK_ACTION_TOKEN_CANONICAL_MAP :: "(string \<times> string) list" where
  "TASK_ACTION_TOKEN_CANONICAL_MAP =
     [(''added'', ''add''), (''adding'', ''add''), (''adds'', ''add''),
      (''analysed'', ''analyse''), (''analyses'', ''analyse''), (''analysing'', ''analyse''),
      (''analyzed'', ''analyze''), (''analyzes'', ''analyze''), (''analyzing'', ''analyze''),
      (''assessed'', ''assess''), (''assesses'', ''assess''), (''assessing'', ''assess''),
      (''audited'', ''audit''), (''auditing'', ''audit''), (''audits'', ''audit''),
      (''changed'', ''change''), (''changes'', ''change''), (''changing'', ''change''),
      (''built'', ''build''), (''building'', ''build''), (''builds'', ''build''),
      (''compared'', ''compare''), (''compares'', ''compare''), (''comparing'', ''compare''),
      (''configured'', ''configure''), (''configures'', ''configure''),
      (''configuring'', ''configure''), (''created'', ''create''), (''creates'', ''create''),
      (''creating'', ''create''), (''documented'', ''document''),
      (''documenting'', ''document''), (''documents'', ''document''),
      (''diagnosed'', ''diagnose''), (''diagnoses'', ''diagnose''),
      (''diagnosing'', ''diagnose''), (''edited'', ''edit''), (''editing'', ''edit''),
      (''edits'', ''edit''), (''enabled'', ''enable''), (''enables'', ''enable''),
      (''enabling'', ''enable''), (''explained'', ''explain''), (''explaining'', ''explain''),
      (''explains'', ''explain''), (''examined'', ''examine''), (''examines'', ''examine''),
      (''examining'', ''examine''), (''explored'', ''explore''), (''explores'', ''explore''),
      (''exploring'', ''explore''), (''found'', ''find''), (''finding'', ''find''),
      (''finds'', ''find''), (''fixed'', ''fix''), (''fixes'', ''fix''), (''fixing'', ''fix''),
      (''identified'', ''identify''), (''identifies'', ''identify''),
      (''identifying'', ''identify''), (''improved'', ''improve''), (''improves'', ''improve''),
      (''improving'', ''improve''), (''implemented'', ''implement''),
      (''implementing'', ''implement''), (''implements'', ''implement''),
      (''inspected'', ''inspect''), (''inspecting'', ''inspect''), (''inspects'', ''inspect''),
      (''investigated'', ''investigate''), (''investigates'', ''investigate''),
      (''investigating'', ''investigate''), (''located'', ''locate''), (''locates'', ''locate''),
      (''locating'', ''locate''), (''made'', ''make''), (''makes'', ''make''),
      (''making'', ''make''), (''mapped'', ''map''), (''mapping'', ''map''), (''maps'', ''map''),
      (''migrated'', ''migrate''), (''migrates'', ''migrate''), (''migrating'', ''migrate''),
      (''modified'', ''modify''), (''modifies'', ''modify''), (''modifying'', ''modify''),
      (''patched'', ''patch''), (''patches'', ''patch''), (''patching'', ''patch''),
      (''refactored'', ''refactor''), (''refactoring'', ''refactor''),
      (''refactors'', ''refactor''), (''removed'', ''remove''), (''removes'', ''remove''),
      (''removing'', ''remove''), (''renamed'', ''rename''), (''renames'', ''rename''),
      (''renaming'', ''rename''), (''repaired'', ''repair''), (''repairing'', ''repair''),
      (''repairs'', ''repair''), (''reported'', ''report''), (''reporting'', ''report''),
      (''reports'', ''report''), (''read'', ''read''), (''reading'', ''read''),
      (''reads'', ''read''), (''reviewed'', ''review''), (''reviewing'', ''review''),
      (''reviews'', ''review''), (''surveyed'', ''survey''), (''surveying'', ''survey''),
      (''surveys'', ''survey''), (''summarised'', ''summarise''),
      (''summarises'', ''summarise''), (''summarising'', ''summarise''),
      (''summarized'', ''summarize''), (''summarizes'', ''summarize''),
      (''summarizing'', ''summarize''), (''supported'', ''support''),
      (''supporting'', ''support''), (''supports'', ''support''), (''tested'', ''test''),
      (''testing'', ''test''), (''tests'', ''test''), (''touched'', ''touch''),
      (''touches'', ''touch''), (''touching'', ''touch''), (''triaged'', ''triage''),
      (''triages'', ''triage''), (''triaging'', ''triage''), (''understood'', ''understand''),
      (''understanding'', ''understand''), (''understands'', ''understand''),
      (''updated'', ''update''), (''updates'', ''update''), (''updating'', ''update''),
      (''upgraded'', ''upgrade''), (''upgrades'', ''upgrade''), (''upgrading'', ''upgrade''),
      (''wired'', ''wire''), (''wires'', ''wire''), (''wiring'', ''wire''),
      (''writes'', ''write''), (''writing'', ''write''), (''written'', ''write''),
      (''wrote'', ''write'')]"

section \<open>Text of a task\<close>

definition normalized_text_list :: "pyval \<Rightarrow> string list" where
  "normalized_text_list v =
     (case v of PList items \<Rightarrow> filter (\<lambda>t. t \<noteq> []) (map (\<lambda>i. py_strip (py_str i)) items) | _ \<Rightarrow> [])"

definition newline :: string where "newline = [char_of (10 :: nat)]"

definition task_text_blob :: "string \<Rightarrow> string \<Rightarrow> string list \<Rightarrow> string" where
  "task_text_blob title description acceptance =
     py_strip (py_join newline (title # description # acceptance))"

definition action_words :: "string \<Rightarrow> (string \<times> string) list" where
  "action_words s =
     rx_tokens is_ascii_lower (\<lambda>c. is_ascii_lower c \<or> is_digit c \<or> c = CHR ''_'' \<or> c = CHR ''-'') []
       (py_casefold s)"

definition normalize_task_action_token :: "string \<Rightarrow> string" where
  "normalize_task_action_token token =
     (case map_of TASK_ACTION_TOKEN_CANONICAL_MAP token of None \<Rightarrow> token | Some t \<Rightarrow> t)"

definition first_task_action_word :: "string \<Rightarrow> string" where
  "first_task_action_word s =
     (case find (\<lambda>t. t \<notin> {''a'', ''an'', ''the'', ''to''}) (map snd (action_words s)) of
        None \<Rightarrow> [] | Some t \<Rightarrow> normalize_task_action_token t)"

definition normalized_task_action_tokens :: "string \<Rightarrow> string list" where
  "normalized_task_action_tokens s = map (\<lambda>gt. normalize_task_action_token (snd gt)) (action_words s)"

definition contains_mutating_task_signal :: "string \<Rightarrow> bool" where
  "contains_mutating_task_signal s =
     list_ex (\<lambda>t. t \<in> set MUTATING_TASK_ACTIONS) (normalized_task_action_tokens s)"

text \<open>\<open>first\<close> is True for the match with index 0.\<close>

fun clause_loop :: "string list \<Rightarrow> bool \<Rightarrow> string \<Rightarrow> (string \<times> string) list \<Rightarrow> bool" where
  "clause_loop allowed first previous [] = False"
| "clause_loop allowed first previous ((gap, word) # rest) =
     (let token = normalize_task_action_token word;
          starts_clause = (first \<or>
            list_ex (\<lambda>c. c \<in> set gap) [char_of (10 :: nat), CHR ''.'', CHR '';'', CHR '':''] \<or>
            (CHR '','' \<in> set gap \<and> token \<notin> set NOUN_PRONE_MUTATING_TASK_ACTIONS) \<or>
            previous \<in> set TASK_ACTION_CLAUSE_CONNECTORS)
      in if starts_clause \<and> token \<in> set MUTATING_TASK_ACTIONS \<and>
            token \<notin> set WEAK_MUTATING_TASK_ACTIONS \<and> token \<notin> set allowed
         then True
         else clause_loop allowed False token rest)"

definition has_mutating_task_action_clause :: "string \<Rightarrow> string list \<Rightarrow> bool" where
  "has_mutating_task_action_clause s allowed = clause_loop allowed True [] (action_words s)"

definition is_clearly_non_mutating_task :: "string \<Rightarrow> string \<Rightarrow> string list \<Rightarrow> bool" where
  "is_clearly_non_mutating_task title description acceptance =
     (let raw_text = task_text_blob title description acceptance;
          t = py_casefold raw_text;
          tokens = normalized_task_action_tokens t;
          first_word = first_task_action_word title;
          explicit_phrase = list_ex (\<lambda>p. py_contains p t) NON_MUTATING_TASK_PHRASES;
          report_phrase = list_ex (\<lambda>p. py_contains p t) REPORT_ONLY_DOCUMENTATION_PHRASES;
          allowed = (if report_phrase then REPORT_ONLY_DOCUMENTATION_MUTATING_TOKENS else []);
          clause = has_mutating_task_action_clause raw_text allowed
      in if t = [] then False
         else if first_word \<in> set NON_MUTATING_TASK_ACTIONS \<and> report_phrase \<and> \<not> clause then True
         else if explicit_phrase \<and> \<not> clause then True
         else if first_word = ''read'' \<and> \<not> clause then True
         else if first_word \<in> set NON_MUTATING_TASK_ACTIONS \<and> \<not> clause then True
         else if list_ex (\<lambda>x. x \<in> set MUTATING_TASK_ACTIONS) tokens then False
         else if list_ex (\<lambda>x. x \<in> set NON_MUTATING_TASK_ACTIONS) tokens then \<not> clause
         else if first_word \<in> set NON_MUTATING_TASK_ACTIONS then True
         else explicit_phrase)"

section \<open>Lifecycle\<close>

datatype task_kind = AnalysisOnly | Implementation | TestOnly | VerificationOnly | DocumentationOnly | UnknownKind

definition task_kind_text :: "task_kind \<Rightarrow> string" where
  "task_kind_text k = (case k of AnalysisOnly \<Rightarrow> ''analysis_only'' | Implementation \<Rightarrow> ''implementation''
     | TestOnly \<Rightarrow> ''test_only'' | VerificationOnly \<Rightarrow> ''verification_only''
     | DocumentationOnly \<Rightarrow> ''documentation_only'' | UnknownKind \<Rightarrow> ''unknown'')"

datatype zero_diff = AnalysisOk | RequiresVerification | Suspicious

record lifecycle =
  lc_kind :: task_kind
  lc_reason :: string
  lc_mutating :: bool
  lc_requires_scope :: bool
  lc_zero_diff :: zero_diff

definition lc_read_only :: "lifecycle \<Rightarrow> bool" where
  "lc_read_only c = (\<not> lc_mutating c)"

fun dedupe_casefold :: "string list \<Rightarrow> string list \<Rightarrow> string list" where
  "dedupe_casefold seen [] = []"
| "dedupe_casefold seen (v # vs) =
     (if py_casefold v \<in> set seen then dedupe_casefold seen vs
      else v # dedupe_casefold (py_casefold v # seen) vs)"

definition coerce_explicit_task_kind :: "pyval \<Rightarrow> task_kind option" where
  "coerce_explicit_task_kind v =
     (let raw = py_replace_char (CHR ''-'') (CHR ''_'') (py_casefold (py_strip (str_or v [])))
      in map_of
        [(''analysis'', AnalysisOnly), (''analysis_only'', AnalysisOnly), (''discovery'', AnalysisOnly),
         (''read_only'', AnalysisOnly), (''readonly'', AnalysisOnly), (''report_only'', AnalysisOnly),
         (''implementation'', Implementation), (''mutation'', Implementation), (''mutating'', Implementation),
         (''test'', TestOnly), (''test_only'', TestOnly),
         (''verification'', VerificationOnly), (''verification_only'', VerificationOnly),
         (''docs'', DocumentationOnly), (''documentation'', DocumentationOnly),
         (''documentation_only'', DocumentationOnly), (''unknown'', UnknownKind)] raw)"

definition classification_for_kind :: "task_kind \<Rightarrow> string \<Rightarrow> lifecycle" where
  "classification_for_kind kind reason =
     \<lparr>lc_kind = kind, lc_reason = reason,
      lc_mutating = (kind \<noteq> AnalysisOnly \<and> kind \<noteq> VerificationOnly),
      lc_requires_scope = (kind \<noteq> AnalysisOnly \<and> kind \<noteq> VerificationOnly),
      lc_zero_diff = (case kind of AnalysisOnly \<Rightarrow> AnalysisOk | VerificationOnly \<Rightarrow> RequiresVerification
                      | Implementation \<Rightarrow> RequiresVerification | _ \<Rightarrow> Suspicious)\<rparr>"

definition verification_only_re :: rx where
  "verification_only_re =
     r_seq [RMany py_is_space 0 None, r_opt (r_seq [r_lit ''run'', r_spaces]),
       r_alt (map r_lit [''verify'', ''verification'', ''validate'', ''validation'', ''check'', ''tests'', ''test'']),
       RWordEdge]"

text \<open>\<open>explicit\<close> and \<open>explicit_kind\<close> are the two optional overrides.\<close>

definition classify_task_lifecycle ::
    "string \<Rightarrow> string \<Rightarrow> string list \<Rightarrow> string list \<Rightarrow> string list \<Rightarrow> bool \<Rightarrow> pyval \<Rightarrow> lifecycle" where
  "classify_task_lifecycle title description acceptance0 estimated_files write_scope explicit explicit_kind =
     (case (explicit, coerce_explicit_task_kind explicit_kind) of
        (True, _) \<Rightarrow> classification_for_kind AnalysisOnly ''explicit_analysis_only''
      | (False, Some kind) \<Rightarrow>
          classification_for_kind kind (''explicit_task_kind:'' @ task_kind_text kind)
      | (False, None) \<Rightarrow>
          let acceptance = normalized_text_list (PList (map PStr acceptance0));
              t = task_text_blob title description acceptance;
              scoped = dedupe_casefold [] (estimated_files @ write_scope)
          in if is_clearly_non_mutating_task title description acceptance
             then classification_for_kind AnalysisOnly ''non_mutating_intent''
             else if rx_ends verification_only_re (None, t) \<noteq> [] \<and> \<not> has_mutating_task_action_clause t []
             then classification_for_kind VerificationOnly ''verification_intent''
             else if scoped \<noteq> [] \<and> list_all is_test_path scoped
             then classification_for_kind TestOnly ''test_scope''
             else if scoped \<noteq> [] \<and> list_all is_docs_path scoped
             then classification_for_kind DocumentationOnly ''documentation_scope''
             else if scoped \<noteq> [] then classification_for_kind Implementation ''runnable_file_scope''
             else if contains_mutating_task_signal t
             then classification_for_kind Implementation ''mutating_intent''
             else classification_for_kind UnknownKind ''ambiguous_intent'')"

definition has_runnable_local_file_scope :: "string list \<Rightarrow> string list \<Rightarrow> bool" where
  "has_runnable_local_file_scope estimated_files write_scope =
     (estimated_files \<noteq> [] \<or> write_scope \<noteq> [])"

definition canonical_task_status :: "string \<Rightarrow> string" where
  "canonical_task_status status =
     (let v = py_lower (py_strip status)
      in if v = ''todo'' then ''planned'' else if v = [] then ''planned'' else v)"

definition parse_only_ids :: "string option \<Rightarrow> string list option" where
  "parse_only_ids only =
     (case only of None \<Rightarrow> None
      | Some s \<Rightarrow>
          (let ids = filter (\<lambda>p. p \<noteq> []) (map py_strip (py_split (CHR '','') s))
           in if ids = [] then None else Some ids))"

definition status_is_execution_candidate :: "string \<Rightarrow> bool \<Rightarrow> bool \<Rightarrow> bool \<Rightarrow> bool" where
  "status_is_execution_candidate status retry_failed retry_changes_requested retry_merge_conflicts =
     (if status \<in> {''planned'', ''ready_for_merge''} then True
      else if status \<in> {''failed'', ''verify_failed'', ''candidate_rejected''} \<and> retry_failed then True
      else if status = ''changes_requested'' \<and> retry_changes_requested then True
      else status = ''merge_conflict'' \<and> retry_merge_conflicts)"

section \<open>Facts\<close>

text \<open>Whatever the words of a task, only analysis and verification go without a file scope.\<close>

lemma classify_requires_scope:
  "lc_requires_scope (classify_task_lifecycle title description acc est ws ex kind) =
     lc_mutating (classify_task_lifecycle title description acc est ws ex kind)"
  by (simp add: classify_task_lifecycle_def classification_for_kind_def Let_def split: option.splits bool.splits)

end
