(* ===== verification/TaskDependencies.thy ===== *)
theory TaskDependencies
  imports TaskReadiness
begin

text \<open>
  Dependencies inferred from the wording of a plan, \<open>task_dependencies.py\<close>: a task without
  dependencies whose text has an ordering cue depends on the nearest earlier task that the cue
  or shared words point to. Tasks are dictionaries, in plan order.
\<close>

definition ORDERING_SIGNAL_RE :: rx where
  "ORDERING_SIGNAL_RE =
     r_seq [RWordEdge,
       r_alt [r_lit ''after'', r_seq [r_lit ''based'', r_spaces, r_lit ''on''],
         r_seq [r_lit ''depend'', r_opt (r_alt [r_lit ''s'', r_lit ''ed'', r_lit ''ing'']), r_spaces, r_lit ''on''],
         r_seq [r_lit ''follow'', r_opt (RClass (\<lambda>c. c = CHR ''-'' \<or> c = CHR '' '')), r_lit ''up''],
         r_lit ''following'',
         r_seq [r_lit ''next'', r_spaces,
           r_alt (map r_lit [''task'', ''step'', ''change'', ''item'', ''phase'', ''work''])],
         r_lit ''once'', r_lit ''previous'', r_lit ''prior'', r_lit ''subsequent'', r_lit ''then''],
       RWordEdge]"

definition EXPLICIT_PREVIOUS_RE :: rx where
  "EXPLICIT_PREVIOUS_RE =
     r_seq [RWordEdge,
       r_alt [r_seq [r_lit ''after'', r_spaces, r_lit ''that''],
         r_seq [r_lit ''after'', r_spaces, r_lit ''the'', r_spaces, r_lit ''previous''],
         r_seq [r_lit ''after'', r_spaces, r_lit ''the'', r_spaces, r_lit ''prior''],
         r_seq [r_lit ''follow'', r_opt (RClass (\<lambda>c. c = CHR ''-'' \<or> c = CHR '' '')), r_lit ''up''],
         r_seq [r_lit ''following'', r_spaces, r_lit ''that''],
         r_seq [r_lit ''next'', r_spaces,
           r_alt (map r_lit [''task'', ''step'', ''change'', ''item'', ''phase'', ''work''])],
         r_seq [r_lit ''previous'', r_spaces, r_lit ''task''],
         r_seq [r_lit ''prior'', r_spaces, r_lit ''task''],
         r_lit ''then''],
       RWordEdge]"

definition NON_DEPENDENCY_STATUSES :: "string list" where
  "NON_DEPENDENCY_STATUSES = [''cancelled'', ''canceled'', ''done'', ''skipped'', ''superseded'']"

definition TOKEN_STOPWORDS :: "string list" where
  "TOKEN_STOPWORDS =
     [''add'', ''after'', ''and'', ''app'', ''change'', ''create'', ''docs'', ''file'', ''fix'',
      ''for'', ''from'', ''implementation'', ''make'', ''modify'', ''new'', ''src'', ''task'',
      ''test'', ''tests'', ''the'', ''then'', ''this'', ''update'', ''with'']"

record inferred_dependency =
  inf_task_id :: string
  inf_depends_on :: string
  inf_reason :: string

definition task_ident :: "(pykey \<times> pyval) list \<Rightarrow> string" where
  "task_ident task = py_strip (str_or (dget task ''id'') [])"

definition listed_dependencies :: "(pykey \<times> pyval) list \<Rightarrow> string list" where
  "listed_dependencies task =
     (if py_truthy (dget task ''dependencies'')
      then (case dget task ''dependencies'' of
              PList deps \<Rightarrow> filter (\<lambda>d. d \<noteq> []) (map (\<lambda>d. py_strip (py_str d)) deps)
            | _ \<Rightarrow> [])
      else [])"

definition task_is_read_only :: "(pykey \<times> pyval) list \<Rightarrow> bool" where
  "task_is_read_only task =
     is_clearly_non_mutating_task (py_strip (str_or (dget task ''title'') []))
       (py_strip (str_or (dget task ''description'') []))
       (normalized_text_list (dget task ''acceptance_criteria''))"

definition dependency_text :: "(pykey \<times> pyval) list \<Rightarrow> string" where
  "dependency_text task =
     py_join newline
       ([str_or (dget task ''title'') [], str_or (dget task ''description'') []] @
        normalized_text_list (dget task ''acceptance_criteria'') @
        normalized_text_list (dget task ''estimated_files'') @
        normalized_text_list (dget task ''write_scope''))"

text \<open>\<open>re.sub(r"[./\\_-]+", " ", s)\<close>.\<close>

fun squeeze_separators :: "bool \<Rightarrow> string \<Rightarrow> string" where
  "squeeze_separators inside [] = []"
| "squeeze_separators inside (c # cs) =
     (if c \<in> set ''./_-'' \<or> c = CHR 0x5C
      then (if inside then squeeze_separators True cs else CHR '' '' # squeeze_separators True cs)
      else c # squeeze_separators False cs)"

definition is_token_char :: "char \<Rightarrow> bool" where
  "is_token_char c = (is_ascii_lower (lower_char c) \<or> is_digit c)"

definition dependency_tokens :: "string \<Rightarrow> string list" where
  "dependency_tokens s =
     filter (\<lambda>t. length t > 2 \<and> t \<notin> set TOKEN_STOPWORDS)
       (map (\<lambda>gt. py_casefold (snd gt))
         (rx_tokens is_token_char (\<lambda>c. is_token_char c \<or> c = CHR ''_'' \<or> c = CHR ''-'') []
           (squeeze_separators False (py_casefold s))))"

definition status_of :: "(pykey \<times> pyval) list \<Rightarrow> string" where
  "status_of task = canonical_task_status (str_or (dget task ''status'') [])"

text \<open>Whether the cue makes an earlier task the predecessor.\<close>

definition is_predecessor :: "string \<Rightarrow> (pykey \<times> pyval) list \<Rightarrow> bool" where
  "is_predecessor t previous =
     (task_ident previous \<noteq> [] \<and> status_of previous \<notin> set NON_DEPENDENCY_STATUSES \<and>
      (rx_search EXPLICIT_PREVIOUS_RE t \<or>
       (\<not> task_is_read_only previous \<and>
        list_ex (\<lambda>w. w \<in> set (dependency_tokens (dependency_text previous))) (dependency_tokens t))))"

definition infer_ordered_predecessor_dependency ::
    "(pykey \<times> pyval) list list \<Rightarrow> (pykey \<times> pyval) list \<Rightarrow> inferred_dependency option" where
  "infer_ordered_predecessor_dependency tasks task =
     (let t = dependency_text task in
      if task_ident task = [] then None
      else if task_is_read_only task then None
      else if listed_dependencies task \<noteq> [] then None
      else if t = [] \<or> \<not> rx_search ORDERING_SIGNAL_RE t then None
      else map_option
        (\<lambda>previous. \<lparr>inf_task_id = task_ident task, inf_depends_on = task_ident previous,
                     inf_reason = ''ordered predecessor cue''\<rparr>)
        (find (is_predecessor t) (rev (takeWhile (\<lambda>c. task_ident c \<noteq> task_ident task) tasks))))"

text \<open>One pass over the plan; the tasks before the current one already have their new lists.\<close>

fun infer_pass ::
    "string list \<Rightarrow> (pykey \<times> pyval) list list \<Rightarrow> (pykey \<times> pyval) list list \<Rightarrow>
     (pykey \<times> pyval) list list \<times> inferred_dependency list" where
  "infer_pass touched before [] = (before, [])"
| "infer_pass touched before (task # rest) =
     (case (if task_ident task \<in> set touched \<and> status_of task = ''planned''
            then infer_ordered_predecessor_dependency (before @ task # rest) task else None) of
        None \<Rightarrow> infer_pass touched (before @ [task]) rest
      | Some d \<Rightarrow>
          if inf_depends_on d \<in> set (listed_dependencies task)
          then infer_pass touched (before @ [task]) rest
          else
            let task' = dput ''dependencies''
                  (PList (map PStr (listed_dependencies task @ [inf_depends_on d]))) task;
                (tasks', ds) = infer_pass touched (before @ [task']) rest
            in (tasks', d # ds))"

definition apply_ordered_dependency_inference ::
    "(pykey \<times> pyval) list list \<Rightarrow> string list \<Rightarrow>
     (pykey \<times> pyval) list list \<times> bool \<times> inferred_dependency list" where
  "apply_ordered_dependency_inference tasks touched =
     (let (tasks', ds) = infer_pass touched [] tasks in (tasks', ds \<noteq> [], ds))"

section \<open>Inferred dependencies point backwards\<close>

lemma inferred_earlier:
  assumes "infer_ordered_predecessor_dependency tasks task = Some d"
  shows "inf_task_id d = task_ident task \<and> inf_depends_on d \<noteq> task_ident task \<and>
    (\<exists>p\<in>set (takeWhile (\<lambda>c. task_ident c \<noteq> task_ident task) tasks). task_ident p = inf_depends_on d)"
proof -
  obtain p where p: "find (is_predecessor (dependency_text task))
      (rev (takeWhile (\<lambda>c. task_ident c \<noteq> task_ident task) tasks)) = Some p"
    and d: "inf_task_id d = task_ident task" "inf_depends_on d = task_ident p"
    using assms by (auto simp: infer_ordered_predecessor_dependency_def Let_def split: if_splits)
  have "p \<in> set (takeWhile (\<lambda>c. task_ident c \<noteq> task_ident task) tasks)"
    using p by (auto simp: find_Some_iff) (metis nth_mem set_rev length_rev)
  with d show ?thesis by (auto dest: set_takeWhileD)
qed

end
