(* ===== verification/SwarmScheduler.thy ===== *)
theory SwarmScheduler
  imports TaskDependencies
begin

text \<open>
  The swarm scheduler, \<open>swarm_scheduler.py\<close>: which tasks of a plan may run now, and how they are
  packed into batches whose members run in parallel on separate worktrees. Tasks are
  dictionaries; a candidate is the scheduler's typed view of one. A frozen set is the list of its
  elements, without repetition. \<open>skipped\<close> is the dictionary from task ids to reasons.
\<close>

definition SUCCESSFUL_TERMINAL_STATUSES :: "string list" where
  "SUCCESSFUL_TERMINAL_STATUSES = [''done'', ''already_satisfied'', ''completed_unverified'']"

definition SUPPORT_SCOPE_DIRS :: "string list" where
  "SUPPORT_SCOPE_DIRS =
     [''.github'', ''.alysis'', ''__tests__'', ''doc'', ''docs'', ''example'', ''examples'', ''fixture'',
      ''fixtures'', ''note'', ''notes'', ''spec'', ''specs'', ''test'', ''tests'']"

definition expected_red_words :: rx where
  "expected_red_words =
     r_alt [r_lit ''red'', r_seq [r_lit ''known'', r_opt (RClass (\<lambda>c. c = CHR ''-'' \<or> c = CHR '' '')), r_lit ''failing''],
       r_seq [r_lit ''expected'', r_spaces, r_lit ''to'', r_spaces, r_lit ''fail''],
       r_seq [r_lit ''fail'', r_opt (r_alt [r_lit ''s'', r_lit ''ing'']), r_spaces, r_lit ''before'', r_spaces, r_lit ''fix''],
       r_lit ''regression'']"

definition test_word :: rx where
  "test_word = r_seq [RWordEdge, r_lit ''test'', r_opt (r_lit ''s''), RWordEdge]"

definition EXPECTED_RED_REGRESSION_TEXT_RE :: rx where
  "EXPECTED_RED_REGRESSION_TEXT_RE =
     RAlt (r_seq [RWordEdge, expected_red_words, RWordEdge, RMany (\<lambda>_. True) 0 (Some 120), test_word])
          (r_seq [test_word, RMany (\<lambda>_. True) 0 (Some 120), RWordEdge, expected_red_words, RWordEdge])"

section \<open>Candidates\<close>

record candidate =
  task_id_of :: string
  title_of :: string
  cand_status :: string
  dependencies :: "string list"
  estimated_files :: "string list"
  write_scope :: "string list"
  claimed_patterns :: "string list"
  claimed_files :: "string list"
  ambiguous_patterns :: "string list"
  parallel_group :: string
  attempts_of :: int
  raw_task :: "(pykey \<times> pyval) list"

abbreviation no_dirs :: "string \<Rightarrow> bool" where
  "no_dirs \<equiv> \<lambda>_. False"

definition has_claimed_scope :: "candidate \<Rightarrow> bool" where
  "has_claimed_scope c = (claimed_patterns c \<noteq> [])"

definition has_precise_claimed_scope :: "candidate \<Rightarrow> bool" where
  "has_precise_claimed_scope c = (claimed_files c \<noteq> [] \<and> ambiguous_patterns c = [])"

definition preview_items :: "nat \<Rightarrow> string list \<Rightarrow> string" where
  "preview_items limit xs =
     (if xs = [] then ''(none)''
      else if length xs \<le> limit then py_join '', '' xs
      else py_join '', '' (take limit xs) @ '', +'' @ show_nat (length xs - limit) @ '' more'')"

definition claimed_scope_reason :: "candidate \<Rightarrow> string" where
  "claimed_scope_reason c =
     (if claimed_patterns c = [] then ''missing claimed write scope metadata (estimated_files/write_scope)''
      else if ambiguous_patterns c \<noteq> [] then
        ''ambiguous claimed scope: '' @ preview_items 3 (ambiguous_patterns c)
      else ''precise claimed scope: '' @ preview_items 3 (sort (claimed_files c)))"

definition scheduler_task_text :: "(pykey \<times> pyval) list \<Rightarrow> string" where
  "scheduler_task_text task =
     py_join '' '' (filter (\<lambda>p. p \<noteq> [])
       ([str_or (dget task ''title'') [], str_or (dget task ''description'') []] @
        (case dget task ''acceptance_criteria'' of PList xs \<Rightarrow> map (\<lambda>x. str_or x []) xs | _ \<Rightarrow> [])))"

definition scope_path_text :: "string \<Rightarrow> string" where
  "scope_path_text path = py_strip_of is_slash (back_to_slash (py_strip path))"

definition drop_glob_tail :: "string \<Rightarrow> string" where
  "drop_glob_tail p = py_strip_of is_slash (take (length p - 3) p)"

definition is_test_or_support_scope_path :: "string \<Rightarrow> bool" where
  "is_test_or_support_scope_path path =
     (let normalized = scope_path_text path
      in normalized \<noteq> [] \<and>
         is_test_path (if py_endswith normalized ''/**'' then drop_glob_tail normalized else normalized))"

definition is_primary_implementation_scope_path :: "string \<Rightarrow> bool" where
  "is_primary_implementation_scope_path path =
     (let normalized = scope_path_text path;
          name = py_casefold (pure_name normalized)
      in if normalized = [] then False
         else if is_test_or_support_scope_path normalized then False
         else if py_endswith normalized ''/**'' then
           (let parts = map py_casefold (filter (\<lambda>w. w \<noteq> []) (py_split (CHR ''/'') (drop_glob_tail normalized)))
            in parts \<noteq> [] \<and>
               \<not> list_ex (\<lambda>w. py_startswith w ''.'' \<or> w \<in> set SUPPORT_SCOPE_DIRS) parts)
         else if name \<in> {''readme'', ''readme.md''} \<or> list_ex (py_endswith name) [''.md'', ''.rst'', ''.txt''] then False
         else if name \<in> {''cargo.toml'', ''go.mod'', ''package.json'', ''pyproject.toml'', ''requirements.txt'', ''setup.py''}
         then True
         else is_code_implementation_path normalized)"

definition task_scope_paths :: "(pykey \<times> pyval) list \<Rightarrow> string list" where
  "task_scope_paths task =
     normalize_repo_path_list no_dirs (dget task ''estimated_files'') @
     normalize_repo_path_list no_dirs (dget task ''write_scope'')"

definition task_has_primary_implementation_scope :: "(pykey \<times> pyval) list \<Rightarrow> bool" where
  "task_has_primary_implementation_scope task =
     list_ex is_primary_implementation_scope_path (task_scope_paths task)"

definition is_expected_red_regression_precursor :: "(pykey \<times> pyval) list \<Rightarrow> bool" where
  "is_expected_red_regression_precursor task =
     (rx_search EXPECTED_RED_REGRESSION_TEXT_RE (scheduler_task_text task) \<and>
      task_scope_paths task \<noteq> [] \<and> list_all is_test_or_support_scope_path (task_scope_paths task))"

definition effective_dependencies ::
    "(pykey \<times> pyval) list list \<Rightarrow> (pykey \<times> pyval) list \<Rightarrow> py_exc + string list" where
  "effective_dependencies tasks task =
     res_bind (if py_truthy (dget task ''dependencies'') then py_iter (dget task ''dependencies'') else Inr [])
       (\<lambda>raw. let deps = filter (\<lambda>d. d \<noteq> []) (map (\<lambda>x. py_strip (py_str x)) raw)
        in Inr (if deps \<noteq> [] then deps
                else case infer_ordered_predecessor_dependency tasks task of
                  None \<Rightarrow> [] | Some d \<Rightarrow> [inf_depends_on d]))"

definition attempts_value :: "pyval \<Rightarrow> py_exc + int" where
  "attempts_value v =
     (if v = PNone then Inr 0
      else case py_int v of
        Inr n \<Rightarrow> Inr (max 0 n)
      | Inl TypeError \<Rightarrow> Inr 0
      | Inl ValueError \<Rightarrow> Inr 0
      | Inl e \<Rightarrow> Inl e)"

definition to_candidate ::
    "(pykey \<times> pyval) list list \<Rightarrow> (pykey \<times> pyval) list \<Rightarrow> py_exc + candidate" where
  "to_candidate tasks task =
     res_bind (effective_dependencies tasks task) (\<lambda>deps.
     res_bind (attempts_value (dget task ''attempts'')) (\<lambda>attempts.
       let claimed = normalize_claimed_scope_patterns no_dirs task;
           precise = filter is_explicit_repo_path_pattern claimed
       in Inr \<lparr>task_id_of = task_ident task, title_of = py_strip (str_or (dget task ''title'') []),
            cand_status = status_of task, dependencies = deps,
            estimated_files = normalize_repo_path_list no_dirs (dget task ''estimated_files''),
            write_scope = normalize_repo_path_list no_dirs (dget task ''write_scope''),
            claimed_patterns = claimed, claimed_files = precise,
            ambiguous_patterns = filter (\<lambda>p. p \<notin> set precise) claimed,
            parallel_group = py_strip (str_or (dget task ''parallel_group'') []),
            attempts_of = attempts, raw_task = task\<rparr>))"

fun to_candidates ::
    "(pykey \<times> pyval) list list \<Rightarrow> (pykey \<times> pyval) list list \<Rightarrow> py_exc + candidate list" where
  "to_candidates tasks [] = Inr []"
| "to_candidates tasks (t # ts) =
     res_bind (to_candidate tasks t) (\<lambda>c. res_bind (to_candidates tasks ts) (\<lambda>cs. Inr (c # cs)))"

section \<open>Selection\<close>

definition runnable_status :: "string \<Rightarrow> bool \<Rightarrow> bool \<Rightarrow> bool" where
  "runnable_status status retry_failed retry_changes_requested =
     (if status \<in> {''planned'', ''interrupted'', ''cancelled''} then True
      else if status \<in> {''failed'', ''verify_failed'', ''candidate_rejected''} \<and> retry_failed then True
      else status = ''changes_requested'' \<and> retry_changes_requested)"

text \<open>The dictionary from ids to candidates: the last one wins.\<close>

definition by_id :: "candidate list \<Rightarrow> string \<Rightarrow> candidate option" where
  "by_id cs i = find (\<lambda>c. task_id_of c = i) (rev cs)"

text \<open>Why a dependency holds a candidate back, or \<open>None\<close>.\<close>

definition dependency_block :: "candidate list \<Rightarrow> candidate \<Rightarrow> string \<Rightarrow> string option" where
  "dependency_block cs c d =
     (case by_id cs d of
        None \<Rightarrow> Some (''dependency missing: '' @ d)
      | Some dep \<Rightarrow>
          if cand_status dep = ''ready_for_merge'' \<and> is_expected_red_regression_precursor (raw_task dep) \<and>
             task_has_primary_implementation_scope (raw_task c) then None
          else if cand_status dep \<notin> set SUCCESSFUL_TERMINAL_STATUSES
          then Some (''dependency not done: '' @ d @ '' ('' @ cand_status dep @ '')'')
          else None)"

fun first_block :: "candidate list \<Rightarrow> candidate \<Rightarrow> string list \<Rightarrow> string option" where
  "first_block cs c [] = None"
| "first_block cs c (d # ds) =
     (case dependency_block cs c d of Some reason \<Rightarrow> Some reason | None \<Rightarrow> first_block cs c ds)"

definition deps_done :: "candidate list \<Rightarrow> candidate \<Rightarrow> bool \<times> string" where
  "deps_done cs c =
     (case first_block cs c (dependencies c) of Some reason \<Rightarrow> (False, reason) | None \<Rightarrow> (True, []))"

record selection_options =
  retry_failed :: bool
  retry_changes_requested :: bool
  max_attempts :: "int option"
  only_ids :: "string list option"

datatype verdict = Runnable | ReadyForMerge | Skip string

definition judge :: "selection_options \<Rightarrow> candidate list \<Rightarrow> candidate \<Rightarrow> verdict" where
  "judge opts cs c =
     (if (case only_ids opts of None \<Rightarrow> False | Some ids \<Rightarrow> task_id_of c \<notin> set ids)
      then Skip ''filtered by --only''
      else if cand_status c \<in> set SUCCESSFUL_TERMINAL_STATUSES then Skip ''already done''
      else if cand_status c = ''ready_for_merge'' then ReadyForMerge
      else if \<not> runnable_status (cand_status c) (retry_failed opts) (retry_changes_requested opts)
      then Skip (''status not runnable: '' @ cand_status c)
      else if (case max_attempts opts of None \<Rightarrow> False | Some m \<Rightarrow> attempts_of c \<ge> m)
      then Skip (''attempt limit reached: '' @ show_int (attempts_of c) @ '' >= '' @
             (case max_attempts opts of Some m \<Rightarrow> show_int m | None \<Rightarrow> []))
      else (case deps_done cs c of (True, _) \<Rightarrow> Runnable | (False, reason) \<Rightarrow> Skip reason))"

fun select_loop ::
    "selection_options \<Rightarrow> candidate list \<Rightarrow> candidate list \<Rightarrow>
     candidate list \<times> candidate list \<times> (string \<times> string) list \<Rightarrow>
     candidate list \<times> candidate list \<times> (string \<times> string) list" where
  "select_loop opts cs [] acc = acc"
| "select_loop opts cs (c # rest) (runnable, ready, skipped) =
     (if task_id_of c = [] then select_loop opts cs rest (runnable, ready, skipped)
      else case judge opts cs c of
        Runnable \<Rightarrow> select_loop opts cs rest (runnable @ [c], ready, skipped)
      | ReadyForMerge \<Rightarrow> select_loop opts cs rest (runnable, ready @ [c], skipped)
      | Skip reason \<Rightarrow> select_loop opts cs rest (runnable, ready, alist_put (task_id_of c) reason skipped))"

definition select_task_candidates ::
    "selection_options \<Rightarrow> (pykey \<times> pyval) list list \<Rightarrow>
     py_exc + candidate list \<times> candidate list \<times> (string \<times> string) list" where
  "select_task_candidates opts tasks =
     res_bind (to_candidates tasks tasks) (\<lambda>cs. Inr (select_loop opts cs cs ([], [], [])))"

section \<open>Batches\<close>

definition pair_safe :: "candidate \<Rightarrow> candidate \<Rightarrow> bool \<times> string" where
  "pair_safe a b =
     (let overlap = filter (\<lambda>f. f \<in> set (claimed_files b)) (claimed_files a)
      in if \<not> has_precise_claimed_scope a then (False, claimed_scope_reason a)
         else if \<not> has_precise_claimed_scope b then (False, claimed_scope_reason b)
         else if overlap \<noteq> [] then (False, ''claimed scope overlap: '' @ preview_items 3 (sort overlap))
         else if parallel_group a \<noteq> [] \<and> parallel_group b \<noteq> [] \<and> parallel_group a = parallel_group b
         then (False, ''same parallel_group: '' @ parallel_group a)
         else (True, ''claimed scopes disjoint''))"

record batch =
  batch_index :: nat
  task_ids :: "string list"
  reasons :: "string list"

text \<open>
  The members of a batch tested in order: the first unsafe one blocks (\<open>Inl\<close>), otherwise the
  reasons are collected. An id that is not runnable would be a \<open>KeyError\<close>.
\<close>

fun join_batch :: "candidate list \<Rightarrow> candidate \<Rightarrow> string list \<Rightarrow> py_exc + (string + string list)" where
  "join_batch cs c [] = Inr (Inr [])"
| "join_batch cs c (i # is) =
     (case by_id cs i of
        None \<Rightarrow> Inl KeyError
      | Some existing \<Rightarrow>
          (case pair_safe c existing of
             (False, reason) \<Rightarrow> Inr (Inl (''blocked by '' @ task_id_of existing @ '': '' @ reason))
           | (True, reason) \<Rightarrow>
               res_bind (join_batch cs c is) (\<lambda>r. Inr (case r of
                   Inl blocker \<Rightarrow> Inl blocker
                 | Inr rs \<Rightarrow> Inr ((task_id_of existing @ '': '' @ reason) # rs)))))"

fun place ::
    "candidate list \<Rightarrow> nat \<Rightarrow> candidate \<Rightarrow> string list \<Rightarrow> batch list \<Rightarrow> py_exc + (string list + batch list)" where
  "place cs limit c blockers [] = Inr (Inl blockers)"
| "place cs limit c blockers (b # bs) =
     (if length (task_ids b) \<ge> limit
      then res_bind (place cs limit c blockers bs) (\<lambda>r. Inr (map_sum id (Cons b) r))
      else res_bind (join_batch cs c (task_ids b)) (\<lambda>j. case j of
          Inl blocker \<Rightarrow> res_bind (place cs limit c (blockers @ [blocker]) bs) (\<lambda>r. Inr (map_sum id (Cons b) r))
        | Inr rs \<Rightarrow>
            Inr (Inr (b\<lparr>task_ids := task_ids b @ [task_id_of c],
                       reasons := reasons b @ [task_id_of c @ '' joined batch: '' @ py_join '', '' rs]\<rparr> # bs))))"

definition new_batch :: "nat \<Rightarrow> candidate \<Rightarrow> string list \<Rightarrow> batch" where
  "new_batch idx c blockers =
     \<lparr>batch_index = idx, task_ids = [task_id_of c],
      reasons = [if \<not> has_precise_claimed_scope c then task_id_of c @ '' runs alone: '' @ claimed_scope_reason c
        else if blockers \<noteq> [] then task_id_of c @ '' starts new batch: '' @ preview_items 2 blockers
        else task_id_of c @ '' starts new batch: '' @ claimed_scope_reason c]\<rparr>"

definition add_candidate :: "candidate list \<Rightarrow> nat \<Rightarrow> candidate \<Rightarrow> batch list \<Rightarrow> py_exc + batch list" where
  "add_candidate cs limit c batches =
     res_bind (if has_precise_claimed_scope c then place cs limit c [] batches else Inr (Inl [])) (\<lambda>r.
       Inr (case r of
           Inr bs \<Rightarrow> bs
         | Inl blockers \<Rightarrow> batches @ [new_batch (length batches + 1) c blockers]))"

fun add_candidates :: "candidate list \<Rightarrow> nat \<Rightarrow> candidate list \<Rightarrow> batch list \<Rightarrow> py_exc + batch list" where
  "add_candidates cs limit [] batches = Inr batches"
| "add_candidates cs limit (c # rest) batches =
     res_bind (add_candidate cs limit c batches) (\<lambda>bs. add_candidates cs limit rest bs)"

definition batch_order :: "candidate list \<Rightarrow> candidate list" where
  "batch_order cs = sort_key (\<lambda>c. (\<not> has_precise_claimed_scope c, task_id_of c)) cs"

definition build_batches :: "candidate list \<Rightarrow> int \<Rightarrow> py_exc + batch list" where
  "build_batches runnable parallel =
     add_candidates runnable (nat (if parallel \<le> 0 then 1 else parallel)) (batch_order runnable) []"

record schedule =
  base_branch :: string
  sched_runnable :: "candidate list"
  sched_ready :: "candidate list"
  sched_skipped :: "(string \<times> string) list"
  sched_batches :: "batch list"

text \<open>\<open>runnable[:max_tasks]\<close> for a positive limit.\<close>

definition limit_runnable :: "int option \<Rightarrow> candidate list \<Rightarrow> candidate list" where
  "limit_runnable max_tasks runnable =
     (case max_tasks of Some m \<Rightarrow> if m > 0 then take (nat m) runnable else runnable | None \<Rightarrow> runnable)"

definition compute_schedule ::
    "string \<Rightarrow> (pykey \<times> pyval) list list \<Rightarrow> int \<Rightarrow> int option \<Rightarrow> selection_options \<Rightarrow> py_exc + schedule" where
  "compute_schedule branch tasks parallel max_tasks opts =
     res_bind (select_task_candidates opts tasks) (\<lambda>(runnable, ready, skipped).
       let limited = limit_runnable max_tasks runnable
       in res_bind (build_batches limited parallel) (\<lambda>bs.
            Inr \<lparr>base_branch = branch, sched_runnable = limited, sched_ready = ready,
                 sched_skipped = skipped, sched_batches = bs\<rparr>))"

end
