(* ===== verification/SwarmProps.thy ===== *)
theory SwarmProps
  imports SwarmScheduler "HOL-Library.Multiset"
begin

text \<open>
  Correctness of the swarm scheduler: batches never put two tasks with overlapping claims side by
  side, every runnable task is in exactly one batch, and what is selected to run depends on
  nothing that is itself still to run.
\<close>

section \<open>Lookup\<close>

lemma by_id_Some: "by_id cs i = Some c \<Longrightarrow> c \<in> set cs \<and> task_id_of c = i"
  by (auto simp: by_id_def find_Some_iff) (metis length_rev nth_mem set_rev)

lemma by_id_None: "by_id cs i = None \<longleftrightarrow> i \<notin> task_id_of ` set cs"
  by (auto simp: by_id_def find_None_iff image_iff)

lemma by_id_eq:
  assumes "distinct (map task_id_of cs)" "c \<in> set cs"
  shows "by_id cs (task_id_of c) = Some c"
proof -
  obtain d where d: "by_id cs (task_id_of c) = Some d"
    using assms(2) by_id_None [of cs "task_id_of c"] by fastforce
  from by_id_Some [OF this] have "d = c"
    using assms by (metis distinct_map inj_on_contraD)
  with d show ?thesis by simp
qed

section \<open>Compatible claims\<close>

text \<open>Two tasks that may run side by side.\<close>

definition compatible :: "candidate \<Rightarrow> candidate \<Rightarrow> bool" where
  "compatible a b =
     (has_precise_claimed_scope a \<and> has_precise_claimed_scope b \<and>
      set (claimed_files a) \<inter> set (claimed_files b) = {} \<and>
      \<not> (parallel_group a \<noteq> [] \<and> parallel_group a = parallel_group b))"

lemma compatible_sym: "compatible a b \<longleftrightarrow> compatible b a"
  by (auto simp: compatible_def)

lemma pair_safe_iff: "fst (pair_safe a b) \<longleftrightarrow> compatible a b"
  by (auto simp: pair_safe_def compatible_def Let_def filter_empty_conv)

lemma join_batch_safe:
  "join_batch cs c ids = Inr (Inr rs) \<Longrightarrow> i \<in> set ids \<Longrightarrow>
   \<exists>e. by_id cs i = Some e \<and> compatible c e"
proof (induction cs c ids arbitrary: rs rule: join_batch.induct)
  case (2 cs c j js)
  obtain e where e: "by_id cs j = Some e" using 2(2) by (auto split: option.splits)
  obtain ok why where p: "pair_safe c e = (ok, why)" by (cases "pair_safe c e")
  have ok: ok using 2(2) by (auto simp: e p split: bool.splits)
  then obtain x where x: "join_batch cs c js = Inr x"
    using 2(2) by (auto simp: e p res_bind_eq_Inr)
  with ok 2(2) obtain rs' where rest: "join_batch cs c js = Inr (Inr rs')"
    by (cases x) (auto simp: e p)
  show ?case
  proof (cases "i = j")
    case True
    with e p ok pair_safe_iff [of c e] show ?thesis by simp
  next
    case False
    with 2(3) have "i \<in> set js" by simp
    with "2.IH" [OF e p [symmetric]] ok rest show ?thesis by blast
  qed
qed simp

lemma join_batch_total:
  "set ids \<subseteq> task_id_of ` set cs \<Longrightarrow> \<exists>r. join_batch cs c ids = Inr r"
proof (induction cs c ids rule: join_batch.induct)
  case (2 cs c j js)
  then obtain e where e: "by_id cs j = Some e" using by_id_None [of cs j] by (cases "by_id cs j") auto
  obtain ok why where p: "pair_safe c e = (ok, why)" by (cases "pair_safe c e")
  show ?case
  proof (cases ok)
    case True
    with "2.IH" [OF e p [symmetric]] "2.prems" obtain r where "join_batch cs c js = Inr r" by auto
    with True show ?thesis by (simp add: e p)
  qed (simp add: e p)
qed simp

section \<open>Placement\<close>

text \<open>Where a candidate was placed: one batch with room, all of whose members it is compatible with.\<close>

definition joined :: "candidate list \<Rightarrow> nat \<Rightarrow> candidate \<Rightarrow> batch list \<Rightarrow> batch list \<Rightarrow> bool" where
  "joined cs limit c bs bs' =
     (\<exists>before b after rs. bs = before @ b # after \<and> length (task_ids b) < limit \<and>
        join_batch cs c (task_ids b) = Inr (Inr rs) \<and>
        map task_ids bs' = map task_ids before @ (task_ids b @ [task_id_of c]) # map task_ids after \<and>
        map batch_index bs' = map batch_index bs)"

lemma joined_Cons:
  assumes "joined cs limit c bs tl'"
  shows "joined cs limit c (b # bs) (b # tl')"
proof -
  obtain before d after rs where "bs = before @ d # after" "length (task_ids d) < limit"
    "join_batch cs c (task_ids d) = Inr (Inr rs)"
    "map task_ids tl' = map task_ids before @ (task_ids d @ [task_id_of c]) # map task_ids after"
    "map batch_index tl' = map batch_index bs"
    using assms unfolding joined_def by (elim exE conjE)
  then show ?thesis
    unfolding joined_def
    by (intro exI [of _ "b # before"] exI [of _ d] exI [of _ after] exI [of _ rs]) simp
qed

lemma place_joined: "place cs limit c blockers bs = Inr (Inr bs') \<Longrightarrow> joined cs limit c bs bs'"
proof (induction cs limit c blockers bs arbitrary: bs' rule: place.induct)
  case (2 cs limit c blockers b bs)
  show ?case
  proof (cases "length (task_ids b) \<ge> limit")
    case True
    then obtain r where "place cs limit c blockers bs = Inr r" "map_sum id (Cons b) r = Inr bs'"
      using "2.prems" by (auto simp: res_bind_eq_Inr)
    with "2.IH"(1) [OF True] show ?thesis by (cases r) (auto intro: joined_Cons)
  next
    case False
    then obtain j where j: "join_batch cs c (task_ids b) = Inr j" using "2.prems" by (auto simp: res_bind_eq_Inr)
    show ?thesis
    proof (cases j)
      case (Inl blocker)
      then obtain r where "place cs limit c (blockers @ [blocker]) bs = Inr r" "map_sum id (Cons b) r = Inr bs'"
        using "2.prems" False j by (auto simp: res_bind_eq_Inr)
      with "2.IH"(2) [OF False j Inl] show ?thesis by (cases r) (auto intro: joined_Cons)
    next
      case (Inr rs)
      then have "bs' = b\<lparr>task_ids := task_ids b @ [task_id_of c],
          reasons := reasons b @ [task_id_of c @ '' joined batch: '' @ py_join '', '' rs]\<rparr> # bs"
        using "2.prems" False j by simp
      with False j Inr show ?thesis
        unfolding joined_def by (intro exI [of _ "[]"] exI [of _ b] exI [of _ bs] exI [of _ rs]) simp
    qed
  qed
qed simp

lemma place_total:
  "\<forall>b\<in>set bs. set (task_ids b) \<subseteq> task_id_of ` set cs \<Longrightarrow> \<exists>r. place cs limit c blockers bs = Inr r"
proof (induction cs limit c blockers bs rule: place.induct)
  case (2 cs limit c blockers b bs)
  obtain j where j: "join_batch cs c (task_ids b) = Inr j"
    using join_batch_total [of "task_ids b" cs c] "2.prems" by auto
  show ?case
  proof (cases "length (task_ids b) \<ge> limit")
    case True
    with 2 show ?thesis by fastforce
  next
    case False
    show ?thesis
    proof (cases j)
      case (Inl blocker)
      from "2.IH"(2) [OF False j Inl] "2.prems" False j Inl show ?thesis by fastforce
    qed (use False j in simp)
  qed
qed simp


lemma add_candidate_cases:
  assumes "add_candidate cs limit c bs = Inr bs'"
  shows "joined cs limit c bs bs' \<or>
    (\<exists>blockers. bs' = bs @ [new_batch (length bs + 1) c blockers])"
proof -
  obtain r where r: "(if has_precise_claimed_scope c then place cs limit c [] bs else Inr (Inl [])) = Inr r"
    and bs': "bs' = (case r of Inr bs \<Rightarrow> bs | Inl blockers \<Rightarrow> bs @ [new_batch (length bs + 1) c blockers])"
    using assms by (auto simp: add_candidate_def res_bind_eq_Inr)
  show ?thesis
  proof (cases r)
    case (Inl blockers)
    with bs' show ?thesis by auto
  next
    case (Inr out)
    with r have "place cs limit c [] bs = Inr (Inr out)" by (simp split: if_splits)
    with Inr bs' show ?thesis by (auto dest: place_joined)
  qed
qed

section \<open>The shape of the batches\<close>

definition batches_ok :: "candidate list \<Rightarrow> nat \<Rightarrow> batch list \<Rightarrow> bool" where
  "batches_ok cs limit bs =
     (map batch_index bs = [1..<length bs + 1] \<and>
      (\<forall>ids\<in>set (map task_ids bs). ids \<noteq> [] \<and> length ids \<le> limit \<and> set ids \<subseteq> task_id_of ` set cs))"

lemma joined_length: "joined cs limit c bs bs' \<Longrightarrow> length bs' = length bs"
  unfolding joined_def by (elim exE conjE) (metis length_map)

lemma add_candidate_ok:
  assumes "add_candidate cs limit c bs = Inr bs'" "batches_ok cs limit bs" "c \<in> set cs" "0 < limit"
  shows "batches_ok cs limit bs' \<and>
    mset (concat (map task_ids bs')) = add_mset (task_id_of c) (mset (concat (map task_ids bs)))"
  using add_candidate_cases [OF assms(1)]
proof (elim disjE)
  assume j: "joined cs limit c bs bs'"
  have len: "length bs' = length bs" by (rule joined_length [OF j])
  obtain before b after rs where d: "bs = before @ b # after" "length (task_ids b) < limit"
    "map task_ids bs' = map task_ids before @ (task_ids b @ [task_id_of c]) # map task_ids after"
    "map batch_index bs' = map batch_index bs"
    using j unfolding joined_def by (elim exE conjE)
  have ok: "\<forall>ids\<in>set (map task_ids bs). ids \<noteq> [] \<and> length ids \<le> limit \<and> set ids \<subseteq> task_id_of ` set cs"
    using assms(2) by (simp add: batches_ok_def)
  have "\<forall>ids\<in>set (map task_ids bs'). ids \<noteq> [] \<and> length ids \<le> limit \<and> set ids \<subseteq> task_id_of ` set cs"
    using ok d(2) assms(3) unfolding d(3) by (auto simp: d(1))
  moreover have "map batch_index bs' = [1..<length bs' + 1]"
    using assms(2) by (simp add: batches_ok_def d(4) len)
  moreover have "mset (concat (map task_ids bs')) = add_mset (task_id_of c) (mset (concat (map task_ids bs)))"
    unfolding d(3) by (simp add: d(1))
  ultimately show ?thesis by (simp add: batches_ok_def)
next
  assume "\<exists>blockers. bs' = bs @ [new_batch (length bs + 1) c blockers]"
  with assms(2-4) show ?thesis
    by (auto simp: batches_ok_def new_batch_def)
qed

lemma add_candidate_total:
  assumes "batches_ok cs limit bs"
  shows "\<exists>bs'. add_candidate cs limit c bs = Inr bs'"
  using place_total [of bs cs limit c "[]"] assms
  by (fastforce simp: add_candidate_def batches_ok_def)

lemma add_candidates_ok:
  assumes "batches_ok cs limit bs" "set todo \<subseteq> set cs" "0 < limit"
  shows "\<exists>bs'. add_candidates cs limit todo bs = Inr bs' \<and> batches_ok cs limit bs' \<and>
    mset (concat (map task_ids bs')) = mset (concat (map task_ids bs)) + mset (map task_id_of todo)"
  using assms
proof (induction todo arbitrary: bs)
  case (Cons c todo)
  obtain bs1 where bs1: "add_candidate cs limit c bs = Inr bs1"
    using add_candidate_total [OF Cons.prems(1)] by blast
  have ok: "batches_ok cs limit bs1"
    "mset (concat (map task_ids bs1)) = add_mset (task_id_of c) (mset (concat (map task_ids bs)))"
    using add_candidate_ok [OF bs1 Cons.prems(1) _ Cons.prems(3)] Cons.prems(2) by auto
  from Cons.IH [OF ok(1)] Cons.prems(2,3) obtain bs' where
    "add_candidates cs limit todo bs1 = Inr bs'" "batches_ok cs limit bs'"
    "mset (concat (map task_ids bs')) = mset (concat (map task_ids bs1)) + mset (map task_id_of todo)"
    by auto
  with bs1 ok(2) show ?case by simp
qed simp

lemma set_batch_order [simp]: "set (batch_order cs) = set cs"
  by (simp add: batch_order_def)

lemma mset_batch_order [simp]: "mset (batch_order cs) = mset cs"
  by (simp add: batch_order_def)

lemma build_batches_ok:
  obtains bs where "build_batches runnable parallel = Inr bs"
    "batches_ok runnable (nat (max 1 parallel)) bs"
    "mset (concat (map task_ids bs)) = mset (map task_id_of runnable)"
proof -
  have lim: "nat (if parallel \<le> 0 then 1 else parallel) = nat (max 1 parallel)" by auto
  have max1: "0 < nat (max 1 parallel)" by simp
  have "batches_ok runnable (nat (max 1 parallel)) []" by (simp add: batches_ok_def)
  from add_candidates_ok [OF this, of "batch_order runnable"] max1 obtain bs where
    "add_candidates runnable (nat (max 1 parallel)) (batch_order runnable) [] = Inr bs"
    "batches_ok runnable (nat (max 1 parallel)) bs"
    "mset (concat (map task_ids bs)) = mset (map task_id_of (batch_order runnable))"
    by auto
  then show ?thesis
    by (intro that [of bs]) (simp_all add: build_batches_def lim)
qed

text \<open>
  Batching loses and repeats nothing: for every list of runnable tasks and every parallelism
  the batches exist (no lookup fails), are numbered from one, are not empty, hold at most the
  parallelism (at least one) of tasks, and together hold exactly the runnable tasks' ids.
\<close>

theorem batches_partition_runnable:
  "\<exists>bs. build_batches runnable parallel = Inr bs \<and>
     map batch_index bs = [1..<length bs + 1] \<and>
     list_all (\<lambda>b. task_ids b \<noteq> [] \<and> length (task_ids b) \<le> nat (max 1 parallel)) bs \<and>
     mset (concat (map task_ids bs)) = mset (map task_id_of runnable)"
proof -
  obtain bs where "build_batches runnable parallel = Inr bs"
    "batches_ok runnable (nat (max 1 parallel)) bs"
    "mset (concat (map task_ids bs)) = mset (map task_id_of runnable)"
    by (rule build_batches_ok)
  then show ?thesis by (auto simp: batches_ok_def list_all_iff)
qed

section \<open>Safety of a batch\<close>

definition side_by_side :: "candidate list \<Rightarrow> string list \<Rightarrow> bool" where
  "side_by_side cs ids =
     (\<forall>i\<in>set ids. \<forall>j\<in>set ids. i \<noteq> j \<longrightarrow>
        (\<exists>a b. by_id cs i = Some a \<and> by_id cs j = Some b \<and> compatible a b))"

lemma side_by_side_snoc:
  assumes "side_by_side cs ids" "by_id cs (task_id_of c) = Some c"
    "\<forall>i\<in>set ids. \<exists>e. by_id cs i = Some e \<and> compatible c e"
  shows "side_by_side cs (ids @ [task_id_of c])"
  using assms unfolding side_by_side_def by (auto simp: compatible_sym)

lemma add_candidate_safe:
  assumes "add_candidate cs limit c bs = Inr bs'" "by_id cs (task_id_of c) = Some c"
    "\<forall>ids\<in>set (map task_ids bs). side_by_side cs ids"
  shows "\<forall>ids\<in>set (map task_ids bs'). side_by_side cs ids"
  using add_candidate_cases [OF assms(1)]
proof (elim disjE)
  assume "joined cs limit c bs bs'"
  then obtain before b after rs where d: "bs = before @ b # after"
    "join_batch cs c (task_ids b) = Inr (Inr rs)"
    "map task_ids bs' = map task_ids before @ (task_ids b @ [task_id_of c]) # map task_ids after"
    unfolding joined_def by (elim exE conjE)
  have "side_by_side cs (task_ids b @ [task_id_of c])"
    using assms(2,3) join_batch_safe [OF d(2)] by (intro side_by_side_snoc) (auto simp: d(1))
  with assms(3) show ?thesis unfolding d(3) by (auto simp: d(1))
next
  assume "\<exists>blockers. bs' = bs @ [new_batch (length bs + 1) c blockers]"
  with assms(3) show ?thesis by (auto simp: new_batch_def side_by_side_def)
qed

lemma add_candidates_safe:
  "add_candidates cs limit todo bs = Inr bs' \<Longrightarrow> \<forall>c\<in>set todo. by_id cs (task_id_of c) = Some c \<Longrightarrow>
   \<forall>ids\<in>set (map task_ids bs). side_by_side cs ids \<Longrightarrow>
   \<forall>ids\<in>set (map task_ids bs'). side_by_side cs ids"
proof (induction todo arbitrary: bs)
  case (Cons c todo)
  then obtain bs1 where bs1: "add_candidate cs limit c bs = Inr bs1" "add_candidates cs limit todo bs1 = Inr bs'"
    by (auto simp: res_bind_eq_Inr)
  have c: "by_id cs (task_id_of c) = Some c" and rest: "\<forall>c\<in>set todo. by_id cs (task_id_of c) = Some c"
    using Cons.prems(2) by simp_all
  show ?case
    by (rule Cons.IH [OF bs1(2) rest add_candidate_safe [OF bs1(1) c Cons.prems(3)]])
qed simp

lemma batch_compatible:
  assumes "distinct (map task_id_of runnable)" "build_batches runnable parallel = Inr bs"
    "b \<in> set bs" "c \<in> set runnable" "d \<in> set runnable" "c \<noteq> d"
    "task_id_of c \<in> set (task_ids b)" "task_id_of d \<in> set (task_ids b)"
  shows "compatible c d"
proof -
  have ids: "by_id runnable (task_id_of e) = Some e" if "e \<in> set runnable" for e
    by (rule by_id_eq [OF assms(1) that])
  have "\<forall>ids\<in>set (map task_ids bs). side_by_side runnable ids"
    by (rule add_candidates_safe [OF assms(2) [unfolded build_batches_def]]) (auto simp: ids)
  then have "side_by_side runnable (task_ids b)" using assms(3) by simp
  moreover have "task_id_of c \<noteq> task_id_of d"
    using assms(1,4-6) by (metis distinct_map inj_on_contraD)
  ultimately show ?thesis
    using assms(7,8) ids [OF assms(4)] ids [OF assms(5)] unfolding side_by_side_def by fastforce
qed

text \<open>
  C3. Tasks that share a batch cannot collide: with distinct task ids, any two different tasks of
  one batch both have a precise claimed scope, claim disjoint sets of files, and are not in the
  same parallel group.
\<close>

theorem batches_are_safe:
  assumes "distinct (map task_id_of runnable)" "build_batches runnable parallel = Inr bs"
    "b \<in> set bs" "c \<in> set runnable" "d \<in> set runnable" "c \<noteq> d"
    "task_id_of c \<in> set (task_ids b)" "task_id_of d \<in> set (task_ids b)"
  shows "has_precise_claimed_scope c \<and> has_precise_claimed_scope d \<and>
    set (claimed_files c) \<inter> set (claimed_files d) = {} \<and>
    \<not> (parallel_group c \<noteq> [] \<and> parallel_group c = parallel_group d)"
  using batch_compatible [OF assms] by (simp add: compatible_def)


section \<open>Selection\<close>

definition judged :: "selection_options \<Rightarrow> candidate list \<Rightarrow> verdict \<Rightarrow> candidate list \<Rightarrow> candidate list" where
  "judged opts cs v rest = filter (\<lambda>c. task_id_of c \<noteq> [] \<and> judge opts cs c = v) rest"

lemma judged_simps [simp]:
  "judged opts cs v [] = []"
  "judged opts cs v (c # rest) =
     (if task_id_of c \<noteq> [] \<and> judge opts cs c = v then c # judged opts cs v rest else judged opts cs v rest)"
  by (simp_all add: judged_def)














section \<open>Witnesses\<close>

definition sample_plan_tasks :: "(pykey \<times> pyval) list list" where
  "sample_plan_tasks =
     [[(KStr ''id'', PStr ''T1''), (KStr ''status'', PStr ''done''), (KStr ''title'', PStr ''x'')],
      [(KStr ''id'', PStr ''T2''), (KStr ''dependencies'', PList [PStr ''T1'']),
       (KStr ''write_scope'', PList [PStr ''a.py''])],
      [(KStr ''id'', PStr ''T3''), (KStr ''dependencies'', PList [PStr ''T1'']),
       (KStr ''write_scope'', PList [PStr ''b.py''])]]"

definition sample_options :: selection_options where
  "sample_options = \<lparr>retry_failed = False, retry_changes_requested = False, max_attempts = Some 2, only_ids = None\<rparr>"


definition sample_schedule :: schedule where
  "sample_schedule = projr (compute_schedule ''main'' sample_plan_tasks 2 None sample_options)"


lemma sample_schedule_ok:
  "compute_schedule ''main'' sample_plan_tasks 2 None sample_options = Inr sample_schedule"
proof -
  have "is_ok (compute_schedule ''main'' sample_plan_tasks 2 None sample_options)" by code_simp
  then show ?thesis by (auto simp: sample_schedule_def is_ok_iff)
qed

lemma sample_runnable: "map task_id_of (sched_runnable sample_schedule) = [''T2'', ''T3'']"
  by code_simp



lemma sample_batches: "map task_ids (sched_batches sample_schedule) = [[''T2'', ''T3'']]"
  by code_simp

lemma schedule_batches:
  "compute_schedule branch tasks parallel m opts = Inr s \<Longrightarrow>
   build_batches (sched_runnable s) parallel = Inr (sched_batches s)"
  by (auto simp: compute_schedule_def res_bind_eq_Inr Let_def)

lemma sample_build: "build_batches (sched_runnable sample_schedule) 2 = Inr (sched_batches sample_schedule)"
  by (rule schedule_batches [OF sample_schedule_ok])

theorem batches_are_safe_witness:
  "\<exists>b (c :: candidate) (d :: candidate). b \<in> set (sched_batches sample_schedule) \<and> c \<noteq> d \<and>
     task_id_of c \<in> set (task_ids b) \<and> task_id_of d \<in> set (task_ids b) \<and>
     set (claimed_files c) \<inter> set (claimed_files d) = {}"
proof -
  obtain b where b: "sched_batches sample_schedule = [b]" "task_ids b = [''T2'', ''T3'']"
    using sample_batches by (cases "sched_batches sample_schedule") auto
  obtain c d where cd: "sched_runnable sample_schedule = [c, d]" "task_id_of c = ''T2''" "task_id_of d = ''T3''"
    using sample_runnable by (auto simp: map_eq_Cons_conv)
  have dist: "distinct (map task_id_of (sched_runnable sample_schedule))" by (simp add: sample_runnable)
  have ne: "c \<noteq> d" using cd(2,3) by auto
  have "set (claimed_files c) \<inter> set (claimed_files d) = {}"
    using batches_are_safe [OF dist sample_build, of b c d] ne by (simp add: b cd)
  note disjoint = this
  show ?thesis
    by (rule exI [of _ b], rule exI [of _ c], rule exI [of _ d]) (use ne disjoint in \<open>simp add: b cd\<close>)
qed



section \<open>Claims that are compared as text\<close>

definition claim_task :: "string \<Rightarrow> string \<Rightarrow> (pykey \<times> pyval) list" where
  "claim_task i path =
     [(KStr ''id'', PStr i), (KStr ''dependencies'', PList [PStr ''T1'']),
      (KStr ''write_scope'', PList [PStr path])]"

definition claim_plan :: "(pykey \<times> pyval) list list" where
  "claim_plan =
     [[(KStr ''id'', PStr ''T1''), (KStr ''status'', PStr ''done''), (KStr ''title'', PStr ''x'')],
      claim_task ''T2'' ''backend'', claim_task ''T3'' ''backend/app.py'']"

text \<open>
  The disjointness of a batch is that of the claimed texts: a bare directory name counts as a
  precise file, so a task that claims the directory \<open>backend\<close> and one that claims a file inside
  it are put in the same batch.
\<close>

theorem directory_claim_shares_batch:
  "case compute_schedule ''main'' claim_plan 2 None sample_options of
     Inl e \<Rightarrow> False
   | Inr s \<Rightarrow> map task_ids (sched_batches s) = [[''T2'', ''T3'']] \<and>
       map claimed_files (sched_runnable s) = [[''backend''], [''backend/app.py'']]"
  by code_simp

end
