(* ===== verification/ShellConsent.thy ===== *)
theory ShellConsent
  imports ToolGuards ApprovalProps
begin

text \<open>
  The shell guard and the approval broker together: what a remembered yes stands for when a shell
  command is let through without asking again.
\<close>

section \<open>The request for a command\<close>

lemma guard_shell_asks:
  assumes "guard_shell sha ask s cmd tool = (requests, outcome)" and "rq \<in> set requests"
  shows "rq = command_request sha cmd tool \<and> ts_persona_globs s = None \<and>
    fullaccess_denylist_match cmd = None \<and> ts_mode s \<notin> {''fullaccess'', ''readonly''} \<and>
    \<not> cannot_ask s \<and> pd_allowed (evaluate_shell_command cmd) \<and>
    (ts_mode s = ''review'' \<or> pd_needs_confirm (evaluate_shell_command cmd) \<and> \<not> ts_yes s)"
  using assms
  by (auto simp: guard_shell_def is_full_access_mode_def persona_write_scope_active_def ask_for_def Let_def
      split: option.splits if_splits)

lemma allowed_not_removal:
  assumes "pd_allowed (evaluate_shell_command cmd)" "shlex_split (py_lower (py_strip cmd)) = Inr tokens"
  shows "\<not> removes_recursively tokens"
proof
  assume "removes_recursively tokens"
  then have "is_destructive_rm (py_lower (py_strip cmd))" using assms(2) is_destructive_rm_iff by blast
  moreover from this have "py_strip cmd \<noteq> []" using not_destructive_Nil by (auto simp: py_lower_def)
  ultimately have "evaluate_shell_command cmd = refused_removal" by (simp add: refused_removal_iff)
  then show False using assms(1) by simp
qed

text \<open>A command request has a session scope only if its kind is one of the command kinds.\<close>

lemma command_request_scope:
  assumes "approval_session_scope_for_request sha (command_request sha cmd tool) = Inr info" "sc_supported info"
  shows "is_command_like_kind tool \<and> request_kind (command_request sha cmd tool) = tool"
proof -
  let ?rq = "command_request sha cmd tool"
  have t: "scope_type_of (exact_command_scope sha cmd tool) = SCOPE_EXACT_COMMAND_HASH"
  proof -
    have "py_strip SCOPE_EXACT_COMMAND_HASH = SCOPE_EXACT_COMMAND_HASH" "SCOPE_EXACT_COMMAND_HASH \<noteq> []"
      by code_simp+
    then show ?thesis by (simp add: scope_type_of_def exact_command_scope_def py_str_def)
  qed
  have "scope_type_refusal (request_kind ?rq) SCOPE_EXACT_COMMAND_HASH = None"
    using assms t by (auto simp: approval_session_scope_for_request_def Let_def raw_scope_of_def
        command_request_def split: if_splits option.splits)
  then have k: "is_command_like_kind (request_kind ?rq)"
    by (auto simp: scope_type_refusal_def scope_type_defs split: if_splits)
  have "\<not> is_command_like_kind ''approval''" by code_simp
  with k show ?thesis
    by (cases "tool = []") (auto simp: request_kind_def command_request_def str_or_def py_str_def)
qed

section \<open>What a remembered yes stands for\<close>

text \<open>
  C23. A remembered yes covers one command: suppose \<open>guard_shell\<close> asks for a command and the
  broker, after any interleaving of requests, answers, timeouts and clearings, answers from memory
  instead of asking the user. Then the request is the one for that command and tool, the mode is neither
  read-only nor full access, no persona scope is active, the deny list does not match the command, and
  its tokens contain no recursive forced removal. And in that same session an earlier approval was registered and then
  successfully resolved with a yes for the session, and whatever request had its scope was of the same
  tool, and for a command with the same SHA-256 digest if it carried a command at all.
\<close>

theorem remembered_yes_covers_one_command:
  assumes "guard_shell sha ask s cmd tool = (requests, outcome)" and "rq \<in> set requests"
    and "approval_session_scope_for_request sha rq = Inr info"
    and "fst (request_check sid info now (run broker_apply ops (new_broker timeout retention m))) = Some d"
  shows "rq = command_request sha cmd tool \<and> ts_mode s \<notin> {''fullaccess'', ''readonly''} \<and>
    ts_persona_globs s = None \<and> fullaccess_denylist_match cmd = None \<and>
    (\<forall>tokens. shlex_split (py_lower (py_strip cmd)) = Inr tokens \<longrightarrow> \<not> removes_recursively tokens) \<and>
    (\<exists>us i info' t0 vs t1 t2 ys.
       ops = us @ RequestRegister i sid info' t0 # vs @ Resolve sid i True True t1 t2 # ys \<and>
       is_ok (fst (resolve sid i True True t1 t2
         (run broker_apply (us @ RequestRegister i sid info' t0 # vs) (new_broker timeout retention m)))) \<and>
       (\<forall>rq'. approval_session_scope_for_request sha rq' = Inr info' \<longrightarrow>
          request_kind rq' = tool \<and> (rq_command rq' \<noteq> PNone \<longrightarrow> sha (py_str (rq_command rq')) = sha cmd)))"
proof -
  note asked_for = guard_shell_asks [OF assms(1,2)]
  then have rq: "rq = command_request sha cmd tool" by blast
  have supported: "sc_supported info"
    using assms(4) by (auto simp: request_check_def allowance_key_def Let_def split: if_splits option.splits)
  note kind = command_request_scope [OF assms(3) [unfolded rq] supported]
  obtain us i info' t0 vs t1 t2 ys where
    t: "ops = us @ RequestRegister i sid info' t0 # vs @ Resolve sid i True True t1 t2 # ys"
      "is_ok (fst (resolve sid i True True t1 t2
         (run broker_apply (us @ RequestRegister i sid info' t0 # vs) (new_broker timeout retention m))))"
      "sc_key info' = sc_key info" "sc_supported info'"
    by (rule remembered_yes_traced [OF assms(4)])
  have "request_kind rq' = tool \<and> (rq_command rq' \<noteq> PNone \<longrightarrow> sha (py_str (rq_command rq')) = sha cmd)"
    if "approval_session_scope_for_request sha rq' = Inr info'" for rq'
    using session_key_binds_command [OF assms(3) supported that t(4) t(3) [symmetric]] kind
    by (auto simp: rq command_request_def py_str_def)
  with t(1,2) asked_for allowed_not_removal show ?thesis by blast
qed

theorem remembered_yes_covers_one_command_witness:
  "\<exists>us i info' t0 vs t1 t2 ys.
     allowed_ops = us @ RequestRegister i ''s'' info' t0 # vs @ Resolve ''s'' i True True t1 t2 # ys \<and>
     is_ok (fst (resolve ''s'' i True True t1 t2
       (run broker_apply (us @ RequestRegister i ''s'' info' t0 # vs) fresh_broker)))"
proof -
  let ?rq = "command_request sample_sha ''ls'' ''shell_run''"
  have g: "guard_shell sample_sha (\<lambda>_. deny) (sample_session ''review'') ''ls'' ''shell_run'' =
      ([?rq], Inl (Declined ''shell_run''))"
    by code_simp
  have asks: "?rq \<in> set [?rq]" by simp
  have scope: "approval_session_scope_for_request sample_sha ?rq = Inr shell_scope" by code_simp
  have "fst (request_check ''s'' shell_scope 9 (run broker_apply allowed_ops (new_broker 120 300 512))) =
      Some \<lparr>dec_allow = True, dec_session = True\<rparr>"
    by code_simp
  from remembered_yes_covers_one_command [OF g asks scope this] show ?thesis
    unfolding fresh_broker_def by blast
qed

end
