(* ===== verification/ScratchPaths.thy ===== *)
theory ScratchPaths
  imports TaskScope
begin

text \<open>
  Scratch output that may be deleted outside a task's scope, \<open>is_non_material_untracked_path\<close> of
  \<open>task_scope.py\<close>: build metadata, and in the root directory command transcripts and hidden state
  files, recognised by name.
\<close>

definition NON_MATERIAL_ROOT_SCRATCH_FILENAMES :: "string list" where
  "NON_MATERIAL_ROOT_SCRATCH_FILENAMES =
     [''command_output.txt'', ''output.txt'', ''pip_err.txt'', ''pip_install_out.txt'', ''pip_log.txt'',
      ''pip_out.txt'', ''pip_output.txt'', ''pytest_output.txt'', ''pytest_results.txt'',
      ''shell_output.txt'', ''stderr.txt'', ''stdout.txt'', ''test_output.txt'', ''test_results.txt'',
      ''wheel_log.txt'', ''wheel_output.txt'']"

definition NON_MATERIAL_ROOT_SCRATCH_SUFFIXES :: "string list" where
  "NON_MATERIAL_ROOT_SCRATCH_SUFFIXES =
     [''-output.txt'', ''-results.txt'', ''_output.txt'', ''_results.txt'', ''.log'']"

text \<open>\<open>p.fullmatch(s)\<close>: some match from the start ends at the end.\<close>

definition rx_fullmatch :: "rx \<Rightarrow> string \<Rightarrow> bool" where
  "rx_fullmatch r s = list_ex (\<lambda>p. snd p = []) (rx_ends r (None, s))"

definition r_lits :: "string list \<Rightarrow> rx" where
  "r_lits ws = r_alt (map r_lit ws)"

definition dash_char :: "char \<Rightarrow> bool" where
  "dash_char c = (c = CHR ''_'' \<or> c = CHR ''-'')"

definition slug_char :: "char \<Rightarrow> bool" where
  "slug_char c = (is_ascii_lower c \<or> is_digit c \<or> dash_char c)"

definition r_digits :: rx where "r_digits = RMany is_digit 1 None"

definition r_dash :: rx where "r_dash = RClass dash_char"

definition NON_MATERIAL_ROOT_SCRATCH_RE :: rx where
  "NON_MATERIAL_ROOT_SCRATCH_RE =
     RAlt
       (r_seq
         [r_lits [''pytest'', ''test'', ''shell'', ''command'', ''run'', ''stdout'', ''stderr'', ''debug'',
            ''diagnostic'', ''tmp'', ''temp'', ''pip'', ''uv'', ''poetry'', ''python'', ''wheel'', ''build'',
            ''install'', ''package'', ''npm'', ''pnpm'', ''yarn'', ''node'', ''cargo'', ''go''],
          r_dash,
          r_alt [r_lits [''out'', ''output'', ''stdout'', ''stderr'', ''err'', ''error'', ''errors'', ''log'',
                   ''logs'', ''full'', ''result'', ''results'', ''dump''],
                 r_seq [r_lit ''lines'', r_dash, r_lit ''dump''],
                 r_seq [r_lit ''install'', r_dash, r_lit ''out'']],
          r_opt r_digits, r_lit ''.txt''])
       (r_seq
         [r_lit ''_'',
          r_alt
            [r_seq
               [r_lits [''tmp'', ''temp'', ''debug'', ''diag'', ''diagnostic'', ''out'', ''output'', ''content'',
                  ''pytest'', ''test''],
                r_opt (r_alt [r_digits,
                  r_seq [r_dash, RClass (\<lambda>c. is_ascii_lower c \<or> is_digit c), RMany slug_char 0 None]])],
             r_seq [r_lit ''d'', r_digits]],
          r_lit ''.txt''])"

definition NON_MATERIAL_ROOT_STATE_FILE_RE :: rx where
  "NON_MATERIAL_ROOT_STATE_FILE_RE =
     r_seq
       [r_lit ''.'', RMany slug_char 0 None,
        r_lits [''state'', ''data'', ''db'', ''store'', ''storage'', ''cache'', ''habit'', ''habits'',
          ''todo'', ''todos'', ''task'', ''tasks'', ''note'', ''notes'', ''item'', ''items''],
        RMany slug_char 0 None, r_lit ''.json'']"

text \<open>\<open>PurePosixPath(p).parts\<close>: an absolute path starts with its root.\<close>

definition posix_parts :: "string \<Rightarrow> string list" where
  "posix_parts p = (if py_startswith p ''/'' then ''/'' # pure_parts p else pure_parts p)"

definition is_non_material_untracked_path :: "string \<Rightarrow> bool" where
  "is_non_material_untracked_path path =
     (let normalized = rstrip_slash (scope_normalize_path path);
          parts = posix_parts normalized;
          name = py_casefold (pure_name normalized) in
      if normalized = [] then False
      else if list_ex (\<lambda>part. py_endswith part ''.egg-info'') parts then True
      else if length parts \<noteq> 1 then False
      else name \<in> set NON_MATERIAL_ROOT_SCRATCH_FILENAMES \<or>
           list_ex (py_endswith name) NON_MATERIAL_ROOT_SCRATCH_SUFFIXES \<or>
           rx_fullmatch NON_MATERIAL_ROOT_SCRATCH_RE name \<or>
           rx_fullmatch NON_MATERIAL_ROOT_STATE_FILE_RE name)"

lemma non_material_shape:
  "is_non_material_untracked_path path \<Longrightarrow>
     list_ex (\<lambda>part. py_endswith part ''.egg-info'') (posix_parts (rstrip_slash (scope_normalize_path path))) \<or>
     length (posix_parts (rstrip_slash (scope_normalize_path path))) = 1"
  by (auto simp: is_non_material_untracked_path_def Let_def split: if_splits)

end
