(* ===== verification/DiffPaths.thy ===== *)
theory DiffPaths
  imports Shlex
begin

text \<open>
  The paths a patch names, \<open>diff_paths.py\<close>: what the write guards and the approval of
  \<open>git_apply_patch\<close> take for the files the patch changes.
\<close>

section \<open>Text operations\<close>

definition is_line_break :: "char \<Rightarrow> bool" where
  "is_line_break c =
     (code c = 10 \<or> code c = 13 \<or> code c = 11 \<or> code c = 12 \<or> code c = 28 \<or> code c = 29 \<or>
      code c = 30 \<or> code c = 133)"

lemma is_line_break_icode [code]:
  "is_line_break c =
     (let n = icode c in (10 \<le> n \<and> n \<le> 13) \<or> (28 \<le> n \<and> n \<le> 30) \<or> n = 133)"
  by (auto simp: is_line_break_def icode_code Let_def)

text \<open>\<open>s.splitlines()\<close>.\<close>

fun py_splitlines :: "string \<Rightarrow> string list" where
  "py_splitlines [] = []"
| "py_splitlines (c # cs) =
     (if is_line_break c then
        [] # (case cs of
                d # ds \<Rightarrow> if code c = 13 \<and> code d = 10 then py_splitlines ds else py_splitlines cs
              | [] \<Rightarrow> [])
      else (case py_splitlines cs of [] \<Rightarrow> [[c]] | l # ls \<Rightarrow> (c # l) # ls))"

text \<open>\<open>s.rsplit(sep, 1)\<close>, if it has two parts.\<close>

fun py_rsplit1 :: "string \<Rightarrow> string \<Rightarrow> (string \<times> string) option" where
  "py_rsplit1 sep [] = None"
| "py_rsplit1 sep (c # cs) =
     (case py_rsplit1 sep cs of
        Some (a, b) \<Rightarrow> Some (c # a, b)
      | None \<Rightarrow> if py_startswith (c # cs) sep then Some ([], drop (length sep) (c # cs)) else None)"

section \<open>Headers\<close>

definition unquote_path :: "string \<Rightarrow> string" where
  "unquote_path value =
     (let raw = py_strip value in
      if raw = [] then []
      else if hd raw = CHR 0x22 \<and> last raw = CHR 0x22 \<and> length raw \<ge> 2 then
        (case shlex_split raw of
           Inr (p # _) \<Rightarrow> p
         | _ \<Rightarrow> butlast (tl raw))
      else raw)"

definition normalize_git_path :: "string \<Rightarrow> string" where
  "normalize_git_path value =
     (let raw = unquote_path (py_strip value) in
      if py_startswith raw ''a/'' \<or> py_startswith raw ''b/'' then drop 2 raw else raw)"

definition parse_diff_git_line :: "string \<Rightarrow> (string \<times> string) option" where
  "parse_diff_git_line line =
     (if \<not> py_startswith line ''diff --git '' then None
      else
        let payload = py_strip (drop (length ''diff --git '') line);
            tokens = (case shlex_split payload of
                Inr (x # y # _) \<Rightarrow> Some (normalize_git_path x, normalize_git_path y)
              | _ \<Rightarrow> None) in
        if py_startswith payload ''a/'' then
          (case py_rsplit1 '' b/'' payload of
             Some (a_raw, b) \<Rightarrow> Some (normalize_git_path a_raw, normalize_git_path (''b/'' @ b))
           | None \<Rightarrow> tokens)
        else tokens)"

definition names_file :: "string \<Rightarrow> bool" where
  "names_file path = (path \<noteq> [] \<and> path \<noteq> ''/dev/null'')"

definition parse_patch_header_path :: "string \<Rightarrow> string \<Rightarrow> string option" where
  "parse_patch_header_path line prefix =
     (if \<not> py_startswith line prefix then None
      else
        let raw = py_strip (hd (py_split (char_of (9 :: nat)) (drop (length prefix) line))) in
        if raw = [] then None
        else
          let path = normalize_git_path raw in
          if names_file path then Some path else None)"

section \<open>The paths of a patch\<close>

definition diff_headers :: "string \<Rightarrow> (string \<times> string) list" where
  "diff_headers patch_text = List.map_filter parse_diff_git_line (py_splitlines patch_text)"

definition iter_patch_paths :: "string \<Rightarrow> string list" where
  "iter_patch_paths patch_text =
     (if diff_headers patch_text \<noteq> []
      then dedup (filter names_file (concat (map (\<lambda>(a, b). [a, b]) (diff_headers patch_text))))
      else dedup (concat (map (\<lambda>line.
             List.map_filter (parse_patch_header_path line) [''--- '', ''+++ '']) (py_splitlines patch_text))))"

definition parse_patch_changed_files :: "string \<Rightarrow> string list" where
  "parse_patch_changed_files patch_text =
     (if diff_headers patch_text \<noteq> []
      then dedup (filter names_file (map snd (diff_headers patch_text)))
      else dedup (List.map_filter (\<lambda>line. parse_patch_header_path line ''+++ '')
             (py_splitlines patch_text)))"

section \<open>What is found\<close>

lemma map_filter_set: "set (List.map_filter f xs) = {y. \<exists>x\<in>set xs. f x = Some y}"
  by (force simp: List.map_filter_def)

lemma header_names_file: "parse_patch_header_path line prefix = Some path \<Longrightarrow> names_file path"
  by (auto simp: parse_patch_header_path_def Let_def split: if_splits)

lemma iter_patch_paths_set:
  "set (iter_patch_paths t) =
     (if diff_headers t \<noteq> []
      then {p. names_file p \<and> (\<exists>a b. (a, b) \<in> set (diff_headers t) \<and> (p = a \<or> p = b))}
      else {p. \<exists>line\<in>set (py_splitlines t).
              parse_patch_header_path line ''--- '' = Some p \<or>
              parse_patch_header_path line ''+++ '' = Some p})"
proof (cases "diff_headers t = []")
  case True
  have "set (List.map_filter (parse_patch_header_path line) [''--- '', ''+++ '']) =
      {p. parse_patch_header_path line ''--- '' = Some p \<or> parse_patch_header_path line ''+++ '' = Some p}"
    for line by (subst map_filter_set) auto
  with True show ?thesis by (auto simp: iter_patch_paths_def)
next
  case False
  then show ?thesis by (auto simp: iter_patch_paths_def)
qed

lemma iter_paths_name_files: "p \<in> set (iter_patch_paths t) \<Longrightarrow> names_file p"
  by (cases "diff_headers t = []") (auto simp: iter_patch_paths_set dest: header_names_file)

lemma changed_in_iter: "set (parse_patch_changed_files t) \<subseteq> set (iter_patch_paths t)"
proof (cases "diff_headers t = []")
  case True
  then have "set (parse_patch_changed_files t) =
      {p. \<exists>line\<in>set (py_splitlines t). parse_patch_header_path line ''+++ '' = Some p}"
    by (simp add: parse_patch_changed_files_def map_filter_set)
  with True show ?thesis by (auto simp: iter_patch_paths_set)
next
  case False
  then have "set (parse_patch_changed_files t) = {p. names_file p \<and> (\<exists>a. (a, p) \<in> set (diff_headers t))}"
    by (force simp: parse_patch_changed_files_def)
  with False show ?thesis by (auto simp: iter_patch_paths_set)
qed

lemma iter_paths_distinct: "distinct (iter_patch_paths t)" "distinct (parse_patch_changed_files t)"
  by (simp_all add: iter_patch_paths_def parse_patch_changed_files_def)

lemma py_startswith_prefix [simp]: "py_startswith (p @ s) p"
  by (simp add: py_startswith_def)

text \<open>The last separator is the one after which none occurs.\<close>

lemma rsplit1_none: "\<not> py_contains sep s \<Longrightarrow> py_rsplit1 sep s = None"
  by (induction s) auto

lemma rsplit1_append:
  "py_rsplit1 sep t = Some (a, b) \<Longrightarrow> py_rsplit1 sep (s @ t) = Some (s @ a, b)"
  by (induction s) auto

lemma rsplit1_last:
  assumes "\<not> py_contains '' b/'' q"
  shows "py_rsplit1 '' b/'' (p @ '' b/'' @ q) = Some (p, q)"
proof -
  have "py_rsplit1 '' b/'' q = None" by (rule rsplit1_none) fact
  then have "py_rsplit1 '' b/'' ('' b/'' @ q) = Some ([], q)"
    by (simp add: py_startswith_def)
  from rsplit1_append [OF this, of p] show ?thesis by simp
qed

lemma unquote_plain: "raw \<noteq> [] \<Longrightarrow> py_strip raw = raw \<Longrightarrow> hd raw \<noteq> CHR 0x22 \<Longrightarrow> unquote_path raw = raw"
  by (simp add: unquote_path_def)

text \<open>A path as git prints it unquoted: it does not end in white space.\<close>

definition header_path :: "string \<Rightarrow> bool" where
  "header_path p = (p \<noteq> [] \<and> \<not> py_is_space (last p))"

lemma side_not_space [simp]:
  "\<not> py_is_space CHR ''a''" "\<not> py_is_space CHR ''b''" "\<not> py_is_space CHR ''d''"
  by (simp_all add: py_is_space_def code_def)

lemma normalize_side:
  assumes "header_path p" "x = CHR ''a'' \<or> x = CHR ''b''"
  shows "normalize_git_path (x # CHR ''/'' # p) = p"
proof -
  let ?raw = "x # CHR ''/'' # p"
  have "last ?raw = last p" using assms by (simp add: header_path_def)
  then have "py_strip ?raw = ?raw"
    using assms by (intro strip_ends_id) (auto simp: header_path_def)
  moreover from this have "unquote_path ?raw = ?raw"
    using assms(2) by (intro unquote_plain) auto
  ultimately show ?thesis
    using assms(2) by (auto simp: normalize_git_path_def py_startswith_def)
qed

lemma parse_diff_git_header:
  assumes "header_path p" "header_path q" "\<not> py_contains '' b/'' q"
  shows "parse_diff_git_line (''diff --git a/'' @ p @ '' b/'' @ q) = Some (p, q)"
proof -
  let ?payload = "''a/'' @ p @ '' b/'' @ q"
  have line: "''diff --git a/'' @ p @ '' b/'' @ q = ''diff --git '' @ ?payload" by simp
  have "last ?payload = last q" using assms(2) by (simp add: header_path_def)
  then have strip: "py_strip ?payload = ?payload"
    using assms(2) by (intro strip_ends_id) (auto simp: header_path_def)
  have split: "py_rsplit1 '' b/'' ?payload = Some (''a/'' @ p, q)"
    using rsplit1_last [OF assms(3), of "''a/'' @ p"] by simp
  show ?thesis
    unfolding line parse_diff_git_line_def Let_def
    using strip split assms normalize_side [of p "CHR ''a''"] normalize_side [of q "CHR ''b''"]
    by (simp add: py_startswith_def)
qed

text \<open>
  The files a git patch names are found: every header line \<open>diff --git a/p b/q\<close> whose paths do not
  end in white space, with no other \<open> b/\<close> in the second, puts both paths on the list, and the new one
  among the changed files. Every path listed names a file, none is listed twice, and the changed files
  are among them. A patch without such a line lists what its \<open>---\<close> and \<open>+++\<close> lines name.
\<close>

theorem patch_paths_cover_headers:
  assumes "''diff --git a/'' @ p @ '' b/'' @ q \<in> set (py_splitlines t)"
    and "header_path p" "header_path q" "\<not> py_contains '' b/'' q"
    and "names_file p" "names_file q"
  shows "p \<in> set (iter_patch_paths t) \<and> q \<in> set (iter_patch_paths t) \<and>
    q \<in> set (parse_patch_changed_files t) \<and>
    set (parse_patch_changed_files t) \<subseteq> set (iter_patch_paths t) \<and>
    distinct (iter_patch_paths t) \<and> list_all names_file (iter_patch_paths t)"
proof -
  have pq: "(p, q) \<in> set (diff_headers t)"
    using assms(1) parse_diff_git_header [OF assms(2-4)]
    by (force simp: diff_headers_def map_filter_set)
  then have "diff_headers t \<noteq> []" by auto
  with pq assms(5,6) have "p \<in> set (iter_patch_paths t)" "q \<in> set (iter_patch_paths t)"
    by (auto simp: iter_patch_paths_set)
  moreover have "q \<in> set (parse_patch_changed_files t)"
    using pq assms(6) \<open>diff_headers t \<noteq> []\<close> by (force simp: parse_patch_changed_files_def)
  ultimately show ?thesis
    using changed_in_iter iter_paths_distinct iter_paths_name_files by (simp add: list_all_iff)
qed

definition patch_text :: "string list \<Rightarrow> string" where
  "patch_text ls = concat (map (\<lambda>l. l @ [CHR 0x0A]) ls)"

lemma splitlines_line:
  assumes "list_all (\<lambda>c. \<not> is_line_break c) l"
  shows "py_splitlines (l @ CHR 0x0A # s) = l # py_splitlines s"
  using assms
proof (induction l)
  case Nil
  have "is_line_break CHR 0x0A" "code CHR 0x0A = 10" by (simp_all add: is_line_break_def code_def)
  then show ?case by (cases s) simp_all
qed simp

lemma splitlines_patch_text:
  "list_all (list_all (\<lambda>c. \<not> is_line_break c)) ls \<Longrightarrow> py_splitlines (patch_text ls) = ls"
  by (induction ls) (simp_all add: patch_text_def splitlines_line)

definition mixed_lines :: "string list" where
  "mixed_lines =
     [''diff --git a/docs/x.md b/docs/x.md'', ''--- a/docs/x.md'', ''+++ b/docs/x.md'',
      ''@@ -1 +1 @@'', ''-a'', ''+b'',
      ''--- a/src/core.py'', ''+++ b/src/core.py'', ''@@ -1 +1 @@'', ''-c'', ''+d'']"

lemma mixed_headers: "diff_headers (patch_text mixed_lines) = [(''docs/x.md'', ''docs/x.md'')]"
proof -
  have "py_splitlines (patch_text mixed_lines) = mixed_lines"
    by (rule splitlines_patch_text) code_simp
  moreover have "List.map_filter parse_diff_git_line mixed_lines = [(''docs/x.md'', ''docs/x.md'')]"
    by code_simp
  ultimately show ?thesis by (simp add: diff_headers_def)
qed

theorem patch_paths_cover_headers_witness:
  "''src/a b.py'' \<in> set (iter_patch_paths (patch_text [''diff --git a/src/a b.py b/src/c.py'', ''x'']))"
proof -
  have "''diff --git a/'' @ ''src/a b.py'' @ '' b/'' @ ''src/c.py''
      \<in> set (py_splitlines (patch_text [''diff --git a/src/a b.py b/src/c.py'', ''x'']))"
    by code_simp
  moreover have "header_path ''src/a b.py''" "header_path ''src/c.py''"
      "\<not> py_contains '' b/'' ''src/c.py''" "names_file ''src/a b.py''" "names_file ''src/c.py''"
    by code_simp+
  ultimately show ?thesis by (rule patch_paths_cover_headers [THEN conjunct1])
qed

lemma mixed_paths:
  "iter_patch_paths (patch_text mixed_lines) = [''docs/x.md'']"
  "parse_patch_changed_files (patch_text mixed_lines) = [''docs/x.md'']"
  by (simp_all add: iter_patch_paths_def parse_patch_changed_files_def mixed_headers names_file_def)

text \<open>
  One git header hides all others: as soon as any line is a \<open>diff --git\<close> header, only such headers
  are read, so a section that follows in the traditional format, with its own \<open>---\<close> and \<open>+++\<close> lines,
  changes a file that the list does not name and that no scope check or approval preview sees.
\<close>

theorem mixed_patch_hides_files:
  "(\<forall>t. diff_headers t \<noteq> [] \<longrightarrow>
      set (iter_patch_paths t) \<subseteq> (\<Union>(a, b)\<in>set (diff_headers t). {a, b})) \<and>
   iter_patch_paths (patch_text mixed_lines) = [''docs/x.md''] \<and>
   parse_patch_changed_files (patch_text mixed_lines) = [''docs/x.md''] \<and>
   List.map_filter (\<lambda>line. parse_patch_header_path line ''+++ '') mixed_lines =
     [''docs/x.md'', ''src/core.py'']"
proof (intro conjI)
  show "\<forall>t. diff_headers t \<noteq> [] \<longrightarrow>
      set (iter_patch_paths t) \<subseteq> (\<Union>(a, b)\<in>set (diff_headers t). {a, b})"
    by (force simp: iter_patch_paths_set)
  show "iter_patch_paths (patch_text mixed_lines) = [''docs/x.md'']"
    "parse_patch_changed_files (patch_text mixed_lines) = [''docs/x.md'']"
    by (simp_all add: mixed_paths)
  show "List.map_filter (\<lambda>line. parse_patch_header_path line ''+++ '') mixed_lines =
      [''docs/x.md'', ''src/core.py'']"
    by code_simp
qed

theorem mixed_patch_hides_files_witness:
  "set (iter_patch_paths (patch_text [''diff --git a/x b/x'', ''+++ b/y''])) \<subseteq> {''x''}"
proof -
  have "diff_headers (patch_text [''diff --git a/x b/x'', ''+++ b/y'']) = [(''x'', ''x'')]"
    by code_simp
  then show ?thesis
    using mixed_patch_hides_files [THEN conjunct1, rule_format,
        of "patch_text [''diff --git a/x b/x'', ''+++ b/y'']"] by simp
qed

end
