(* ===== verification/WriteGuard.thy ===== *)
theory WriteGuard
  imports ScopeMatch ScratchPaths DiffPaths Machines
begin

text \<open>
  The write-scope guard of a swarm worker, \<open>swarm_write_guard.py\<close>: every tool call is checked before
  the tool runs, writes outside the task's scope raise and are recorded.

  The file system is a parameter. \<open>gf_resolve\<close> is \<open>Path(p).resolve()\<close> on an absolute path text, as
  the list of its segments; \<open>gf_is_symlink\<close> is \<open>is_symlink()\<close> of the path that a list of parts names
  under the work tree, \<open>None\<close> when it raises \<open>OSError\<close>; \<open>gf_tree\<close> is the tree under the root. The tool
  layer's path resolver is a parameter too: it answers with a message or a relative path.
\<close>

record guard_fs =
  gf_resolve :: "string \<Rightarrow> string list"
  gf_is_symlink :: "string list \<Rightarrow> bool option"
  gf_tree :: repo_files

record write_violation =
  wv_tool :: string
  wv_raw_path :: string
  wv_reason :: string
  wv_detail :: string
  wv_relpath :: "string option"

record write_guard =
  wg_root :: "string list"
  wg_patterns :: "string list"
  wg_extra_roots :: "string list list"
  wg_case_insensitive :: bool
  wg_ancestors_cf :: "string list"
  wg_violations :: "write_violation list"

type_synonym path_resolver = "(pyval \<Rightarrow> pyval \<Rightarrow> string \<Rightarrow> string \<Rightarrow> string + string) option"

definition to_payload :: "write_violation \<Rightarrow> pyval" where
  "to_payload v = PDict
     [(KStr ''kind'', PStr ''write_scope_guard_violation''), (KStr ''tool'', PStr (wv_tool v)),
      (KStr ''path'', PStr (wv_raw_path v)),
      (KStr ''resolved_relpath'', case wv_relpath v of None \<Rightarrow> PNone | Some p \<Rightarrow> PStr p),
      (KStr ''reason'', PStr (wv_reason v)), (KStr ''detail'', PStr (wv_detail v))]"

definition WRITE_TOOL_PATH_FIELDS :: "(string \<times> (string \<times> string) list) list" where
  "WRITE_TOOL_PATH_FIELDS =
     [(''fs_write'', [(''path'', ''path_base'')]), (''fs_edit'', [(''path'', ''path_base'')]),
      (''fs_mkdir'', [(''path'', ''path_base'')]), (''fs_delete'', [(''path'', ''path_base'')]),
      (''fs_move'', [(''source_path'', ''source_path_base''),
                   (''destination_path'', ''destination_path_base'')]),
      (''fs_copy'', [(''destination_path'', ''destination_path_base'')])]"

definition PATCH_TOOL_NAMES :: "string list" where
  "PATCH_TOOL_NAMES = [''git_apply_patch'']"

definition normalize_slashes :: "string \<Rightarrow> string" where
  "normalize_slashes v = py_strip (back_to_slash v)"

definition absolute_text :: "string list \<Rightarrow> string" where
  "absolute_text segs = ''/'' @ py_join ''/'' segs"

text \<open>The constructor; the patterns are stripped and blank ones dropped, the roots are resolved.\<close>

definition new_write_guard ::
    "guard_fs \<Rightarrow> string \<Rightarrow> pyval list \<Rightarrow> string list \<Rightarrow> bool \<Rightarrow> py_exc + write_guard" where
  "new_write_guard fs worktree_root allowed_patterns extra_allowed_roots case_insensitive =
     (let patterns = filter (\<lambda>t. t \<noteq> []) (map (\<lambda>item. py_strip (py_str item)) allowed_patterns) in
      res_bind (ancestor_directory_scope_patterns (Some (gf_tree fs)) patterns) (\<lambda>ancestors.
        Inr \<lparr>wg_root = gf_resolve fs worktree_root, wg_patterns = patterns,
             wg_extra_roots = map (gf_resolve fs) extra_allowed_roots,
             wg_case_insensitive = case_insensitive,
             wg_ancestors_cf = map (\<lambda>p. py_casefold (normalize_slashes p)) ancestors,
             wg_violations = []\<rparr>))"

section \<open>Where a target lies\<close>

text \<open>The path relative to the root; on a case-insensitive system the texts are compared folded.\<close>

definition relative_to_root :: "write_guard \<Rightarrow> string list \<Rightarrow> string option" where
  "relative_to_root g path =
     (case strip_segments (wg_root g) path of
        Some segs \<Rightarrow> Some (path_of segs)
      | None \<Rightarrow>
          if \<not> wg_case_insensitive g then None
          else
            let text = back_to_slash (absolute_text path);
                path_cf = py_casefold text;
                root_cf = rstrip_slash (py_casefold (back_to_slash (absolute_text (wg_root g)))) in
            if path_cf = root_cf then Some ''.''
            else if py_startswith path_cf (root_cf @ ''/'') then Some (drop (length root_cf + 1) text)
            else None)"

definition is_under_extra_allowed_root :: "write_guard \<Rightarrow> string list \<Rightarrow> bool" where
  "is_under_extra_allowed_root g resolved =
     list_ex (\<lambda>allowed_root. strip_segments allowed_root resolved \<noteq> None) (wg_extra_roots g)"

text \<open>The loop over the parts, with the parts walked so far.\<close>

fun symlink_walk :: "guard_fs \<Rightarrow> string list \<Rightarrow> string list \<Rightarrow> string option" where
  "symlink_walk fs walked [] = None"
| "symlink_walk fs walked (part # parts) =
     (case gf_is_symlink fs (walked @ [part]) of
        None \<Rightarrow> None
      | Some True \<Rightarrow> Some (path_of (walked @ [part]))
      | Some False \<Rightarrow> symlink_walk fs (walked @ [part]) parts)"

definition first_symlink_component :: "guard_fs \<Rightarrow> string \<Rightarrow> string option" where
  "first_symlink_component fs rel = symlink_walk fs [] (posix_parts rel)"

definition matches_casefolded :: "guard_fs \<Rightarrow> string \<Rightarrow> string \<Rightarrow> bool" where
  "matches_casefolded fs rel_cf pattern =
     (let pattern_cf = py_casefold (rstrip_slash (normalize_slashes pattern)) in
      if pattern_cf = [] then False
      else if has_glob pattern_cf then
        list_ex (fnmatchcase rel_cf)
          (pattern_cf # (if py_contains ''/**/'' pattern_cf
                         then [py_replace ''/**/'' ''/'' pattern_cf] else []))
      else if rel_cf = pattern_cf then True
      else rf_is_dir (gf_tree fs) pattern \<and> py_startswith rel_cf (pattern_cf @ ''/''))"

definition rel_path_in_scope :: "write_guard \<Rightarrow> guard_fs \<Rightarrow> string \<Rightarrow> string \<Rightarrow> bool" where
  "rel_path_in_scope g fs rel tool =
     (let rel_clean = rstrip_slash (normalize_slashes rel);
          rel_cf = py_casefold rel_clean in
      if rel_clean = [] then False
      else if tool = ''fs_delete'' \<and> is_non_material_untracked_path rel_clean then True
      else if tool = ''fs_mkdir'' \<and> rel_cf \<in> set (wg_ancestors_cf g) then True
      else if list_ex (scope_path_matches_pattern (Some (gf_tree fs)) rel_clean) (wg_patterns g) then True
      else wg_case_insensitive g \<and> list_ex (matches_casefolded fs rel_cf) (wg_patterns g))"

section \<open>Checking a target\<close>

definition violation :: "string \<Rightarrow> string \<Rightarrow> string \<Rightarrow> string \<Rightarrow> string option \<Rightarrow> write_violation" where
  "violation tool raw reason detail rel =
     \<lparr>wv_tool = tool, wv_raw_path = raw, wv_reason = reason, wv_detail = detail, wv_relpath = rel\<rparr>"

definition scope_preview :: "write_guard \<Rightarrow> string" where
  "scope_preview g =
     (let shown = py_join '', '' (take 8 (wg_patterns g)) in
      if shown = [] then ''(empty write scope)'' else shown)"

definition candidate_path :: "write_guard \<Rightarrow> string \<Rightarrow> string" where
  "candidate_path g rel =
     (if py_startswith rel ''/'' then rel
      else absolute_text (wg_root g) @ (if wg_root g = [] then [] else ''/'') @ rel)"

text \<open>The second half: the target is the path \<open>rel\<close> below the root.\<close>

definition check_relative ::
    "write_guard \<Rightarrow> guard_fs \<Rightarrow> string \<Rightarrow> string \<Rightarrow> string \<Rightarrow> write_violation option" where
  "check_relative g fs tool raw rel =
     (let resolved = gf_resolve fs (candidate_path g rel) in
      case first_symlink_component fs rel of
        Some component \<Rightarrow>
          Some (violation tool raw ''symlink_component''
            (''write path passes through a symlink ('' @ component @
             ''); symlinked write targets are rejected.'') (Some rel))
      | None \<Rightarrow>
          if is_under_extra_allowed_root g resolved then None
          else if relative_to_root g resolved = None then
            Some (violation tool raw ''path_escape''
              ''write target resolves outside the task worktree.'' (Some rel))
          else if rel_path_in_scope g fs rel tool then None
          else Some (violation tool raw ''out_of_scope''
            (''write target is outside the task write scope: '' @ scope_preview g @ ''.'') (Some rel)))"

definition check_target ::
    "write_guard \<Rightarrow> guard_fs \<Rightarrow> string \<Rightarrow> string \<Rightarrow> string option \<Rightarrow> write_violation option" where
  "check_target g fs tool raw resolved_rel =
     (let raw_text = normalize_slashes raw in
      if char_of (0 :: nat) \<in> set raw_text then
        Some (violation tool raw ''invalid_path'' ''write target contains a NUL byte.'' None)
      else if ''..'' \<in> set (posix_parts raw_text) then
        Some (violation tool raw ''parent_traversal'' ''write targets must not contain '..' components.'' None)
      else if py_startswith raw_text ''/'' then
        (let resolved_abs = gf_resolve fs raw_text in
         if is_under_extra_allowed_root g resolved_abs then None
         else (case relative_to_root g resolved_abs of
             None \<Rightarrow> Some (violation tool raw ''path_escape''
                       ''absolute write target resolves outside the task worktree.'' None)
           | Some rel \<Rightarrow> check_relative g fs tool raw rel))
      else
        check_relative g fs tool raw
          (drop_dot_slash (case resolved_rel of
             Some r \<Rightarrow> if r = [] then raw_text else normalize_slashes r
           | None \<Rightarrow> raw_text)))"

section \<open>Checking a call\<close>

definition record_violation :: "write_violation \<Rightarrow> write_guard \<Rightarrow> write_guard" where
  "record_violation v g = g\<lparr>wg_violations := wg_violations g @ [v]\<rparr>"

definition blocked_message :: "write_violation \<Rightarrow> string" where
  "blocked_message v =
     ''Write blocked by the swarm write-scope guard ('' @ wv_reason v @ ''): '' @ wv_raw_path v @ ''. '' @
     wv_detail v"

text \<open>One target: a violation is recorded and raised.\<close>

definition admit ::
    "guard_fs \<Rightarrow> string \<Rightarrow> string \<Rightarrow> string option \<Rightarrow> write_guard \<Rightarrow> write_guard \<times> (string + unit)" where
  "admit fs tool raw rel g =
     (case check_target g fs tool raw rel of
        None \<Rightarrow> (g, Inr ())
      | Some v \<Rightarrow> (record_violation v g, Inl (blocked_message v)))"

text \<open>The paths of a patch, in order; the first violation ends the loop.\<close>

fun check_paths :: "guard_fs \<Rightarrow> string \<Rightarrow> string list \<Rightarrow> write_guard \<Rightarrow> write_guard \<times> (string + unit)" where
  "check_paths fs tool [] g = (g, Inr ())"
| "check_paths fs tool (raw # raws) g =
     (case admit fs tool raw None g of
        (g', Inl e) \<Rightarrow> (g', Inl e)
      | (g', Inr _) \<Rightarrow> check_paths fs tool raws g')"

text \<open>The path arguments of a write tool, each resolved when its turn comes.\<close>

fun check_fields ::
    "guard_fs \<Rightarrow> path_resolver \<Rightarrow> string \<Rightarrow> (pykey \<times> pyval) list \<Rightarrow> (string \<times> string) list \<Rightarrow>
     write_guard \<Rightarrow> write_guard \<times> (string + unit)" where
  "check_fields fs resolver tool args [] g = (g, Inr ())"
| "check_fields fs resolver tool args ((path_field, base_field) # specs) g =
     (let raw = dget args path_field in
      if raw = PNone \<or> py_strip (py_str raw) = [] then check_fields fs resolver tool args specs g
      else (case (case resolver of
                    None \<Rightarrow> Inr None
                  | Some resolve \<Rightarrow>
                      map_sum id Some (resolve raw (dget args base_field) path_field base_field)) of
          Inl message \<Rightarrow>
            (record_violation (violation tool (py_str raw) ''path_escape''
               (''tool path resolution rejected the target: '' @ message) None) g,
             Inl (''Write blocked by the swarm write-scope guard (path_escape): '' @ py_str raw @ ''. '' @
                  message))
        | Inr rel \<Rightarrow>
            (case admit fs tool (py_str raw) rel g of
               (g', Inl e) \<Rightarrow> (g', Inl e)
             | (g', Inr _) \<Rightarrow> check_fields fs resolver tool args specs g')))"

definition check_tool_call ::
    "guard_fs \<Rightarrow> path_resolver \<Rightarrow> string \<Rightarrow> (pykey \<times> pyval) list \<Rightarrow> write_guard \<Rightarrow>
     write_guard \<times> (string + unit)" where
  "check_tool_call fs resolver tool args g =
     (if tool \<in> set PATCH_TOOL_NAMES then
        check_paths fs tool (iter_patch_paths (str_or (dget args ''patch'') [])) g
      else (case map_of WRITE_TOOL_PATH_FIELDS tool of
          None \<Rightarrow> (g, Inr ())
        | Some specs \<Rightarrow> check_fields fs resolver tool args specs g))"

section \<open>What is admitted\<close>

text \<open>The path below the root that a target is checked as, when it is not under an extra root.\<close>

definition target_relpath :: "write_guard \<Rightarrow> guard_fs \<Rightarrow> string \<Rightarrow> string option \<Rightarrow> string option" where
  "target_relpath g fs raw resolved_rel =
     (let raw_text = normalize_slashes raw in
      if py_startswith raw_text ''/'' then relative_to_root g (gf_resolve fs raw_text)
      else Some (drop_dot_slash (case resolved_rel of
             Some r \<Rightarrow> if r = [] then raw_text else normalize_slashes r
           | None \<Rightarrow> raw_text)))"

text \<open>A relative path the scope allows: a claimed pattern, or one of the two carve-outs.\<close>

definition scope_allows :: "write_guard \<Rightarrow> guard_fs \<Rightarrow> string \<Rightarrow> string \<Rightarrow> bool" where
  "scope_allows g fs tool rel \<longleftrightarrow>
     (let p = rstrip_slash (normalize_slashes rel) in
      p \<noteq> [] \<and>
      ((\<exists>pattern\<in>set (wg_patterns g). scope_path_matches_pattern (Some (gf_tree fs)) p pattern \<or>
          wg_case_insensitive g \<and> matches_casefolded fs (py_casefold p) pattern) \<or>
       tool = ''fs_delete'' \<and> is_non_material_untracked_path p \<or>
       tool = ''fs_mkdir'' \<and> py_casefold p \<in> set (wg_ancestors_cf g)))"

lemma scope_allows_iff: "rel_path_in_scope g fs rel tool \<longleftrightarrow> scope_allows g fs tool rel"
  by (auto simp: rel_path_in_scope_def scope_allows_def Let_def list_ex_iff)

text \<open>Where an admitted target may land.\<close>

definition target_lands :: "write_guard \<Rightarrow> guard_fs \<Rightarrow> string \<Rightarrow> string \<Rightarrow> string option \<Rightarrow> bool" where
  "target_lands g fs tool raw resolved_rel \<longleftrightarrow>
     py_startswith (normalize_slashes raw) ''/'' \<and>
       is_under_extra_allowed_root g (gf_resolve fs (normalize_slashes raw)) \<or>
     (\<exists>rel. target_relpath g fs raw resolved_rel = Some rel \<and> first_symlink_component fs rel = None \<and>
        (is_under_extra_allowed_root g (gf_resolve fs (candidate_path g rel)) \<or>
         relative_to_root g (gf_resolve fs (candidate_path g rel)) \<noteq> None \<and> scope_allows g fs tool rel))"

lemma check_relative_None:
  "check_relative g fs tool raw rel = None \<longleftrightarrow>
     first_symlink_component fs rel = None \<and>
     (is_under_extra_allowed_root g (gf_resolve fs (candidate_path g rel)) \<or>
      relative_to_root g (gf_resolve fs (candidate_path g rel)) \<noteq> None \<and> scope_allows g fs tool rel)"
  by (auto simp: check_relative_def scope_allows_iff Let_def split: option.splits)

lemma check_target_None:
  "check_target g fs tool raw rel = None \<longleftrightarrow>
     char_of (0 :: nat) \<notin> set (normalize_slashes raw) \<and>
     ''..'' \<notin> set (posix_parts (normalize_slashes raw)) \<and> target_lands g fs tool raw rel"
proof (cases "char_of (0 :: nat) \<in> set (normalize_slashes raw) \<or>
    ''..'' \<in> set (posix_parts (normalize_slashes raw))")
  case True
  then show ?thesis by (auto simp: check_target_def Let_def)
next
  case False
  then show ?thesis
    by (cases "py_startswith (normalize_slashes raw) ''/''")
      (auto simp: check_target_def target_lands_def target_relpath_def Let_def check_relative_None
        split: option.splits)
qed

lemma check_target_tool: "check_target g fs tool raw rel = Some v \<Longrightarrow> wv_tool v = tool"
  by (auto simp: check_target_def check_relative_def violation_def Let_def
      split: if_splits option.splits)

section \<open>The targets of a call\<close>

definition field_targets ::
    "path_resolver \<Rightarrow> (pykey \<times> pyval) list \<Rightarrow> (string \<times> string) list \<Rightarrow> (string \<times> string option) list" where
  "field_targets resolver args specs =
     List.map_filter (\<lambda>(path_field, base_field).
       let raw = dget args path_field in
       if raw = PNone \<or> py_strip (py_str raw) = [] then None
       else Some (py_str raw,
         case resolver of
           None \<Rightarrow> None
         | Some resolve \<Rightarrow>
             (case resolve raw (dget args base_field) path_field base_field of
                Inl _ \<Rightarrow> None | Inr rel \<Rightarrow> Some rel))) specs"

text \<open>What a call would write: the paths of its patch, or its path arguments.\<close>

definition call_targets ::
    "path_resolver \<Rightarrow> string \<Rightarrow> (pykey \<times> pyval) list \<Rightarrow> (string \<times> string option) list" where
  "call_targets resolver tool args =
     (if tool \<in> set PATCH_TOOL_NAMES
      then map (\<lambda>p. (p, None)) (iter_patch_paths (str_or (dget args ''patch'') []))
      else (case map_of WRITE_TOOL_PATH_FIELDS tool of
          None \<Rightarrow> [] | Some specs \<Rightarrow> field_targets resolver args specs))"

lemma admit_Inr: "admit fs tool raw rel g = (g', Inr u) \<longleftrightarrow> g' = g \<and> check_target g fs tool raw rel = None"
  by (auto simp: admit_def split: option.splits)

lemma check_paths_Inr:
  "check_paths fs tool raws g = (g', Inr u) \<longleftrightarrow>
     g' = g \<and> list_all (\<lambda>raw. check_target g fs tool raw None = None) raws"
proof (induction raws)
  case (Cons raw raws)
  then show ?case
    by (cases "check_target g fs tool raw None") (auto simp: admit_def)
qed auto

lemma check_fields_Inr:
  "check_fields fs resolver tool args specs g = (g', Inr u) \<Longrightarrow>
     g' = g \<and> list_all (\<lambda>(raw, rel). check_target g fs tool raw rel = None) (field_targets resolver args specs)"
proof (induction specs)
  case (Cons spec specs)
  obtain pf bf where spec: "spec = (pf, bf)" by (cases spec)
  show ?case
    using Cons
    by (auto simp: spec Let_def field_targets_def admit_def
        split: if_splits sum.splits option.splits prod.splits)
qed (auto simp: field_targets_def)

section \<open>Refused calls are on record\<close>

text \<open>A sequence of tool calls; the worker carries on after a refusal.\<close>

type_synonym tool_call = "path_resolver \<times> string \<times> (pykey \<times> pyval) list"

fun guard_step :: "guard_fs \<Rightarrow> tool_call \<Rightarrow> write_guard \<Rightarrow> write_guard" where
  "guard_step fs (resolver, tool, args) g = fst (check_tool_call fs resolver tool args g)"

definition same_rules :: "write_guard \<Rightarrow> write_guard \<Rightarrow> bool" where
  "same_rules g h \<longleftrightarrow> wg_root h = wg_root g \<and> wg_patterns h = wg_patterns g \<and>
     wg_extra_roots h = wg_extra_roots g \<and> wg_case_insensitive h = wg_case_insensitive g \<and>
     wg_ancestors_cf h = wg_ancestors_cf g"

definition guard_le :: "write_guard \<Rightarrow> write_guard \<Rightarrow> bool" where
  "guard_le g h \<longleftrightarrow> same_rules g h \<and> (\<exists>vs. wg_violations h = wg_violations g @ vs)"

text \<open>The verdict depends on the rules only.\<close>

lemma same_rules_parts:
  assumes "same_rules g h"
  shows "relative_to_root h = relative_to_root g"
    and "is_under_extra_allowed_root h = is_under_extra_allowed_root g"
    and "rel_path_in_scope h = rel_path_in_scope g"
    and "scope_preview h = scope_preview g" and "candidate_path h = candidate_path g"
proof -
  have eqs: "wg_root h = wg_root g" "wg_patterns h = wg_patterns g"
    "wg_extra_roots h = wg_extra_roots g" "wg_case_insensitive h = wg_case_insensitive g"
    "wg_ancestors_cf h = wg_ancestors_cf g"
    using assms by (simp_all add: same_rules_def)
  show "relative_to_root h = relative_to_root g"
    "is_under_extra_allowed_root h = is_under_extra_allowed_root g"
    "rel_path_in_scope h = rel_path_in_scope g"
    "scope_preview h = scope_preview g" "candidate_path h = candidate_path g"
    unfolding relative_to_root_def is_under_extra_allowed_root_def rel_path_in_scope_def
      scope_preview_def candidate_path_def fun_eq_iff eqs by blast+
qed

lemma check_target_rules:
  assumes "same_rules g h"
  shows "check_target h fs tool raw rel = check_target g fs tool raw rel"
  unfolding check_target_def check_relative_def same_rules_parts [OF assms] by (rule refl)

lemma same_rules_record [simp]: "same_rules g (record_violation v g)"
  by (simp add: same_rules_def record_violation_def)

text \<open>A checked call leaves the guard as it is, or records the one violation it is refused for.\<close>

definition call_recorded :: "string \<Rightarrow> write_guard \<Rightarrow> write_guard \<times> (string + unit) \<Rightarrow> bool" where
  "call_recorded tool g res \<longleftrightarrow>
     (if is_ok (snd res) then fst res = g
      else \<exists>v. wv_tool v = tool \<and> fst res = record_violation v g)"

lemma admit_recorded: "call_recorded tool g (admit fs tool raw rel g)"
  by (auto simp: call_recorded_def admit_def split: option.splits dest: check_target_tool)

lemma recorded_violation:
  "call_recorded tool g (record_violation (violation tool raw reason detail rel) g, Inl e)"
  unfolding call_recorded_def
  by simp (rule exI [of _ "violation tool raw reason detail rel"], simp add: violation_def)

lemma recorded_then:
  "call_recorded tool g (rest g) \<Longrightarrow>
   call_recorded tool g (case admit fs tool raw rel g of
     (g', Inl e) \<Rightarrow> (g', Inl e) | (g', Inr u) \<Rightarrow> rest g')"
  using admit_recorded [of tool g fs raw rel] by (auto simp: admit_def split: option.splits)

lemma check_paths_recorded: "call_recorded tool g (check_paths fs tool raws g)"
  by (induction raws) (simp_all add: recorded_then, simp add: call_recorded_def)

lemma check_fields_recorded: "call_recorded tool g (check_fields fs resolver tool args specs g)"
proof (induction specs)
  case (Cons spec specs)
  obtain pf bf where spec: "spec = (pf, bf)" by (cases spec)
  show ?case
    by (simp add: spec Let_def Cons recorded_violation recorded_then split: sum.split option.split)
qed (simp add: call_recorded_def)

lemma check_tool_call_recorded: "call_recorded tool g (check_tool_call fs resolver tool args g)"
  by (auto simp: check_tool_call_def check_paths_recorded check_fields_recorded split: option.splits)
    (simp add: call_recorded_def)

lemma check_paths_rules:
  "same_rules g h \<Longrightarrow> snd (check_paths fs tool raws h) = snd (check_paths fs tool raws g)"
  by (induction raws) (auto simp: admit_def check_target_rules split: option.splits)

lemma check_fields_rules:
  "same_rules g h \<Longrightarrow>
     snd (check_fields fs resolver tool args specs h) = snd (check_fields fs resolver tool args specs g)"
proof (induction specs)
  case (Cons spec specs)
  then show ?case
    by (cases spec) (auto simp: Let_def admit_def check_target_rules split: sum.splits option.splits)
qed simp

lemma check_tool_call_rules:
  "same_rules g h \<Longrightarrow>
     snd (check_tool_call fs resolver tool args h) = snd (check_tool_call fs resolver tool args g)"
  by (auto simp: check_tool_call_def check_paths_rules check_fields_rules split: option.splits)

lemma guard_le_step: "guard_le g (guard_step fs call g)"
proof (cases call)
  case (fields resolver tool args)
  with check_tool_call_recorded [of tool g fs resolver args] show ?thesis
    by (auto simp: guard_le_def call_recorded_def record_violation_def same_rules_def split: if_splits)
qed

lemma same_rules_trans: "same_rules a b \<Longrightarrow> same_rules b c \<Longrightarrow> same_rules a c"
  by (simp add: same_rules_def)

interpretation wgm: monotone_machine "guard_step fs" "\<lambda>_. True" "\<lambda>_. True" guard_le for fs
proof unfold_locales
  fix x :: write_guard
  show "guard_le x x" by (simp add: guard_le_def same_rules_def)
next
  fix a b c :: write_guard
  assume "guard_le a b" "guard_le b c"
  then show "guard_le a c" by (auto simp: guard_le_def intro: same_rules_trans)
next
  fix call s
  show "guard_le s (guard_step fs call s)" by (rule guard_le_step)
qed

definition refused :: "guard_fs \<Rightarrow> write_guard \<Rightarrow> tool_call \<Rightarrow> bool" where
  "refused fs g call =
     (case call of (resolver, tool, args) \<Rightarrow> \<not> is_ok (snd (check_tool_call fs resolver tool args g)))"

lemma refused_call [simp]:
  "refused fs g (resolver, tool, args) \<longleftrightarrow> \<not> is_ok (snd (check_tool_call fs resolver tool args g))"
  by (simp add: refused_def)

lemma refused_rules: "same_rules g h \<Longrightarrow> refused fs h = refused fs g"
  by (auto simp: refused_def check_tool_call_rules fun_eq_iff)

text \<open>
  The guard fails closed: over any sequence of tool calls the violations on record are exactly
  one per refused call, in order and under that call's tool, and whether a call is refused depends
  only on the guard's rules, not on what happened before. So a task whose guard has no violations had
  no call refused.
\<close>

theorem violations_record_refusals:
  "wg_violations (run (guard_step fs) calls g) =
     wg_violations g @ drop (length (wg_violations g)) (wg_violations (run (guard_step fs) calls g)) \<and>
   map wv_tool (drop (length (wg_violations g)) (wg_violations (run (guard_step fs) calls g))) =
     map (\<lambda>call. fst (snd call)) (filter (refused fs g) calls)"
proof (induction calls arbitrary: g)
  case (Cons call calls)
  obtain resolver tool args where call: "call = (resolver, tool, args)" by (cases call)
  let ?g = "guard_step fs call g"
  have le: "guard_le g ?g" by (rule guard_le_step)
  then have "refused fs ?g = refused fs g" by (simp only: refused_rules guard_le_def)
  then have filter: "filter (refused fs ?g) calls = filter (refused fs g) calls" by simp
  obtain vs where vs: "wg_violations (run (guard_step fs) calls ?g) = wg_violations ?g @ vs"
    "map wv_tool vs = map (\<lambda>call. fst (snd call)) (filter (refused fs g) calls)"
    using Cons.IH [of ?g] unfolding filter by metis
  show ?case
    using check_tool_call_recorded [of tool g fs resolver args] vs
    by (cases "refused fs g call")
      (auto simp: call call_recorded_def record_violation_def)
qed simp

section \<open>Writes stay in scope\<close>

text \<open>What a constructed guard allows, in terms of what it was constructed from.\<close>

definition kept_patterns :: "pyval list \<Rightarrow> string list" where
  "kept_patterns allowed = filter (\<lambda>t. t \<noteq> []) (map (\<lambda>item. py_strip (py_str item)) allowed)"

text \<open>A directory above a claimed file, or above a support file that comes with one.\<close>

definition above_claimed_file :: "guard_fs \<Rightarrow> string list \<Rightarrow> string \<Rightarrow> bool" where
  "above_claimed_file fs claimed p \<longleftrightarrow>
     (\<exists>expanded q f n. expand_support_file_patterns (Some (gf_tree fs)) claimed = Inr expanded \<and> q \<in> set expanded \<and>
        normalize_repo_path_entry (\<lambda>_. False) True q = Some f \<and> \<not> has_glob f \<and> 0 < n \<and> n < length (pure_parts f) \<and>
        py_casefold p = py_casefold (normalize_slashes (path_of (take n (pure_parts f)))))"

definition claim_covers :: "guard_fs \<Rightarrow> string list \<Rightarrow> bool \<Rightarrow> string \<Rightarrow> string \<Rightarrow> bool" where
  "claim_covers fs claimed ci tool rel \<longleftrightarrow>
     (let p = rstrip_slash (normalize_slashes rel) in
      p \<noteq> [] \<and>
      ((\<exists>pattern\<in>set claimed. scope_path_matches_pattern (Some (gf_tree fs)) p pattern \<or>
          ci \<and> matches_casefolded fs (py_casefold p) pattern) \<or>
       tool = ''fs_delete'' \<and> is_non_material_untracked_path p \<or>
       tool = ''fs_mkdir'' \<and> above_claimed_file fs claimed p))"

text \<open>A component is a link only behind a component whose inspection failed.\<close>

definition no_link_seen :: "guard_fs \<Rightarrow> string \<Rightarrow> bool" where
  "no_link_seen fs rel \<longleftrightarrow>
     (\<forall>n<length (posix_parts rel). gf_is_symlink fs (take (Suc n) (posix_parts rel)) = Some True \<longrightarrow>
        (\<exists>m<n. gf_is_symlink fs (take (Suc m) (posix_parts rel)) = None))"

definition below :: "string list list \<Rightarrow> string list \<Rightarrow> bool" where
  "below roots path \<longleftrightarrow> (\<exists>r\<in>set roots. \<exists>segs. path = r @ segs)"

definition lands_in_claim ::
    "guard_fs \<Rightarrow> write_guard \<Rightarrow> string list \<Rightarrow> string \<Rightarrow> string \<Rightarrow> string option \<Rightarrow> bool" where
  "lands_in_claim fs g claimed tool raw resolved_rel \<longleftrightarrow>
     py_startswith (normalize_slashes raw) ''/'' \<and>
       below (wg_extra_roots g) (gf_resolve fs (normalize_slashes raw)) \<or>
     (\<exists>rel. target_relpath g fs raw resolved_rel = Some rel \<and> no_link_seen fs rel \<and>
        (below (wg_extra_roots g) (gf_resolve fs (candidate_path g rel)) \<or>
         (below [wg_root g] (gf_resolve fs (candidate_path g rel)) \<or>
          wg_case_insensitive g \<and> relative_to_root g (gf_resolve fs (candidate_path g rel)) \<noteq> None) \<and>
         claim_covers fs claimed (wg_case_insensitive g) tool rel))"

lemma symlink_walk_None:
  "symlink_walk fs walked parts = None \<Longrightarrow> n < length parts \<Longrightarrow>
     gf_is_symlink fs (walked @ take (Suc n) parts) = Some True \<Longrightarrow>
     \<exists>m<n. gf_is_symlink fs (walked @ take (Suc m) parts) = None"
proof (induction parts arbitrary: walked n)
  case (Cons part parts)
  show ?case
  proof (cases n)
    case 0
    with Cons.prems show ?thesis by simp
  next
    case (Suc k)
    show ?thesis
    proof (cases "gf_is_symlink fs (walked @ [part])")
      case None
      with Suc show ?thesis by (intro exI [of _ 0]) simp
    next
      case (Some linked)
      with Cons.prems Suc obtain m where "m < k" "gf_is_symlink fs (walked @ part # take (Suc m) parts) = None"
        using Cons.IH [of "walked @ [part]" k] by (cases linked) auto
      with Suc show ?thesis by (intro exI [of _ "Suc m"]) simp
    qed
  qed
qed simp

lemma first_symlink_None: "first_symlink_component fs rel = None \<Longrightarrow> no_link_seen fs rel"
  using symlink_walk_None [of fs "[]" "posix_parts rel"]
  by (auto simp: first_symlink_component_def no_link_seen_def)

lemma strip_segments_Some: "strip_segments r path = Some segs \<Longrightarrow> path = r @ segs"
  by (induction r path rule: strip_segments.induct) (auto split: if_splits)

lemma under_extra_below: "is_under_extra_allowed_root g path \<Longrightarrow> below (wg_extra_roots g) path"
  by (auto simp: is_under_extra_allowed_root_def below_def list_ex_iff dest: strip_segments_Some)

lemma relative_below:
  "relative_to_root g path \<noteq> None \<Longrightarrow> below [wg_root g] path \<or> wg_case_insensitive g \<and> relative_to_root g path \<noteq> None"
  by (auto simp: relative_to_root_def below_def dest: strip_segments_Some split: option.splits if_splits)

lemma proper_ancestors_below:
  "d \<in> set (proper_ancestors f) \<Longrightarrow> \<exists>n. 0 < n \<and> n < length (pure_parts f) \<and> d = path_of (take n (pure_parts f))"
proof -
  assume "d \<in> set (proper_ancestors f)"
  then obtain n where "n \<in> {1..<Suc (length (butlast (pure_parts f)))}" "d = path_of (take n (butlast (pure_parts f)))"
    unfolding proper_ancestors_def Let_def set_map set_rev set_upt by blast
  then show ?thesis by (intro exI [of _ n]) (auto simp: take_butlast)
qed

lemma new_guard_fields:
  assumes "new_write_guard fs worktree allowed extra ci = Inr g"
  shows "wg_root g = gf_resolve fs worktree" "wg_patterns g = kept_patterns allowed"
    "wg_extra_roots g = map (gf_resolve fs) extra" "wg_case_insensitive g = ci"
    "p \<in> set (wg_ancestors_cf g) \<Longrightarrow> py_casefold q = p \<Longrightarrow> above_claimed_file fs (kept_patterns allowed) q"
proof -
  obtain ancestors where anc: "ancestor_directory_scope_patterns (Some (gf_tree fs)) (kept_patterns allowed) = Inr ancestors"
    and g: "g = \<lparr>wg_root = gf_resolve fs worktree, wg_patterns = kept_patterns allowed,
      wg_extra_roots = map (gf_resolve fs) extra, wg_case_insensitive = ci,
      wg_ancestors_cf = map (\<lambda>p. py_casefold (normalize_slashes p)) ancestors, wg_violations = []\<rparr>"
    using assms by (auto simp: new_write_guard_def Let_def kept_patterns_def res_bind_eq_Inr)
  show "wg_root g = gf_resolve fs worktree" "wg_patterns g = kept_patterns allowed"
    "wg_extra_roots g = map (gf_resolve fs) extra" "wg_case_insensitive g = ci"
    by (simp_all add: g)
  assume "p \<in> set (wg_ancestors_cf g)" "py_casefold q = p"
  then obtain d where d: "d \<in> set ancestors" "py_casefold q = py_casefold (normalize_slashes d)"
    by (auto simp: g)
  from anc obtain expanded where e: "expand_support_file_patterns (Some (gf_tree fs)) (kept_patterns allowed) = Inr expanded"
    and ancs: "ancestors = dedup (concat (map (\<lambda>pattern. case normalize_repo_path_entry (\<lambda>_. False) True pattern of
        None \<Rightarrow> [] | Some normalized \<Rightarrow> if has_glob normalized then [] else proper_ancestors normalized) expanded))"
    by (auto simp: ancestor_directory_scope_patterns_def res_bind_eq_Inr)
  from d(1) obtain pattern where p: "pattern \<in> set expanded" "d \<in> set (case normalize_repo_path_entry (\<lambda>_. False) True pattern of
        None \<Rightarrow> [] | Some normalized \<Rightarrow> if has_glob normalized then [] else proper_ancestors normalized)"
    unfolding ancs by auto
  then obtain f where "normalize_repo_path_entry (\<lambda>_. False) True pattern = Some f"
      "\<not> has_glob f" "d \<in> set (proper_ancestors f)"
    by (cases "normalize_repo_path_entry (\<lambda>_. False) True pattern") (auto split: if_splits)
  with p(1) e d(2) show "above_claimed_file fs (kept_patterns allowed) q"
    unfolding above_claimed_file_def by (blast dest: proper_ancestors_below)
qed

lemma admitted_lands:
  assumes "new_write_guard fs worktree allowed extra ci = Inr g" "target_lands g fs tool raw rel"
  shows "lands_in_claim fs g (kept_patterns allowed) tool raw rel"
proof -
  note fields = new_guard_fields [OF assms(1)]
  have covers: "claim_covers fs (kept_patterns allowed) (wg_case_insensitive g) tool p" if "scope_allows g fs tool p" for p
    using that fields(5) by (auto simp: scope_allows_def claim_covers_def Let_def fields(2))
  show ?thesis
    using assms(2) under_extra_below first_symlink_None relative_below covers
    unfolding target_lands_def lands_in_claim_def by metis
qed

lemma check_tool_call_admits:
  assumes "check_tool_call fs resolver tool args g = (g', Inr ())"
  shows "g' = g \<and> (\<forall>(raw, rel)\<in>set (call_targets resolver tool args). check_target g fs tool raw rel = None)"
proof (cases "tool \<in> set PATCH_TOOL_NAMES")
  case True
  with assms show ?thesis
    by (auto simp: check_tool_call_def call_targets_def check_paths_Inr list_all_iff)
next
  case False
  show ?thesis
  proof (cases "map_of WRITE_TOOL_PATH_FIELDS tool")
    case None
    with False assms show ?thesis by (auto simp: check_tool_call_def call_targets_def)
  next
    case (Some specs)
    with False assms have "check_fields fs resolver tool args specs g = (g', Inr ())"
      by (simp add: check_tool_call_def)
    from check_fields_Inr [OF this] False Some show ?thesis
      by (auto simp: call_targets_def list_all_iff)
  qed
qed

text \<open>
  C5. What the guard reads off a call stays in scope: let a guard be constructed and any calls be
  checked with it, and let it then let a tool call through. Then checking left the guard unchanged, and
  every target it read off the call, the write arguments of a file tool, or for a patch the paths
  \<open>iter_patch_paths\<close> finds in it (not every file a patch may change: one that mixes two formats names
  more), has no NUL byte and no parent component and either lands under one of the extra roots, or
  resolves to a place in the work tree by way of a relative path that a pattern the guard was constructed
  with covers (or that is scratch output being deleted, or a directory above a claimed or accompanying
  file being made), both up to case for a guard that ignores case. No component of that relative path is a
  symbolic link, unless the inspection of an earlier component failed, which ends the search for links.
\<close>

theorem admitted_writes_stay_in_scope:
  assumes "new_write_guard fs worktree allowed extra ci = Inr g"
    and "check_tool_call fs resolver tool args (run (guard_step fs) calls g) = (g', Inr ())"
  shows "g' = run (guard_step fs) calls g \<and>
    (\<forall>(raw, rel)\<in>set (call_targets resolver tool args).
       char_of (0 :: nat) \<notin> set (normalize_slashes raw) \<and>
       ''..'' \<notin> set (posix_parts (normalize_slashes raw)) \<and>
       lands_in_claim fs g (kept_patterns allowed) tool raw rel)"
proof -
  have "guard_le g (run (guard_step fs) calls g)" by (rule wgm.run_le) (simp_all add: list_all_iff)
  then have "same_rules g (run (guard_step fs) calls g)" by (simp add: guard_le_def)
  then show ?thesis
    using check_tool_call_admits [OF assms(2)] check_target_rules [of g "run (guard_step fs) calls g" fs tool]
      admitted_lands [OF assms(1)] by (fastforce simp: check_target_None)
qed

section \<open>Concrete guards\<close>

text \<open>A work tree \<open>/wt\<close> in which \<open>link\<close> is a symbolic link to \<open>src\<close>.\<close>

definition sample_fs :: guard_fs where
  "sample_fs =
     \<lparr>gf_resolve = (\<lambda>p. let segs = pure_parts p in
        if take 2 segs = [''wt'', ''link''] then [''wt'', ''src''] @ drop 2 segs else segs),
      gf_is_symlink = (\<lambda>segs. Some (segs = [''link''])), gf_tree = sample_tree\<rparr>"

definition sample_guard :: "string \<Rightarrow> write_guard" where
  "sample_guard pattern =
     \<lparr>wg_root = [''wt''], wg_patterns = [pattern], wg_extra_roots = [], wg_case_insensitive = False,
      wg_ancestors_cf = [], wg_violations = []\<rparr>"

lemma sample_guard_new:
  "new_write_guard sample_fs ''/wt'' [PStr ''docs/**''] [] False = Inr (sample_guard ''docs/**'')"
  "new_write_guard sample_fs ''/wt'' [PStr ''src/**''] [] False = Inr (sample_guard ''src/**'')"
  by code_simp+

abbreviation write_args :: "string \<Rightarrow> (pykey \<times> pyval) list" where
  "write_args p \<equiv> [(KStr ''path'', PStr p), (KStr ''content'', PStr ''x'')]"

theorem admitted_writes_stay_in_scope_witness:
  "lands_in_claim sample_fs (sample_guard ''docs/**'') [''docs/**''] ''fs_write'' ''./docs/x.md'' None"
proof -
  let ?refused = "[(None, ''fs_write'', write_args ''src/core.py'')]"
  have "check_tool_call sample_fs None ''fs_write'' (write_args ''./docs/x.md'')
        (run (guard_step sample_fs) ?refused (sample_guard ''docs/**'')) =
      (run (guard_step sample_fs) ?refused (sample_guard ''docs/**''), Inr ())"
    by code_simp
  from admitted_writes_stay_in_scope [OF sample_guard_new(1) this]
  have "\<forall>(raw, rel)\<in>set (call_targets None ''fs_write'' (write_args ''./docs/x.md'')).
      lands_in_claim sample_fs (sample_guard ''docs/**'') (kept_patterns [PStr ''docs/**'']) ''fs_write'' raw rel" by auto
  moreover have "call_targets None ''fs_write'' (write_args ''./docs/x.md'') = [(''./docs/x.md'', None)]"
    by code_simp
  moreover have "kept_patterns [PStr ''docs/**''] = [''docs/**'']" by code_simp
  ultimately show ?thesis by simp
qed

text \<open>
  C39. The guard can be walked around with a patch: a guard for the scope \<open>docs/**\<close> lets
  \<open>git_apply_patch\<close> run on a patch that has one git header for a document and then a section in the
  traditional format for a source file, although it refuses that file as a target.
\<close>

theorem mixed_patch_passes_guard:
  "check_tool_call sample_fs resolver ''git_apply_patch''
     [(KStr ''patch'', PStr (patch_text mixed_lines))] (sample_guard ''docs/**'') =
     (sample_guard ''docs/**'', Inr ()) \<and>
   parse_patch_header_path ''+++ b/src/core.py'' ''+++ '' = Some ''src/core.py'' \<and>
   ''+++ b/src/core.py'' \<in> set (py_splitlines (patch_text mixed_lines)) \<and>
   map_option wv_reason
     (check_target (sample_guard ''docs/**'') sample_fs ''git_apply_patch'' ''src/core.py'' None) =
     Some ''out_of_scope''"
proof (intro conjI)
  have "check_target (sample_guard ''docs/**'') sample_fs ''git_apply_patch'' ''docs/x.md'' None = None"
    by code_simp
  moreover have "str_or (PStr (patch_text mixed_lines)) [] = patch_text mixed_lines"
    by (simp add: str_or_def py_str_def)
  ultimately show "check_tool_call sample_fs resolver ''git_apply_patch''
      [(KStr ''patch'', PStr (patch_text mixed_lines))] (sample_guard ''docs/**'') =
      (sample_guard ''docs/**'', Inr ())"
    by (simp add: check_tool_call_def PATCH_TOOL_NAMES_def dget_def mixed_paths admit_def)
  have "py_splitlines (patch_text mixed_lines) = mixed_lines"
    by (rule splitlines_patch_text) code_simp
  then show "''+++ b/src/core.py'' \<in> set (py_splitlines (patch_text mixed_lines))"
    by (simp add: mixed_lines_def)
qed code_simp+

text \<open>
  The promise that writes through symbolic links are rejected holds for relative targets only: an
  absolute target is resolved first and the links are then looked for on the result, so the same
  place is refused by its relative path and admitted by its absolute one.
\<close>

theorem absolute_symlink_admitted:
  "map_option wv_reason
     (check_target (sample_guard ''src/**'') sample_fs ''fs_write'' ''link/a.py'' None) =
     Some ''symlink_component'' \<and>
   check_tool_call sample_fs None ''fs_write'' (write_args ''/wt/link/a.py'') (sample_guard ''src/**'') =
     (sample_guard ''src/**'', Inr ())"
  by (intro conjI; code_simp)

end
