(* ===== verification/DeadlinePolicy.thy ===== *)
theory DeadlinePolicy
  imports BudgetPolicy TransportRetry
begin

text \<open>
  The run deadline, \<open>execution_deadline.py\<close>, first part: phases, operations, policies, the window
  of observed durations, and the deadline object with its clock-dependent accessors and its
  admission decision.

  Seconds are exact rationals. The clock is what it returns: a method that reads the clock takes
  the reading as an argument, and one that reads it several times takes one reading for each, in
  the order of the code, so that time may pass between them. An argument of type
  \<open>float_value option\<close> is the outcome of \<open>float(value)\<close>, \<open>None\<close> where it raises.
\<close>

section \<open>Constants\<close>

definition DEFAULT_DEADLINE_CLEANUP_RESERVE_SECONDS :: rat where "DEFAULT_DEADLINE_CLEANUP_RESERVE_SECONDS = 1"
definition DEFAULT_LLM_ATTEMPT_TIMEOUT_CEILING_SECONDS :: rat where
  "DEFAULT_LLM_ATTEMPT_TIMEOUT_CEILING_SECONDS = 900"
definition ATTEMPT_CEILING_OFF_WORDS :: "string list" where
  "ATTEMPT_CEILING_OFF_WORDS = [''off'', ''unlimited'', ''none'', ''never'', ''0'', ''disabled'']"
definition MINIMUM_OPERATION_TIMEOUT_SECONDS :: rat where "MINIMUM_OPERATION_TIMEOUT_SECONDS = 1 / 20"
definition DEFAULT_FINALIZATION_MINIMUM_SECONDS :: rat where "DEFAULT_FINALIZATION_MINIMUM_SECONDS = 1"
definition DEFAULT_FINALIZATION_MAX_SECONDS :: rat where "DEFAULT_FINALIZATION_MAX_SECONDS = 120"
definition DEFAULT_FINALIZATION_MAX_FRACTION :: rat where "DEFAULT_FINALIZATION_MAX_FRACTION = 1 / 4"
definition DEADLINE_ESTIMATE_WINDOW_SIZE :: nat where "DEADLINE_ESTIMATE_WINDOW_SIZE = 5"
definition DEFAULT_CONVERGENCE_ELAPSED_FRACTION :: rat where "DEFAULT_CONVERGENCE_ELAPSED_FRACTION = 3 / 4"
definition DEFAULT_WRAP_UP_ELAPSED_FRACTION :: rat where "DEFAULT_WRAP_UP_ELAPSED_FRACTION = 9 / 10"

datatype phase = Normal | Convergence | WrapUp | FinalizationWindow | Exhausted

fun phase_value :: "phase \<Rightarrow> string" where
  "phase_value Normal = ''normal''"
| "phase_value Convergence = ''convergence''"
| "phase_value WrapUp = ''wrap_up''"
| "phase_value FinalizationWindow = ''finalization_window''"
| "phase_value Exhausted = ''exhausted''"

definition FINALIZATION_BLOCKED_OPERATIONS :: "string list" where
  "FINALIZATION_BLOCKED_OPERATIONS = [''main_llm_retry'', ''compaction_llm'', ''adaptive_retry_llm'',
     ''subagent'', ''shell_background'', ''exploration_tool'', ''provider_retry_sleep'']"

definition CONVERGENCE_BLOCKED_OPERATIONS :: "string list" where
  "CONVERGENCE_BLOCKED_OPERATIONS = [''subagent'', ''shell_background'']"

definition WRAP_UP_BLOCKED_OPERATIONS :: "string list" where
  "WRAP_UP_BLOCKED_OPERATIONS = CONVERGENCE_BLOCKED_OPERATIONS @ [''exploration_tool'', ''mutation_tool'']"

definition degradation_blocked :: "phase \<Rightarrow> string list" where
  "degradation_blocked p = (case p of
     Convergence \<Rightarrow> CONVERGENCE_BLOCKED_OPERATIONS
   | WrapUp \<Rightarrow> WRAP_UP_BLOCKED_OPERATIONS
   | _ \<Rightarrow> [])"

section \<open>Policies\<close>

definition validate_deadline_seconds :: "string \<Rightarrow> float_value option \<Rightarrow> string + rat" where
  "validate_deadline_seconds key v = (case v of
     Some (Fin q) \<Rightarrow> if q \<le> 0 then Inl (key @ '' must be a finite number > 0'') else Inr q
   | _ \<Rightarrow> Inl (key @ '' must be a finite number > 0''))"

definition clamp_fraction :: "float_value option \<Rightarrow> rat \<Rightarrow> rat" where
  "clamp_fraction v fallback = (case v of
     Some (Fin q) \<Rightarrow> if q \<le> 0 \<or> 1 < q then fallback else q
   | _ \<Rightarrow> fallback)"

record degradation_policy =
  dp_enabled :: bool
  dp_convergence :: float_value
  dp_wrap_up :: float_value

definition default_degradation_policy :: degradation_policy where
  "default_degradation_policy = \<lparr>dp_enabled = True, dp_convergence = Fin DEFAULT_CONVERGENCE_ELAPSED_FRACTION,
     dp_wrap_up = Fin DEFAULT_WRAP_UP_ELAPSED_FRACTION\<rparr>"

definition wrap_up_fraction :: "degradation_policy \<Rightarrow> rat" where
  "wrap_up_fraction p = clamp_fraction (Some (dp_wrap_up p)) DEFAULT_WRAP_UP_ELAPSED_FRACTION"

definition convergence_fraction :: "degradation_policy \<Rightarrow> rat" where
  "convergence_fraction p =
     min (clamp_fraction (Some (dp_convergence p)) DEFAULT_CONVERGENCE_ELAPSED_FRACTION) (wrap_up_fraction p)"

definition normalized_degradation :: "degradation_policy \<Rightarrow> degradation_policy" where
  "normalized_degradation p = \<lparr>dp_enabled = dp_enabled p, dp_convergence = Fin (convergence_fraction p),
     dp_wrap_up = Fin (wrap_up_fraction p)\<rparr>"

text \<open>\<open>env_get\<close>: the variable, else its name from before the rebranding.\<close>

definition env_get :: "(string \<rightharpoonup> string) \<Rightarrow> string \<Rightarrow> string option" where
  "env_get environ name = (case environ name of
     Some v \<Rightarrow> Some v
   | None \<Rightarrow> if py_startswith name ''ALYSIS_''
              then environ (''SYLLIPTOR_'' @ drop (length ''ALYSIS_'') name) else None)"

text \<open>The configuration's attribute is missing as \<open>None\<close>.\<close>

definition run_deadline_degradation_enabled :: "(string \<rightharpoonup> string) \<Rightarrow> pyval option \<Rightarrow> bool" where
  "run_deadline_degradation_enabled environ configured =
     (let fallback = (case configured of None \<Rightarrow> True | Some v \<Rightarrow> py_truthy v) in
      case env_get environ ''ALYSIS_RUN_BUDGET_DEGRADATION'' of
        None \<Rightarrow> fallback
      | Some v \<Rightarrow>
          (let word = py_lower (py_strip v) in
           if word \<in> {''off'', ''0'', ''false'', ''no'', ''disabled''} then False
           else if word \<in> {''on'', ''1'', ''true'', ''yes'', ''enabled''} then True else fallback))"

definition resolve_deadline_degradation_policy ::
  "(string \<rightharpoonup> string) \<Rightarrow> pyval option \<Rightarrow> float_value option \<Rightarrow> float_value option \<Rightarrow> degradation_policy" where
  "resolve_deadline_degradation_policy environ enabled convergence wrap_up =
     normalized_degradation
       \<lparr>dp_enabled = run_deadline_degradation_enabled environ enabled,
        dp_convergence = Fin (clamp_fraction convergence DEFAULT_CONVERGENCE_ELAPSED_FRACTION),
        dp_wrap_up = Fin (clamp_fraction wrap_up DEFAULT_WRAP_UP_ELAPSED_FRACTION)\<rparr>"

record finalization_policy =
  fp_minimum_reserve :: rat
  fp_cleanup_reserve :: rat
  fp_max_reserve :: rat
  fp_max_fraction :: rat
  fp_llm_multiplier :: rat
  fp_verification_multiplier :: rat
  fp_tool_multiplier :: rat
  fp_local_cleanup :: rat

definition default_finalization_policy :: finalization_policy where
  "default_finalization_policy =
     \<lparr>fp_minimum_reserve = DEFAULT_FINALIZATION_MINIMUM_SECONDS,
      fp_cleanup_reserve = DEFAULT_DEADLINE_CLEANUP_RESERVE_SECONDS,
      fp_max_reserve = DEFAULT_FINALIZATION_MAX_SECONDS,
      fp_max_fraction = DEFAULT_FINALIZATION_MAX_FRACTION,
      fp_llm_multiplier = 3 / 2, fp_verification_multiplier = 5 / 4, fp_tool_multiplier = 11 / 10,
      fp_local_cleanup = DEFAULT_DEADLINE_CLEANUP_RESERVE_SECONDS\<rparr>"

definition normalized_finalization :: "finalization_policy \<Rightarrow> finalization_policy" where
  "normalized_finalization p =
     \<lparr>fp_minimum_reserve = max 0 (fp_minimum_reserve p), fp_cleanup_reserve = max 0 (fp_cleanup_reserve p),
      fp_max_reserve = max 0 (fp_max_reserve p), fp_max_fraction = max 0 (min 1 (fp_max_fraction p)),
      fp_llm_multiplier = max 0 (fp_llm_multiplier p),
      fp_verification_multiplier = max 0 (fp_verification_multiplier p),
      fp_tool_multiplier = max 0 (fp_tool_multiplier p), fp_local_cleanup = max 0 (fp_local_cleanup p)\<rparr>"

section \<open>Observed durations\<close>

record observation =
  ob_count :: nat
  ob_total :: rat
  ob_max :: rat
  ob_recent :: "rat list"

definition new_observation :: observation where
  "new_observation = \<lparr>ob_count = 0, ob_total = 0, ob_max = 0, ob_recent = []\<rparr>"

definition record_duration :: "rat \<Rightarrow> observation \<Rightarrow> observation" where
  "record_duration seconds ob = (let d = max 0 seconds in
     \<lparr>ob_count = ob_count ob + 1, ob_total = ob_total ob + d, ob_max = max (ob_max ob) d,
      ob_recent = take_last DEADLINE_ESTIMATE_WINDOW_SIZE (ob_recent ob @ [d])\<rparr>)"

definition average_seconds :: "observation \<Rightarrow> rat" where
  "average_seconds ob = (if ob_count ob = 0 then 0 else ob_total ob / of_nat (ob_count ob))"

text \<open>\<open>statistics.median\<close> of a list that is not empty.\<close>

definition median :: "rat list \<Rightarrow> rat" where
  "median xs = (let s = sort xs; n = length s in
     if n mod 2 = 1 then s ! (n div 2) else (s ! (n div 2 - 1) + s ! (n div 2)) / 2)"

definition estimate_seconds :: "observation \<Rightarrow> rat" where
  "estimate_seconds ob = (if ob_recent ob = [] then 0 else median (ob_recent ob))"

section \<open>The deadline\<close>

record exec_deadline =
  d_started :: rat
  d_deadline :: "rat option"
  d_configured :: "rat option"
  d_source :: string
  d_finalization :: finalization_policy
  d_degradation :: degradation_policy
  d_observations :: "(string \<times> observation) list"
  d_finalization_reason :: "string option"
  d_finalization_entered :: "rat option"
  d_directive_sent :: bool
  d_llm_started :: bool
  d_stages :: "(string \<times> rat) list"

definition make_deadline ::
  "rat \<Rightarrow> rat option \<Rightarrow> rat option \<Rightarrow> string \<Rightarrow> finalization_policy option \<Rightarrow> degradation_policy option \<Rightarrow>
     exec_deadline" where
  "make_deadline started deadline configured source fin degr =
     \<lparr>d_started = started, d_deadline = deadline, d_configured = configured, d_source = source,
      d_finalization = (case fin of None \<Rightarrow> default_finalization_policy | Some p \<Rightarrow> p),
      d_degradation = (case degr of None \<Rightarrow> default_degradation_policy | Some p \<Rightarrow> p),
      d_observations = [], d_finalization_reason = None, d_finalization_entered = None,
      d_directive_sent = False, d_llm_started = False, d_stages = []\<rparr>"

definition from_duration ::
  "rat \<Rightarrow> float_value option \<Rightarrow> string \<Rightarrow> finalization_policy option \<Rightarrow> degradation_policy option \<Rightarrow>
     string + exec_deadline" where
  "from_duration now duration source fin degr = (case duration of
     None \<Rightarrow> Inr (make_deadline now None None source fin degr)
   | Some v \<Rightarrow> (case validate_deadline_seconds ''run_deadline_seconds'' (Some v) of
       Inl e \<Rightarrow> Inl e
     | Inr q \<Rightarrow> Inr (make_deadline now (Some (now + q)) (Some q) source fin degr)))"

definition from_absolute ::
  "rat \<Rightarrow> float_value option \<Rightarrow> float_value option \<Rightarrow> string \<Rightarrow> finalization_policy option \<Rightarrow>
     degradation_policy option \<Rightarrow> string + exec_deadline" where
  "from_absolute started deadline configured source fin degr =
     (case (case deadline of None \<Rightarrow> Inr None | Some (Fin q) \<Rightarrow> Inr (Some q)
              | _ \<Rightarrow> Inl ''deadline_monotonic must be finite when provided'') of
        Inl e \<Rightarrow> Inl e
      | Inr bound \<Rightarrow>
          (case configured of
             None \<Rightarrow> Inr (make_deadline started bound None source fin degr)
           | Some v \<Rightarrow> (case validate_deadline_seconds ''run_deadline_seconds'' (Some v) of
               Inl e \<Rightarrow> Inl e
             | Inr q \<Rightarrow> Inr (make_deadline started bound (Some q) source fin degr))))"

definition deadline_enabled :: "exec_deadline \<Rightarrow> bool" where
  "deadline_enabled d = (d_deadline d \<noteq> None)"

definition elapsed_seconds :: "exec_deadline \<Rightarrow> rat \<Rightarrow> rat" where
  "elapsed_seconds d now = max 0 (now - d_started d)"

definition remaining_seconds :: "exec_deadline \<Rightarrow> rat \<Rightarrow> rat option" where
  "remaining_seconds d now = map_option (\<lambda>e. max 0 (e - now)) (d_deadline d)"

definition is_exhausted :: "exec_deadline \<Rightarrow> rat \<Rightarrow> bool" where
  "is_exhausted d now = (case remaining_seconds d now of None \<Rightarrow> False | Some r \<Rightarrow> r \<le> 0)"

definition is_exhausted_after :: "exec_deadline \<Rightarrow> rat \<Rightarrow> float_value \<Rightarrow> string + bool" where
  "is_exhausted_after d now grace = (case grace of
     Fin g \<Rightarrow> if g < 0 then Inl ''grace_seconds must be a finite number >= 0''
       else Inr (case d_deadline d of None \<Rightarrow> False | Some e \<Rightarrow> e + g \<le> now)
   | _ \<Rightarrow> Inl ''grace_seconds must be a finite number >= 0'')"

definition can_start :: "exec_deadline \<Rightarrow> rat \<Rightarrow> rat \<Rightarrow> bool" where
  "can_start d now minimum = (case remaining_seconds d now of None \<Rightarrow> True | Some r \<Rightarrow> max 0 minimum \<le> r)"

definition clamp_timeout ::
  "exec_deadline \<Rightarrow> rat \<Rightarrow> rat option \<Rightarrow> rat \<Rightarrow> rat \<Rightarrow> string + rat option" where
  "clamp_timeout d now configured reserve minimum = (case remaining_seconds d now of
     None \<Rightarrow> Inr configured
   | Some r \<Rightarrow>
       (let safe = r - max 0 reserve in
        if safe < max 0 minimum then Inr None
        else (case configured of
          None \<Rightarrow> Inr (Some safe)
        | Some c \<Rightarrow> (case validate_deadline_seconds ''configured_timeout_seconds'' (Some (Fin c)) of
            Inl e \<Rightarrow> Inl e
          | Inr q \<Rightarrow> Inr (Some (max minimum (min q safe)))))))"

text \<open>\<open>_normalize_operation\<close>, applied to the value of an operation.\<close>

definition normalize_operation :: "string \<Rightarrow> string" where
  "normalize_operation raw =
     (let s = py_lower (py_strip (if raw = [] then ''operation'' else raw)) in if s = [] then ''operation'' else s)"

definition observe_duration :: "string \<Rightarrow> rat \<Rightarrow> exec_deadline \<Rightarrow> exec_deadline" where
  "observe_duration operation seconds d =
     (let key = normalize_operation operation;
          ob = (case map_of (d_observations d) key of None \<Rightarrow> new_observation | Some ob \<Rightarrow> ob)
      in d\<lparr>d_observations := alist_put key (record_duration seconds ob) (d_observations d)\<rparr>)"

text \<open>\<open>max(xs)\<close> of a list that is not empty, and \<open>max(xs, default=0.0)\<close>.\<close>

definition max_of :: "rat list \<Rightarrow> rat" where
  "max_of xs = foldl max (hd xs) (tl xs)"

definition max_or_zero :: "rat list \<Rightarrow> rat" where
  "max_or_zero xs = (if xs = [] then 0 else max_of xs)"

text \<open>The candidate of a configured timeout: clamped to what remains, else as it is.\<close>

definition clamped_candidate :: "exec_deadline \<Rightarrow> rat \<Rightarrow> rat option \<Rightarrow> string + rat list" where
  "clamped_candidate d now configured = (case configured of
     None \<Rightarrow> Inr []
   | Some c \<Rightarrow> (case validate_deadline_seconds ''configured_timeout_seconds'' (Some (Fin c)) of
       Inl e \<Rightarrow> Inl e
     | Inr q \<Rightarrow> (case clamp_timeout d now (Some q) DEFAULT_DEADLINE_CLEANUP_RESERVE_SECONDS
                       MINIMUM_OPERATION_TIMEOUT_SECONDS of
         Inl e \<Rightarrow> Inl e
       | Inr t \<Rightarrow> Inr [case t of None \<Rightarrow> q | Some v \<Rightarrow> v])))"

definition estimated_duration_seconds ::
  "exec_deadline \<Rightarrow> rat \<Rightarrow> string \<Rightarrow> rat option \<Rightarrow> rat option \<Rightarrow> string + rat option" where
  "estimated_duration_seconds d now operation configured default_seconds =
     (let observed = (case map_of (d_observations d) (normalize_operation operation) of
            None \<Rightarrow> [] | Some ob \<Rightarrow> (if 0 < ob_count ob then [estimate_seconds ob] else []));
          fallback = (case default_seconds of None \<Rightarrow> [] | Some s \<Rightarrow> [max 0 s])
      in case clamped_candidate d now configured of
           Inl e \<Rightarrow> Inl e
         | Inr clamped \<Rightarrow>
             (let candidates = observed @ fallback @ clamped in
              Inr (if candidates = [] then None else Some (max_of candidates))))"

definition is_llm_name :: "string \<Rightarrow> bool" where
  "is_llm_name name = py_contains ''llm'' name"

definition is_verification_name :: "string \<Rightarrow> bool" where
  "is_verification_name name = (py_contains ''verification'' name \<or> py_contains ''verify'' name)"

definition observed_estimate :: "(string \<Rightarrow> bool) \<Rightarrow> exec_deadline \<Rightarrow> rat" where
  "observed_estimate P d = max_or_zero
     (map (\<lambda>(_, ob). estimate_seconds ob) (filter (\<lambda>(name, ob). P name \<and> 0 < ob_count ob) (d_observations d)))"

definition finalization_cap :: "finalization_policy \<Rightarrow> rat option \<Rightarrow> rat" where
  "finalization_cap p configured =
     (let relative = (case configured of
            None \<Rightarrow> fp_max_reserve p
          | Some c \<Rightarrow> max MINIMUM_OPERATION_TIMEOUT_SECONDS (c * fp_max_fraction p))
      in max MINIMUM_OPERATION_TIMEOUT_SECONDS (min (fp_max_reserve p) relative))"

definition raw_reserve :: "finalization_policy \<Rightarrow> exec_deadline \<Rightarrow> rat" where
  "raw_reserve p d = max_of [fp_minimum_reserve p, fp_cleanup_reserve p, fp_local_cleanup p,
     observed_estimate is_llm_name d * fp_llm_multiplier p,
     observed_estimate is_verification_name d * fp_verification_multiplier p,
     observed_estimate (\<lambda>n. \<not> is_llm_name n \<and> \<not> is_verification_name n) d * fp_tool_multiplier p]"

definition finalization_reserve_seconds :: "exec_deadline \<Rightarrow> finalization_policy option \<Rightarrow> rat" where
  "finalization_reserve_seconds d policy =
     (if \<not> deadline_enabled d then 0
      else (let p = normalized_finalization (case policy of None \<Rightarrow> d_finalization d | Some p \<Rightarrow> p)
            in max 0 (min (raw_reserve p d) (finalization_cap p (d_configured d)))))"

definition normal_work_remaining_seconds :: "exec_deadline \<Rightarrow> rat \<Rightarrow> rat option" where
  "normal_work_remaining_seconds d now =
     map_option (\<lambda>r. max 0 (r - finalization_reserve_seconds d None)) (remaining_seconds d now)"

definition budget_span_seconds :: "exec_deadline \<Rightarrow> rat option" where
  "budget_span_seconds d = (case d_deadline d of
     None \<Rightarrow> None
   | Some e \<Rightarrow>
       (let span = (if 0 < e - d_started d then Some (e - d_started d) else None) in
        case d_configured d of None \<Rightarrow> span | Some c \<Rightarrow> if 0 < c then Some c else span))"

definition elapsed_fraction :: "exec_deadline \<Rightarrow> rat \<Rightarrow> rat option" where
  "elapsed_fraction d now = map_option (\<lambda>span. max 0 (elapsed_seconds d now / span)) (budget_span_seconds d)"

definition degradation_stage :: "exec_deadline \<Rightarrow> rat \<Rightarrow> phase" where
  "degradation_stage d now =
     (let p = d_degradation d in
      if \<not> dp_enabled p then Normal
      else (case elapsed_fraction d now of
        None \<Rightarrow> Normal
      | Some f \<Rightarrow> if wrap_up_fraction p \<le> f then WrapUp
                  else if convergence_fraction p \<le> f then Convergence else Normal))"

definition degradation_blocked_operations :: "exec_deadline \<Rightarrow> rat \<Rightarrow> string list" where
  "degradation_blocked_operations d now = degradation_blocked (degradation_stage d now)"

definition maybe_enter_degradation_stage :: "rat \<Rightarrow> rat \<Rightarrow> exec_deadline \<Rightarrow> phase option \<times> exec_deadline" where
  "maybe_enter_degradation_stage now entered d =
     (let stage = degradation_stage d now in
      if stage = Normal then (None, d)
      else if map_of (d_stages d) (phase_value stage) \<noteq> None then (None, d)
      else (Some stage, d\<lparr>d_stages := d_stages d @ [(phase_value stage, entered)]\<rparr>))"

definition degradation_stages_entered :: "exec_deadline \<Rightarrow> string list" where
  "degradation_stages_entered d = map fst (sort_key snd (d_stages d))"

text \<open>The readings of \<open>phase\<close>: for \<open>is_exhausted\<close>, for what remains, for the stage.\<close>

definition current_phase :: "exec_deadline \<Rightarrow> rat \<Rightarrow> rat \<Rightarrow> rat \<Rightarrow> phase" where
  "current_phase d t1 t2 t3 =
     (if is_exhausted d t1 then Exhausted
      else (case remaining_seconds d t2 of
        None \<Rightarrow> Normal
      | Some r \<Rightarrow> if r \<le> finalization_reserve_seconds d None then FinalizationWindow
                  else degradation_stage d t3))"

definition maybe_enter_finalization ::
  "string \<Rightarrow> rat \<Rightarrow> rat \<Rightarrow> rat \<Rightarrow> rat \<Rightarrow> exec_deadline \<Rightarrow> bool \<times> exec_deadline" where
  "maybe_enter_finalization reason t1 t2 t3 t4 d =
     (if current_phase d t1 t2 t3 \<noteq> FinalizationWindow then (False, d)
      else if d_finalization_reason d = None then
        (True, d\<lparr>d_finalization_reason := Some (if reason = [] then ''reserve_reached'' else reason),
                 d_finalization_entered := Some t4\<rparr>)
      else (False, d))"

definition finalization_reason :: "exec_deadline \<Rightarrow> rat \<Rightarrow> rat \<Rightarrow> rat \<Rightarrow> string option" where
  "finalization_reason d t1 t2 t3 =
     (if current_phase d t1 t2 t3 = FinalizationWindow
      then Some (case d_finalization_reason d of None \<Rightarrow> ''reserve_reached''
                 | Some r \<Rightarrow> if r = [] then ''reserve_reached'' else r)
      else d_finalization_reason d)"

definition mark_finalization_directive_sent :: "exec_deadline \<Rightarrow> exec_deadline" where
  "mark_finalization_directive_sent d = d\<lparr>d_directive_sent := True\<rparr>"

definition mark_finalization_llm_started :: "exec_deadline \<Rightarrow> exec_deadline" where
  "mark_finalization_llm_started d = d\<lparr>d_llm_started := True\<rparr>"

section \<open>Admission\<close>

record start_decision_record =
  sd_operation :: string
  sd_allowed :: bool
  sd_phase :: phase
  sd_reason :: string
  sd_remaining :: "rat option"
  sd_normal_remaining :: "rat option"
  sd_reserve :: rat
  sd_minimum :: rat
  sd_estimate :: "rat option"

text \<open>
  The verdict once the values are there: whether the operation may start, and the reason. The
  guards stand in the order of the code.
\<close>

definition admission ::
  "string \<Rightarrow> phase \<Rightarrow> rat \<Rightarrow> rat option \<Rightarrow> rat \<Rightarrow> rat option \<Rightarrow> string list \<Rightarrow> bool \<Rightarrow> bool \<times> string" where
  "admission operation ph remaining normal minimum estimate blocked allow_during_finalization =
     (if ph = Exhausted then (False, ''deadline_exhausted'')
      else if remaining < minimum then (False, ''insufficient_hard_remaining'')
      else if (case estimate of None \<Rightarrow> False | Some e \<Rightarrow> remaining < e) then (False, ''insufficient_hard_remaining'')
      else if ph = FinalizationWindow then
        (if operation \<in> set FINALIZATION_BLOCKED_OPERATIONS \<and> \<not> allow_during_finalization
         then (False, ''finalization_disallows_operation'')
         else if operation \<in> set blocked then (False, ''budget_degradation_disallows_operation'')
         else (True, ''finalization_allowed''))
      else if operation \<in> set blocked then (False, ''budget_degradation_disallows_operation'')
      else if (case (estimate, normal) of (Some e, Some n) \<Rightarrow> n < e | _ \<Rightarrow> False)
        then (False, ''insufficient_normal_work_remaining'')
      else (True, ''normal_work_allowed''))"

text \<open>
  The readings \<open>ts\<close> in their order: what remains, what remains for normal work, three for the
  phase, one for the estimate, one for the closed operations.
\<close>

definition start_decision ::
  "exec_deadline \<Rightarrow> (nat \<Rightarrow> rat) \<Rightarrow> string \<Rightarrow> rat \<Rightarrow> rat option \<Rightarrow> rat option \<Rightarrow> bool \<Rightarrow> string + start_decision_record" where
  "start_decision d ts operation minimum_remaining estimated configured allow_during_finalization =
     (let name = normalize_operation operation;
          remaining = remaining_seconds d (ts 0);
          reserve = finalization_reserve_seconds d None;
          normal = normal_work_remaining_seconds d (ts 1);
          ph = current_phase d (ts 2) (ts 3) (ts 4);
          minimum = max 0 minimum_remaining
      in case (case estimated of Some e \<Rightarrow> Inr (Some e)
               | None \<Rightarrow> estimated_duration_seconds d (ts 5) name configured (Some minimum)) of
           Inl e \<Rightarrow> Inl e
         | Inr estimate \<Rightarrow>
             (case remaining of
                None \<Rightarrow> Inr \<lparr>sd_operation = name, sd_allowed = True, sd_phase = ph, sd_reason = ''deadline_unconfigured'',
                  sd_remaining = None, sd_normal_remaining = None, sd_reserve = reserve, sd_minimum = minimum,
                  sd_estimate = estimate\<rparr>
              | Some r \<Rightarrow>
                  (let verdict = admission name ph r normal minimum estimate
                         (degradation_blocked_operations d (ts 6)) allow_during_finalization
                   in Inr \<lparr>sd_operation = name, sd_allowed = fst verdict, sd_phase = ph, sd_reason = snd verdict,
                        sd_remaining = Some r, sd_normal_remaining = normal, sd_reserve = reserve,
                        sd_minimum = minimum, sd_estimate = estimate\<rparr>)))"

section \<open>Deadlines of subagents and of a managed host\<close>

text \<open>The reading of the parent's clock, or of the default clock without a parent; three for its phase.\<close>

definition derive_subagent_deadline ::
  "exec_deadline option \<Rightarrow> float_value option \<Rightarrow> rat \<Rightarrow> rat \<Rightarrow> rat \<Rightarrow> rat \<Rightarrow> string + exec_deadline" where
  "derive_subagent_deadline parent fallback now t1 t2 t3 = (case fallback of
     None \<Rightarrow> (case parent of Some p \<Rightarrow> Inr p | None \<Rightarrow> from_duration now None ''absent'' None None)
   | Some v \<Rightarrow> (case validate_deadline_seconds ''subagent_timeout_s'' (Some v) of
       Inl e \<Rightarrow> Inl e
     | Inr q \<Rightarrow> (case parent of
         None \<Rightarrow> from_duration now (Some (Fin q)) ''subagent_fallback'' None None
       | Some p \<Rightarrow>
           if deadline_enabled p \<and> current_phase p t1 t2 t3 \<in> {FinalizationWindow, Exhausted} then Inr p
           else if (case d_deadline p of None \<Rightarrow> False | Some e \<Rightarrow> e \<le> now + q) then Inr p
           else from_absolute now (Some (Fin (now + q))) (Some (Fin q)) ''subagent_fallback''
             (Some (d_finalization p)) (Some (d_degradation p)))))"

definition normalize_source :: "string \<Rightarrow> string" where
  "normalize_source source = (let s = py_lower (py_strip source) in if s = [] then ''unknown'' else s)"

end
