(* ===== verification/DeadlineClient.thy ===== *)
theory DeadlineClient
  imports DeadlinePolicy
begin

text \<open>
  The run deadline at its two borders. Towards the model provider: the timeout of a client is
  narrowed for the time of a call, provider retries are admitted one by one, and afterwards the
  client is as before (\<open>execution_deadline.py\<close>, second part). Towards a managed host: the launch
  budget it grants and the narrowing of the run's deadline to its absolute expiry
  (\<open>managed_host_deadline.py\<close>).
\<close>

section \<open>Timeouts\<close>

text \<open>\<open>DeadlineExhausted\<close> and the \<open>ValueError\<close> of a bad argument.\<close>

datatype deadline_error = DeadlineExhausted string | DeadlineValueError string

definition resolve_llm_attempt_timeout_ceiling_seconds ::
  "(string \<Rightarrow> float_value option) \<Rightarrow> (string \<rightharpoonup> string) \<Rightarrow> rat option" where
  "resolve_llm_attempt_timeout_ceiling_seconds float_of environ =
     (case env_get environ ''ALYSIS_LLM_ATTEMPT_TIMEOUT_S'' of
        None \<Rightarrow> Some DEFAULT_LLM_ATTEMPT_TIMEOUT_CEILING_SECONDS
      | Some raw \<Rightarrow>
          (let word = py_lower (py_strip raw) in
           if word = [] then Some DEFAULT_LLM_ATTEMPT_TIMEOUT_CEILING_SECONDS
           else if word \<in> set ATTEMPT_CEILING_OFF_WORDS then None
           else (case float_of word of
             None \<Rightarrow> Some DEFAULT_LLM_ATTEMPT_TIMEOUT_CEILING_SECONDS
           | Some (Fin q) \<Rightarrow> if q \<le> 0 then None else Some q
           | Some _ \<Rightarrow> None)))"

definition deadline_timeout_or_raise ::
  "exec_deadline option \<Rightarrow> rat \<Rightarrow> rat option \<Rightarrow> rat \<Rightarrow> rat \<Rightarrow> string \<Rightarrow> deadline_error + rat option" where
  "deadline_timeout_or_raise deadline now configured reserve minimum operation = (case deadline of
     None \<Rightarrow> Inr configured
   | Some d \<Rightarrow> (case clamp_timeout d now configured reserve minimum of
       Inl e \<Rightarrow> Inl (DeadlineValueError e)
     | Inr None \<Rightarrow> Inl (DeadlineExhausted (''run deadline exhausted before '' @ operation))
     | Inr t \<Rightarrow> Inr t))"

section \<open>Clamping a client\<close>

text \<open>
  A client: its timeout and the two hooks the deadline installs, each an attribute that may be
  missing. A hook is one of the deadline's own closures or any other object. A client without a
  \<open>timeout_s\<close> attribute is left alone.
\<close>

datatype 'h hook = RetryGate | StreamCheck | OtherHook 'h

record 'h client =
  cl_has_timeout :: bool
  cl_timeout :: "rat option"
  cl_retry :: "'h hook option"
  cl_stream :: "'h hook option"

text \<open>What the context manager keeps: the original attributes, its arguments and the cutoff.\<close>

record 'h clamp =
  cm_original :: "'h client"
  cm_reserve :: rat
  cm_minimum :: rat
  cm_operation :: string
  cm_cutoff :: "rat option"

definition attempt_timeout :: "rat option \<Rightarrow> rat option \<Rightarrow> rat option" where
  "attempt_timeout original cap = (case cap of
     None \<Rightarrow> original
   | Some c \<Rightarrow> (case original of None \<Rightarrow> Some c | Some t \<Rightarrow> Some (min t c)))"

text \<open>
  The timeout at entry with the reserve it leaves: outside the finalization window it also leaves
  the finalization reserve, if that is possible. Readings: three for the phase, one for each clamp.
\<close>

definition entry_timeout ::
  "exec_deadline \<Rightarrow> (nat \<Rightarrow> rat) \<Rightarrow> rat option \<Rightarrow> rat \<Rightarrow> rat \<Rightarrow> string \<Rightarrow> deadline_error + (rat option \<times> rat)" where
  "entry_timeout d ts configured reserve minimum operation =
     (let wide = max 0 reserve + finalization_reserve_seconds d None;
          first = (if current_phase d (ts 0) (ts 1) (ts 2) \<notin> {FinalizationWindow, Exhausted}
                   then clamp_timeout d (ts 3) configured wide minimum else Inr None)
      in case first of
           Inl e \<Rightarrow> Inl (DeadlineValueError e)
         | Inr (Some t) \<Rightarrow> Inr (Some t, wide)
         | Inr None \<Rightarrow> (case deadline_timeout_or_raise (Some d) (ts 4) configured reserve minimum operation of
             Inl e \<Rightarrow> Inl e
           | Inr t \<Rightarrow> Inr (t, max 0 reserve)))"

definition enter_clamp ::
  "exec_deadline \<Rightarrow> (nat \<Rightarrow> rat) \<Rightarrow> rat option \<Rightarrow> rat \<Rightarrow> rat \<Rightarrow> string \<Rightarrow> 'h client \<Rightarrow>
     deadline_error + ('h client \<times> 'h clamp)" where
  "enter_clamp d ts cap reserve minimum operation cl =
     (let configured = attempt_timeout (cl_timeout cl) cap in
      case entry_timeout d ts configured reserve minimum operation of
        Inl e \<Rightarrow> Inl e
      | Inr (timeout, effective) \<Rightarrow>
          (let limited = (case (d_deadline d, timeout) of
                 (Some e, Some t) \<Rightarrow> (case configured of None \<Rightarrow> Some (e - effective)
                                       | Some c \<Rightarrow> if t < c then Some (e - effective) else None)
               | _ \<Rightarrow> None)
           in Inr (cl\<lparr>cl_timeout := timeout, cl_retry := Some RetryGate, cl_stream := Some StreamCheck\<rparr>,
                   \<lparr>cm_original = cl, cm_reserve = reserve, cm_minimum = minimum, cm_operation = operation,
                    cm_cutoff = limited\<rparr>)))"

text \<open>
  \<open>_provider_retry_deadline_allows\<close>. Readings: three for the phase, seven for the decision, one for
  what remains. The decision is given its estimate, so that it raises nothing.
\<close>

definition retry_allowed ::
  "exec_deadline \<Rightarrow> (nat \<Rightarrow> rat) \<Rightarrow> rat \<Rightarrow> 'h clamp \<Rightarrow> 'h client \<Rightarrow> bool \<times> 'h clamp \<times> 'h client" where
  "retry_allowed d ts wait cm cl =
     (let window = max 0 wait + max 0 (cm_minimum cm);
          in_finalization = (current_phase d (ts 0) (ts 1) (ts 2) = FinalizationWindow)
      in case start_decision d (\<lambda>i. ts (3 + i)) ''provider_retry_sleep'' window (Some window) None in_finalization of
           Inl e \<Rightarrow> (False, cm, cl)
         | Inr dec \<Rightarrow>
             if \<not> sd_allowed dec then (False, cm, cl)
             else (case remaining_seconds d (ts 10) of
               None \<Rightarrow> (True, cm, cl)
             | Some r \<Rightarrow>
                 (let guard = max 0 (cm_reserve cm) + (if in_finalization then 0 else finalization_reserve_seconds d None);
                      budget = r - max 0 wait - guard
                  in if budget < max (cm_minimum cm) MINIMUM_OPERATION_TIMEOUT_SECONDS then (False, cm, cl)
                     else if (case cl_timeout cl of None \<Rightarrow> True | Some t \<Rightarrow> budget < t)
                     then (True, cm\<lparr>cm_cutoff := (case d_deadline d of None \<Rightarrow> cm_cutoff cm | Some e \<Rightarrow> Some (e - guard))\<rparr>,
                           cl\<lparr>cl_timeout := Some budget\<rparr>)
                     else (True, cm, cl))))"

text \<open>The stream check: the client's grace, ten seconds where the attribute is missing.\<close>

definition stream_deadline_exhausted :: "exec_deadline \<Rightarrow> rat \<Rightarrow> float_value option \<Rightarrow> string + bool" where
  "stream_deadline_exhausted d now grace = is_exhausted_after d now (case grace of None \<Rightarrow> Fin 10 | Some g \<Rightarrow> g)"

text \<open>\<open>_has_transport_timeout_cause\<close>, over exceptions with their provider status and timeout type.\<close>

record timed_exc = exc +
  xt_status :: bool
  xt_timeout :: bool

definition has_transport_timeout_cause :: "timed_exc list \<Rightarrow> nat \<Rightarrow> bool" where
  "has_transport_timeout_cause st e =
     (case List.find (\<lambda>x. xt_status (st ! x) \<or> xt_timeout (st ! x)) (exception_chain (map exc.truncate st) [] (Some e)) of
        None \<Rightarrow> False
      | Some x \<Rightarrow> \<not> xt_status (st ! x))"

text \<open>
  How the body ends: it returns, or it raises; only a subclass of \<open>Exception\<close> is looked at. The
  result is what leaves the context manager.
\<close>

datatype body_end = BodyReturns | BodyRaises nat bool

datatype clamp_result = ClampReturns | ClampRaises nat | ClampExhausted string nat

definition restore_client :: "'h clamp \<Rightarrow> 'h client \<Rightarrow> 'h client" where
  "restore_client cm cl = cl\<lparr>cl_timeout := cl_timeout (cm_original cm), cl_retry := cl_retry (cm_original cm),
     cl_stream := cl_stream (cm_original cm)\<rparr>"

definition exit_clamp ::
  "timed_exc list \<Rightarrow> rat \<Rightarrow> body_end \<Rightarrow> 'h clamp \<Rightarrow> 'h client \<Rightarrow> clamp_result \<times> 'h client" where
  "exit_clamp st now ending cm cl =
     (case ending of
        BodyReturns \<Rightarrow> ClampReturns
      | BodyRaises e ordinary \<Rightarrow>
          (case cm_cutoff cm of
             Some cutoff \<Rightarrow>
               if ordinary \<and> cutoff \<le> now \<and> has_transport_timeout_cause st e
               then ClampExhausted (''run deadline exhausted during '' @ cm_operation cm) e
               else ClampRaises e
           | None \<Rightarrow> ClampRaises e),
      restore_client cm cl)"

text \<open>The body of a call: the waits it asks for, each with its readings, and what it is told.\<close>

fun run_retries :: "exec_deadline \<Rightarrow> (rat \<times> (nat \<Rightarrow> rat)) list \<Rightarrow> 'h clamp \<Rightarrow> 'h client \<Rightarrow> 'h clamp \<times> 'h client" where
  "run_retries d [] cm cl = (cm, cl)"
| "run_retries d ((wait, ts) # rs) cm cl =
     (case retry_allowed d ts wait cm cl of (_, cm', cl') \<Rightarrow> run_retries d rs cm' cl')"

definition clamped_call ::
  "exec_deadline option \<Rightarrow> (nat \<Rightarrow> rat) \<Rightarrow> rat option \<Rightarrow> rat \<Rightarrow> rat \<Rightarrow> string \<Rightarrow> (rat \<times> (nat \<Rightarrow> rat)) list \<Rightarrow>
     timed_exc list \<Rightarrow> rat \<Rightarrow> body_end \<Rightarrow> 'h client \<Rightarrow> deadline_error + (clamp_result \<times> 'h client)" where
  "clamped_call deadline ts cap reserve minimum operation retries st finish ending cl =
     (case deadline of
        None \<Rightarrow> Inr (case ending of BodyReturns \<Rightarrow> ClampReturns | BodyRaises e _ \<Rightarrow> ClampRaises e, cl)
      | Some d \<Rightarrow>
          if \<not> cl_has_timeout cl
          then Inr (case ending of BodyReturns \<Rightarrow> ClampReturns | BodyRaises e _ \<Rightarrow> ClampRaises e, cl)
          else (case enter_clamp d ts cap reserve minimum operation cl of
            Inl e \<Rightarrow> Inl e
          | Inr (cl1, cm1) \<Rightarrow>
              (case run_retries d retries cm1 cl1 of (cm2, cl2) \<Rightarrow> Inr (exit_clamp st finish ending cm2 cl2))))"

section \<open>Managed hosts\<close>

definition DEFAULT_MANAGED_HOST_SHUTDOWN_RESERVE_SECONDS :: rat where
  "DEFAULT_MANAGED_HOST_SHUTDOWN_RESERVE_SECONDS = 30"
definition MINIMUM_MANAGED_HOST_INVOCATION_SECONDS :: rat where "MINIMUM_MANAGED_HOST_INVOCATION_SECONDS = 1"

text \<open>An argument is missing (\<open>None\<close>), no number, or a float; the error is its code.\<close>

type_synonym host_value = "float_value option option"

definition coerce_required_positive_finite :: "string \<Rightarrow> host_value \<Rightarrow> string + rat" where
  "coerce_required_positive_finite key v = (case v of
     None \<Rightarrow> Inl (key @ ''_missing'')
   | Some (Some (Fin q)) \<Rightarrow> if q \<le> 0 then Inl (key @ ''_invalid'') else Inr q
   | _ \<Rightarrow> Inl (key @ ''_invalid''))"

definition coerce_non_negative_finite :: "string \<Rightarrow> host_value \<Rightarrow> string + rat" where
  "coerce_non_negative_finite key v = (case v of
     Some (Some (Fin q)) \<Rightarrow> if q < 0 then Inl (key @ ''_invalid'') else Inr q
   | _ \<Rightarrow> Inl (key @ ''_invalid''))"

definition managed_host_deadline_anchor_unix_seconds ::
  "host_value \<Rightarrow> host_value option \<Rightarrow> host_value \<Rightarrow> string + rat" where
  "managed_host_deadline_anchor_unix_seconds invocation existing now =
     (case coerce_required_positive_finite ''invocation_seconds'' invocation of
        Inl e \<Rightarrow> Inl e
      | Inr duration \<Rightarrow> (case coerce_required_positive_finite ''now_unix_seconds'' now of
          Inl e \<Rightarrow> Inl e
        | Inr n \<Rightarrow> (case coerce_required_positive_finite ''managed_host_deadline_unix_seconds''
                          (Some (Some (Fin (n + duration)))) of
            Inl e \<Rightarrow> Inl e
          | Inr anchor \<Rightarrow> (case existing of
              None \<Rightarrow> Inr anchor
            | Some x \<Rightarrow> (case coerce_required_positive_finite ''managed_host_deadline_unix_seconds'' x of
                Inl e \<Rightarrow> Inl e
              | Inr q \<Rightarrow> Inr (min anchor q))))))"

record clamp_record =
  cr_exhausted :: bool
  cr_previous :: rat
  cr_effective :: rat
  cr_narrowed_by :: rat

definition clamp_to_managed_host_deadline ::
  "host_value \<Rightarrow> rat \<Rightarrow> host_value \<Rightarrow> exec_deadline \<Rightarrow> string + (clamp_record \<times> exec_deadline)" where
  "clamp_to_managed_host_deadline anchor now_monotonic now_unix d =
     (case coerce_required_positive_finite ''managed_host_deadline_unix_seconds'' anchor of
        Inl e \<Rightarrow> Inl e
      | Inr a \<Rightarrow> (case coerce_required_positive_finite ''now_unix_seconds'' now_unix of
          Inl e \<Rightarrow> Inl e
        | Inr u \<Rightarrow> (case d_deadline d of
            None \<Rightarrow> Inl ''run_deadline_missing''
          | Some previous \<Rightarrow>
              (let effective = min previous (now_monotonic + (a - u));
                   narrowed = previous - effective
               in Inr (\<lparr>cr_exhausted = (effective \<le> now_monotonic), cr_previous = previous,
                        cr_effective = effective, cr_narrowed_by = narrowed\<rparr>,
                       d\<lparr>d_deadline := Some effective, d_started := d_started d - narrowed\<rparr>)))))"

record managed_deadline =
  mh_timeout :: rat
  mh_elapsed :: rat
  mh_reserve :: rat
  mh_invocation :: rat

definition resolve_managed_host_deadline ::
  "host_value \<Rightarrow> host_value \<Rightarrow> host_value \<Rightarrow> host_value \<Rightarrow> string + managed_deadline" where
  "resolve_managed_host_deadline timeout reserve elapsed minimum =
     (case coerce_required_positive_finite ''final_effective_host_agent_timeout_seconds'' timeout of
        Inl e \<Rightarrow> Inl e
      | Inr t \<Rightarrow> (case coerce_non_negative_finite ''host_shutdown_reserve_seconds'' reserve of
          Inl e \<Rightarrow> Inl e
        | Inr r \<Rightarrow> (case coerce_non_negative_finite ''elapsed_before_launch_seconds'' elapsed of
            Inl e \<Rightarrow> Inl e
          | Inr l \<Rightarrow> (case coerce_required_positive_finite ''minimum_invocation_seconds'' minimum of
              Inl e \<Rightarrow> Inl e
            | Inr m \<Rightarrow>
                if t \<le> r then Inl ''host_shutdown_reserve_consumes_timeout''
                else if t - l - r < m then Inl ''remaining_duration_too_small''
                else Inr \<lparr>mh_timeout = t, mh_elapsed = l, mh_reserve = r, mh_invocation = t - l - r\<rparr>))))"

definition host_remaining_timeout_seconds :: "managed_deadline \<Rightarrow> rat" where
  "host_remaining_timeout_seconds m = mh_timeout m - mh_elapsed m"

end
