(* ===== verification/DeadlineProps.thy ===== *)
theory DeadlineProps
  imports DeadlineClient Machines
begin

text \<open>
  What the run deadline promises: degradation only proceeds, an admitted operation fits, a closed
  one stays closed, children and hosts only shorten, and a call leaves its client as it was.
\<close>

section \<open>Observed durations\<close>

definition observation_ok :: "observation \<Rightarrow> bool" where
  "observation_ok ob \<longleftrightarrow> length (ob_recent ob) \<le> DEADLINE_ESTIMATE_WINDOW_SIZE
     \<and> (\<forall>x\<in>set (ob_recent ob). 0 \<le> x \<and> x \<le> ob_max ob) \<and> 0 \<le> ob_max ob \<and> 0 \<le> ob_total ob
     \<and> ((ob_count ob = 0) = (ob_recent ob = []))"

lemma new_observation_ok: "observation_ok new_observation"
  by (simp add: observation_ok_def new_observation_def)

lemma set_take_last: "set (take_last n xs) \<subseteq> set xs"
  by (simp add: take_last_def set_drop_subset)

lemma record_duration_ok:
  assumes "observation_ok ob"
  shows "observation_ok (record_duration seconds ob)"
proof -
  let ?recent = "take_last DEADLINE_ESTIMATE_WINDOW_SIZE (ob_recent ob @ [max 0 seconds])"
  have "set ?recent \<subseteq> insert (max 0 seconds) (set (ob_recent ob))"
    using set_take_last [of DEADLINE_ESTIMATE_WINDOW_SIZE "ob_recent ob @ [max 0 seconds]"] by simp
  then have "\<forall>x\<in>set ?recent. 0 \<le> x \<and> x \<le> max (ob_max ob) (max 0 seconds)"
    using assms by (auto simp: observation_ok_def le_max_iff_disj dest!: subsetD)
  moreover have "?recent \<noteq> []"
    by (simp add: DEADLINE_ESTIMATE_WINDOW_SIZE_def flip: length_greater_0_conv)
  ultimately show ?thesis
    using assms by (simp add: observation_ok_def record_duration_def Let_def)
qed

lemma median_bounds:
  assumes "xs \<noteq> []" "\<forall>x\<in>set xs. lo \<le> x \<and> x \<le> hi"
  shows "lo \<le> median xs \<and> median xs \<le> hi"
proof -
  have at: "lo \<le> sort xs ! i \<and> sort xs ! i \<le> hi" if "i < length xs" for i
    using that assms(2) nth_mem [of i "sort xs"] by simp
  have n: "0 < length xs" using assms(1) by simp
  have "length xs div 2 < length xs" using n by simp
  moreover from this have "length xs div 2 - 1 < length xs" by linarith
  ultimately have "lo \<le> sort xs ! (length xs div 2)" "sort xs ! (length xs div 2) \<le> hi"
      "lo \<le> sort xs ! (length xs div 2 - 1)" "sort xs ! (length xs div 2 - 1) \<le> hi"
    using at by blast+
  then show ?thesis by (simp add: median_def Let_def)
qed

lemma estimate_bounds: "observation_ok ob \<Longrightarrow> 0 \<le> estimate_seconds ob \<and> estimate_seconds ob \<le> ob_max ob"
  using median_bounds [of "ob_recent ob" 0 "ob_max ob"]
  by (auto simp: estimate_seconds_def observation_ok_def)

section \<open>Degradation\<close>

fun rank :: "phase \<Rightarrow> nat" where
  "rank Normal = 0"
| "rank Convergence = 1"
| "rank WrapUp = 2"
| "rank FinalizationWindow = 3"
| "rank Exhausted = 4"

text \<open>The later deadline has the same policy and budget, and started no later.\<close>

definition degrades :: "exec_deadline \<Rightarrow> exec_deadline \<Rightarrow> bool" where
  "degrades d d' \<longleftrightarrow> d_degradation d' = d_degradation d \<and> d_configured d' = d_configured d
     \<and> d_started d' \<le> d_started d
     \<and> map_option (\<lambda>e. e - d_started d) (d_deadline d) = map_option (\<lambda>e. e - d_started d') (d_deadline d')"

lemma degrades_refl: "degrades d d"
  by (simp add: degrades_def)

lemma degrades_trans: "degrades d d' \<Longrightarrow> degrades d' d'' \<Longrightarrow> degrades d d''"
  by (auto simp: degrades_def)

lemma degrades_span: "degrades d d' \<Longrightarrow> budget_span_seconds d' = budget_span_seconds d"
  by (cases "d_deadline d"; cases "d_deadline d'") (auto simp: degrades_def budget_span_seconds_def)

lemma span_positive: "budget_span_seconds d = Some s \<Longrightarrow> 0 < s"
  by (auto simp: budget_span_seconds_def Let_def split: option.splits if_splits)

lemma degrades_fraction:
  assumes "degrades d d'" "t \<le> t'" "elapsed_fraction d t = Some f"
  obtains f' where "elapsed_fraction d' t' = Some f'" "f \<le> f'"
proof -
  obtain s where s: "budget_span_seconds d = Some s" and f: "f = max 0 (elapsed_seconds d t / s)"
    using assms(3) by (auto simp: elapsed_fraction_def)
  have "elapsed_seconds d t \<le> elapsed_seconds d' t'"
    using assms(1,2) by (auto simp: elapsed_seconds_def degrades_def)
  then have "elapsed_seconds d t / s \<le> elapsed_seconds d' t' / s"
    using span_positive [OF s] by (simp add: divide_right_mono)
  then show ?thesis
    using that degrades_span [OF assms(1)] s f by (auto simp: elapsed_fraction_def)
qed

lemma convergence_le_wrap_up: "convergence_fraction p \<le> wrap_up_fraction p"
  by (simp add: convergence_fraction_def)

lemma degrades_stage:
  assumes "degrades d d'" "t \<le> t'"
  shows "rank (degradation_stage d t) \<le> rank (degradation_stage d' t')"
proof (cases "elapsed_fraction d t")
  case None
  then show ?thesis by (simp add: degradation_stage_def Let_def)
next
  case (Some f)
  then obtain f' where "elapsed_fraction d' t' = Some f'" "f \<le> f'"
    by (rule degrades_fraction [OF assms])
  then show ?thesis
    using Some assms(1) convergence_le_wrap_up [of "d_degradation d"]
    by (auto simp: degradation_stage_def degrades_def Let_def)
qed

lemma stage_cases: "degradation_stage d t \<in> {Normal, Convergence, WrapUp}"
  by (auto simp: degradation_stage_def Let_def split: option.splits)

lemma blocked_mono:
  assumes "p \<in> {Normal, Convergence, WrapUp}" "q \<in> {Normal, Convergence, WrapUp}" "rank p \<le> rank q"
  shows "set (degradation_blocked p) \<subseteq> set (degradation_blocked q)"
  using assms by (auto simp: degradation_blocked_def WRAP_UP_BLOCKED_OPERATIONS_def)

lemma degrades_blocked:
  "degrades d d' \<Longrightarrow> t \<le> t' \<Longrightarrow>
     set (degradation_blocked_operations d t) \<subseteq> set (degradation_blocked_operations d' t')"
  unfolding degradation_blocked_operations_def
  by (rule blocked_mono [OF stage_cases stage_cases degrades_stage])

section \<open>The deadline as a machine\<close>

datatype deadline_op =
    Observe string rat
  | EnterStage rat rat
  | EnterFinalization string rat rat rat rat
  | DirectiveSent
  | LlmStarted
  | HostClamp host_value rat host_value

fun deadline_step :: "deadline_op \<Rightarrow> exec_deadline \<Rightarrow> exec_deadline" where
  "deadline_step (Observe operation seconds) d = observe_duration operation seconds d"
| "deadline_step (EnterStage t t') d = snd (maybe_enter_degradation_stage t t' d)"
| "deadline_step (EnterFinalization reason t1 t2 t3 t4) d = snd (maybe_enter_finalization reason t1 t2 t3 t4 d)"
| "deadline_step DirectiveSent d = mark_finalization_directive_sent d"
| "deadline_step LlmStarted d = mark_finalization_llm_started d"
| "deadline_step (HostClamp anchor now now_unix) d =
     (case clamp_to_managed_host_deadline anchor now now_unix d of Inl e \<Rightarrow> d | Inr (r, d') \<Rightarrow> d')"

lemma clamp_degrades:
  "clamp_to_managed_host_deadline anchor now now_unix d = Inr (r, d') \<Longrightarrow> degrades d d'"
  by (auto simp: clamp_to_managed_host_deadline_def degrades_def Let_def
      split: sum.splits option.splits)

definition deadline_ok :: "exec_deadline \<Rightarrow> bool" where
  "deadline_ok d \<longleftrightarrow> (\<forall>ob \<in> snd ` set (d_observations d). observation_ok ob)
     \<and> distinct (map fst (d_observations d)) \<and> distinct (map fst (d_stages d))"

lemma alist_put_values: "snd ` set (alist_put k v kvs) \<subseteq> insert v (snd ` set kvs)"
  by (induction k v kvs rule: alist_put.induct) auto

lemma observe_ok:
  assumes "deadline_ok d"
  shows "deadline_ok (observe_duration operation seconds d)"
proof -
  let ?key = "normalize_operation operation"
  let ?ob = "case map_of (d_observations d) ?key of None \<Rightarrow> new_observation | Some ob \<Rightarrow> ob"
  have "observation_ok ?ob"
    using assms new_observation_ok by (auto simp: deadline_ok_def split: option.splits dest!: map_of_SomeD)
  then have "observation_ok (record_duration seconds ?ob)" by (rule record_duration_ok)
  moreover have "ob = v \<or> ob \<in> snd ` set kvs" if "ob \<in> snd ` set (alist_put k v kvs)" for ob v :: observation and k :: string and kvs
    using that alist_put_values [of k v kvs] by blast
  ultimately have "\<forall>ob \<in> snd ` set (alist_put ?key (record_duration seconds ?ob) (d_observations d)). observation_ok ob"
    using assms unfolding deadline_ok_def by metis
  then show ?thesis using assms by (simp add: deadline_ok_def observe_duration_def Let_def)
qed

lemma deadline_step_ok: "deadline_ok d \<Longrightarrow> deadline_ok (deadline_step x d)"
proof (cases x)
  case (Observe operation seconds)
  then show "deadline_ok d \<Longrightarrow> ?thesis" by (simp add: observe_ok)
next
  case (EnterStage t t')
  then show "deadline_ok d \<Longrightarrow> ?thesis"
    by (auto simp: maybe_enter_degradation_stage_def deadline_ok_def Let_def map_of_eq_None_iff)
next
  case (HostClamp a n u)
  then show "deadline_ok d \<Longrightarrow> ?thesis"
    by (auto simp: clamp_to_managed_host_deadline_def deadline_ok_def Let_def split: sum.splits option.splits)
qed (auto simp: maybe_enter_finalization_def mark_finalization_directive_sent_def
      mark_finalization_llm_started_def deadline_ok_def)

lemma deadline_step_degrades: "degrades d (deadline_step x d)"
  by (cases x)
    (auto simp: observe_duration_def maybe_enter_degradation_stage_def maybe_enter_finalization_def
      mark_finalization_directive_sent_def mark_finalization_llm_started_def degrades_def Let_def
      split: sum.splits dest: clamp_degrades [unfolded degrades_def])

interpretation dlm: monotone_machine deadline_step "\<lambda>_. True" deadline_ok degrades
  by unfold_locales (auto intro: deadline_step_ok degrades_refl degrades_trans deadline_step_degrades)

lemma run_degrades: "deadline_ok d \<Longrightarrow> degrades d (run deadline_step ops d)"
  by (rule dlm.run_le) (simp_all add: list_all_iff)

section \<open>Admission\<close>

lemma admission_blocked:
  "operation \<in> set blocked \<Longrightarrow> \<not> fst (admission operation ph r normal minimum estimate blocked allow)"
  by (simp add: admission_def)

lemma admission_allowed:
  assumes "fst (admission operation ph r normal minimum estimate blocked allow)"
  shows "ph \<noteq> Exhausted" "minimum \<le> r" "estimate = Some e \<Longrightarrow> e \<le> r" "operation \<notin> set blocked"
    "ph = FinalizationWindow \<Longrightarrow> operation \<notin> set FINALIZATION_BLOCKED_OPERATIONS \<or> allow"
    "ph \<noteq> FinalizationWindow \<Longrightarrow> estimate = Some e \<Longrightarrow> normal = Some n \<Longrightarrow> e \<le> n"
  using assms by (auto simp: admission_def split: if_splits option.splits)

lemma start_decision_Inr:
  assumes "start_decision d ts operation minimum estimated configured allow = Inr dec" "d_deadline d = Some e"
  shows "sd_operation dec = normalize_operation operation"
    "sd_remaining dec = Some (max 0 (e - ts 0))"
    "sd_normal_remaining dec = normal_work_remaining_seconds d (ts 1)"
    "sd_phase dec = current_phase d (ts 2) (ts 3) (ts 4)" "sd_minimum dec = max 0 minimum"
    "estimated = Some q \<Longrightarrow> sd_estimate dec = Some q"
    "sd_allowed dec = fst (admission (sd_operation dec) (sd_phase dec) (max 0 (e - ts 0)) (sd_normal_remaining dec)
       (sd_minimum dec) (sd_estimate dec) (degradation_blocked_operations d (ts 6)) allow)"
  using assms by (auto simp: start_decision_def remaining_seconds_def Let_def split: sum.splits option.splits)

lemma blocked_enabled: "operation \<in> set (degradation_blocked_operations d t) \<Longrightarrow> d_deadline d \<noteq> None"
  by (auto simp: degradation_blocked_operations_def degradation_blocked_def degradation_stage_def
      elapsed_fraction_def budget_span_seconds_def Let_def split: option.splits if_splits)

lemma from_duration_ok: "from_duration now duration source fin degr = Inr d \<Longrightarrow> deadline_ok d"
  by (auto simp: from_duration_def make_deadline_def deadline_ok_def split: option.splits sum.splits)

definition hour_deadline :: exec_deadline where
  "hour_deadline = make_deadline 0 (Some 3600) (Some 3600) ''config'' None None"

lemma hour_deadline_new: "from_duration 0 (Some (Fin 3600)) ''config'' None None = Inr hour_deadline"
  by (simp add: from_duration_def validate_deadline_seconds_def hour_deadline_def)

text \<open>
  C9. An admitted operation fits: under a deadline that ends at \<open>e\<close>, an operation is allowed to start only
  if the deadline has not passed, the minimum it needs and its estimate fit into what remained at the
  first reading, the stage of degradation has not closed it, and either it is not one the finalization
  window closes (or the caller insists) or, outside the window, its estimate leaves the finalization
  reserve untouched.
\<close>

theorem admitted_operations_fit:
  assumes "start_decision d ts operation minimum estimated configured allow = Inr dec"
    "sd_allowed dec" "d_deadline d = Some e"
  shows "ts 2 < e \<and> max 0 minimum \<le> max 0 (e - ts 0)
    \<and> (case sd_estimate dec of None \<Rightarrow> True | Some q \<Rightarrow> q \<le> max 0 (e - ts 0))
    \<and> normalize_operation operation \<notin> set (degradation_blocked_operations d (ts 6))
    \<and> (if sd_phase dec = FinalizationWindow
       then allow \<or> normalize_operation operation \<notin> set FINALIZATION_BLOCKED_OPERATIONS
       else (case sd_estimate dec of None \<Rightarrow> True
             | Some q \<Rightarrow> q \<le> max 0 (max 0 (e - ts 1) - finalization_reserve_seconds d None)))"
proof -
  note facts = start_decision_Inr [OF assms(1,3)]
  have fst_ok: "fst (admission (sd_operation dec) (sd_phase dec) (max 0 (e - ts 0)) (sd_normal_remaining dec)
       (sd_minimum dec) (sd_estimate dec) (degradation_blocked_operations d (ts 6)) allow)"
    using facts(7) assms(2) by simp
  note ok = admission_allowed [OF fst_ok]
  have "\<not> is_exhausted d (ts 2)"
    using ok(1) facts(4) by (auto simp: current_phase_def)
  then have "ts 2 < e" using assms(3) by (auto simp: is_exhausted_def remaining_seconds_def)
  moreover have "sd_normal_remaining dec = Some (max 0 (max 0 (e - ts 1) - finalization_reserve_seconds d None))"
    using facts(3) assms(3) by (simp add: normal_work_remaining_seconds_def remaining_seconds_def)
  ultimately show ?thesis
    using ok facts(1,5) by (auto split: option.splits)
qed

theorem admitted_operations_fit_witness:
  "(0::rat) < 3600 \<and> max 0 2 \<le> max 0 (3600 - (0::rat))
    \<and> (case Some (60::rat) of None \<Rightarrow> True | Some q \<Rightarrow> q \<le> max 0 (3600 - 0))
    \<and> normalize_operation ''Subagent'' \<notin> set (degradation_blocked_operations hour_deadline 0)"
proof -
  let ?dec = "\<lparr>sd_operation = ''subagent'', sd_allowed = True, sd_phase = Normal, sd_reason = ''normal_work_allowed'',
    sd_remaining = Some 3600, sd_normal_remaining = Some 3599, sd_reserve = 1, sd_minimum = 2, sd_estimate = Some 60\<rparr>"
  have run: "start_decision hour_deadline (\<lambda>_. 0) ''Subagent'' 2 (Some 60) None False = Inr ?dec" by code_simp
  have "d_deadline hour_deadline = Some 3600" by (simp add: hour_deadline_def make_deadline_def)
  from admitted_operations_fit [OF run _ this] show ?thesis by simp
qed

text \<open>
  C8. A closed operation stays closed: once the stage of degradation has closed an operation, no later
  decision allows it to start, whatever durations were observed, stages or the finalization window
  entered and host limits applied in between; also the finalization window does not reopen it.
\<close>

theorem closed_operations_stay_closed:
  assumes "from_duration start duration source fin degr = Inr d0"
    "normalize_operation operation \<in> set (degradation_blocked_operations (run deadline_step before d0) t)"
    "\<forall>i. t \<le> ts i"
    "start_decision (run deadline_step (before @ ops) d0) ts operation minimum estimated configured allow = Inr dec"
  shows "\<not> sd_allowed dec"
proof -
  let ?d = "run deadline_step before d0" and ?d' = "run deadline_step (before @ ops) d0"
  have deg: "degrades ?d ?d'"
    by (rule dlm.run_stays) (simp_all add: list_all_iff from_duration_ok [OF assms(1)])
  then have blocked: "normalize_operation operation \<in> set (degradation_blocked_operations ?d' (ts 6))"
    using degrades_blocked [OF deg, of t "ts 6"] assms(2,3) by blast
  then obtain e where e: "d_deadline ?d' = Some e" using blocked_enabled by blast
  note facts = start_decision_Inr [OF assms(4) e]
  show ?thesis using facts(1,7) admission_blocked [OF blocked] by simp
qed

definition late_ops :: "deadline_op list" where
  "late_ops = [Observe ''main_llm'' 300, EnterStage 3300 3300, EnterFinalization [] 3500 3500 3500 3500]"

theorem closed_operations_stay_closed_witness:
  "\<not> sd_allowed \<lparr>sd_operation = ''mutation_tool'', sd_allowed = False, sd_phase = FinalizationWindow,
    sd_reason = ''budget_degradation_disallows_operation'', sd_remaining = Some 100,
    sd_normal_remaining = Some 0, sd_reserve = 120, sd_minimum = 0, sd_estimate = Some 10\<rparr>"
proof (rule closed_operations_stay_closed [OF hour_deadline_new, where before = "[]" and t = 3300 and ops = late_ops])
  show "normalize_operation ''mutation_tool'' \<in>
      set (degradation_blocked_operations (run deadline_step [] hour_deadline) 3300)" by code_simp
  show "\<forall>i. (3300::rat) \<le> (\<lambda>_. 3500) i" by simp
  show "start_decision (run deadline_step ([] @ late_ops) hour_deadline) (\<lambda>_. 3500) ''mutation_tool'' 0 (Some 10) None True =
      Inr \<lparr>sd_operation = ''mutation_tool'', sd_allowed = False, sd_phase = FinalizationWindow,
        sd_reason = ''budget_degradation_disallows_operation'', sd_remaining = Some 100,
        sd_normal_remaining = Some 0, sd_reserve = 120, sd_minimum = 0, sd_estimate = Some 10\<rparr>"
    by code_simp
qed

section \<open>Reports of stages\<close>

fun stage_reports :: "deadline_op list \<Rightarrow> exec_deadline \<Rightarrow> phase list" where
  "stage_reports [] d = []"
| "stage_reports (x # xs) d =
     (case x of
        EnterStage t t' \<Rightarrow> (case fst (maybe_enter_degradation_stage t t' d) of None \<Rightarrow> [] | Some s \<Rightarrow> [s])
      | _ \<Rightarrow> []) @ stage_reports xs (deadline_step x d)"

fun enter_times :: "deadline_op list \<Rightarrow> rat list" where
  "enter_times [] = []"
| "enter_times (EnterStage t t' # xs) = t # enter_times xs"
| "enter_times (_ # xs) = enter_times xs"

lemma phase_value_inject: "phase_value p = phase_value q \<longleftrightarrow> p = q"
  by (cases p; cases q) simp_all

text \<open>The stages entered so far are at most the stage at any later time.\<close>

definition entered_below :: "exec_deadline \<Rightarrow> rat \<Rightarrow> bool" where
  "entered_below d t0 \<longleftrightarrow> (\<forall>s t. phase_value s \<in> fst ` set (d_stages d) \<longrightarrow> t0 \<le> t \<longrightarrow> rank s \<le> rank (degradation_stage d t))"

lemma stages_unchanged:
  "(\<And>t t'. x \<noteq> EnterStage t t') \<Longrightarrow> d_stages (deadline_step x d) = d_stages d"
  by (cases x) (auto simp: observe_duration_def maybe_enter_finalization_def mark_finalization_directive_sent_def
      mark_finalization_llm_started_def clamp_to_managed_host_deadline_def Let_def split: sum.splits option.splits)

lemma entered_below_step:
  assumes "entered_below d t0" "\<And>t t'. x \<noteq> EnterStage t t'"
  shows "entered_below (deadline_step x d) t0"
  unfolding entered_below_def stages_unchanged [OF assms(2)]
  using assms(1) degrades_stage [OF deadline_step_degrades [of d x] order_refl]
  by (meson entered_below_def order_trans)

lemma enter_stage_below:
  assumes "entered_below d t0" "t0 \<le> t"
  shows "entered_below (snd (maybe_enter_degradation_stage t t' d)) t"
    and "fst (maybe_enter_degradation_stage t t' d) = Some s \<Longrightarrow>
      s = degradation_stage d t \<and> s \<noteq> Normal \<and> phase_value s \<notin> fst ` set (d_stages d)
      \<and> fst ` set (d_stages (snd (maybe_enter_degradation_stage t t' d))) = insert (phase_value s) (fst ` set (d_stages d))"
    and "fst ` set (d_stages d) \<subseteq> fst ` set (d_stages (snd (maybe_enter_degradation_stage t t' d)))"
proof -
  have "budget_span_seconds (d\<lparr>d_stages := v\<rparr>) = budget_span_seconds d" for v
    by (cases "d_deadline d") (simp_all add: budget_span_seconds_def)
  then have "elapsed_fraction (d\<lparr>d_stages := v\<rparr>) u = elapsed_fraction d u" for v u
    by (simp add: elapsed_fraction_def elapsed_seconds_def)
  then have "degradation_stage (d\<lparr>d_stages := v\<rparr>) u = degradation_stage d u" for v u
    by (simp add: degradation_stage_def Let_def)
  then have same: "degradation_stage (snd (maybe_enter_degradation_stage t t' d)) u = degradation_stage d u" for u
    by (simp add: maybe_enter_degradation_stage_def Let_def)
  have later: "rank (degradation_stage d t) \<le> rank (degradation_stage d u)" if "t \<le> u" for u
    by (rule degrades_stage [OF degrades_refl that])
  have new: "phase_value s \<in> fst ` set (d_stages (snd (maybe_enter_degradation_stage t t' d))) \<Longrightarrow>
      phase_value s \<in> fst ` set (d_stages d) \<or> s = degradation_stage d t" for s
    by (auto simp: maybe_enter_degradation_stage_def Let_def phase_value_inject split: if_splits)
  show "entered_below (snd (maybe_enter_degradation_stage t t' d)) t"
    unfolding entered_below_def same
  proof (intro allI impI)
    fix s u
    assume s: "phase_value s \<in> fst ` set (d_stages (snd (maybe_enter_degradation_stage t t' d)))" and u: "t \<le> u"
    show "rank s \<le> rank (degradation_stage d u)"
      using new [OF s] later [OF u] assms(1) order_trans [OF assms(2) u] unfolding entered_below_def by blast
  qed
  show "fst ` set (d_stages d) \<subseteq> fst ` set (d_stages (snd (maybe_enter_degradation_stage t t' d)))"
    by (auto simp: maybe_enter_degradation_stage_def Let_def)
  show "fst (maybe_enter_degradation_stage t t' d) = Some s \<Longrightarrow>
      s = degradation_stage d t \<and> s \<noteq> Normal \<and> phase_value s \<notin> fst ` set (d_stages d)
      \<and> fst ` set (d_stages (snd (maybe_enter_degradation_stage t t' d))) = insert (phase_value s) (fst ` set (d_stages d))"
    by (auto simp: maybe_enter_degradation_stage_def Let_def map_of_eq_None_iff split: if_splits)
qed

lemma reports_rise:
  assumes "entered_below d t0" "sorted (enter_times xs)" "\<forall>t \<in> set (enter_times xs). t0 \<le> t"
  shows "sorted_wrt (\<lambda>a b. rank a < rank b) (stage_reports xs d)
    \<and> (\<forall>r \<in> set (stage_reports xs d). r \<in> {Convergence, WrapUp}
         \<and> (\<forall>s. phase_value s \<in> fst ` set (d_stages d) \<longrightarrow> rank s < rank r))"
  using assms
proof (induction xs arbitrary: d t0)
  case (Cons x xs)
  show ?case
  proof (cases "\<exists>t t'. x = EnterStage t t'")
    case False
    then have "enter_times (x # xs) = enter_times xs" by (cases x) auto
    moreover have "stage_reports (x # xs) d = stage_reports xs (deadline_step x d)"
      using False by (cases x) auto
    moreover have "d_stages (deadline_step x d) = d_stages d" using False by (intro stages_unchanged) blast
    moreover have "sorted_wrt (\<lambda>a b. rank a < rank b) (stage_reports xs (deadline_step x d))
      \<and> (\<forall>r \<in> set (stage_reports xs (deadline_step x d)). r \<in> {Convergence, WrapUp}
         \<and> (\<forall>s. phase_value s \<in> fst ` set (d_stages (deadline_step x d)) \<longrightarrow> rank s < rank r))"
      using Cons.prems(2,3) False calculation(1) by (intro Cons.IH [OF entered_below_step [OF Cons.prems(1)]]) auto
    ultimately show ?thesis by simp
  next
    case True
    then obtain t t' where x: "x = EnterStage t t'" by blast
    let ?d = "snd (maybe_enter_degradation_stage t t' d)"
    have t: "t0 \<le> t" using Cons.prems(3) x by simp
    note below = enter_stage_below [OF Cons.prems(1) t]
    have IH: "sorted_wrt (\<lambda>a b. rank a < rank b) (stage_reports xs ?d)
      \<and> (\<forall>r \<in> set (stage_reports xs ?d). r \<in> {Convergence, WrapUp}
         \<and> (\<forall>s. phase_value s \<in> fst ` set (d_stages ?d) \<longrightarrow> rank s < rank r))"
      using Cons.prems(2,3) x by (intro Cons.IH [OF below(1)]) auto
    show ?thesis
    proof (cases "fst (maybe_enter_degradation_stage t t' d)")
      case None
      then have "stage_reports (x # xs) d = stage_reports xs ?d" using x by simp
      then show ?thesis using IH below(3) [of t'] by (metis subsetD)
    next
      case (Some s)
      note new = below(2) [OF Some]
      have "rank q < rank s" if "phase_value q \<in> fst ` set (d_stages d)" for q
      proof -
        have "rank q \<le> rank s" using Cons.prems(1) t that new unfolding entered_below_def by blast
        moreover have "q \<noteq> s" using that new by blast
        ultimately show ?thesis by (cases q; cases s) simp_all
      qed
      moreover have "s \<in> {Convergence, WrapUp}" using new stage_cases [of d t] by auto
      ultimately show ?thesis using IH new Some x by auto
    qed
  qed
qed simp

text \<open>
  C22. Stages are reported once and in order: over any operations on a new deadline whose stage checks come
  at non-decreasing times, the stages reported strictly rise, so that convergence and wrap-up are each
  reported at most once and never convergence after wrap-up.
\<close>

theorem stages_reported_once:
  assumes "from_duration start duration source fin degr = Inr d" "sorted (enter_times ops)"
  shows "sorted_wrt (\<lambda>a b. rank a < rank b) (stage_reports ops d)
    \<and> set (stage_reports ops d) \<subseteq> {Convergence, WrapUp}"
proof -
  have "d_stages d = []"
    using assms(1) by (auto simp: from_duration_def make_deadline_def split: option.splits sum.splits)
  moreover from this have "entered_below d (hd (enter_times ops))" by (simp add: entered_below_def)
  moreover have "\<forall>t \<in> set (enter_times ops). hd (enter_times ops) \<le> t"
    using assms(2) by (cases "enter_times ops") auto
  ultimately show ?thesis using reports_rise [of d "hd (enter_times ops)" ops] assms(2) by auto
qed

theorem stages_reported_once_witness:
  "sorted_wrt (\<lambda>a b. rank a < rank b)
      (stage_reports [EnterStage 2700 2700, EnterStage 2800 2800, EnterStage 3300 3301] hour_deadline)
    \<and> set (stage_reports [EnterStage 2700 2700, EnterStage 2800 2800, EnterStage 3300 3301] hour_deadline)
      \<subseteq> {Convergence, WrapUp}"
  by (rule stages_reported_once [OF hour_deadline_new]) simp

lemma sample_reports:
  "stage_reports [EnterStage 2700 2700, EnterStage 2800 2800, EnterStage 3300 3301] hour_deadline = [Convergence, WrapUp]"
  by code_simp

section \<open>Bounds\<close>

text \<open>
  The finalization reserve is bounded whatever was observed: it is not negative, at most the larger of
  the smallest timeout and the policy's maximum, and with a configured duration at most the policy's
  fraction of it (or the smallest timeout).
\<close>

theorem reserve_is_bounded:
  "0 \<le> finalization_reserve_seconds d None
    \<and> finalization_reserve_seconds d None \<le> max (1 / 20) (max 0 (fp_max_reserve (d_finalization d)))
    \<and> (case d_configured d of None \<Rightarrow> True
       | Some c \<Rightarrow> finalization_reserve_seconds d None
           \<le> max (1 / 20) (c * max 0 (min 1 (fp_max_fraction (d_finalization d)))))"
proof -
  let ?p = "normalized_finalization (d_finalization d)"
  have le: "finalization_reserve_seconds d None \<le> max 0 (finalization_cap ?p (d_configured d))"
    by (auto simp: finalization_reserve_seconds_def Let_def min_def max_def)
  have pos: "0 < finalization_cap p c" for p c
    by (simp add: finalization_cap_def MINIMUM_OPERATION_TIMEOUT_SECONDS_def less_max_iff_disj)
  have cap: "finalization_cap p c \<le> max (1 / 20) (fp_max_reserve p)" for p c
    unfolding finalization_cap_def MINIMUM_OPERATION_TIMEOUT_SECONDS_def Let_def
    by (intro max.mono order_refl min.cobounded1)
  have share: "finalization_cap p (Some c) \<le> max (1 / 20) (c * fp_max_fraction p)" for p c
    unfolding finalization_cap_def MINIMUM_OPERATION_TIMEOUT_SECONDS_def Let_def option.case
    by (intro max.boundedI max.cobounded1 min.cobounded2)
  have fields: "fp_max_reserve ?p = max 0 (fp_max_reserve (d_finalization d))"
      "fp_max_fraction ?p = max 0 (min 1 (fp_max_fraction (d_finalization d)))"
    by (simp_all add: normalized_finalization_def)
  have r: "finalization_reserve_seconds d None \<le> finalization_cap ?p (d_configured d)"
    using le pos [of ?p "d_configured d"] by simp
  have "0 \<le> finalization_reserve_seconds d None"
    by (simp add: finalization_reserve_seconds_def Let_def)
  moreover note order_trans [OF r cap, unfolded fields]
  moreover have "finalization_reserve_seconds d None \<le> max (1 / 20) (c * max 0 (min 1 (fp_max_fraction (d_finalization d))))"
    if "d_configured d = Some c" for c
    using order_trans [OF r [unfolded that] share, unfolded fields] .
  ultimately show ?thesis by (simp only: split: option.split) blast
qed

text \<open>
  A clamped timeout leaves its reserve: under a deadline that ends at \<open>e\<close>, a timeout that is granted
  plus the reserve asked for fits into what remains, it is at least the smallest useful timeout, and it
  is longer than the configured timeout only to reach that.
\<close>

lemma clamp_timeout_fits:
  assumes "clamp_timeout d now configured reserve minimum = Inr (Some t)" "d_deadline d = Some e"
  shows "t + max 0 reserve \<le> max 0 (e - now)" "minimum \<le> t"
    "configured = Some c \<Longrightarrow> t \<le> max minimum c"
proof -
  define room where "room = max 0 (e - now)"
  define kept where "kept = max 0 reserve"
  define safe where "safe = room - kept"
  define least where "least = max 0 minimum"
  have rem: "remaining_seconds d now = Some room" using assms(2) by (simp add: remaining_seconds_def room_def)
  have clamp: "clamp_timeout d now configured reserve minimum =
      (if safe < least then Inr None
       else (case configured of None \<Rightarrow> Inr (Some safe)
         | Some q \<Rightarrow> if q \<le> 0 then Inl (''configured_timeout_seconds'' @ '' must be a finite number > 0'')
             else Inr (Some (max minimum (min q safe)))))"
    unfolding clamp_timeout_def rem Let_def safe_def kept_def least_def
    by (cases configured)
      (auto simp only: validate_deadline_seconds_def option.case float_value.case sum.case split: if_split)
  then have least: "least \<le> safe"
    and t: "configured = None \<and> t = safe \<or> (\<exists>q. configured = Some q \<and> t = max minimum (min q safe))"
    using assms(1) by (auto simp only: sum.simps option.simps split: if_splits option.splits)
  have le: "minimum \<le> safe" using least by (simp add: least_def)
  then have "t \<le> safe" using t by auto
  then show "t + max 0 reserve \<le> max 0 (e - now)" by (simp add: safe_def room_def kept_def)
  show "minimum \<le> t" using t le by auto
  show "configured = Some c \<Longrightarrow> t \<le> max minimum c" using t by (auto simp: le_max_iff_disj)
qed

section \<open>Children and hosts\<close>

text \<open>
  C20. A subagent never outlives its parent: the deadline derived from a parent that ends at \<open>e\<close> ends at \<open>e\<close>
  or earlier; it is the parent's own, or one that ends after the configured seconds under the parent's
  policies.
\<close>

theorem child_deadline_never_later:
  assumes "derive_subagent_deadline (Some p) fallback now t1 t2 t3 = Inr c" "d_deadline p = Some e"
  shows "\<exists>e'. d_deadline c = Some e' \<and> e' \<le> e
    \<and> (c = p \<or> (\<exists>q. fallback = Some (Fin q) \<and> 0 < q \<and> e' = now + q
         \<and> d_finalization c = d_finalization p \<and> d_degradation c = d_degradation p))"
  using assms
  by (auto simp: derive_subagent_deadline_def from_absolute_def make_deadline_def validate_deadline_seconds_def
      split: option.splits float_value.splits if_splits sum.splits)

theorem child_deadline_never_later_witness:
  "\<exists>e'. d_deadline (make_deadline 100 (Some 400) (Some 300) ''subagent_fallback'' None None) = Some e' \<and> e' \<le> 3600
    \<and> (make_deadline 100 (Some 400) (Some 300) ''subagent_fallback'' None None = hour_deadline
       \<or> (\<exists>q. Some (Fin 300) = Some (Fin q) \<and> 0 < q \<and> e' = 100 + q
         \<and> d_finalization (make_deadline 100 (Some 400) (Some 300) ''subagent_fallback'' None None) = d_finalization hour_deadline
         \<and> d_degradation (make_deadline 100 (Some 400) (Some 300) ''subagent_fallback'' None None) = d_degradation hour_deadline))"
proof (rule child_deadline_never_later)
  show "derive_subagent_deadline (Some hour_deadline) (Some (Fin 300)) 100 100 100 100 =
      Inr (make_deadline 100 (Some 400) (Some 300) ''subagent_fallback'' None None)" by code_simp
  show "d_deadline hour_deadline = Some 3600" by (simp add: hour_deadline_def make_deadline_def)
qed

definition host_limited :: exec_deadline where
  "host_limited = hour_deadline\<lparr>d_deadline := Some 600, d_started := - 3000\<rparr>"

lemma clamp_host_Inr:
  assumes "clamp_to_managed_host_deadline anchor now now_unix d = Inr (r, d')" "d_deadline d = Some e"
  obtains a u where "anchor = Some (Some (Fin a))" "now_unix = Some (Some (Fin u))"
    "d' = d\<lparr>d_deadline := Some (min e (now + (a - u))), d_started := d_started d - (e - min e (now + (a - u)))\<rparr>"
    "cr_exhausted r = (min e (now + (a - u)) \<le> now)"
  using assms
  by (auto simp: clamp_to_managed_host_deadline_def coerce_required_positive_finite_def Let_def
      split: sum.splits option.splits float_value.splits if_splits)

lemma reserve_cong:
  "d_observations d' = d_observations d \<Longrightarrow> d_finalization d' = d_finalization d \<Longrightarrow> d_configured d' = d_configured d \<Longrightarrow>
     deadline_enabled d' = deadline_enabled d \<Longrightarrow> finalization_reserve_seconds d' p = finalization_reserve_seconds d p"
  by (simp add: finalization_reserve_seconds_def raw_reserve_def observed_estimate_def Let_def split: option.split)

lemma exhausted_iff: "d_deadline d = Some e \<Longrightarrow> is_exhausted d t = (e \<le> t)"
  by (auto simp: is_exhausted_def remaining_seconds_def)

lemma stage_below_window: "rank (degradation_stage d t) \<le> 2"
  using stage_cases [of d t] by auto

lemma earlier_phase:
  assumes "degrades d d'" "d_deadline d = Some e" "d_deadline d' = Some e'" "e' \<le> e"
    "finalization_reserve_seconds d' None = finalization_reserve_seconds d None"
  shows "rank (current_phase d t1 t2 t3) \<le> rank (current_phase d' t1 t2 t3)"
proof -
  have "is_exhausted d t1 \<Longrightarrow> is_exhausted d' t1" "max 0 (e' - t2) \<le> max 0 (e - t2)"
    using assms(2-4) by (auto simp: is_exhausted_def remaining_seconds_def max_def)
  then show ?thesis
    using degrades_stage [OF assms(1) order_refl, of t3] stage_below_window [of d t3] assms(2,3,5)
    by (auto simp: current_phase_def remaining_seconds_def)
qed

text \<open>
  C21. A managed host only shortens: when the clamp to the host's expiry succeeds, the deadline ends no later
  than before and no later than the expiry read on the monotonic clock, its finalization reserve is
  unchanged, and at every later reading its phase is the one it had or a later one. The record says
  exhausted exactly if the narrowed deadline is over at the reading of the clamp.
\<close>

theorem host_clamp_only_narrows:
  assumes "clamp_to_managed_host_deadline (Some (Some (Fin a))) now (Some (Some (Fin u))) d = Inr (r, d')"
    "d_deadline d = Some e"
  shows "\<exists>e'. d_deadline d' = Some e' \<and> e' \<le> e \<and> e' - now \<le> a - u \<and> cr_exhausted r = is_exhausted d' now
    \<and> finalization_reserve_seconds d' None = finalization_reserve_seconds d None
    \<and> rank (current_phase d t1 t2 t3) \<le> rank (current_phase d' t1 t2 t3)"
proof -
  let ?e = "min e (now + (a - u))"
  have d': "d' = d\<lparr>d_deadline := Some ?e, d_started := d_started d - (e - ?e)\<rparr>" and r: "cr_exhausted r = (?e \<le> now)"
    using clamp_host_Inr [OF assms] by auto
  have reserve: "finalization_reserve_seconds d' None = finalization_reserve_seconds d None"
    by (rule reserve_cong) (simp_all add: d' deadline_enabled_def assms(2))
  have "rank (current_phase d t1 t2 t3) \<le> rank (current_phase d' t1 t2 t3)"
    by (rule earlier_phase [OF clamp_degrades [OF assms(1)] assms(2) _ _ reserve, of ?e]) (simp_all add: d')
  moreover have "cr_exhausted r = is_exhausted d' now"
    unfolding r by (rule exhausted_iff [symmetric]) (simp add: d')
  moreover have "?e - now \<le> a - u" using min.cobounded2 [of e "now + (a - u)"] by linarith
  ultimately show ?thesis using reserve by (simp add: d')
qed

theorem host_clamp_only_narrows_witness:
  "\<exists>e'. d_deadline host_limited = Some e' \<and> e' \<le> 3600 \<and> e' - 100 \<le> 1500 - (1000::rat)
    \<and> cr_exhausted \<lparr>cr_exhausted = False, cr_previous = 3600, cr_effective = 600, cr_narrowed_by = 3000\<rparr> = is_exhausted host_limited 100
    \<and> finalization_reserve_seconds host_limited None = finalization_reserve_seconds hour_deadline None
    \<and> rank (current_phase hour_deadline 100 100 100) \<le> rank (current_phase host_limited 100 100 100)"
proof (rule host_clamp_only_narrows)
  show "clamp_to_managed_host_deadline (Some (Some (Fin 1500))) 100 (Some (Some (Fin 1000))) hour_deadline =
      Inr (\<lparr>cr_exhausted = False, cr_previous = 3600, cr_effective = 600, cr_narrowed_by = 3000\<rparr>, host_limited)" by code_simp
  show "d_deadline hour_deadline = Some 3600" by (simp add: hour_deadline_def make_deadline_def)
qed

section \<open>Calls\<close>

lemma retry_allowed_frame:
  "retry_allowed d ts wait cm cl = (b, cm', cl') \<Longrightarrow>
     cm_original cm' = cm_original cm \<and> cl_has_timeout cl' = cl_has_timeout cl"
  by (auto simp: retry_allowed_def Let_def split: sum.splits option.splits if_splits)

lemma run_retries_frame:
  "run_retries d rs cm cl = (cm', cl') \<Longrightarrow>
     cm_original cm' = cm_original cm \<and> cl_has_timeout cl' = cl_has_timeout cl"
  by (induction d rs cm cl rule: run_retries.induct) (auto split: prod.splits dest!: retry_allowed_frame)

lemma enter_clamp_frame:
  "enter_clamp d ts cap reserve minimum operation cl = Inr (cl', cm) \<Longrightarrow>
     cm_original cm = cl \<and> cl_has_timeout cl' = cl_has_timeout cl"
  by (auto simp: enter_clamp_def Let_def split: sum.splits)

lemma restore_original: "cm_original cm = cl \<Longrightarrow> cl_has_timeout cl' = cl_has_timeout cl \<Longrightarrow> restore_client cm cl' = cl"
  by (simp add: restore_client_def)

text \<open>
  C12. A call leaves its client as it was: however the call ends and whatever retries it asked for, the
  client has its timeout and both hooks back, hooks that were missing are missing again, and a call that
  returned is reported as returned. The exception is replaced by the deadline's only if a transport
  timeout caused it.
\<close>

theorem client_is_restored:
  assumes "clamped_call deadline ts cap reserve minimum operation retries st finish ending cl = Inr (res, cl')"
  shows "cl' = cl \<and> (res = ClampReturns) = (ending = BodyReturns)
    \<and> (case res of ClampExhausted m e \<Rightarrow> has_transport_timeout_cause st e | _ \<Rightarrow> True)"
proof -
  have "cl' = cl"
    using assms by (auto simp: clamped_call_def exit_clamp_def intro!: restore_original
        dest!: enter_clamp_frame run_retries_frame split: option.splits if_splits sum.splits prod.splits)
  then show ?thesis
    using assms by (auto simp: clamped_call_def exit_clamp_def
        split: option.splits if_splits sum.splits prod.splits body_end.splits clamp_result.splits)
qed

definition plain_client :: "nat client" where
  "plain_client = \<lparr>cl_has_timeout = True, cl_timeout = Some 60, cl_retry = None, cl_stream = Some (OtherHook 7)\<rparr>"

definition timeout_exc :: timed_exc where
  "timeout_exc = \<lparr>ex_type_name = ''ReadTimeout'', ex_message = [], ex_connection_error = False,
    ex_tagged = False, ex_cause = None, ex_context = None, xt_status = False, xt_timeout = True\<rparr>"

theorem client_is_restored_witness:
  "plain_client = plain_client
    \<and> (ClampExhausted ''run deadline exhausted during llm_call'' 0 = ClampReturns) = (BodyRaises 0 True = BodyReturns)
    \<and> (case ClampExhausted ''run deadline exhausted during llm_call'' 0 of
         ClampExhausted m e \<Rightarrow> has_transport_timeout_cause [timeout_exc] e | _ \<Rightarrow> True)"
  by (rule client_is_restored [where deadline = "Some hour_deadline" and ts = "\<lambda>_. 3560" and cap = "Some 300" and reserve = 2
      and minimum = "1 / 20" and operation = "''llm_call''" and retries = "[(5, \<lambda>_. 3570)]" and finish = 3599]) code_simp

text \<open>
  C13. An admitted retry leaves its reserve: when a retry after a wait is allowed, the client's timeout for
  the next attempt, the wait and the reserve fit together into what remains, and outside the
  finalization window the reserve for finalization fits as well.
\<close>

theorem retries_leave_reserve:
  assumes "retry_allowed d ts wait cm cl = (True, cm', cl')" "d_deadline d = Some e"
  shows "\<exists>t. cl_timeout cl' = Some t
    \<and> t + max 0 wait + max 0 (cm_reserve cm)
      + (if current_phase d (ts 0) (ts 1) (ts 2) = FinalizationWindow then 0 else finalization_reserve_seconds d None)
      \<le> max 0 (e - ts 10)"
  using assms
  by (auto simp: retry_allowed_def remaining_seconds_def Let_def split: sum.splits option.splits if_splits)

definition entered_clamp :: "nat clamp" where
  "entered_clamp = \<lparr>cm_original = plain_client, cm_reserve = 2, cm_minimum = 1 / 20, cm_operation = ''llm_call'', cm_cutoff = None\<rparr>"

theorem retries_leave_reserve_witness:
  "\<exists>t. cl_timeout (plain_client\<lparr>cl_timeout := Some 22\<rparr>) = Some t
    \<and> t + max 0 5 + max 0 (cm_reserve entered_clamp)
      + (if current_phase hour_deadline 3570 3570 3570 = FinalizationWindow then 0
         else finalization_reserve_seconds hour_deadline None)
      \<le> max 0 (3600 - (3570::rat))"
proof (rule retries_leave_reserve [where ts = "\<lambda>_. 3570"])
  show "retry_allowed hour_deadline (\<lambda>_. 3570) 5 entered_clamp plain_client =
      (True, entered_clamp\<lparr>cm_cutoff := Some 3597\<rparr>, plain_client\<lparr>cl_timeout := Some 22\<rparr>)" by code_simp
  show "d_deadline hour_deadline = Some 3600" by (simp add: hour_deadline_def make_deadline_def)
qed

text \<open>
  C32. When a timeout is refused as exhausted: exactly if the deadline is enabled and what remains after the
  reserve is less than the minimum, or the deadline is disabled and no timeout was configured, although
  nothing has run out then.
\<close>

theorem exhaustion_is_reported_iff:
  "(deadline_timeout_or_raise (Some d) now configured reserve minimum operation = Inl (DeadlineExhausted m)) =
     (m = ''run deadline exhausted before '' @ operation
      \<and> (case d_deadline d of
           None \<Rightarrow> configured = None
         | Some e \<Rightarrow> max 0 (e - now) - max 0 reserve < max 0 minimum))"
proof -
  show ?thesis
    unfolding deadline_timeout_or_raise_def clamp_timeout_def remaining_seconds_def Let_def validate_deadline_seconds_def
    by (auto simp only: option.simps sum.simps option.case sum.case float_value.case deadline_error.simps
        split: option.splits if_splits)
qed

end
