(* ===== verification/IpAddress.thy ===== *)
theory IpAddress
  imports PyValue "HOL-Library.Word" "HOL-Library.Code_Target_Nat"
begin

unbundle bit_operations_syntax

text \<open>
  The part of Python's \<open>ipaddress\<close> the request guard uses: \<open>ip_address(text)\<close> for both
  versions, the text of an address (\<open>.compressed\<close>), networks and membership. An address is a
  \<open>32 word\<close> or a \<open>128 word\<close> with the scope text behind \<open>%\<close>. Every \<open>ValueError\<close> is \<open>None\<close>.
\<close>

datatype ip_addr = IPv4 "32 word" | IPv6 "128 word" "string option"

section \<open>Parsing\<close>

text \<open>\<open>IPv4Address._parse_octet\<close> and \<open>_ip_int_from_string\<close>: \<open>int.from_bytes(octets, 'big')\<close>.\<close>

definition parse_octet :: "string \<Rightarrow> nat option" where
  "parse_octet s =
     (if s = [] \<or> \<not> list_all is_digit s \<or> 3 < length s \<or> (s \<noteq> ''0'' \<and> hd s = CHR ''0'') then None
      else (let n = nat_of_digits s in if 255 < n then None else Some n))"

definition from_bytes :: "nat list \<Rightarrow> nat" where
  "from_bytes = foldl (\<lambda>a b. a * 256 + b) 0"

definition parse_v4 :: "string \<Rightarrow> (32 word) option" where
  "parse_v4 s = (let octets = py_split CHR ''.'' s in
     if CHR ''/'' \<in> set s \<or> length octets \<noteq> 4 then None
     else map_option (\<lambda>os. word_of_nat (from_bytes os)) (those (map parse_octet octets)))"

text \<open>\<open>IPv6Address._parse_hextet\<close>; a hextet of the text form is printed with \<open>%x\<close>.\<close>

definition hextet_digit :: "char \<Rightarrow> nat option" where
  "hextet_digit c = (if is_digit c then Some (code c - 48)
     else if 97 \<le> code c \<and> code c \<le> 102 then Some (code c - 87)
     else if 65 \<le> code c \<and> code c \<le> 70 then Some (code c - 55) else None)"

fun nat_of_hex :: "nat \<Rightarrow> string \<Rightarrow> nat option" where
  "nat_of_hex a [] = Some a"
| "nat_of_hex a (c # cs) = (case hextet_digit c of None \<Rightarrow> None | Some d \<Rightarrow> nat_of_hex (16 * a + d) cs)"

definition parse_hextet :: "string \<Rightarrow> nat option" where
  "parse_hextet s = (if s = [] \<or> 4 < length s then None else nat_of_hex 0 s)"

definition hex_char :: "nat \<Rightarrow> char" where
  "hex_char d = (if d < 10 then char_of (48 + d) else char_of (87 + d))"

fun show_hex :: "nat \<Rightarrow> string" where
  "show_hex n = (if n < 16 then [hex_char n] else show_hex (n div 16) @ [hex_char (n mod 16)])"

declare show_hex.simps [simp del]

text \<open>
  \<open>IPv6Address._ip_int_from_string\<close>. The parts between colons, an IPv4 text at the end read
  as two hextets; at most one empty part that is not at an end stands for the skipped zeros.
\<close>

definition v6_parts :: "string \<Rightarrow> string list option" where
  "v6_parts s = (let parts = py_split CHR '':'' s in
     if length parts < 3 then None
     else if CHR ''.'' \<in> set (last parts) then
       (case parse_v4 (last parts) of
          None \<Rightarrow> None
        | Some w \<Rightarrow> Some (butlast parts @ [show_hex (unat (drop_bit 16 w AND 0xFFFF)), show_hex (unat (w AND 0xFFFF))]))
     else Some parts)"

definition empty_middles :: "string list \<Rightarrow> nat list" where
  "empty_middles parts = filter (\<lambda>i. parts ! i = []) [1..<length parts - 1]"

definition v6_layout :: "string list \<Rightarrow> (nat \<times> nat \<times> nat) option" where
  "v6_layout parts = (case empty_middles parts of
     [] \<Rightarrow> if length parts \<noteq> 8 \<or> hd parts = [] \<or> last parts = [] then None
           else Some (length parts, 0, 0)
   | [k] \<Rightarrow>
       (let hi = (if hd parts = [] then k - 1 else k);
            lo = (if last parts = [] then length parts - k - 2 else length parts - k - 1)
        in if hd parts = [] \<and> hi \<noteq> 0 then None
           else if last parts = [] \<and> lo \<noteq> 0 then None
           else if 8 \<le> hi + lo then None
           else Some (hi, 8 - (hi + lo), lo))
   | _ \<Rightarrow> None)"

definition join_hextets :: "nat list \<Rightarrow> nat" where
  "join_hextets = foldl (\<lambda>a h. push_bit 16 a OR h) 0"

definition parse_v6_number :: "string \<Rightarrow> (128 word) option" where
  "parse_v6_number s = (case v6_parts s of
     None \<Rightarrow> None
   | Some parts \<Rightarrow>
       if 9 < length parts then None
       else (case v6_layout parts of
         None \<Rightarrow> None
       | Some (hi, skipped, lo) \<Rightarrow>
           (case (those (map parse_hextet (take hi parts)),
                  those (map parse_hextet (drop (length parts - lo) parts))) of
              (Some hs, Some ls) \<Rightarrow> Some (word_of_nat (join_hextets (hs @ replicate skipped 0 @ ls)))
            | _ \<Rightarrow> None)))"

text \<open>\<open>str.partition(c)\<close>, with a flag for whether the separator was there.\<close>

definition py_partition :: "char \<Rightarrow> string \<Rightarrow> string \<times> bool \<times> string" where
  "py_partition c s = (let a = takeWhile (\<lambda>x. x \<noteq> c) s; b = dropWhile (\<lambda>x. x \<noteq> c) s in
     (a, b \<noteq> [], tl b))"

definition split_scope_id :: "string \<Rightarrow> (string \<times> string option) option" where
  "split_scope_id s = (case py_partition CHR ''%'' s of
     (addr, sep, scope) \<Rightarrow>
       if \<not> sep then Some (addr, None)
       else if scope = [] \<or> CHR ''%'' \<in> set scope then None else Some (addr, Some scope))"

definition parse_v6 :: "string \<Rightarrow> ip_addr option" where
  "parse_v6 s =
     (if CHR ''/'' \<in> set s then None
      else case split_scope_id s of
        None \<Rightarrow> None
      | Some (addr, scope) \<Rightarrow> map_option (\<lambda>w. IPv6 w scope) (parse_v6_number addr))"

definition ip_address :: "string \<Rightarrow> ip_addr option" where
  "ip_address s = (case parse_v4 s of Some w \<Rightarrow> Some (IPv4 w) | None \<Rightarrow> parse_v6 s)"

section \<open>Printing\<close>

definition v4_octets :: "32 word \<Rightarrow> nat list" where
  "v4_octets w = map (\<lambda>k. unat (drop_bit (8 * k) w AND 255)) [3, 2, 1, 0]"

definition show_v4 :: "32 word \<Rightarrow> string" where
  "show_v4 w = py_join ''.'' (map show_nat (v4_octets w))"

definition v6_hextets :: "128 word \<Rightarrow> nat list" where
  "v6_hextets w = map (\<lambda>k. unat (drop_bit (16 * k) w AND 0xFFFF)) [7, 6, 5, 4, 3, 2, 1, 0]"

text \<open>
  \<open>_compress_hextets\<close>: the scan for the first longest run of zeros, then its replacement.
  \<open>None\<close> stands for the start \<open>-1\<close>.
\<close>

record zero_scan =
  best_start :: nat
  best_len :: nat
  run_start :: "nat option"
  run_len :: nat

definition scan_hextet :: "zero_scan \<Rightarrow> nat \<times> string \<Rightarrow> zero_scan" where
  "scan_hextet z ih = (case ih of (i, h) \<Rightarrow>
     if h = ''0'' then
       (let n = run_len z + 1;
            start = (case run_start z of None \<Rightarrow> i | Some j \<Rightarrow> j);
            z = z\<lparr>run_len := n, run_start := Some start\<rparr>
        in if best_len z < n then z\<lparr>best_len := n, best_start := start\<rparr> else z)
     else z\<lparr>run_len := 0, run_start := None\<rparr>)"

definition zero_runs :: "string list \<Rightarrow> zero_scan" where
  "zero_runs hs = foldl scan_hextet \<lparr>best_start = 0, best_len = 0, run_start = None, run_len = 0\<rparr>
     (enumerate 0 hs)"

definition compress_hextets :: "string list \<Rightarrow> string list" where
  "compress_hextets hs = (let z = zero_runs hs; i = best_start z; j = i + best_len z in
     if 1 < best_len z then
       (if i = 0 then [[]] else []) @ take i hs @ [[]] @ drop j hs @ (if j = length hs then [[]] else [])
     else hs)"

definition show_v6_number :: "128 word \<Rightarrow> string" where
  "show_v6_number w = py_join '':'' (compress_hextets (map show_hex (v6_hextets w)))"

definition compressed :: "ip_addr \<Rightarrow> string" where
  "compressed a = (case a of
     IPv4 w \<Rightarrow> show_v4 w
   | IPv6 w scope \<Rightarrow> show_v6_number w @
       (case scope of Some s \<Rightarrow> if s \<noteq> [] then CHR ''%'' # s else [] | None \<Rightarrow> []))"

section \<open>Networks\<close>

datatype ip_net = Net4 "32 word" nat | Net6 "128 word" nat

text \<open>\<open>_ip_int_from_prefix\<close>: \<open>ALL_ONES ^ (ALL_ONES >> prefixlen)\<close>.\<close>

definition netmask :: "nat \<Rightarrow> 'w::len word" where
  "netmask p = (-1) XOR drop_bit p (-1)"

text \<open>\<open>ip_network(text)\<close>, strict: no bit of the address behind the prefix.\<close>

definition ip_network :: "string \<Rightarrow> ip_net option" where
  "ip_network s = (case py_partition CHR ''/'' s of
     (addr, _, pre) \<Rightarrow>
       if pre = [] \<or> \<not> list_all is_digit pre then None
       else (case ip_address addr of
         Some (IPv4 w) \<Rightarrow> (let p = nat_of_digits pre in
           if p \<le> 32 \<and> w AND netmask p = w then Some (Net4 w p) else None)
       | Some (IPv6 w None) \<Rightarrow> (let p = nat_of_digits pre in
           if p \<le> 128 \<and> w AND netmask p = w then Some (Net6 w p) else None)
       | _ \<Rightarrow> None))"

definition network_text :: "ip_net \<Rightarrow> string" where
  "network_text n = (case n of
     Net4 w p \<Rightarrow> show_v4 w @ ''/'' @ show_nat p
   | Net6 w p \<Rightarrow> show_v6_number w @ ''/'' @ show_nat p)"

text \<open>\<open>_BaseNetwork.__contains__\<close>: never across versions.\<close>

fun in_network :: "ip_addr \<Rightarrow> ip_net \<Rightarrow> bool" where
  "in_network (IPv4 a) (Net4 w p) = (a AND netmask p = w)"
| "in_network (IPv6 a _) (Net6 w p) = (a AND netmask p = w)"
| "in_network _ _ = False"

end
