(* ===== verification/UrlParts.thy ===== *)
theory UrlParts
  imports IpAddress
begin

text \<open>
  The part of Python's \<open>urllib.parse\<close> the request guard uses: \<open>urlsplit\<close>, the accessors of
  its result, \<open>urlunsplit\<close> and \<open>urljoin\<close>. \<open>ValueError\<close> is \<open>None\<close>. On Latin-1 text the
  normalisation check of \<open>_checknetloc\<close> never raises: no character below 256 has one of
  \<open>/?#@:\<close> in its NFKC form, apart from those five.
\<close>

record split_url =
  url_scheme :: string
  url_netloc :: string
  url_path :: string
  url_query :: string
  url_fragment :: string

definition py_rpartition :: "char \<Rightarrow> string \<Rightarrow> string \<times> bool \<times> string" where
  "py_rpartition c s = (case py_partition c (rev s) of
     (b, found, a) \<Rightarrow> if found then (rev a, True, rev b) else ([], False, s))"

section \<open>Splitting\<close>

definition is_c0_or_space :: "char \<Rightarrow> bool" where
  "is_c0_or_space c = (code c \<le> 32)"

definition is_unsafe_url_char :: "char \<Rightarrow> bool" where
  "is_unsafe_url_char c = (code c = 9 \<or> code c = 10 \<or> code c = 13)"

definition is_url_alpha :: "char \<Rightarrow> bool" where
  "is_url_alpha c = (is_ascii_lower c \<or> is_ascii_upper c)"

definition is_scheme_char :: "char \<Rightarrow> bool" where
  "is_scheme_char c = (is_ascii_alnum c \<or> c \<in> {CHR ''+'', CHR ''-'', CHR ''.''})"

definition clean_url :: "string \<Rightarrow> string" where
  "clean_url s = filter (\<lambda>c. \<not> is_unsafe_url_char c) (dropWhile is_c0_or_space s)"

definition split_scheme :: "string \<Rightarrow> string \<Rightarrow> string \<times> string" where
  "split_scheme scheme url = (case py_partition CHR '':'' url of
     (a, found, rest) \<Rightarrow>
       if found \<and> a \<noteq> [] \<and> is_url_alpha (hd a) \<and> list_all is_scheme_char a
       then (py_lower a, rest) else (scheme, url))"

definition ends_netloc :: "char \<Rightarrow> bool" where
  "ends_netloc c = (c = CHR ''/'' \<or> c = CHR ''?'' \<or> c = CHR ''#'')"

definition is_hex_char :: "char \<Rightarrow> bool" where
  "is_hex_char c = (hextet_digit c \<noteq> None)"

text \<open>\<open>_check_bracketed_host\<close>: \<open>v[a-fA-F0-9]+\..+\<close>, or an IPv6 address.\<close>

definition bracketed_host_ok :: "string \<Rightarrow> bool" where
  "bracketed_host_ok h =
     (if py_startswith h ''v'' then
        (let rest = dropWhile is_hex_char (tl h) in
         takeWhile is_hex_char (tl h) \<noteq> [] \<and> rest \<noteq> [] \<and> hd rest = CHR ''.''
         \<and> tl rest \<noteq> [] \<and> list_all (\<lambda>c. code c \<noteq> 10) (tl rest))
      else (case ip_address h of Some (IPv6 _ _) \<Rightarrow> True | _ \<Rightarrow> False))"

definition netloc_brackets_ok :: "string \<Rightarrow> bool" where
  "netloc_brackets_ok netloc =
     ((CHR ''['' \<in> set netloc) = (CHR '']'' \<in> set netloc)
      \<and> (CHR ''['' \<in> set netloc \<longrightarrow>
           bracketed_host_ok (fst (py_partition CHR '']'' (snd (snd (py_partition CHR ''['' netloc)))))))"

definition urlsplit :: "string \<Rightarrow> string \<Rightarrow> split_url option" where
  "urlsplit text scheme0 =
     (let (scheme, url) = split_scheme
            (filter (\<lambda>c. \<not> is_unsafe_url_char c) (py_strip_of is_c0_or_space scheme0)) (clean_url text);
          (netloc, url) = (if take 2 url = ''//'' then
             (takeWhile (\<lambda>c. \<not> ends_netloc c) (drop 2 url), dropWhile (\<lambda>c. \<not> ends_netloc c) (drop 2 url))
             else ([], url));
          (url, _, fragment) = py_partition CHR ''#'' url;
          (url, _, query) = py_partition CHR ''?'' url
      in if netloc_brackets_ok netloc
         then Some \<lparr>url_scheme = scheme, url_netloc = netloc, url_path = url,
                url_query = query, url_fragment = fragment\<rparr>
         else None)"

section \<open>Accessors\<close>

definition userinfo :: "split_url \<Rightarrow> string option \<times> string option" where
  "userinfo u = (case py_rpartition CHR ''@'' (url_netloc u) of
     (info, have_info, _) \<Rightarrow>
       if have_info then
         (case py_partition CHR '':'' info of
            (user, have_password, password) \<Rightarrow> (Some user, if have_password then Some password else None))
       else (None, None))"

definition hostinfo :: "split_url \<Rightarrow> string \<times> string option" where
  "hostinfo u =
     (let host = snd (snd (py_rpartition CHR ''@'' (url_netloc u)));
          (_, have_open, bracketed) = py_partition CHR ''['' host;
          (hostname, port) =
            (if have_open then
               (let (name, _, after) = py_partition CHR '']'' bracketed
                in (name, snd (snd (py_partition CHR '':'' after))))
             else (let (name, _, port) = py_partition CHR '':'' host in (name, port)))
      in (hostname, if port = [] then None else Some port))"

definition hostname :: "split_url \<Rightarrow> string option" where
  "hostname u = (let h = fst (hostinfo u) in
     if h = [] then None
     else (case py_partition CHR ''%'' h of
       (name, found, zone) \<Rightarrow> Some (py_lower name @ (if found then ''%'' else []) @ zone)))"

text \<open>
  The \<open>port\<close> accessor: \<open>None\<close> for \<open>ValueError\<close>, which \<open>int\<close> also raises for more than 4300
  digits.
\<close>

definition url_port :: "split_url \<Rightarrow> nat option option" where
  "url_port u = (case snd (hostinfo u) of
     None \<Rightarrow> Some None
   | Some p \<Rightarrow>
       if list_all is_digit p \<and> length p \<le> 4300 \<and> nat_of_digits p \<le> 65535
       then Some (Some (nat_of_digits p)) else None)"

section \<open>Putting together\<close>

definition uses_netloc :: "string list" where
  "uses_netloc = ['''', ''ftp'', ''http'', ''gopher'', ''nntp'', ''telnet'', ''imap'', ''wais'',
     ''file'', ''mms'', ''https'', ''shttp'', ''snews'', ''prospero'', ''rtsp'', ''rtsps'', ''rtspu'',
     ''rsync'', ''svn'', ''svn+ssh'', ''sftp'', ''nfs'', ''git'', ''git+ssh'', ''ws'', ''wss'']"

definition uses_relative :: "string list" where
  "uses_relative = ['''', ''ftp'', ''http'', ''gopher'', ''nntp'', ''imap'', ''wais'', ''file'',
     ''https'', ''shttp'', ''mms'', ''prospero'', ''rtsp'', ''rtsps'', ''rtspu'', ''sftp'', ''svn'',
     ''svn+ssh'', ''ws'', ''wss'']"

definition uses_params :: "string list" where
  "uses_params = ['''', ''ftp'', ''hdl'', ''prospero'', ''http'', ''imap'', ''https'', ''shttp'',
     ''rtsp'', ''rtsps'', ''rtspu'', ''sip'', ''sips'', ''mms'', ''sftp'', ''tel'']"

definition urlunsplit :: "split_url \<Rightarrow> string" where
  "urlunsplit u =
     (let url = url_path u;
          url = (if url_netloc u \<noteq> [] \<or> (url_scheme u \<noteq> [] \<and> url_scheme u \<in> set uses_netloc) \<or> take 2 url = ''//''
                 then ''//'' @ url_netloc u @ (if url \<noteq> [] \<and> take 1 url \<noteq> ''/'' then ''/'' @ url else url)
                 else url);
          url = (if url_scheme u \<noteq> [] then url_scheme u @ '':'' @ url else url);
          url = (if url_query u \<noteq> [] then url @ ''?'' @ url_query u else url)
      in if url_fragment u \<noteq> [] then url @ ''#'' @ url_fragment u else url)"

text \<open>\<open>_splitparams\<close>, applied to a path with a \<open>;\<close>: those of the last segment.\<close>

definition split_params :: "string \<Rightarrow> string \<times> string" where
  "split_params path = (case py_rpartition CHR ''/'' path of
     (dir, slash, seg) \<Rightarrow>
       (case py_partition CHR '';'' seg of
          (a, found, b) \<Rightarrow>
            if found then ((if slash then dir @ ''/'' else []) @ a, b) else (path, [])))"

text \<open>\<open>urlparse\<close>: the split result with its parameters apart.\<close>

definition urlparse :: "string \<Rightarrow> string \<Rightarrow> (split_url \<times> string) option" where
  "urlparse text scheme = (case urlsplit text scheme of
     None \<Rightarrow> None
   | Some u \<Rightarrow>
       if url_scheme u \<in> set uses_params \<and> CHR '';'' \<in> set (url_path u)
       then (let (path, params) = split_params (url_path u) in Some (u\<lparr>url_path := path\<rparr>, params))
       else Some (u, []))"

definition urlunparse :: "split_url \<Rightarrow> string \<Rightarrow> string" where
  "urlunparse u params =
     urlunsplit (u\<lparr>url_path := (if params \<noteq> [] then url_path u @ '';'' @ params else url_path u)\<rparr>)"

definition resolve_segment :: "string list \<Rightarrow> string \<Rightarrow> string list" where
  "resolve_segment acc seg =
     (if seg = ''..'' then butlast acc else if seg = ''.'' then acc else acc @ [seg])"

text \<open>\<open>segments[1:-1] = filter(None, segments[1:-1])\<close>.\<close>

definition drop_empty_inner :: "string list \<Rightarrow> string list" where
  "drop_empty_inner segs =
     (if length segs < 2 then segs
      else hd segs # filter (\<lambda>s. s \<noteq> []) (butlast (tl segs)) @ [last segs])"

definition join_paths :: "string \<Rightarrow> string \<Rightarrow> string" where
  "join_paths bpath path =
     (let base_parts = py_split CHR ''/'' bpath;
          base_parts = (if last base_parts \<noteq> [] then butlast base_parts else base_parts);
          segments = (if take 1 path = ''/'' then py_split CHR ''/'' path
                      else drop_empty_inner (base_parts @ py_split CHR ''/'' path));
          resolved = foldl resolve_segment [] segments;
          resolved = (if last segments \<in> {''.'', ''..''} then resolved @ [[]] else resolved);
          joined = py_join ''/'' resolved
      in if joined = [] then ''/'' else joined)"

definition urljoin :: "string \<Rightarrow> string \<Rightarrow> string option" where
  "urljoin base url =
     (if base = [] then Some url
      else if url = [] then Some base
      else (case urlparse base [] of
        None \<Rightarrow> None
      | Some (b, bparams) \<Rightarrow>
          (case urlparse url (url_scheme b) of
             None \<Rightarrow> None
           | Some (u, params) \<Rightarrow>
               if url_scheme u \<noteq> url_scheme b \<or> url_scheme u \<notin> set uses_relative then Some url
               else if url_scheme u \<in> set uses_netloc \<and> url_netloc u \<noteq> [] then Some (urlunparse u params)
               else
                 (let u = (if url_scheme u \<in> set uses_netloc then u\<lparr>url_netloc := url_netloc b\<rparr> else u)
                  in if url_path u = [] \<and> params = [] then
                       Some (urlunparse (u\<lparr>url_path := url_path b,
                         url_query := (if url_query u = [] then url_query b else url_query u)\<rparr>) bparams)
                     else Some (urlunparse (u\<lparr>url_path := join_paths (url_path b) (url_path u)\<rparr>) params)))))"

end
