(* ===== verification/IpAddressProps.thy ===== *)
theory IpAddressProps
  imports IpAddress
begin

text \<open>
  Laws of addresses: the printed text of an address parses to it, for both versions, and
  membership in a network is a numeric range.
\<close>

lemma py_split_join:
  "xs \<noteq> [] \<Longrightarrow> \<forall>x\<in>set xs. c \<notin> set x \<Longrightarrow> py_split c (py_join [c] xs) = xs"
proof (induction "[c]" xs rule: py_join.induct)
  case (2 x)
  then show ?case by (induction x) (auto split: list.splits)
next
  case (3 x y ys)
  have "py_split c (x @ c # py_join [c] (y # ys)) = py_split c x @ py_split c (py_join [c] (y # ys))"
    by (rule py_split_append)
  moreover have "c \<notin> set x" using 3 by simp
  then have "py_split c x = [x]" by (induction x) (auto split: list.splits)
  ultimately show ?case using 3 by simp
qed simp

section \<open>Dotted decimal text\<close>

lemma unat_field:
  fixes w :: "'w::len word"
  shows "unat (drop_bit k w AND mask n) = unat w div 2 ^ k mod 2 ^ n"
  unfolding take_bit_eq_mask [symmetric] unsigned_take_bit_eq unat_drop_bit_eq
  by (simp only: take_bit_eq_mod drop_bit_eq_div)

lemma unat_byte: "unat (drop_bit k (w :: 'w::len word) AND 255) = unat w div 2 ^ k mod 256"
proof -
  have "mask 8 = (255 :: 'w word)" by (simp add: mask_eq_exp_minus_1)
  then show ?thesis using unat_field [of k w 8] by simp
qed

lemma unat_hextet: "unat (drop_bit k (w :: 'w::len word) AND 0xFFFF) = unat w div 2 ^ k mod 65536"
proof -
  have "mask 16 = (0xFFFF :: 'w word)" by (simp add: mask_eq_exp_minus_1)
  then show ?thesis using unat_field [of k w 16] by simp
qed

lemma place_value: "(n::nat) div 2 ^ (k + j) * 2 ^ j + n div 2 ^ k mod 2 ^ j = n div 2 ^ k"
  by (simp only: power_add div_mult2_eq div_mult_mod_eq)

lemma from_bytes_octets: "from_bytes (v4_octets w) = unat w"
proof -
  have "unat w < 2 ^ 32" using unsigned_less [of w] by simp
  then show ?thesis
    using place_value [of "unat w" 16 8] place_value [of "unat w" 8 8] place_value [of "unat w" 0 8]
    by (simp add: v4_octets_def from_bytes_def unat_byte)
qed

lemma octets_small: "n \<in> set (v4_octets w) \<Longrightarrow> n < 256"
  by (auto simp: v4_octets_def unat_byte)

lemma show_nat_small: "n < 1000 \<Longrightarrow> length (show_nat n) \<le> 3"
  by (simp add: show_nat.simps [of n] show_nat.simps [of "n div 10"] show_nat.simps [of "n div 100"]
      div_mult2_eq [symmetric])

lemma parse_octet_show: "n < 256 \<Longrightarrow> parse_octet (show_nat n) = Some n"
proof -
  assume n: "n < 256"
  have "show_nat n \<noteq> ''0'' \<longrightarrow> hd (show_nat n) \<noteq> CHR ''0''"
  proof (cases n)
    case 0
    then show ?thesis by (simp add: show_nat.simps [of 0] digit_char_def)
  next
    case (Suc m)
    then show ?thesis using show_nat_first [of n] by simp
  qed
  then show ?thesis
    using n show_nat_digits [of n] show_nat_small [of n]
    by (auto simp: parse_octet_def list_all_iff Let_def)
qed

lemma dot_not_digit: "\<not> is_digit CHR ''.''" "\<not> is_digit CHR '':''" "\<not> is_digit CHR ''/''" "\<not> is_digit CHR ''%''"
  by (simp_all add: is_digit_def code_def)

lemma in_show_nat: "c \<in> set (show_nat n) \<Longrightarrow> is_digit c"
  using show_nat_digits by blast

lemma set_py_join: "set (py_join sep xs) \<subseteq> set sep \<union> (\<Union>x\<in>set xs. set x)"
  by (induction sep xs rule: py_join.induct) auto

lemma show_v4_chars: "c \<in> set (show_v4 w) \<Longrightarrow> is_digit c \<or> c = CHR ''.''"
  using set_py_join [of "''.''" "map show_nat (v4_octets w)"]
  by (auto simp: show_v4_def dest: in_show_nat)

lemma parse_show_v4: "parse_v4 (show_v4 w) = Some w"
proof -
  have "py_split CHR ''.'' (show_v4 w) = map show_nat (v4_octets w)"
    unfolding show_v4_def
    by (rule py_split_join) (auto simp: v4_octets_def dest!: in_show_nat simp: dot_not_digit)
  moreover have "those (map parse_octet (map show_nat (v4_octets w))) = Some (v4_octets w)"
    using octets_small [of _ w] by (simp add: v4_octets_def parse_octet_show)
  moreover have "CHR ''/'' \<notin> set (show_v4 w)"
    using show_v4_chars [of "CHR ''/''" w] by (auto simp: dot_not_digit)
  moreover have "length (v4_octets w) = 4" by (simp add: v4_octets_def)
  ultimately show ?thesis by (simp add: parse_v4_def from_bytes_octets)
qed

section \<open>Hexadecimal text\<close>

lemma hextet_digit_char: "d < 16 \<Longrightarrow> hextet_digit (hex_char d) = Some d"
  by (auto simp: hextet_digit_def hex_char_def is_digit_def)

lemma nat_of_hex_append:
  "nat_of_hex a (xs @ ys) = (case nat_of_hex a xs of None \<Rightarrow> None | Some b \<Rightarrow> nat_of_hex b ys)"
  by (induction xs arbitrary: a) (auto split: option.splits)

lemma nat_of_hex_show: "nat_of_hex 0 (show_hex n) = Some n"
proof (induction n rule: show_hex.induct)
  case (1 n)
  then show ?case
    by (cases "n < 16") (simp_all add: show_hex.simps [of n] hextet_digit_char nat_of_hex_append)
qed

lemma show_hex_nonempty [simp]: "show_hex n \<noteq> []"
  by (simp add: show_hex.simps [of n])

lemma show_hex_small: "n < 65536 \<Longrightarrow> length (show_hex n) \<le> 4"
  by (simp add: show_hex.simps [of n] show_hex.simps [of "n div 16"] show_hex.simps [of "n div 256"]
      show_hex.simps [of "n div 4096"] div_mult2_eq [symmetric])

lemma parse_hextet_show: "n < 65536 \<Longrightarrow> parse_hextet (show_hex n) = Some n"
  using show_hex_small [of n] by (simp add: parse_hextet_def nat_of_hex_show)

lemma show_hex_chars: "c \<in> set (show_hex n) \<Longrightarrow> hextet_digit c \<noteq> None"
proof (induction n rule: show_hex.induct)
  case (1 n)
  then show ?case
    by (cases "n < 16") (auto simp: show_hex.simps [of n] hextet_digit_char)
qed

lemma show_hex_zero: "show_hex n = ''0'' \<longleftrightarrow> n = 0"
proof -
  have "char_of (48::nat) = CHR ''0''"
    by (subst code_inject [symmetric]) (simp add: code_def)
  then have "show_hex 0 = ''0''" by (simp add: show_hex.simps [of 0] hex_char_def)
  then show ?thesis using nat_of_hex_show [of n] nat_of_hex_show [of 0] by auto
qed

lemma hextet_digit_seps: "hextet_digit CHR '':'' = None" "hextet_digit CHR ''.'' = None" "hextet_digit CHR ''/'' = None" "hextet_digit CHR ''%'' = None"
  by (simp_all add: hextet_digit_def is_digit_def code_def)

lemma join_hextet: "h < 65536 \<Longrightarrow> push_bit 16 a OR h = a * 65536 + (h::nat)"
proof -
  assume "h < 65536"
  then have h: "take_bit 16 h = h" by (simp add: take_bit_nat_eq_self_iff)
  have "push_bit 16 a AND h = 0"
    by (subst h [symmetric]) (auto intro!: bit_eqI simp: bit_simps)
  then have "push_bit 16 a OR h = push_bit 16 a + h"
    by (rule disjunctive_add_eq_or [symmetric])
  then show ?thesis by (simp add: push_bit_eq_mult)
qed

lemma hextets_small: "n \<in> set (v6_hextets w) \<Longrightarrow> n < 65536"
  by (auto simp: v6_hextets_def unat_hextet)

lemma join_v6_hextets: "join_hextets (v6_hextets w) = unat w"
proof -
  have "unat w < 2 ^ 112 * 2 ^ 16" using unsigned_less [of w] by simp
  then have "unat w div 2 ^ 112 < 2 ^ 16" by (simp add: less_mult_imp_div_less)
  then show ?thesis
    using place_value [of "unat w" 96 16] place_value [of "unat w" 80 16] place_value [of "unat w" 64 16]
      place_value [of "unat w" 48 16] place_value [of "unat w" 32 16] place_value [of "unat w" 16 16]
      place_value [of "unat w" 0 16]
    by (simp add: v6_hextets_def join_hextets_def unat_hextet join_hextet)
qed

section \<open>The compressed form\<close>

text \<open>The scan finds a run of zeros; the run it is in ends at the current position.\<close>

definition zero_run :: "string list \<Rightarrow> nat \<Rightarrow> nat \<Rightarrow> bool" where
  "zero_run hs i n \<longleftrightarrow> i + n \<le> length hs \<and> (\<forall>k. i \<le> k \<and> k < i + n \<longrightarrow> hs ! k = ''0'')"

definition scan_ok :: "string list \<Rightarrow> zero_scan \<Rightarrow> bool" where
  "scan_ok hs z \<longleftrightarrow> zero_run hs (best_start z) (best_len z) \<and>
     (case run_start z of None \<Rightarrow> run_len z = 0
      | Some j \<Rightarrow> j + run_len z = length hs \<and> zero_run hs j (run_len z))"

lemma zero_run_snoc: "zero_run hs i n \<Longrightarrow> zero_run (hs @ [h]) i n"
  by (auto simp: zero_run_def nth_append)

lemma zero_run_grow: "zero_run hs i n \<Longrightarrow> i + n = length hs \<Longrightarrow> zero_run (hs @ [''0'']) i (Suc n)"
  by (auto simp: zero_run_def nth_append)

lemma zero_runs_snoc: "zero_runs (hs @ [h]) = scan_hextet (zero_runs hs) (length hs, h)"
  by (simp add: zero_runs_def enumerate_append_eq)

lemma zero_runs_ok: "scan_ok hs (zero_runs hs)"
proof (induction hs rule: rev_induct)
  case Nil
  then show ?case by (simp add: scan_ok_def zero_runs_def zero_run_def)
next
  case (snoc h hs)
  have fresh: "zero_run (hs @ [''0'']) (length hs) (Suc 0)"
    by (auto simp: zero_run_def nth_append)
  from snoc show ?case
    by (auto simp: zero_runs_snoc scan_ok_def scan_hextet_def Let_def fresh
        intro: zero_run_snoc zero_run_grow split: option.splits)
qed

lemma zero_run_split:
  assumes "zero_run hs i n"
  shows "hs = take i hs @ replicate n ''0'' @ drop (i + n) hs"
proof -
  have "take n (drop i hs) = replicate n ''0''"
    using assms by (auto simp: zero_run_def list_eq_iff_nth_eq)
  then show ?thesis by (metis append_take_drop_id drop_drop add.commute)
qed

lemma compress_cases:
  obtains (plain) "compress_hextets hs = hs"
  | (run) i n where "1 < n" "zero_run hs i n"
      "compress_hextets hs = (if i = 0 then [[]] else take i hs) @ [] #
         (if i + n = length hs then [[]] else drop (i + n) hs)"
proof (cases "1 < best_len (zero_runs hs)")
  case True
  show ?thesis
    by (rule run [OF True, of "best_start (zero_runs hs)"])
      (use zero_runs_ok [of hs] True in \<open>auto simp: scan_ok_def compress_hextets_def Let_def\<close>)
next
  case False
  then show ?thesis by (intro plain) (simp add: compress_hextets_def Let_def)
qed

lemma empty_middles_one:
  assumes "parts = pre @ [] # post" "pre \<noteq> []" "post \<noteq> []"
    and "[] \<notin> set (tl pre)" "[] \<notin> set (butlast post)"
  shows "empty_middles parts = [length pre]"
proof -
  have split: "[1..<length parts - 1] =
      [1..<length pre] @ length pre # [Suc (length pre)..<length parts - 1]"
  proof -
    obtain d where d: "length parts - 1 = length pre + Suc d"
      using assms(1,3) by (cases post) auto
    have "1 \<le> length pre" using assms(2) by (cases pre) auto
    then have "[1..<length pre + Suc d] = [1..<length pre] @ [length pre..<length pre + Suc d]"
      by (rule upt_add_eq_append)
    moreover have "[length pre..<length pre + Suc d] = length pre # [Suc (length pre)..<length pre + Suc d]"
      by (rule upt_conv_Cons) simp
    ultimately show ?thesis by (simp only: d)
  qed
  have "parts ! i \<noteq> []" if "i \<in> set [1..<length pre]" for i
  proof -
    have "parts ! i = tl pre ! (i - 1)" using that assms(1) by (auto simp: nth_append nth_tl)
    moreover have "tl pre ! (i - 1) \<in> set (tl pre)" using that by (intro nth_mem) auto
    ultimately show ?thesis using assms(4) by auto
  qed
  moreover have "parts ! i \<noteq> []" if "i \<in> set [Suc (length pre)..<length parts - 1]" for i
  proof -
    let ?k = "i - Suc (length pre)"
    have "parts ! i = butlast post ! ?k" using that assms(1) by (auto simp: nth_append nth_butlast nth_Cons')
    moreover have "butlast post ! ?k \<in> set (butlast post)" using that assms(1) by (intro nth_mem) auto
    ultimately show ?thesis using assms(5) by auto
  qed
  moreover have "parts ! length pre = []" using assms(1) by simp
  ultimately show ?thesis
    unfolding empty_middles_def split by (simp add: filter_empty_conv)
qed

section \<open>Round trips\<close>

lemma those_parse_hextets: "\<forall>n\<in>set xs. n < 65536 \<Longrightarrow> those (map parse_hextet (map show_hex xs)) = Some xs"
  by (induction xs) (simp_all add: parse_hextet_show)

definition hex_parts :: "128 word \<Rightarrow> string list" where
  "hex_parts w = map show_hex (v6_hextets w)"

lemma hex_parts_facts [simp]: "length (hex_parts w) = 8" "[] \<notin> set (hex_parts w)"
  by (simp_all add: hex_parts_def v6_hextets_def) (metis show_hex_nonempty)+

lemma hex_parts_chars: "p \<in> set (hex_parts w) \<Longrightarrow> c \<in> set p \<Longrightarrow> hextet_digit c \<noteq> None"
  by (auto simp: hex_parts_def dest: show_hex_chars)

lemma parse_hex_parts:
  "those (map parse_hextet (take i (hex_parts w))) = Some (take i (v6_hextets w))"
  "those (map parse_hextet (drop i (hex_parts w))) = Some (drop i (v6_hextets w))"
  unfolding hex_parts_def take_map drop_map
  by (rule those_parse_hextets; auto dest: in_set_takeD in_set_dropD hextets_small)+

lemma zero_hextets:
  assumes "zero_run (hex_parts w) i n"
  shows "take i (v6_hextets w) @ replicate n 0 @ drop (i + n) (v6_hextets w) = v6_hextets w"
proof -
  have len: "length (v6_hextets w) = 8" by (simp add: v6_hextets_def)
  have "take n (drop i (v6_hextets w)) = replicate n 0"
    using assms len
    by (intro nth_equalityI) (auto simp: zero_run_def hex_parts_def show_hex_zero)
  then show ?thesis by (metis append_take_drop_id drop_drop add.commute)
qed

lemma inner_parts:
  "[] \<notin> set (tl (take i (hex_parts w)))" "[] \<notin> set (butlast (drop i (hex_parts w)))"
proof -
  have "set (tl xs) \<subseteq> set xs" for xs :: "string list" by (cases xs) auto
  then show "[] \<notin> set (tl (take i (hex_parts w)))"
    using hex_parts_facts(2) [of w] by (blast dest: in_set_takeD)
  show "[] \<notin> set (butlast (drop i (hex_parts w)))"
    using hex_parts_facts(2) [of w] by (blast dest: in_set_butlastD in_set_dropD)
qed

definition text_parts :: "128 word \<Rightarrow> string list" where
  "text_parts w = compress_hextets (hex_parts w)"

lemma text_parts_chars:
  assumes "p \<in> set (text_parts w)" "c \<in> set p"
  shows "hextet_digit c \<noteq> None"
proof (cases rule: compress_cases [of "hex_parts w"])
  case plain
  then show ?thesis using assms hex_parts_chars by (auto simp: text_parts_def)
next
  case (run i n)
  then have "p \<in> set (hex_parts w)"
    using assms by (auto simp: text_parts_def split: if_splits dest: in_set_takeD in_set_dropD)
  then show ?thesis using assms(2) by (rule hex_parts_chars)
qed

lemma text_parts_layout:
  obtains i k lo where "v6_layout (text_parts w) = Some (i, k, lo)"
    "3 \<le> length (text_parts w)" "length (text_parts w) \<le> 9" 
    "those (map parse_hextet (take i (text_parts w))) = Some (take i (v6_hextets w))"
    "those (map parse_hextet (drop (length (text_parts w) - lo) (text_parts w))) =
       Some (drop (i + k) (v6_hextets w))"
    "take i (v6_hextets w) @ replicate k 0 @ drop (i + k) (v6_hextets w) = v6_hextets w"
proof (cases rule: compress_cases [of "hex_parts w"])
  case plain
  have "hex_parts w ! x \<noteq> []" if "x < 8" for x
    using that nth_mem [of x "hex_parts w"] by (metis hex_parts_facts)
  then have "empty_middles (hex_parts w) = []"
    by (simp add: empty_middles_def filter_empty_conv)
  moreover have "hd (hex_parts w) \<noteq> []" "last (hex_parts w) \<noteq> []"
    by (metis hex_parts_facts length_0_conv hd_in_set zero_neq_numeral,
        metis hex_parts_facts length_0_conv last_in_set zero_neq_numeral)
  ultimately have "v6_layout (text_parts w) = Some (8, 0, 0)"
    using plain by (simp add: v6_layout_def text_parts_def)
  then show ?thesis
    by (rule that) (use plain parse_hex_parts [of 8 w] parse_hex_parts [of 8 w] in
      \<open>simp_all add: text_parts_def v6_hextets_def\<close>)
next
  case (run i n)
  let ?pre = "if i = 0 then [[]] else take i (hex_parts w)"
  let ?post = "if i + n = 8 then [[]] else drop (i + n) (hex_parts w)"
  have parts: "text_parts w = ?pre @ [] # ?post" using run by (simp add: text_parts_def)
  have bound: "i + n \<le> 8" using run by (simp add: zero_run_def)
  have mid: "empty_middles (text_parts w) = [length ?pre]"
  proof (rule empty_middles_one [OF parts])
    show "?pre \<noteq> []" using hex_parts_facts(1) [of w] by (cases "hex_parts w") simp_all
    show "?post \<noteq> []" using bound by (simp add: drop_eq_Nil)
    show "[] \<notin> set (tl ?pre)" using inner_parts(1) [of i w] by simp
    show "[] \<notin> set (butlast ?post)" using inner_parts(2) [of "i + n" w] by simp
  qed
  have "hd (hex_parts w) \<noteq> []" "i + n < 8 \<Longrightarrow> last (drop (i + n) (hex_parts w)) \<noteq> []"
    using hex_parts_facts [of w] hd_in_set [of "hex_parts w"] last_in_set [of "drop (i + n) (hex_parts w)"]
    by (metis list.size(3) zero_neq_numeral, metis drop_eq_Nil in_set_dropD leD)
  then have hd_pre: "hd ?pre = [] \<longleftrightarrow> i = 0" and last_post: "last ?post = [] \<longleftrightarrow> i + n = 8"
    using bound by auto
  have "hex_parts w \<noteq> []" using hex_parts_facts(1) [of w] by (cases "hex_parts w") simp_all
  then have "v6_layout (text_parts w) = Some (i, n, 8 - (i + n))"
    using run bound hd_pre last_post unfolding v6_layout_def mid
    by (auto simp: parts hd_append last_append Let_def)
  then show ?thesis
  proof (rule that)
    show "3 \<le> length (text_parts w)" "length (text_parts w) \<le> 9"
      using run bound by (auto simp: parts)
    show "those (map parse_hextet (take i (text_parts w))) = Some (take i (v6_hextets w))"
      using bound parse_hex_parts(1) [of i w] by (simp add: parts)
    show "those (map parse_hextet (drop (length (text_parts w) - (8 - (i + n))) (text_parts w))) =
        Some (drop (i + n) (v6_hextets w))"
      using bound parse_hex_parts(2) [of "i + n" w] by (auto simp: parts v6_hextets_def)
    show "take i (v6_hextets w) @ replicate n 0 @ drop (i + n) (v6_hextets w) = v6_hextets w"
      by (rule zero_hextets [OF run(2)])
  qed
qed

lemma text_parts_sep: "p \<in> set (text_parts w) \<Longrightarrow> hextet_digit c = None \<Longrightarrow> c \<notin> set p"
  using text_parts_chars by blast

lemma v6_parts_show: "v6_parts (show_v6_number w) = Some (text_parts w)"
proof -
  obtain len: "3 \<le> length (text_parts w)" by (rule text_parts_layout)
  then have ne: "text_parts w \<noteq> []" by auto
  have "show_v6_number w = py_join '':'' (text_parts w)"
    by (simp add: show_v6_number_def text_parts_def hex_parts_def)
  then have "py_split CHR '':'' (show_v6_number w) = text_parts w"
    using ne by (simp add: py_split_join text_parts_sep hextet_digit_seps)
  moreover have "CHR ''.'' \<notin> set (last (text_parts w))"
    using ne text_parts_sep [OF last_in_set] by (simp add: hextet_digit_seps)
  ultimately show ?thesis using len by (simp add: v6_parts_def)
qed

lemma parse_show_v6: "parse_v6_number (show_v6_number w) = Some w"
  by (rule text_parts_layout [of w])
    (simp add: parse_v6_number_def v6_parts_show join_v6_hextets)

lemma show_v6_chars: "c \<in> set (show_v6_number w) \<Longrightarrow> hextet_digit c \<noteq> None \<or> c = CHR '':''"
  using set_py_join [of "'':''" "text_parts w"] text_parts_chars
  by (auto simp: show_v6_number_def text_parts_def hex_parts_def)

lemma show_v6_colon: "CHR '':'' \<in> set (show_v6_number w)"
proof -
  have "2 \<le> length xs \<Longrightarrow> CHR '':'' \<in> set (py_join '':'' xs)" for xs
    by (cases xs rule: list.exhaust; cases "tl xs") auto
  moreover obtain "3 \<le> length (text_parts w)" by (rule text_parts_layout)
  ultimately show ?thesis by (simp add: show_v6_number_def text_parts_def hex_parts_def)
qed

lemma in_py_split: "c \<in> set s \<Longrightarrow> c \<noteq> d \<Longrightarrow> \<exists>p\<in>set (py_split d s). c \<in> set p"
proof (induction s)
  case (Cons x s)
  obtain w ws where "py_split d s = w # ws" by (cases "py_split d s") auto
  with Cons show ?case by auto
qed simp

lemma those_some: "those xs = Some ys \<Longrightarrow> x \<in> set xs \<Longrightarrow> x \<noteq> None"
  by (induction xs arbitrary: ys) (auto split: option.splits)

lemma parse_v4_chars:
  assumes "parse_v4 s = Some w" "c \<in> set s"
  shows "is_digit c \<or> c = CHR ''.''"
proof (rule ccontr)
  assume n: "\<not> (is_digit c \<or> c = CHR ''.'')"
  then obtain p where p: "p \<in> set (py_split CHR ''.'' s)" "c \<in> set p"
    using assms(2) in_py_split by metis
  then have "parse_octet p = None" using n by (auto simp: parse_octet_def list_all_iff)
  with p(1) assms(1) show False
    by (auto simp: parse_v4_def Let_def split: if_splits dest: those_some [where x = None])
      (metis image_eqI list.set_map those_some)
qed

lemma partition_absent: "c \<notin> set s \<Longrightarrow> py_partition c s = (s, False, [])"
proof -
  assume "c \<notin> set s"
  then have "takeWhile (\<lambda>x. x \<noteq> c) s = s" "dropWhile (\<lambda>x. x \<noteq> c) s = []" by auto
  then show ?thesis by (simp only: py_partition_def Let_def list.sel) simp
qed

lemma partition_present: "c \<notin> set a \<Longrightarrow> py_partition c (a @ c # b) = (a, True, b)"
proof -
  assume "c \<notin> set a"
  then have "takeWhile (\<lambda>x. x \<noteq> c) (a @ c # b) = a" "dropWhile (\<lambda>x. x \<noteq> c) (a @ c # b) = c # b"
    by (induction a) auto
  then show ?thesis by (simp add: py_partition_def)
qed

lemma partition_rest: "set (snd (snd (py_partition c s))) \<subseteq> set s"
proof -
  have "set (tl xs) \<subseteq> set xs" for xs :: string by (cases xs) auto
  then have "set (tl (dropWhile (\<lambda>x. x \<noteq> c) s)) \<subseteq> set s"
    using set_dropWhileD [of _ "\<lambda>x. x \<noteq> c" s] by blast
  then show ?thesis by (simp add: py_partition_def)
qed

fun wf_ip :: "ip_addr \<Rightarrow> bool" where
  "wf_ip (IPv6 w (Some scope)) = (scope \<noteq> [] \<and> CHR ''%'' \<notin> set scope \<and> CHR ''/'' \<notin> set scope)"
| "wf_ip _ = True"

lemma ip_address_wf: "ip_address s = Some a \<Longrightarrow> wf_ip a"
  using partition_rest [of "CHR ''%''" s]
  by (auto simp: ip_address_def parse_v6_def split_scope_id_def
      split: option.splits if_splits prod.splits)

lemma ip_address_compressed: "wf_ip a \<Longrightarrow> ip_address (compressed a) = Some a"
proof (cases a)
  case (IPv4 w)
  then show ?thesis by (simp add: compressed_def ip_address_def parse_show_v4)
next
  case (IPv6 w scope)
  assume wf: "wf_ip a"
  have v4: "parse_v4 (show_v6_number w @ r) = None" for r
    using parse_v4_chars [of "show_v6_number w @ r" _ "CHR '':''"] show_v6_colon [of w] dot_not_digit
    by (cases "parse_v4 (show_v6_number w @ r)") auto
  have clean: "CHR ''/'' \<notin> set (show_v6_number w)" "CHR ''%'' \<notin> set (show_v6_number w)"
    using show_v6_chars [of _ w] by (auto simp: hextet_digit_seps dest!: show_v6_chars)
  show ?thesis
  proof (cases scope)
    case None
    then show ?thesis
      using IPv6 v4 [of "[]"] clean
      by (simp add: compressed_def ip_address_def parse_v6_def split_scope_id_def partition_absent parse_show_v6)
  next
    case (Some s)
    then show ?thesis
      using IPv6 v4 [of "CHR ''%'' # s"] clean wf
      by (simp add: compressed_def ip_address_def parse_v6_def split_scope_id_def partition_present parse_show_v6)
  qed
qed

text \<open>The contract of a text form: what is printed is read back.\<close>

locale text_form =
  fixes show_text :: "'a \<Rightarrow> string"
    and parse :: "string \<Rightarrow> 'a option"
    and valid :: "'a \<Rightarrow> bool"
  assumes parse_show: "valid a \<Longrightarrow> parse (show_text a) = Some a"
    and parse_valid: "parse s = Some a \<Longrightarrow> valid a"
begin

lemma reparse: "parse s = Some a \<Longrightarrow> parse (show_text a) = Some a"
  by (rule parse_show [OF parse_valid])

lemma show_inject: "valid a \<Longrightarrow> valid b \<Longrightarrow> show_text a = show_text b \<Longrightarrow> a = b"
  by (metis option.inject parse_show)

lemma same_text: "parse s = Some a \<Longrightarrow> parse t = Some b \<Longrightarrow> show_text a = show_text b \<longleftrightarrow> a = b"
  using show_inject parse_valid by blast

end

interpretation v4_text: text_form show_v4 parse_v4 "\<lambda>_. True"
  by unfold_locales (simp_all add: parse_show_v4)

interpretation v6_text: text_form show_v6_number parse_v6_number "\<lambda>_. True"
  by unfold_locales (simp_all add: parse_show_v6)

interpretation ip_text: text_form compressed ip_address wf_ip
  by unfold_locales (auto intro: ip_address_compressed ip_address_wf)

section \<open>Networks as ranges\<close>

lemma netmask_not_mask: "p \<le> LENGTH('w) \<Longrightarrow> (netmask p :: 'w::len word) = NOT (mask (LENGTH('w) - p))"
  by (rule bit_word_eqI) (auto simp: netmask_def bit_simps)

lemma and_netmask:
  fixes a :: "'w::len word"
  assumes "p \<le> LENGTH('w)"
  shows "unat (a AND netmask p) = unat a div 2 ^ (LENGTH('w) - p) * 2 ^ (LENGTH('w) - p)"
proof -
  let ?k = "LENGTH('w) - p"
  have "a AND netmask p = push_bit ?k (drop_bit ?k a)"
    unfolding netmask_not_mask [OF assms] by (rule bit_word_eqI) (auto simp: bit_simps)
  moreover have "unat a div 2 ^ ?k * 2 ^ ?k < 2 ^ LENGTH('w)"
    using unsigned_less [of a, where ?'a = nat] div_times_less_eq_dividend [of "unat a" "2 ^ ?k"] by linarith
  moreover have "unat (push_bit ?k (drop_bit ?k a)) = take_bit (LENGTH('w)) (unat a div 2 ^ ?k * 2 ^ ?k)"
    unfolding unsigned_push_bit_eq unat_drop_bit_eq by (simp only: push_bit_eq_mult drop_bit_eq_div)
  ultimately show ?thesis by (simp only: take_bit_nat_eq_self)
qed

lemma masked_eq_range:
  fixes a w :: "'w::len word"
  assumes "p \<le> LENGTH('w)" "w AND netmask p = w"
  shows "a AND netmask p = w \<longleftrightarrow>
    unat w \<le> unat a \<and> unat a < unat w + 2 ^ (LENGTH('w) - p)"
proof -
  let ?m = "2 ^ (LENGTH('w) - p) :: nat"
  have w: "unat w = unat w div ?m * ?m" using and_netmask [OF assms(1), of w] assms(2) by simp
  have "a AND netmask p = w \<longleftrightarrow> unat a div ?m * ?m = unat w"
    using and_netmask [OF assms(1), of a] by (metis word_unat_eq_iff)
  also have "\<dots> \<longleftrightarrow> unat a div ?m = unat w div ?m"
    by (subst w) simp
  also have "\<dots> \<longleftrightarrow> unat w div ?m * ?m \<le> unat a \<and> unat a < unat w div ?m * ?m + ?m"
  proof
    assume "unat a div ?m = unat w div ?m"
    then show "unat w div ?m * ?m \<le> unat a \<and> unat a < unat w div ?m * ?m + ?m"
      using div_times_less_eq_dividend [of "unat a" ?m] dividend_less_div_times [of ?m "unat a"]
      by (metis add.commute zero_less_numeral zero_less_power)
  next
    assume "unat w div ?m * ?m \<le> unat a \<and> unat a < unat w div ?m * ?m + ?m"
    then show "unat a div ?m = unat w div ?m"
      by (intro div_nat_eqI) (simp_all add: ac_simps)
  qed
  finally show ?thesis using w by simp
qed

lemma aligned_iff:
  fixes w :: "'w::len word"
  assumes "p \<le> LENGTH('w)"
  shows "w AND netmask p = w \<longleftrightarrow> 2 ^ (LENGTH('w) - p) dvd unat w"
proof -
  have "w AND netmask p = w \<longleftrightarrow> unat w div 2 ^ (LENGTH('w) - p) * 2 ^ (LENGTH('w) - p) = unat w"
    using and_netmask [OF assms, of w] by (metis word_unat_eq_iff)
  then show ?thesis by (metis dvd_div_mult_self dvd_triv_right)
qed

text \<open>Evaluation of network texts, step by step.\<close>

lemma parse_v6_numberI:
  assumes "v6_parts s = Some parts" "length parts \<le> 9" "v6_layout parts = Some (hi, k, lo)"
    "those (map parse_hextet (take hi parts)) = Some hs"
    "those (map parse_hextet (drop (length parts - lo) parts)) = Some ls"
  shows "parse_v6_number s = Some (word_of_nat (join_hextets (hs @ replicate k 0 @ ls)))"
  using assms by (simp add: parse_v6_number_def)

lemma ip_network_v4I:
  assumes "py_partition CHR ''/'' s = (addr, True, pre)" "pre \<noteq> []" "list_all is_digit pre"
    "nat_of_digits pre = p" "p \<le> 32" "parse_v4 addr = Some w" "2 ^ (32 - p) dvd unat w"
  shows "ip_network s = Some (Net4 w p)"
  using assms by (simp add: ip_network_def ip_address_def aligned_iff)

lemma ip_network_v6I:
  assumes "py_partition CHR ''/'' s = (addr, True, pre)" "pre \<noteq> []" "list_all is_digit pre"
    "nat_of_digits pre = p" "p \<le> 128" "parse_v4 addr = None" "CHR ''/'' \<notin> set addr"
    "split_scope_id addr = Some (addr, None)" "parse_v6_number addr = Some w"
    "2 ^ (128 - p) dvd unat w"
  shows "ip_network s = Some (Net6 w p)"
  using assms by (simp add: ip_network_def ip_address_def parse_v6_def aligned_iff)

end
