(* ===== verification/SafeHttp.thy ===== *)
theory SafeHttp
  imports UrlParts IpAddressProps
begin

text \<open>
  The outbound request guard (\<open>safety/safe_http.py\<close>): a request goes out only to a URL that
  was split, resolved and checked against the denied networks, and every redirect is checked
  again.

  \<open>socket.getaddrinfo\<close> is an argument, as is the other end of the connection: what the
  client reports for a request, given the requests made before it. A caller's own resolver
  takes the place of \<open>resolve_host_addresses\<close>.
\<close>

datatype httpx_failure = DecodingError | OtherHttpxError string

datatype http_error =
    SafeHttpError string bool
  | UrlValueError
  | AddressIndexError
  | HttpxError httpx_failure

type_synonym resolver = "string \<Rightarrow> nat \<Rightarrow> http_error + string list"

type_synonym byte_string = "8 word list"

definition allowed_schemes :: "string list" where
  "allowed_schemes = [''http'', ''https'']"

definition redirect_status_codes :: "int list" where
  "redirect_status_codes = [301, 302, 303, 307, 308]"

definition denied_network_texts :: "string list" where
  "denied_network_texts = [''127.0.0.0/8'', ''::1/128'', ''169.254.0.0/16'', ''fe80::/10'',
     ''10.0.0.0/8'', ''172.16.0.0/12'', ''192.168.0.0/16'', ''fc00::/7'', ''0.0.0.0/32'',
     ''::/128'', ''224.0.0.0/4'', ''ff00::/8'']"

definition denied_networks :: "ip_net list" where
  "denied_networks = List.map_filter ip_network denied_network_texts"

section \<open>Validating a target\<close>

record safe_target =
  t_request_url :: string
  t_connect_url :: string
  t_host_header :: string

definition blocked_ip_reason :: "ip_addr \<Rightarrow> string option" where
  "blocked_ip_reason a = map_option network_text (List.find (in_network a) denied_networks)"

definition parse_ip_address :: "string \<Rightarrow> string \<Rightarrow> http_error + ip_addr" where
  "parse_ip_address host v = (case ip_address v of
     Some a \<Rightarrow> Inr a
   | None \<Rightarrow> Inl (SafeHttpError (''Resolver returned a non-IP address for host '' @ [CHR 0x27] @ host
       @ [CHR 0x27] @ '': '' @ py_repr (PStr v)) True))"

fun parse_ip_addresses :: "string \<Rightarrow> string list \<Rightarrow> http_error + ip_addr list" where
  "parse_ip_addresses host [] = Inr []"
| "parse_ip_addresses host (v # vs) = (case parse_ip_address host v of
     Inl e \<Rightarrow> Inl e
   | Inr a \<Rightarrow> (case parse_ip_addresses host vs of Inl e \<Rightarrow> Inl e | Inr as \<Rightarrow> Inr (a # as)))"

definition default_port :: "string \<Rightarrow> nat" where
  "default_port scheme = (if scheme = ''https'' then 443 else 80)"

definition host_header :: "string \<Rightarrow> nat option \<Rightarrow> string \<Rightarrow> bool \<Rightarrow> string" where
  "host_header host port scheme force_port =
     (let bracketed = (if CHR '':'' \<in> set host \<and> \<not> py_startswith host ''['' then ''['' @ host @ '']'' else host)
      in case port of
           None \<Rightarrow> bracketed
         | Some p \<Rightarrow> if p = default_port scheme \<and> \<not> force_port then bracketed
                     else bracketed @ '':'' @ show_nat p)"

text \<open>The message for denied addresses; the literal host and the resolved ones share it.\<close>

definition denied_error :: "string \<Rightarrow> string list \<Rightarrow> http_error" where
  "denied_error host reasons = SafeHttpError (''Blocked URL host '' @ [CHR 0x27] @ host @ [CHR 0x27]
     @ '': resolved to denied address(es): '' @ py_join '', '' reasons @ ''.'') True"

definition blocked_entry :: "ip_addr \<Rightarrow> string option" where
  "blocked_entry a = map_option (\<lambda>r. compressed a @ '' ('' @ r @ '')'') (blocked_ip_reason a)"

text \<open>
  The guards on the split URL: its scheme, host, credentials, port, and a host that is itself
  an address. The result is the lower-case scheme, the host and the port.
\<close>

definition check_split :: "split_url \<Rightarrow> http_error + string \<times> string \<times> nat" where
  "check_split u =
     (let scheme = py_lower (url_scheme u) in
      if scheme \<notin> set allowed_schemes then
        Inl (SafeHttpError (''Unsupported URL scheme: ''
          @ (if url_scheme u = [] then ''(missing)'' else url_scheme u)) True)
      else case hostname u of
        None \<Rightarrow> Inl (SafeHttpError ''URL must include a hostname.'' True)
      | Some host \<Rightarrow>
          if fst (userinfo u) \<noteq> None \<or> snd (userinfo u) \<noteq> None then
            Inl (SafeHttpError ''Embedded URL credentials are not allowed.'' True)
          else (case url_port u of
            None \<Rightarrow> Inl (SafeHttpError ''URL has an invalid port value.'' True)
          | Some p \<Rightarrow>
              (let port = (case p of None \<Rightarrow> default_port scheme | Some n \<Rightarrow> n) in
               case Option.bind (ip_address host) blocked_entry of
                 Some reason \<Rightarrow> Inl (denied_error host [reason])
               | None \<Rightarrow> Inr (scheme, host, port))))"

definition target_of :: "bool \<Rightarrow> split_url \<Rightarrow> string \<Rightarrow> string \<Rightarrow> nat \<Rightarrow> ip_addr list \<Rightarrow> http_error + safe_target" where
  "target_of use_resolved u scheme host port addresses =
     (let header = host_header host (case url_port u of Some p \<Rightarrow> p | None \<Rightarrow> None) scheme False;
          request_url = urlunsplit (u\<lparr>url_fragment := []\<rparr>)
      in if use_resolved \<and> scheme \<noteq> ''https'' then
           (case addresses of
              [] \<Rightarrow> Inl AddressIndexError
            | a # _ \<Rightarrow>
                (let ip = compressed a;
                     connect_host = (if CHR '':'' \<in> set ip then ''['' @ ip @ '']'' else ip);
                     netloc = host_header connect_host (Some port) scheme True
                 in Inr \<lparr>t_request_url = request_url,
                         t_connect_url = urlunsplit (u\<lparr>url_netloc := netloc, url_fragment := []\<rparr>),
                         t_host_header = header\<rparr>))
         else Inr \<lparr>t_request_url = request_url, t_connect_url = request_url, t_host_header = header\<rparr>)"

definition validate_and_resolve_target :: "resolver \<Rightarrow> bool \<Rightarrow> string \<Rightarrow> http_error + safe_target" where
  "validate_and_resolve_target resolver use_resolved url = (case urlsplit (py_strip url) [] of
     None \<Rightarrow> Inl UrlValueError
   | Some u \<Rightarrow> (case check_split u of
       Inl e \<Rightarrow> Inl e
     | Inr (scheme, host, port) \<Rightarrow> (case resolver host port of
         Inl e \<Rightarrow> Inl e
       | Inr texts \<Rightarrow> (case parse_ip_addresses host texts of
           Inl e \<Rightarrow> Inl e
         | Inr addresses \<Rightarrow>
             (let blocked = List.map_filter blocked_entry addresses in
              if blocked \<noteq> [] then Inl (denied_error host blocked)
              else target_of use_resolved u scheme host port addresses)))))"

text \<open>
  The default resolver. An entry of \<open>getaddrinfo\<close> is the first item of its socket address,
  \<open>None\<close> for an empty one.
\<close>

definition resolve_host_addresses ::
  "(string \<Rightarrow> nat \<Rightarrow> string + string option list) \<Rightarrow> resolver" where
  "resolve_host_addresses getaddrinfo host port = (case getaddrinfo host port of
     Inl exc \<Rightarrow> Inl (SafeHttpError (''Failed to resolve host '' @ [CHR 0x27] @ host @ [CHR 0x27] @ '': '' @ exc) False)
   | Inr infos \<Rightarrow>
       (let addresses = dedup (filter (\<lambda>a. a \<noteq> []) (map py_strip (List.map_filter id infos)))
        in if addresses = [] then
             Inl (SafeHttpError (''Host '' @ [CHR 0x27] @ host @ [CHR 0x27] @ '' did not resolve to any address.'') True)
           else Inr addresses))"

section \<open>One request\<close>

record http_request =
  rq_method :: string
  rq_connect_url :: string
  rq_request_url :: string
  rq_headers :: "(string \<times> string) list"
  rq_json :: "pyval option"
  rq_content :: "byte_string option"

text \<open>
  What the client reports: a failure before any response, or a status, the \<open>Location\<close> header
  and the decoded chunks, after which reading may fail.
\<close>

datatype reply =
    NoReply httpx_failure
  | Reply int "string option" "byte_string list" "httpx_failure option"

record http_response =
  rs_status :: int
  rs_location :: "string option"
  rs_body :: byte_string

definition headers_with_default_accept_encoding :: "(string \<times> string) list \<Rightarrow> (string \<times> string) list" where
  "headers_with_default_accept_encoding headers =
     (if list_ex (\<lambda>(k, _). py_lower k = ''accept-encoding'') headers then headers
      else alist_put ''Accept-Encoding'' ''identity'' headers)"

fun read_body :: "int \<Rightarrow> byte_string \<Rightarrow> byte_string list \<Rightarrow> byte_string option" where
  "read_body max_bytes body [] = Some body"
| "read_body max_bytes body (chunk # chunks) =
     (if chunk = [] then read_body max_bytes body chunks
      else if max_bytes < int (length body) + int (length chunk) then None
      else read_body max_bytes (body @ chunk) chunks)"

definition make_request ::
  "string \<Rightarrow> safe_target \<Rightarrow> (string \<times> string) list \<Rightarrow> pyval option \<Rightarrow> byte_string option \<Rightarrow> http_request" where
  "make_request verb target headers json content =
     \<lparr>rq_method = verb, rq_connect_url = t_connect_url target, rq_request_url = t_request_url target,
      rq_headers = alist_put ''Host'' (t_host_header target) headers, rq_json = json, rq_content = content\<rparr>"

definition single_request :: "int \<Rightarrow> reply \<Rightarrow> http_error + http_response" where
  "single_request max_bytes r = (case r of
     NoReply f \<Rightarrow> Inl (HttpxError f)
   | Reply status location chunks failure \<Rightarrow> (case read_body max_bytes [] chunks of
       None \<Rightarrow> Inl (SafeHttpError (''Response body exceeded max_bytes='' @ show_int max_bytes @ ''.'') True)
     | Some body \<Rightarrow> (case failure of
         Some f \<Rightarrow> Inl (HttpxError f)
       | None \<Rightarrow> Inr \<lparr>rs_status = status, rs_location = location, rs_body = body\<rparr>)))"

section \<open>The redirect loop\<close>

type_synonym http_log = "http_request list"

record http_world =
  w_resolver :: "http_log \<Rightarrow> resolver"
  w_serve :: "http_log \<Rightarrow> http_request \<Rightarrow> reply"

record http_options =
  o_direct :: bool
  o_max_bytes :: int
  o_allow_redirects :: bool
  o_max_redirects :: int
  o_headers :: "(string \<times> string) list"

record http_state =
  h_url :: string
  h_method :: string
  h_json :: "pyval option"
  h_content :: "byte_string option"
  h_redirects :: int
  h_log :: http_log

definition drops_body :: "int \<Rightarrow> string \<Rightarrow> bool" where
  "drops_body status verb = (status = 303 \<or> (status \<in> {301, 302} \<and> verb \<notin> {''GET'', ''HEAD''}))"

definition follow_redirect :: "int \<Rightarrow> string \<Rightarrow> http_log \<Rightarrow> http_state \<Rightarrow> http_state" where
  "follow_redirect status url sent st =
     (let st = st\<lparr>h_redirects := h_redirects st + 1, h_url := url, h_log := sent\<rparr>
      in if drops_body status (h_method st)
         then st\<lparr>h_method := ''GET'', h_json := None, h_content := None\<rparr> else st)"

definition decoding_error :: http_error where
  "decoding_error = SafeHttpError (''Response decompression failed: server or proxy returned invalid ''
     @ ''Content-Encoding bytes. safe_http_request sends ''
     @ ''Accept-Encoding: identity by default; check upstream compression handling.'') True"

text \<open>The rest of a turn once a response is there: return it, fail, or go on.\<close>

definition after_response ::
  "http_options \<Rightarrow> http_state \<Rightarrow> http_log \<Rightarrow> http_response \<Rightarrow> (http_error + http_response) + http_state" where
  "after_response opts st sent resp =
     (if \<not> o_allow_redirects opts \<or> rs_status resp \<notin> set redirect_status_codes then Inl (Inr resp)
      else
        (let location = py_strip (case rs_location resp of None \<Rightarrow> [] | Some l \<Rightarrow> l) in
         if location = [] then
           Inl (Inl (SafeHttpError (''Redirect response '' @ show_int (rs_status resp)
             @ '' missing Location header.'') True))
         else if o_max_redirects opts \<le> h_redirects st then
           Inl (Inl (SafeHttpError (''Too many redirects (>'' @ show_int (o_max_redirects opts) @ '').'') True))
         else (case urljoin (h_url st) location of
           None \<Rightarrow> Inl (Inl UrlValueError)
         | Some url \<Rightarrow> Inr (follow_redirect (rs_status resp) url sent st))))"

text \<open>One turn of the loop: it ends with a result, or goes on with the next state.\<close>

definition http_turn ::
  "http_world \<Rightarrow> http_options \<Rightarrow> http_state \<Rightarrow> http_log \<times> ((http_error + http_response) + http_state)" where
  "http_turn w opts st = (case validate_and_resolve_target (w_resolver w (h_log st)) (o_direct opts) (h_url st) of
     Inl e \<Rightarrow> (h_log st, Inl (Inl e))
   | Inr target \<Rightarrow>
       (let req = make_request (h_method st) target (o_headers opts) (h_json st) (h_content st);
            sent = h_log st @ [req]
        in case single_request (o_max_bytes opts) (w_serve w (h_log st) req) of
             Inl e \<Rightarrow> (sent, Inl (Inl (if e = HttpxError DecodingError then decoding_error else e)))
           | Inr resp \<Rightarrow> (sent, after_response opts st sent resp)))"

lemma after_response_next:
  assumes "after_response opts st sent resp = Inr st'"
  shows "\<exists>url. st' = follow_redirect (rs_status resp) url sent st"
    and "h_redirects st < o_max_redirects opts"
    and "o_allow_redirects opts" "rs_status resp \<in> set redirect_status_codes" "rs_location resp \<noteq> None"
  using assms
  by (auto simp: after_response_def Let_def split: option.splits if_splits)

lemma after_response_body:
  "after_response opts st sent resp = Inl (Inr resp') \<Longrightarrow> resp' = resp"
  by (auto simp: after_response_def Let_def split: option.splits if_splits)

lemma http_turn_next:
  assumes "http_turn w opts st = (sent, Inr st')"
  shows "h_redirects st < o_max_redirects opts" "h_redirects st' = h_redirects st + 1" "h_log st' = sent"
  using assms after_response_next
  by (fastforce simp: http_turn_def follow_redirect_def Let_def split: sum.splits)+

function http_loop ::
  "http_world \<Rightarrow> http_options \<Rightarrow> http_state \<Rightarrow> http_log \<times> (http_error + http_response)" where
  "http_loop w opts st = (case http_turn w opts st of
     (sent, Inl result) \<Rightarrow> (sent, result)
   | (sent, Inr st') \<Rightarrow> http_loop w opts st')"
  by pat_completeness auto
termination
  by (relation "measure (\<lambda>(w, opts, st). nat (o_max_redirects opts - h_redirects st))")
    (rule wf_measure, hypsubst, drule sym, frule http_turn_next(1), drule http_turn_next(2), simp)

declare http_loop.simps [simp del]

text \<open>\<open>str.upper\<close> on Latin-1 text; the upper case of the micro sign and of the small y with diaeresis is outside it.\<close>

definition py_upper :: "string \<Rightarrow> string" where
  "py_upper s = concat (map (\<lambda>c. let n = code c in
     if (97 \<le> n \<and> n \<le> 122) \<or> (224 \<le> n \<and> n \<le> 254 \<and> n \<noteq> 247) then [char_of (n - 32)]
     else if n = 223 then ''SS'' else [c]) s)"

definition initial_method :: "string \<Rightarrow> string" where
  "initial_method s = (let m = py_upper (py_strip s) in if m = [] then ''GET'' else m)"

definition safe_http_request ::
  "http_world \<Rightarrow> http_options \<Rightarrow> string \<Rightarrow> string \<Rightarrow> pyval option \<Rightarrow> byte_string option \<Rightarrow>
     http_log \<times> (http_error + http_response)" where
  "safe_http_request w opts verb url json content =
     (if o_max_bytes opts < 0 then ([], Inl (SafeHttpError ''max_bytes must be non-negative.'' False))
      else if o_max_redirects opts < 0 then ([], Inl (SafeHttpError ''max_redirects must be non-negative.'' False))
      else if py_strip url = [] then ([], Inl (SafeHttpError ''url must be a non-empty string.'' False))
      else http_loop w (opts\<lparr>o_headers := headers_with_default_accept_encoding (o_headers opts)\<rparr>)
        \<lparr>h_url = py_strip url, h_method = initial_method verb, h_json = json, h_content = content,
         h_redirects = 0, h_log = []\<rparr>)"

end
