(* ===== verification/UrlPartsProps.thy ===== *)
theory UrlPartsProps
  imports UrlParts IpAddressProps
begin

text \<open>
  Splitting a URL: what the parts can contain, and that a URL put together from an http scheme,
  an authority and such parts splits into them again.
\<close>

definition safe_text :: "string \<Rightarrow> bool" where
  "safe_text s \<longleftrightarrow> (\<forall>c\<in>set s. \<not> is_unsafe_url_char c \<and> c \<noteq> CHR ''#'')"

lemma partition_parts:
  "py_partition c s = (a, found, b) \<Longrightarrow> set a \<subseteq> set s \<and> set b \<subseteq> set s \<and> c \<notin> set a
     \<and> (a = [] \<longrightarrow> s = [] \<or> hd s = c) \<and> (a \<noteq> [] \<longrightarrow> hd a = hd s \<and> hd a \<noteq> c)"
proof -
  assume p: "py_partition c s = (a, found, b)"
  then have "set b \<subseteq> set s" using partition_rest [of c s] by simp
  moreover have "a = takeWhile (\<lambda>x. x \<noteq> c) s" using p by (simp add: py_partition_def Let_def)
  ultimately show ?thesis by (cases s) (auto dest: set_takeWhileD)
qed

lemma split_scheme_rest: "split_scheme scheme url = (s, rest) \<Longrightarrow> set rest \<subseteq> set url"
  using partition_rest [of "CHR '':''" url] by (auto simp: split_scheme_def split: prod.splits if_splits)

lemma split_scheme_lower: "split_scheme [] url = (s, rest) \<Longrightarrow> py_lower s = s"
  by (auto simp: split_scheme_def py_lower_def split: prod.splits if_splits)

lemma urlsplit_parts:
  assumes "urlsplit text [] = Some u"
  shows "py_lower (url_scheme u) = url_scheme u" "safe_text (url_path u)" "safe_text (url_query u)"
    "CHR ''?'' \<notin> set (url_path u)" "url_netloc u \<noteq> [] \<Longrightarrow> url_path u = [] \<or> hd (url_path u) = CHR ''/''"
proof -
  define url where "url = clean_url text"
  obtain scheme rest where s: "split_scheme [] url = (scheme, rest)" by fastforce
  define netloc where "netloc = (if take 2 rest = ''//'' then takeWhile (\<lambda>c. \<not> ends_netloc c) (drop 2 rest) else [])"
  define tail where "tail = (if take 2 rest = ''//'' then dropWhile (\<lambda>c. \<not> ends_netloc c) (drop 2 rest) else rest)"
  obtain body f1 fragment where f: "py_partition CHR ''#'' tail = (body, f1, fragment)" by (metis prod_cases3)
  obtain path f2 query where q: "py_partition CHR ''?'' body = (path, f2, query)" by (metis prod_cases3)
  have u: "u = \<lparr>url_scheme = scheme, url_netloc = netloc, url_path = path, url_query = query, url_fragment = fragment\<rparr>"
    using assms s f q
    by (auto simp: urlsplit_def url_def netloc_def tail_def Let_def py_strip_of_def split: if_splits)
  have "\<forall>c\<in>set url. \<not> is_unsafe_url_char c" by (simp add: url_def clean_url_def)
  moreover have "set tail \<subseteq> set rest" by (auto simp: tail_def dest: set_dropWhileD in_set_dropD)
  ultimately have safe: "\<forall>c\<in>set tail. \<not> is_unsafe_url_char c" using split_scheme_rest [OF s] by blast
  note pf = partition_parts [OF f] and pq = partition_parts [OF q]
  show "py_lower (url_scheme u) = url_scheme u" using split_scheme_lower [OF s] u by simp
  show "safe_text (url_path u)" "safe_text (url_query u)" "CHR ''?'' \<notin> set (url_path u)"
    using safe pf pq u by (auto simp: safe_text_def)
  assume "url_netloc u \<noteq> []"
  then have "take 2 rest = ''//''" using u by (auto simp: netloc_def split: if_splits)
  then have "tail = [] \<or> ends_netloc (hd tail)"
    unfolding tail_def using hd_dropWhile [of "\<lambda>c. \<not> ends_netloc c" "drop 2 rest"] by auto
  then show "url_path u = [] \<or> hd (url_path u) = CHR ''/''"
    using pf pq u by (cases "path = []") (auto simp: ends_netloc_def)
qed

lemma http_scheme: "split_scheme scheme (''http:'' @ rest) = (''http'', rest)"
proof -
  have p: "py_partition CHR '':'' (''http'' @ CHR '':'' # rest) = (''http'', True, rest)"
    by (rule partition_present) simp
  have "is_url_alpha (hd ''http'')" "list_all is_scheme_char ''http''" "py_lower ''http'' = ''http''"
    by code_simp+
  with p show ?thesis by (simp add: split_scheme_def)
qed

lemma clean_http:
  assumes "\<forall>c\<in>set rest. \<not> is_unsafe_url_char c"
  shows "clean_url (''http:'' @ rest) = ''http:'' @ rest"
proof -
  have "\<not> is_c0_or_space CHR ''h''" by code_simp
  moreover have "list_all (\<lambda>c. \<not> is_unsafe_url_char c) ''http:''" by code_simp
  ultimately show ?thesis using assms by (simp add: clean_url_def filter_id_conv)
qed

lemma urlsplit_http:
  assumes N: "\<forall>c\<in>set N. \<not> ends_netloc c \<and> \<not> is_unsafe_url_char c" "netloc_brackets_ok N"
    and path: "safe_text path" "CHR ''?'' \<notin> set path" "path = [] \<or> hd path = CHR ''/''"
    and query: "safe_text query"
  shows "urlsplit (''http://'' @ N @ path @ (if query = [] then [] else ''?'' @ query)) [] =
    Some \<lparr>url_scheme = ''http'', url_netloc = N, url_path = path, url_query = query, url_fragment = []\<rparr>"
proof -
  let ?tail = "path @ (if query = [] then [] else ''?'' @ query)"
  have unsafe: "\<not> is_unsafe_url_char CHR ''/''" "\<not> is_unsafe_url_char CHR ''?''" by code_simp+
  have "\<forall>c\<in>set (''//'' @ N @ ?tail). \<not> is_unsafe_url_char c"
    using N path(1) query unsafe by (auto simp: safe_text_def)
  then have clean: "clean_url (''http:'' @ ''//'' @ N @ ?tail) = ''http:'' @ ''//'' @ N @ ?tail"
    by (rule clean_http)
  have "?tail = [] \<or> ends_netloc (hd ?tail)" using path(3) by (cases path) (auto simp: ends_netloc_def)
  then have net: "takeWhile (\<lambda>c. \<not> ends_netloc c) (N @ ?tail) = N"
      "dropWhile (\<lambda>c. \<not> ends_netloc c) (N @ ?tail) = ?tail"
    using N(1) by (cases ?tail; simp add: takeWhile_append2 dropWhile_append2; fail)+
  have f: "py_partition CHR ''#'' ?tail = (?tail, False, [])"
    using path(1) query by (intro partition_absent) (auto simp: safe_text_def)
  have q: "\<exists>b. py_partition CHR ''?'' ?tail = (path, b, query)"
    using path(2) partition_absent [of "CHR ''?''" path] partition_present [of "CHR ''?''" path query]
    by auto
  have "urlsplit (''http:'' @ ''//'' @ N @ ?tail) [] =
      Some \<lparr>url_scheme = ''http'', url_netloc = N, url_path = path, url_query = query, url_fragment = []\<rparr>"
    unfolding urlsplit_def clean http_scheme using net f q N(2) by (auto simp: Let_def simp del: append_assoc)
  then show ?thesis by simp
qed

lemma urlunsplit_http:
  assumes "N \<noteq> []" "path = [] \<or> hd path = CHR ''/''"
  shows "urlunsplit \<lparr>url_scheme = ''http'', url_netloc = N, url_path = path, url_query = query, url_fragment = []\<rparr> =
    ''http://'' @ N @ path @ (if query = [] then [] else ''?'' @ query)"
  using assms by (cases path) (auto simp: urlunsplit_def Let_def)

end
