(* ===== verification/SafeHttpProps.thy ===== *)
theory SafeHttpProps
  imports SafeHttp UrlPartsProps
begin

text \<open>
  What the request guard promises: which addresses are denied, that nothing is asked of a
  target before it was checked, the bounds of a call, and what it lets through.
\<close>

section \<open>The denied ranges\<close>

lemma denied_v4:
  "ip_network ''127.0.0.0/8'' = Some (Net4 0x7F000000 8)"
  "ip_network ''169.254.0.0/16'' = Some (Net4 0xA9FE0000 16)"
  "ip_network ''10.0.0.0/8'' = Some (Net4 0x0A000000 8)"
  "ip_network ''172.16.0.0/12'' = Some (Net4 0xAC100000 12)"
  "ip_network ''192.168.0.0/16'' = Some (Net4 0xC0A80000 16)"
  "ip_network ''0.0.0.0/32'' = Some (Net4 0 32)"
  "ip_network ''224.0.0.0/4'' = Some (Net4 0xE0000000 4)"
proof -
  show "ip_network ''127.0.0.0/8'' = Some (Net4 0x7F000000 8)"
    by (rule ip_network_v4I [where addr = "''127.0.0.0''" and pre = "''8''"]; (code_simp | simp))
  show "ip_network ''169.254.0.0/16'' = Some (Net4 0xA9FE0000 16)"
    by (rule ip_network_v4I [where addr = "''169.254.0.0''" and pre = "''16''"]; (code_simp | simp))
  show "ip_network ''10.0.0.0/8'' = Some (Net4 0x0A000000 8)"
    by (rule ip_network_v4I [where addr = "''10.0.0.0''" and pre = "''8''"]; (code_simp | simp))
  show "ip_network ''172.16.0.0/12'' = Some (Net4 0xAC100000 12)"
    by (rule ip_network_v4I [where addr = "''172.16.0.0''" and pre = "''12''"]; (code_simp | simp))
  show "ip_network ''192.168.0.0/16'' = Some (Net4 0xC0A80000 16)"
    by (rule ip_network_v4I [where addr = "''192.168.0.0''" and pre = "''16''"]; (code_simp | simp))
  show "ip_network ''0.0.0.0/32'' = Some (Net4 0 32)"
    by (rule ip_network_v4I [where addr = "''0.0.0.0''" and pre = "''32''"]; (code_simp | simp))
  show "ip_network ''224.0.0.0/4'' = Some (Net4 0xE0000000 4)"
    by (rule ip_network_v4I [where addr = "''224.0.0.0''" and pre = "''4''"]; (code_simp | simp))
qed

lemma denied_v6_numbers:
  "parse_v6_number ''::1'' = Some 1"
  "parse_v6_number ''fe80::'' = Some 0xFE800000000000000000000000000000"
  "parse_v6_number ''fc00::'' = Some 0xFC000000000000000000000000000000"
  "parse_v6_number ''::'' = Some 0"
  "parse_v6_number ''ff00::'' = Some 0xFF000000000000000000000000000000"
proof -
  show "parse_v6_number ''::1'' = Some 1"
    by (subst parse_v6_numberI [where parts = "['''','''',''1'']" and hi = 0 and k = 7 and lo = 1
      and hs = "[]" and ls = "[1]"]; (code_simp | simp add: join_hextets_def join_hextet numeral_eq_Suc))
  show "parse_v6_number ''fe80::'' = Some 0xFE800000000000000000000000000000"
    by (subst parse_v6_numberI [where parts = "[''fe80'','''','''']" and hi = 1 and k = 7 and lo = 0
      and hs = "[0xFE80]" and ls = "[]"]; (code_simp | simp add: join_hextets_def join_hextet numeral_eq_Suc))
  show "parse_v6_number ''fc00::'' = Some 0xFC000000000000000000000000000000"
    by (subst parse_v6_numberI [where parts = "[''fc00'','''','''']" and hi = 1 and k = 7 and lo = 0
      and hs = "[0xFC00]" and ls = "[]"]; (code_simp | simp add: join_hextets_def join_hextet numeral_eq_Suc))
  show "parse_v6_number ''::'' = Some 0"
    by (subst parse_v6_numberI [where parts = "['''','''','''']" and hi = 0 and k = 8 and lo = 0
      and hs = "[]" and ls = "[]"]; (code_simp | simp add: join_hextets_def join_hextet numeral_eq_Suc))
  show "parse_v6_number ''ff00::'' = Some 0xFF000000000000000000000000000000"
    by (subst parse_v6_numberI [where parts = "[''ff00'','''','''']" and hi = 1 and k = 7 and lo = 0
      and hs = "[0xFF00]" and ls = "[]"]; (code_simp | simp add: join_hextets_def join_hextet numeral_eq_Suc))
qed

lemma denied_v6:
  "ip_network ''::1/128'' = Some (Net6 1 128)"
  "ip_network ''fe80::/10'' = Some (Net6 0xFE800000000000000000000000000000 10)"
  "ip_network ''fc00::/7'' = Some (Net6 0xFC000000000000000000000000000000 7)"
  "ip_network ''::/128'' = Some (Net6 0 128)"
  "ip_network ''ff00::/8'' = Some (Net6 0xFF000000000000000000000000000000 8)"
proof -
  show "ip_network ''::1/128'' = Some (Net6 1 128)"
    by (rule ip_network_v6I [where addr = "''::1''" and pre = "''128''"], code_simp, code_simp, code_simp,
      code_simp, simp, code_simp, code_simp, code_simp, rule denied_v6_numbers, simp)
  show "ip_network ''fe80::/10'' = Some (Net6 0xFE800000000000000000000000000000 10)"
    by (rule ip_network_v6I [where addr = "''fe80::''" and pre = "''10''"], code_simp, code_simp, code_simp,
      code_simp, simp, code_simp, code_simp, code_simp, rule denied_v6_numbers, simp)
  show "ip_network ''fc00::/7'' = Some (Net6 0xFC000000000000000000000000000000 7)"
    by (rule ip_network_v6I [where addr = "''fc00::''" and pre = "''7''"], code_simp, code_simp, code_simp,
      code_simp, simp, code_simp, code_simp, code_simp, rule denied_v6_numbers, simp)
  show "ip_network ''::/128'' = Some (Net6 0 128)"
    by (rule ip_network_v6I [where addr = "''::''" and pre = "''128''"], code_simp, code_simp, code_simp,
      code_simp, simp, code_simp, code_simp, code_simp, rule denied_v6_numbers, simp)
  show "ip_network ''ff00::/8'' = Some (Net6 0xFF000000000000000000000000000000 8)"
    by (rule ip_network_v6I [where addr = "''ff00::''" and pre = "''8''"], code_simp, code_simp, code_simp,
      code_simp, simp, code_simp, code_simp, code_simp, rule denied_v6_numbers, simp)
qed

lemma denied_networks_eq:
  "denied_networks = [Net4 0x7F000000 8, Net6 1 128, Net4 0xA9FE0000 16,
     Net6 0xFE800000000000000000000000000000 10, Net4 0x0A000000 8, Net4 0xAC100000 12,
     Net4 0xC0A80000 16, Net6 0xFC000000000000000000000000000000 7, Net4 0 32, Net6 0 128,
     Net4 0xE0000000 4, Net6 0xFF000000000000000000000000000000 8]"
  by (simp add: denied_networks_def denied_network_texts_def denied_v4 denied_v6 map_filter_simps)

definition between :: "nat \<Rightarrow> nat \<Rightarrow> nat \<Rightarrow> bool" where
  "between lo hi n \<longleftrightarrow> lo \<le> n \<and> n < hi"

fun denied_range :: "ip_addr \<Rightarrow> bool" where
  "denied_range (IPv4 w) = (let n = unat w in
     n = 0
     \<or> between (10 * 2 ^ 24) (11 * 2 ^ 24) n
     \<or> between (127 * 2 ^ 24) (128 * 2 ^ 24) n
     \<or> between ((169 * 256 + 254) * 2 ^ 16) ((169 * 256 + 255) * 2 ^ 16) n
     \<or> between ((172 * 256 + 16) * 2 ^ 16) ((172 * 256 + 32) * 2 ^ 16) n
     \<or> between ((192 * 256 + 168) * 2 ^ 16) ((192 * 256 + 169) * 2 ^ 16) n
     \<or> between (224 * 2 ^ 24) (240 * 2 ^ 24) n)"
| "denied_range (IPv6 w scope) = (let n = unat w in
     n = 0 \<or> n = 1
     \<or> between (0xFC00 * 2 ^ 112) (0xFE00 * 2 ^ 112) n
     \<or> between (0xFE80 * 2 ^ 112) (0xFEC0 * 2 ^ 112) n
     \<or> between (0xFF00 * 2 ^ 112) (2 ^ 128) n)"

lemma net4_range:
  assumes "p \<le> 32" "w AND netmask p = (w :: 32 word)"
  shows "a AND netmask p = w \<longleftrightarrow> between (unat w) (unat w + 2 ^ (32 - p)) (unat a)"
  using masked_eq_range [of p w a] assms by (simp add: between_def)

lemma net6_range:
  assumes "p \<le> 128" "w AND netmask p = (w :: 128 word)"
  shows "a AND netmask p = w \<longleftrightarrow> between (unat w) (unat w + 2 ^ (128 - p)) (unat a)"
  using masked_eq_range [of p w a] assms by (simp add: between_def)

lemma aligned_networks:
  "list_all (\<lambda>n. case n of Net4 w p \<Rightarrow> w AND netmask p = w | Net6 w p \<Rightarrow> w AND netmask p = w) denied_networks"
  by (simp add: denied_networks_eq aligned_iff)

lemma blocked_iff_in: "blocked_ip_reason a \<noteq> None \<longleftrightarrow> (\<exists>n\<in>set denied_networks. in_network a n)"
  by (auto simp: blocked_ip_reason_def find_None_iff)

lemma between_point: "between n (Suc n) m \<longleftrightarrow> m = n" "between n (n + 1) m \<longleftrightarrow> m = n"
  by (auto simp: between_def)

lemma blocked_iff_range: "blocked_ip_reason a \<noteq> None \<longleftrightarrow> denied_range a"
proof (cases a)
  case (IPv4 w)
  show ?thesis
    unfolding blocked_iff_in IPv4
    using aligned_networks unfolding denied_networks_eq
    by (simp add: net4_range between_point Let_def) blast
next
  case (IPv6 w scope)
  show ?thesis
    unfolding blocked_iff_in IPv6
    using aligned_networks unfolding denied_networks_eq
    by (simp add: net6_range between_point Let_def) blast
qed

section \<open>Validated targets\<close>

lemma rpartition_found: "c \<in> set s \<longleftrightarrow> fst (snd (py_rpartition c s))"
proof (cases "c \<in> set s")
  case True
  then have "dropWhile (\<lambda>x. x \<noteq> c) (rev s) \<noteq> []" by auto
  then show ?thesis using True by (simp add: py_rpartition_def py_partition_def)
next
  case False
  then have "py_partition c (rev s) = (rev s, False, [])" by (simp add: partition_absent)
  then show ?thesis using False by (simp add: py_rpartition_def)
qed

lemma rpartition_absent: "c \<notin> set s \<Longrightarrow> py_rpartition c s = ([], False, s)"
  by (simp add: py_rpartition_def partition_absent)

lemma no_credentials: "fst (userinfo u) = None \<Longrightarrow> CHR ''@'' \<notin> set (url_netloc u)"
  using rpartition_found [of "CHR ''@''" "url_netloc u"]
  by (auto simp: userinfo_def split: prod.splits if_splits)

lemma check_split_Inr:
  assumes "check_split u = Inr (scheme, host, port)"
  shows "scheme = py_lower (url_scheme u)" "scheme = ''http'' \<or> scheme = ''https''"
    "hostname u = Some host" "CHR ''@'' \<notin> set (url_netloc u)"
    "url_port u = Some p \<Longrightarrow> port = (case p of None \<Rightarrow> default_port scheme | Some n \<Rightarrow> n)"
    "\<exists>p. url_port u = Some p"
    "ip_address host = Some a \<Longrightarrow> blocked_ip_reason a = None"
  using assms no_credentials [of u]
  by (auto simp: check_split_def Let_def allowed_schemes_def blocked_entry_def
      split: if_splits option.splits)

lemma port_range:
  assumes "check_split u = Inr (scheme, host, port)"
  shows "port \<le> 65535"
  using check_split_Inr(5,6) [OF assms]
  by (auto simp: url_port_def default_port_def split: option.splits if_splits)

lemma parse_ip_addresses_Inr:
  "parse_ip_addresses host texts = Inr as \<Longrightarrow> map ip_address texts = map Some as"
  by (induction texts arbitrary: as)
    (auto simp: parse_ip_address_def split: sum.splits option.splits)

lemma map_filter_Nil: "List.map_filter f xs = [] \<longleftrightarrow> (\<forall>x\<in>set xs. f x = None)"
  by (induction xs) (auto simp: map_filter_simps split: option.splits)

definition checked :: "resolver \<Rightarrow> string \<Rightarrow> split_url \<Rightarrow> string \<Rightarrow> string \<Rightarrow> nat \<Rightarrow> ip_addr list \<Rightarrow> bool" where
  "checked resolver url u scheme host port addresses \<longleftrightarrow>
     urlsplit (py_strip url) [] = Some u \<and> check_split u = Inr (scheme, host, port)
     \<and> (\<exists>texts. resolver host port = Inr texts \<and> map ip_address texts = map Some addresses)
     \<and> (\<forall>a\<in>set addresses. blocked_ip_reason a = None)"

lemma validate_Inr:
  assumes "validate_and_resolve_target resolver direct url = Inr t"
  obtains u scheme host port addresses where
    "checked resolver url u scheme host port addresses"
    "target_of direct u scheme host port addresses = Inr t"
  using assms
  by (auto simp: validate_and_resolve_target_def checked_def Let_def map_filter_Nil blocked_entry_def
      split: option.splits sum.splits if_splits dest!: parse_ip_addresses_Inr)

section \<open>The loop\<close>

text \<open>What one request of the log stands on: the reply before it and the check of its URL.\<close>

definition vetted :: "http_world \<Rightarrow> bool \<Rightarrow> http_log \<Rightarrow> http_request \<Rightarrow> bool" where
  "vetted w direct sent r \<longleftrightarrow> (\<exists>url t. validate_and_resolve_target (w_resolver w sent) direct url = Inr t
     \<and> rq_connect_url r = t_connect_url t \<and> rq_request_url r = t_request_url t)"

definition state_request :: "http_options \<Rightarrow> http_state \<Rightarrow> http_request \<Rightarrow> bool" where
  "state_request opts st r \<longleftrightarrow> rq_method r = h_method st \<and> rq_json r = h_json st \<and> rq_content r = h_content st
     \<and> (\<exists>h. rq_headers r = alist_put ''Host'' h (o_headers opts))"

definition redirected :: "http_world \<Rightarrow> http_options \<Rightarrow> http_log \<Rightarrow> http_request \<Rightarrow> http_request \<Rightarrow> bool" where
  "redirected w opts sent r r' \<longleftrightarrow> o_allow_redirects opts \<and>
     (\<exists>status location chunks. w_serve w sent r = Reply status (Some location) chunks None
        \<and> status \<in> set redirect_status_codes
        \<and> (if drops_body status (rq_method r)
           then rq_method r' = ''GET'' \<and> rq_json r' = None \<and> rq_content r' = None
           else rq_method r' = rq_method r \<and> rq_json r' = rq_json r \<and> rq_content r' = rq_content r))"

fun history_ok :: "http_world \<Rightarrow> http_options \<Rightarrow> http_log \<Rightarrow> http_log \<Rightarrow> bool" where
  "history_ok w opts sent [] = True"
| "history_ok w opts sent [r] = vetted w (o_direct opts) sent r"
| "history_ok w opts sent (r # r' # rs) =
     (vetted w (o_direct opts) sent r \<and> redirected w opts sent r r'
      \<and> history_ok w opts (sent @ [r]) (r' # rs))"

lemma read_body_bound:
  "read_body m body chunks = Some out \<Longrightarrow> int (length body) \<le> m \<Longrightarrow> int (length out) \<le> m"
  by (induction m body chunks rule: read_body.induct) (auto split: if_splits)

lemma single_request_Inr:
  assumes "single_request m r = Inr resp"
  shows "\<exists>chunks. r = Reply (rs_status resp) (rs_location resp) chunks None"
    and "0 \<le> m \<Longrightarrow> int (length (rs_body resp)) \<le> m"
  using assms read_body_bound [of m "[]"]
  by (auto simp: single_request_def split: reply.splits option.splits)

abbreviation request_of :: "http_options \<Rightarrow> http_state \<Rightarrow> safe_target \<Rightarrow> http_request" where
  "request_of opts st t \<equiv> make_request (h_method st) t (o_headers opts) (h_json st) (h_content st)"

lemma made_request:
  "validate_and_resolve_target (w_resolver w (h_log st)) direct (h_url st) = Inr t \<Longrightarrow>
     vetted w direct (h_log st) (request_of opts st t)"
  "state_request opts st (request_of opts st t)"
  by (auto simp: vetted_def state_request_def make_request_def)

lemma turn_request:
  assumes "http_turn w opts st = (sent, out)"
  shows "sent = h_log st \<or>
    (\<exists>r. sent = h_log st @ [r] \<and> vetted w (o_direct opts) (h_log st) r \<and> state_request opts st r)"
proof (cases "validate_and_resolve_target (w_resolver w (h_log st)) (o_direct opts) (h_url st)")
  case (Inl e)
  then show ?thesis using assms by (simp add: http_turn_def)
next
  case (Inr t)
  then have "sent = h_log st @ [request_of opts st t]"
    using assms by (auto simp: http_turn_def Let_def split: sum.splits option.splits if_splits)
  then show ?thesis using made_request(1) [OF Inr] made_request(2) by blast
qed

lemma follow_redirected:
  assumes "state_request opts st r" "state_request opts (follow_redirect status url sent st) r'"
    "o_allow_redirects opts" "w_serve w log0 r = Reply status (Some location) chunks None"
    "status \<in> set redirect_status_codes"
  shows "redirected w opts log0 r r'"
  using assms by (auto simp: redirected_def state_request_def follow_redirect_def Let_def)

lemma turn_redirects:
  assumes "http_turn w opts st = (sent, Inr st')"
  shows "\<exists>r. sent = h_log st @ [r] \<and> vetted w (o_direct opts) (h_log st) r \<and> state_request opts st r
    \<and> (\<forall>r'. state_request opts st' r' \<longrightarrow> redirected w opts (h_log st) r r')"
proof (cases "validate_and_resolve_target (w_resolver w (h_log st)) (o_direct opts) (h_url st)")
  case (Inl e)
  then show ?thesis using assms by (simp add: http_turn_def)
next
  case (Inr t)
  let ?r = "request_of opts st t"
  obtain resp where resp: "single_request (o_max_bytes opts) (w_serve w (h_log st) ?r) = Inr resp"
    using assms Inr
    by (cases "single_request (o_max_bytes opts) (w_serve w (h_log st) ?r)") (simp_all add: http_turn_def Let_def)
  have sent: "sent = h_log st @ [?r]" and after: "after_response opts st sent resp = Inr st'"
    using assms Inr resp by (auto simp: http_turn_def Let_def)
  note codes = after_response_next(3,4,5) [OF after]
  obtain url where st': "st' = follow_redirect (rs_status resp) url sent st"
    using after_response_next(1) [OF after] by blast
  obtain chunks location where
      reply: "w_serve w (h_log st) ?r = Reply (rs_status resp) (Some location) chunks None"
    using single_request_Inr(1) [OF resp] codes(3) by fastforce
  have "redirected w opts (h_log st) ?r r'" if "state_request opts st' r'" for r'
    by (rule follow_redirected [OF made_request(2) _ codes(1) reply codes(2)]) (use that st' in simp)
  then show ?thesis
    using made_request(1) [OF Inr] made_request(2) [of opts st t] sent by (intro exI [of _ ?r]) blast
qed

lemma loop_history:
  assumes "http_loop w opts st = (sent, res)"
  shows "\<exists>new. sent = h_log st @ new \<and> history_ok w opts (h_log st) new
    \<and> (\<forall>r \<in> set new. \<exists>h. rq_headers r = alist_put ''Host'' h (o_headers opts))
    \<and> (new \<noteq> [] \<longrightarrow> state_request opts st (hd new))"
  using assms
proof (induction w opts st rule: http_loop.induct)
  case (1 w opts st)
  show ?case
  proof (cases "http_turn w opts st")
    case (Pair sent1 out)
    show ?thesis
    proof (cases out)
      case (Inl res1)
      then have eq: "sent = sent1" using "1.prems" Pair by (simp add: http_loop.simps [of w opts st])
      show ?thesis
        using turn_request [OF Pair]
      proof
        assume "sent1 = h_log st"
        then show ?thesis using eq by (intro exI [of _ "[]"]) simp
      next
        assume "\<exists>r. sent1 = h_log st @ [r] \<and> vetted w (o_direct opts) (h_log st) r \<and> state_request opts st r"
        then obtain r where "sent1 = h_log st @ [r]" "vetted w (o_direct opts) (h_log st) r" "state_request opts st r"
          by blast
        then show ?thesis using eq by (intro exI [of _ "[r]"]) (auto simp: state_request_def)
      qed
    next
      case (Inr st')
      then have turn: "http_turn w opts st = (sent1, Inr st')" using Pair by simp
      then obtain r where r: "sent1 = h_log st @ [r]" "vetted w (o_direct opts) (h_log st) r"
          "state_request opts st r" "\<And>r'. state_request opts st' r' \<Longrightarrow> redirected w opts (h_log st) r r'"
        using turn_redirects [OF turn] by blast
      have "http_loop w opts st' = (sent, res)"
        using "1.prems" turn by (simp add: http_loop.simps [of w opts st])
      then obtain new where new: "sent = h_log st' @ new" "history_ok w opts (h_log st') new"
          "\<forall>r \<in> set new. \<exists>h. rq_headers r = alist_put ''Host'' h (o_headers opts)"
          "new \<noteq> [] \<longrightarrow> state_request opts st' (hd new)"
        using "1.IH" [OF turn [symmetric] refl] by blast
      have "h_log st' = h_log st @ [r]" using http_turn_next(3) [OF turn] r(1) by simp
      moreover from this have "history_ok w opts (h_log st) (r # new)"
        using new(2,4) r(2,4) by (cases new) auto
      ultimately show ?thesis
        using new(1,3) r(3) by (intro exI [of _ "r # new"]) (auto simp: state_request_def)
    qed
  qed
qed

lemma loop_length:
  assumes "http_loop w opts st = (sent, res)"
  shows "int (length sent) \<le> int (length (h_log st)) + max 0 (o_max_redirects opts - h_redirects st) + 1"
  using assms
proof (induction w opts st rule: http_loop.induct)
  case (1 w opts st)
  obtain sent1 out where turn: "http_turn w opts st = (sent1, out)" by fastforce
  have len: "length sent1 \<le> Suc (length (h_log st))"
    using turn_request [OF turn] by auto
  show ?case
  proof (cases out)
    case (Inl res1)
    then show ?thesis using "1.prems" turn len by (simp add: http_loop.simps [of w opts st])
  next
    case (Inr st')
    then have t: "http_turn w opts st = (sent1, Inr st')" using turn by simp
    have "http_loop w opts st' = (sent, res)"
      using "1.prems" t by (simp add: http_loop.simps [of w opts st])
    then show ?thesis
      using "1.IH" [OF t [symmetric] refl] http_turn_next [OF t] len by simp
  qed
qed

lemma loop_body:
  assumes "http_loop w opts st = (sent, Inr resp)" "0 \<le> o_max_bytes opts"
  shows "int (length (rs_body resp)) \<le> o_max_bytes opts"
  using assms
proof (induction w opts st rule: http_loop.induct)
  case (1 w opts st)
  obtain sent1 out where turn: "http_turn w opts st = (sent1, out)" by fastforce
  show ?case
  proof (cases out)
    case (Inl res1)
    then have "http_turn w opts st = (sent1, Inl (Inr resp))"
      using "1.prems" turn by (simp add: http_loop.simps [of w opts st])
    then show ?thesis
      using single_request_Inr(2) [of "o_max_bytes opts" _ resp] "1.prems"(2)
      by (auto simp: http_turn_def Let_def split: sum.splits dest!: after_response_body)
  next
    case (Inr st')
    then have t: "http_turn w opts st = (sent1, Inr st')" using turn by simp
    then show ?thesis
      using "1.IH" [OF t [symmetric] refl] "1.prems" by (simp add: http_loop.simps [of w opts st])
  qed
qed

lemma history_nth:
  "history_ok w opts sent rs \<Longrightarrow> i < length rs \<Longrightarrow> vetted w (o_direct opts) (sent @ take i rs) (rs ! i)"
  "history_ok w opts sent rs \<Longrightarrow> Suc i < length rs \<Longrightarrow>
     redirected w opts (sent @ take i rs) (rs ! i) (rs ! Suc i)"
  by (induction w opts sent rs arbitrary: i rule: history_ok.induct)
    (auto simp: nth_Cons take_Cons split: nat.splits)

text \<open>Every call is a run of the loop from the initial state, or ends before any request.\<close>

lemma request_history:
  assumes "safe_http_request w opts verb url json content = (sent, res)"
  shows "history_ok w (opts\<lparr>o_headers := headers_with_default_accept_encoding (o_headers opts)\<rparr>) [] sent"
    and "\<forall>r \<in> set sent. \<exists>h. rq_headers r =
      alist_put ''Host'' h (headers_with_default_accept_encoding (o_headers opts))"
    and "int (length sent) \<le> max 0 (o_max_redirects opts) + 1"
    and "res = Inr resp \<Longrightarrow> int (length (rs_body resp)) \<le> o_max_bytes opts"
    and "sent \<noteq> [] \<Longrightarrow> rq_method (hd sent) = initial_method verb \<and> rq_json (hd sent) = json
           \<and> rq_content (hd sent) = content"
proof -
  let ?opts = "opts\<lparr>o_headers := headers_with_default_accept_encoding (o_headers opts)\<rparr>"
  let ?st = "\<lparr>h_url = py_strip url, h_method = initial_method verb, h_json = json, h_content = content,
    h_redirects = 0, h_log = []\<rparr>"
  let ?goals = "history_ok w ?opts [] sent
    \<and> (\<forall>r \<in> set sent. \<exists>h. rq_headers r =
      alist_put ''Host'' h (headers_with_default_accept_encoding (o_headers opts)))
    \<and> int (length sent) \<le> max 0 (o_max_redirects opts) + 1
    \<and> (res = Inr resp \<longrightarrow> int (length (rs_body resp)) \<le> o_max_bytes opts)
    \<and> (sent \<noteq> [] \<longrightarrow> rq_method (hd sent) = initial_method verb \<and> rq_json (hd sent) = json
           \<and> rq_content (hd sent) = content)"
  have "?goals"
  proof (cases "http_loop w ?opts ?st = (sent, res) \<and> 0 \<le> o_max_bytes opts")
    case True
    then have loop: "http_loop w ?opts ?st = (sent, res)" and pos: "0 \<le> o_max_bytes opts" by simp_all
    show ?thesis
      using loop_history [OF loop] loop_length [OF loop] loop_body [of w ?opts ?st sent resp] loop pos
      by (auto simp: state_request_def)
  next
    case False
    then have "sent = []" "\<exists>e. res = Inl e"
      using assms by (auto simp: safe_http_request_def split: if_splits)
    then show ?thesis by auto
  qed
  then show "history_ok w ?opts [] sent"
    and "\<forall>r \<in> set sent. \<exists>h. rq_headers r =
      alist_put ''Host'' h (headers_with_default_accept_encoding (o_headers opts))"
    and "int (length sent) \<le> max 0 (o_max_redirects opts) + 1"
    and "res = Inr resp \<Longrightarrow> int (length (rs_body resp)) \<le> o_max_bytes opts"
    and "sent \<noteq> [] \<Longrightarrow> rq_method (hd sent) = initial_method verb \<and> rq_json (hd sent) = json
           \<and> rq_content (hd sent) = content"
    by blast+
qed

section \<open>The connect URL\<close>

fun unscoped :: "ip_addr \<Rightarrow> bool" where
  "unscoped (IPv6 w (Some scope)) = False"
| "unscoped _ = True"

definition ip_text_char :: "char \<Rightarrow> bool" where
  "ip_text_char c \<longleftrightarrow> is_digit c \<or> (97 \<le> code c \<and> code c \<le> 102) \<or> c = CHR ''.'' \<or> c = CHR '':''"

lemma ip_text_char_facts:
  assumes "ip_text_char c"
  shows "\<not> ends_netloc c" "\<not> is_unsafe_url_char c" "c \<noteq> CHR ''@''" "c \<noteq> CHR ''[''" "c \<noteq> CHR '']''"
    "c \<noteq> CHR ''%''" "c \<noteq> CHR ''v''" "lower_char c = c"
proof -
  have "code CHR ''.'' = 46" "code CHR '':'' = 58" "code CHR ''/'' = 47" "code CHR ''?'' = 63"
    "code CHR ''#'' = 35" "code CHR ''@'' = 64" "code CHR ''['' = 91" "code CHR '']'' = 93"
    "code CHR ''%'' = 37" "code CHR ''v'' = 118"
    by (simp_all add: code_def)
  then show "\<not> ends_netloc c" "\<not> is_unsafe_url_char c" "c \<noteq> CHR ''@''" "c \<noteq> CHR ''[''" "c \<noteq> CHR '']''"
    "c \<noteq> CHR ''%''" "c \<noteq> CHR ''v''" "lower_char c = c"
    using assms
    by (auto simp: ip_text_char_def ends_netloc_def is_unsafe_url_char_def is_digit_def lower_char_def Let_def)
qed

lemma hex_char_text: "d < 16 \<Longrightarrow> ip_text_char (hex_char d)"
  by (auto simp: ip_text_char_def hex_char_def is_digit_def)

lemma show_hex_text: "c \<in> set (show_hex n) \<Longrightarrow> ip_text_char c"
proof (induction n rule: show_hex.induct)
  case (1 n)
  then show ?case by (cases "n < 16") (auto simp: show_hex.simps [of n] hex_char_text)
qed

lemma text_parts_text: "p \<in> set (text_parts w) \<Longrightarrow> c \<in> set p \<Longrightarrow> ip_text_char c"
proof (cases rule: compress_cases [of "hex_parts w"])
  case plain
  then show "p \<in> set (text_parts w) \<Longrightarrow> c \<in> set p \<Longrightarrow> ip_text_char c"
    by (auto simp: text_parts_def hex_parts_def dest: show_hex_text)
next
  case (run i n)
  assume "p \<in> set (text_parts w)" "c \<in> set p"
  then have "p \<in> set (hex_parts w)"
    using run by (auto simp: text_parts_def split: if_splits dest: in_set_takeD in_set_dropD)
  then show "ip_text_char c" using \<open>c \<in> set p\<close> by (auto simp: hex_parts_def dest: show_hex_text)
qed

lemma show_v6_text: "c \<in> set (show_v6_number w) \<Longrightarrow> ip_text_char c"
  using set_py_join [of "'':''" "text_parts w"] text_parts_text
  by (auto simp: show_v6_number_def text_parts_def hex_parts_def ip_text_char_def)

lemma show_v4_text: "c \<in> set (show_v4 w) \<Longrightarrow> ip_text_char c"
  using show_v4_chars [of c w] by (auto simp: ip_text_char_def)

lemma digit_text: "is_digit c \<Longrightarrow> ip_text_char c"
  by (simp add: ip_text_char_def)

lemma show_v4_no_colon: "CHR '':'' \<notin> set (show_v4 w)"
  using show_v4_chars [of "CHR '':''" w] by (auto simp: dot_not_digit)

lemma lower_ip_text: "\<forall>c\<in>set s. ip_text_char c \<Longrightarrow> py_lower s = s"
  by (induction s) (auto simp: py_lower_def ip_text_char_facts(8))

definition ip_netloc :: "ip_addr \<Rightarrow> nat \<Rightarrow> string" where
  "ip_netloc a port = (if CHR '':'' \<in> set (compressed a) then ''['' @ compressed a @ '']'' else compressed a)
     @ '':'' @ show_nat port"

lemma port_text: "\<forall>c\<in>set (show_nat port). ip_text_char c"
  using show_nat_digits [of port] by (auto simp: digit_text)

lemma ip_netloc_chars:
  assumes "unscoped a" "c \<in> set (ip_netloc a port)"
  shows "\<not> ends_netloc c \<and> \<not> is_unsafe_url_char c \<and> c \<noteq> CHR ''@''"
proof -
  have "ip_text_char c \<or> c = CHR ''['' \<or> c = CHR '']''"
    using assms port_text [of port]
    by (cases a rule: unscoped.cases)
      (auto simp: ip_netloc_def compressed_def ip_text_char_def [of "CHR '':''"] dest: show_v4_text show_v6_text split: if_splits)
  then show ?thesis
    using ip_text_char_facts [of c] by (auto simp: ends_netloc_def is_unsafe_url_char_def code_def)
qed

text \<open>An authority made of an unscoped address and a port splits into them again.\<close>

lemma ip_netloc_v4:
  "netloc_brackets_ok (ip_netloc (IPv4 w) port)"
  "url_netloc u = ip_netloc (IPv4 w) port \<Longrightarrow> hostinfo u = (show_v4 w, Some (show_nat port))"
proof -
  let ?N = "show_v4 w @ '':'' @ show_nat port"
  have N: "ip_netloc (IPv4 w) port = ?N" using show_v4_no_colon by (simp add: ip_netloc_def compressed_def)
  have t: "\<forall>c\<in>set ?N. ip_text_char c"
    using port_text [of port] show_v4_text [of _ w] by (auto simp: ip_text_char_def [of "CHR '':''"])
  then have no: "CHR ''['' \<notin> set ?N" "CHR '']'' \<notin> set ?N" "CHR ''@'' \<notin> set ?N"
    using ip_text_char_facts by blast+
  then show "netloc_brackets_ok (ip_netloc (IPv4 w) port)" by (simp add: netloc_brackets_ok_def N)
  show "hostinfo u = (show_v4 w, Some (show_nat port))" if "url_netloc u = ip_netloc (IPv4 w) port"
    using that no partition_present [OF show_v4_no_colon [of w], of "show_nat port"]
    by (simp add: hostinfo_def N rpartition_absent partition_absent)
qed

lemma ip_netloc_v6:
  "netloc_brackets_ok (ip_netloc (IPv6 w None) port)"
  "url_netloc u = ip_netloc (IPv6 w None) port \<Longrightarrow> hostinfo u = (show_v6_number w, Some (show_nat port))"
proof -
  let ?rest = "show_v6_number w @ CHR '']'' # '':'' @ show_nat port"
  have N: "ip_netloc (IPv6 w None) port = [] @ CHR ''['' # ?rest"
    using show_v6_colon by (simp add: ip_netloc_def compressed_def)
  have no: "CHR '']'' \<notin> set (show_v6_number w)" "CHR ''['' \<notin> set []" "CHR '':'' \<notin> set []"
    using show_v6_text ip_text_char_facts(5) by auto
  have v6: "ip_address (show_v6_number w) = Some (IPv6 w None)"
    using ip_address_compressed [of "IPv6 w None"] by (simp add: compressed_def)
  have "\<not> py_startswith (show_v6_number w) ''v''"
    using show_v6_text [of "CHR ''v''" w] ip_text_char_facts(7) [of "CHR ''v''"]
    by (auto simp: py_startswith_append)
  then have "bracketed_host_ok (show_v6_number w)" by (simp add: bracketed_host_ok_def v6)
  then show "netloc_brackets_ok (ip_netloc (IPv6 w None) port)"
    unfolding netloc_brackets_ok_def N partition_present [OF no(2)]
    by (simp add: partition_present [OF no(1)] del: append.append_Nil)
  have "CHR ''@'' \<notin> set (ip_netloc (IPv6 w None) port)" using ip_netloc_chars [of "IPv6 w None"] by auto
  then have at: "py_rpartition CHR ''@'' ([] @ CHR ''['' # ?rest) = ([], False, [] @ CHR ''['' # ?rest)"
    unfolding N by (rule rpartition_absent)
  show "hostinfo u = (show_v6_number w, Some (show_nat port))" if "url_netloc u = ip_netloc (IPv6 w None) port"
    unfolding hostinfo_def that N at
    using partition_present [OF no(2), of ?rest] partition_present [OF no(1), of "'':'' @ show_nat port"]
      partition_present [OF no(3), of "show_nat port"]
    by simp
qed

lemma hostname_ip:
  assumes "hostinfo u = (s, p)" "\<forall>c\<in>set s. ip_text_char c" "s \<noteq> []"
  shows "hostname u = Some s"
proof -
  have "CHR ''%'' \<notin> set s" using assms(2) ip_text_char_facts(6) by blast
  then show ?thesis using assms lower_ip_text [of s] by (simp add: hostname_def partition_absent)
qed

lemma show_nat_length: "n < 100000 \<Longrightarrow> length (show_nat n) \<le> 5"
  by (simp add: show_nat.simps [of n] show_nat.simps [of "n div 10"] show_nat.simps [of "n div 100"]
      show_nat.simps [of "n div 1000"] show_nat.simps [of "n div 10000"] div_mult2_eq [symmetric])

lemma url_port_shown:
  assumes "hostinfo u = (s, Some (show_nat port))" "port \<le> 65535"
  shows "url_port u = Some (Some port)"
proof -
  have "list_all is_digit (show_nat port)" using show_nat_digits by (simp add: list_all_iff)
  moreover have "length (show_nat port) \<le> 5" using show_nat_length [of port] assms(2) by simp
  ultimately show ?thesis using assms by (simp add: url_port_def)
qed

lemma unscoped_cases:
  assumes "unscoped a"
  obtains w where "a = IPv4 w" "compressed a = show_v4 w"
  | w where "a = IPv6 w None" "compressed a = show_v6_number w"
  using assms by (cases a rule: unscoped.cases) (auto simp: compressed_def)

lemma show_v4_nonempty: "show_v4 w \<noteq> []"
  by (simp add: show_v4_def v4_octets_def)

lemma ip_netloc_host:
  assumes "unscoped a" "url_netloc u = ip_netloc a port" "port \<le> 65535"
  shows "hostname u = Some (compressed a)" "url_port u = Some (Some port)" "netloc_brackets_ok (ip_netloc a port)"
proof -
  have h: "hostinfo u = (compressed a, Some (show_nat port)) \<and> (\<forall>c\<in>set (compressed a). ip_text_char c)
      \<and> compressed a \<noteq> [] \<and> netloc_brackets_ok (ip_netloc a port)"
    using assms(1)
  proof (cases rule: unscoped_cases)
    case (1 w)
    then show ?thesis
      using assms(2) ip_netloc_v4 [where w = w] show_v4_text [where w = w] show_v4_nonempty by simp
  next
    case (2 w)
    moreover have "show_v6_number w \<noteq> []" using show_v6_colon [of w] by auto
    ultimately show ?thesis using assms(2) ip_netloc_v6 [where w = w] show_v6_text [where w = w] by simp
  qed
  then show "hostname u = Some (compressed a)" by (intro hostname_ip) auto
  show "url_port u = Some (Some port)" using h url_port_shown assms(3) by blast
  show "netloc_brackets_ok (ip_netloc a port)" using h by blast
qed

lemma connect_url_eq:
  assumes "target_of True u ''http'' host port (a # as) = Inr t"
  shows "t_connect_url t = urlunsplit (u\<lparr>url_netloc := ip_netloc a port, url_fragment := []\<rparr>)"
  using assms by (auto simp: target_of_def host_header_def ip_netloc_def py_startswith_def Let_def)

lemma hostname_netloc: "hostname u = Some h \<Longrightarrow> url_netloc u \<noteq> []"
  by (auto simp: hostname_def hostinfo_def py_rpartition_def py_partition_def Let_def split: if_splits)

lemma http_connect:
  assumes "checked resolver url u ''http'' host port (a # as)" "unscoped a"
    and "target_of True u ''http'' host port (a # as) = Inr t"
  shows "\<exists>v. urlsplit (t_connect_url t) [] = Some v \<and> url_scheme v = ''http''
    \<and> hostname v = Some (compressed a) \<and> url_port v = Some (Some port)"
proof -
  have u: "urlsplit (py_strip url) [] = Some u" and c: "check_split u = Inr (''http'', host, port)"
    using assms(1) by (simp_all add: checked_def)
  note parts = urlsplit_parts [OF u]
  have scheme: "url_scheme u = ''http''" using parts(1) check_split_Inr(1) [OF c] by simp
  have path: "url_path u = [] \<or> hd (url_path u) = CHR ''/''"
    using parts(5) hostname_netloc [OF check_split_Inr(3) [OF c]] by blast
  have port: "port \<le> 65535" by (rule port_range [OF c])
  let ?N = "ip_netloc a port"
  let ?v = "\<lparr>url_scheme = ''http'', url_netloc = ?N, url_path = url_path u, url_query = url_query u, url_fragment = []\<rparr>"
  have host: "hostname ?v = Some (compressed a)" "url_port ?v = Some (Some port)" "netloc_brackets_ok ?N"
    using ip_netloc_host [OF assms(2) _ port, of ?v] by simp_all
  have "t_connect_url t = urlunsplit ?v"
    using connect_url_eq [OF assms(3)] scheme by (cases u) simp
  also have "\<dots> = ''http://'' @ ?N @ url_path u @ (if url_query u = [] then [] else ''?'' @ url_query u)"
    by (rule urlunsplit_http [OF _ path]) (simp add: ip_netloc_def)
  finally have "urlsplit (t_connect_url t) [] = Some ?v"
    using urlsplit_http [OF _ host(3) parts(2,4) path parts(3)] ip_netloc_chars [OF assms(2)] by simp
  then show ?thesis using host by auto
qed

section \<open>Samples\<close>

lemma validateI:
  assumes "urlsplit (py_strip url) [] = Some u" "check_split u = Inr (scheme, host, port)"
    "resolver host port = Inr texts" "parse_ip_addresses host texts = Inr as"
    "list_all (\<lambda>a. \<not> denied_range a) as" "target_of direct u scheme host port as = Inr t"
  shows "validate_and_resolve_target resolver direct url = Inr t"
proof -
  have "\<forall>a\<in>set as. blocked_ip_reason a = None"
    using assms(5) by (simp add: list_all_iff flip: blocked_iff_range)
  then have "List.map_filter blocked_entry as = []" by (auto simp: map_filter_Nil blocked_entry_def)
  then show ?thesis using assms by (simp add: validate_and_resolve_target_def)
qed

definition sample_world :: http_world where
  "sample_world = \<lparr>w_resolver = (\<lambda>_ host port.
       if host = ''one.test'' then Inr [''93.184.216.34''] else Inr [''8.8.8.8'']),
     w_serve = (\<lambda>sent r. if sent = [] then Reply 302 (Some ''http://two.test:8080/b?q'') [] None
        else Reply 200 None [[1, 2], [], [3]] None)\<rparr>"

definition http_sample_options :: http_options where
  "http_sample_options = \<lparr>o_direct = True, o_max_bytes = 3, o_allow_redirects = True, o_max_redirects = 5,
     o_headers = [(''Authorization'', ''Bearer key'')]\<rparr>"

definition http_sample_request :: "string \<Rightarrow> string \<Rightarrow> string \<Rightarrow> string \<Rightarrow> pyval option \<Rightarrow> http_request" where
  "http_sample_request verb connect url host json =
     \<lparr>rq_method = verb, rq_connect_url = connect, rq_request_url = url,
      rq_headers = [(''Authorization'', ''Bearer key''), (''Accept-Encoding'', ''identity''), (''Host'', host)],
      rq_json = json, rq_content = None\<rparr>"

definition sample_log :: http_log where
  "sample_log =
     [http_sample_request ''POST'' ''http://93.184.216.34:80/a'' ''http://one.test/a'' ''one.test'' (Some (PStr ''x'')),
      http_sample_request ''GET'' ''http://8.8.8.8:8080/b?q'' ''http://two.test:8080/b?q'' ''two.test:8080'' None]"

definition sample_split :: "string \<Rightarrow> string \<Rightarrow> string \<Rightarrow> split_url" where
  "sample_split netloc path query =
     \<lparr>url_scheme = ''http'', url_netloc = netloc, url_path = path, url_query = query, url_fragment = []\<rparr>"

lemma sample_split_one: "urlsplit (py_strip ''http://one.test/a'') [] = Some (sample_split ''one.test'' ''/a'' [])"
  by code_simp

lemma sample_one:
  "validate_and_resolve_target (w_resolver sample_world sent) True ''http://one.test/a'' =
     Inr \<lparr>t_request_url = ''http://one.test/a'', t_connect_url = ''http://93.184.216.34:80/a'', t_host_header = ''one.test''\<rparr>"
proof (rule validateI [OF sample_split_one])
  show "check_split (sample_split ''one.test'' ''/a'' []) = Inr (''http'', ''one.test'', 80)" by code_simp
  show "w_resolver sample_world sent ''one.test'' 80 = Inr [''93.184.216.34'']" by (simp add: sample_world_def)
  show "parse_ip_addresses ''one.test'' [''93.184.216.34''] = Inr [IPv4 0x5DB8D822]" by code_simp
  show "list_all (\<lambda>a. \<not> denied_range a) [IPv4 0x5DB8D822]" by (simp add: between_def)
  show "target_of True (sample_split ''one.test'' ''/a'' []) ''http'' ''one.test'' 80 [IPv4 0x5DB8D822] =
      Inr \<lparr>t_request_url = ''http://one.test/a'', t_connect_url = ''http://93.184.216.34:80/a'', t_host_header = ''one.test''\<rparr>"
    by code_simp
qed

lemma sample_two:
  "validate_and_resolve_target (w_resolver sample_world sent) True ''http://two.test:8080/b?q'' =
     Inr \<lparr>t_request_url = ''http://two.test:8080/b?q'', t_connect_url = ''http://8.8.8.8:8080/b?q'',
          t_host_header = ''two.test:8080''\<rparr>"
proof (rule validateI)
  show "urlsplit (py_strip ''http://two.test:8080/b?q'') [] = Some (sample_split ''two.test:8080'' ''/b'' ''q'')"
    by code_simp
  show "check_split (sample_split ''two.test:8080'' ''/b'' ''q'') = Inr (''http'', ''two.test'', 8080)" by code_simp
  show "w_resolver sample_world sent ''two.test'' 8080 = Inr [''8.8.8.8'']" by (simp add: sample_world_def)
  show "parse_ip_addresses ''two.test'' [''8.8.8.8''] = Inr [IPv4 0x08080808]" by code_simp
  show "list_all (\<lambda>a. \<not> denied_range a) [IPv4 0x08080808]" by (simp add: between_def)
  show "target_of True (sample_split ''two.test:8080'' ''/b'' ''q'') ''http'' ''two.test'' 8080 [IPv4 0x08080808] =
      Inr \<lparr>t_request_url = ''http://two.test:8080/b?q'', t_connect_url = ''http://8.8.8.8:8080/b?q'',
          t_host_header = ''two.test:8080''\<rparr>"
    by code_simp
qed

definition sample_state :: "string \<Rightarrow> string \<Rightarrow> pyval option \<Rightarrow> nat \<Rightarrow> http_state" where
  "sample_state url verb json n =
     \<lparr>h_url = url, h_method = verb, h_json = json, h_content = None, h_redirects = int n, h_log = take n sample_log\<rparr>"

definition full_options :: http_options where
  "full_options = http_sample_options\<lparr>o_headers := headers_with_default_accept_encoding (o_headers http_sample_options)\<rparr>"

lemma sample_turn_one:
  "http_turn sample_world full_options (sample_state ''http://one.test/a'' ''POST'' (Some (PStr ''x'')) 0) =
     (take 1 sample_log, Inr (sample_state ''http://two.test:8080/b?q'' ''GET'' None (Suc 0)))"
proof -
  let ?st = "sample_state ''http://one.test/a'' ''POST'' (Some (PStr ''x'')) 0"
  let ?resp = "\<lparr>rs_status = 302, rs_location = Some ''http://two.test:8080/b?q'', rs_body = []\<rparr>"
  have valid: "validate_and_resolve_target (w_resolver sample_world (h_log ?st)) (o_direct full_options) (h_url ?st) =
      Inr \<lparr>t_request_url = ''http://one.test/a'', t_connect_url = ''http://93.184.216.34:80/a'', t_host_header = ''one.test''\<rparr>"
    by (simp add: sample_state_def full_options_def http_sample_options_def sample_one)
  have req: "make_request (h_method ?st) \<lparr>t_request_url = ''http://one.test/a'',
      t_connect_url = ''http://93.184.216.34:80/a'', t_host_header = ''one.test''\<rparr>
      (o_headers full_options) (h_json ?st) (h_content ?st) = sample_log ! 0" by code_simp
  have resp: "single_request (o_max_bytes full_options) (w_serve sample_world (h_log ?st) (sample_log ! 0)) = Inr ?resp"
    by code_simp
  have "after_response full_options ?st (take 1 sample_log) ?resp =
      Inr (sample_state ''http://two.test:8080/b?q'' ''GET'' None (Suc 0))" by code_simp
  moreover have "h_log ?st @ [sample_log ! 0] = take 1 sample_log" by (simp add: sample_state_def sample_log_def)
  ultimately show ?thesis by (simp add: http_turn_def valid req resp Let_def)
qed

lemma sample_turn_two:
  "http_turn sample_world full_options (sample_state ''http://two.test:8080/b?q'' ''GET'' None (Suc 0)) =
     (sample_log, Inl (Inr \<lparr>rs_status = 200, rs_location = None, rs_body = [1, 2, 3]\<rparr>))"
proof -
  let ?st = "sample_state ''http://two.test:8080/b?q'' ''GET'' None (Suc 0)"
  let ?resp = "\<lparr>rs_status = 200, rs_location = None, rs_body = [1, 2, 3]\<rparr>"
  have valid: "validate_and_resolve_target (w_resolver sample_world (h_log ?st)) (o_direct full_options) (h_url ?st) =
      Inr \<lparr>t_request_url = ''http://two.test:8080/b?q'', t_connect_url = ''http://8.8.8.8:8080/b?q'',
          t_host_header = ''two.test:8080''\<rparr>"
    by (simp add: sample_state_def full_options_def http_sample_options_def sample_two)
  have req: "make_request (h_method ?st) \<lparr>t_request_url = ''http://two.test:8080/b?q'',
      t_connect_url = ''http://8.8.8.8:8080/b?q'', t_host_header = ''two.test:8080''\<rparr>
      (o_headers full_options) (h_json ?st) (h_content ?st) = sample_log ! Suc 0" by code_simp
  have resp: "single_request (o_max_bytes full_options) (w_serve sample_world (h_log ?st) (sample_log ! Suc 0)) = Inr ?resp"
    by code_simp
  have "after_response full_options ?st sample_log ?resp = Inl (Inr ?resp)" by code_simp
  moreover have "h_log ?st @ [sample_log ! Suc 0] = sample_log" by (simp add: sample_state_def sample_log_def)
  ultimately show ?thesis by (simp add: http_turn_def valid req resp Let_def)
qed

lemma sample_run:
  "safe_http_request sample_world http_sample_options ''post'' ''http://one.test/a'' (Some (PStr ''x'')) None =
     (sample_log, Inr \<lparr>rs_status = 200, rs_location = None, rs_body = [1, 2, 3]\<rparr>)"
proof -
  have "py_strip ''http://one.test/a'' = ''http://one.test/a''" "initial_method ''post'' = ''POST''"
    by code_simp+
  then have "safe_http_request sample_world http_sample_options ''post'' ''http://one.test/a'' (Some (PStr ''x'')) None =
      http_loop sample_world full_options (sample_state ''http://one.test/a'' ''POST'' (Some (PStr ''x'')) 0)"
    by (simp add: safe_http_request_def full_options_def http_sample_options_def sample_state_def)
  then show ?thesis by (simp add: http_loop.simps sample_turn_one sample_turn_two)
qed

lemma sample_log_two: "Suc 0 < length sample_log"
  by (simp add: sample_log_def)

section \<open>Properties\<close>

text \<open>
  C19. The denied networks are exactly these ranges of addresses, for every address of either
  version: the membership test by netmask refuses a number when, and only when, it lies in one
  of the loopback, private, link-local, unique local, multicast or unspecified ranges; the scope
  of an IPv6 address has no part in it.
\<close>

theorem denied_networks_are_ranges: "(blocked_ip_reason a \<noteq> None) = denied_range a"
  by (rule blocked_iff_range)

text \<open>
  C4. Nothing is requested from an unchecked target: every request of a call, also after redirects,
  goes to the URL of a target that was split and resolved with the answers of the resolver at
  that moment; its scheme is http or https, its authority has no credentials, and none of the
  addresses its host resolved to is in a denied range.
\<close>

theorem requests_go_to_checked_targets:
  assumes "safe_http_request w opts verb url json content = (sent, res)" "i < length sent"
  shows "\<exists>target u scheme host port addresses t.
    checked (w_resolver w (take i sent)) target u scheme host port addresses
    \<and> scheme \<in> {''http'', ''https''} \<and> CHR ''@'' \<notin> set (url_netloc u)
    \<and> list_all (\<lambda>a. \<not> denied_range a) addresses
    \<and> target_of (o_direct opts) u scheme host port addresses = Inr t
    \<and> rq_connect_url (sent ! i) = t_connect_url t"
proof -
  have "vetted w (o_direct opts) (take i sent) (sent ! i)"
    using history_nth(1) [OF request_history(1) [OF assms(1)] assms(2)] by simp
  then obtain target t where t: "validate_and_resolve_target (w_resolver w (take i sent)) (o_direct opts) target = Inr t"
    "rq_connect_url (sent ! i) = t_connect_url t"
    by (auto simp: vetted_def)
  from t(1) obtain u scheme host port addresses where
      c: "checked (w_resolver w (take i sent)) target u scheme host port addresses"
    and "target_of (o_direct opts) u scheme host port addresses = Inr t"
    by (rule validate_Inr)
  moreover have "list_all (\<lambda>a. \<not> denied_range a) addresses"
    using c by (simp add: checked_def list_all_iff flip: blocked_iff_range)
  moreover have "scheme \<in> {''http'', ''https''}" "CHR ''@'' \<notin> set (url_netloc u)"
    using c check_split_Inr(2,4) by (auto simp: checked_def)
  ultimately show ?thesis using t(2) by blast
qed

theorem requests_go_to_checked_targets_witness:
  "\<exists>target u scheme host port addresses t.
    checked (w_resolver sample_world (take 1 sample_log)) target u scheme host port addresses
    \<and> scheme \<in> {''http'', ''https''} \<and> CHR ''@'' \<notin> set (url_netloc u)
    \<and> list_all (\<lambda>a. \<not> denied_range a) addresses
    \<and> target_of True u scheme host port addresses = Inr t
    \<and> rq_connect_url (sample_log ! 1) = t_connect_url t"
  using requests_go_to_checked_targets [OF sample_run, of 1]
  by (simp add: sample_log_def http_sample_options_def)

text \<open>
  C17. An http request connects to the address that was checked: when the guard connects by resolved
  address, the connect URL of an http target splits into a URL whose host is the text of the
  first address the resolver gave, that text reads back as this address, and the address is in
  no denied range (an address with an IPv6 scope aside).
\<close>

theorem http_connects_to_checked_address:
  assumes "validate_and_resolve_target resolver True url = Inr t"
    "urlsplit (py_strip url) [] = Some u" "url_scheme u = ''http''"
  shows "\<exists>host port a texts. hostname u = Some host \<and> resolver host port = Inr texts
    \<and> texts \<noteq> [] \<and> ip_address (hd texts) = Some a \<and> blocked_ip_reason a = None
    \<and> (\<not> unscoped a \<or> (\<exists>v. urlsplit (t_connect_url t) [] = Some v \<and> url_scheme v = ''http''
         \<and> hostname v = Some (compressed a) \<and> url_port v = Some (Some port)
         \<and> ip_address (compressed a) = Some a))"
proof -
  from assms(1) obtain u' scheme host port addresses where
      c: "checked resolver url u' scheme host port addresses"
    and t: "target_of True u' scheme host port addresses = Inr t"
    by (rule validate_Inr)
  have u: "u' = u" and split: "check_split u = Inr (scheme, host, port)"
    using c assms(2) by (simp_all add: checked_def)
  have scheme: "scheme = ''http''"
    using check_split_Inr(1) [OF split] assms(3) by (simp add: py_lower_def lower_char_def code_def)
  obtain a rest where as: "addresses = a # rest"
    using t scheme by (cases addresses) (auto simp: target_of_def Let_def)
  obtain texts where r: "resolver host port = Inr texts" "map ip_address texts = map Some addresses"
    using c by (auto simp: checked_def)
  then have texts: "texts \<noteq> []" "ip_address (hd texts) = Some a" using as by (cases texts; simp)+
  have "unscoped a \<Longrightarrow> \<exists>v. urlsplit (t_connect_url t) [] = Some v \<and> url_scheme v = ''http''
      \<and> hostname v = Some (compressed a) \<and> url_port v = Some (Some port)"
    using http_connect [of resolver url u host port a rest t] c t u scheme as by simp
  moreover have "blocked_ip_reason a = None" using c as by (simp add: checked_def)
  ultimately show ?thesis
    using check_split_Inr(3) [OF split] r(1) texts ip_text.reparse [OF texts(2)] by blast
qed

theorem http_connects_to_checked_address_witness:
  "\<exists>host port a texts. hostname (sample_split ''one.test'' ''/a'' []) = Some host
    \<and> w_resolver sample_world [] host port = Inr texts
    \<and> texts \<noteq> [] \<and> ip_address (hd texts) = Some a \<and> blocked_ip_reason a = None
    \<and> (\<not> unscoped a \<or> (\<exists>v. urlsplit ''http://93.184.216.34:80/a'' [] = Some v \<and> url_scheme v = ''http''
         \<and> hostname v = Some (compressed a) \<and> url_port v = Some (Some port)
         \<and> ip_address (compressed a) = Some a))"
  using http_connects_to_checked_address [OF sample_one sample_split_one, of "[]"]
  by (simp add: sample_split_def)

text \<open>
  C35. A call is bounded: it makes at most \<open>max_redirects + 1\<close> requests, whatever the servers answer,
  and the body of the response it returns is at most \<open>max_bytes\<close> long.
\<close>

theorem calls_are_bounded:
  assumes "safe_http_request w opts verb url json content = (sent, res)"
  shows "int (length sent) \<le> max 0 (o_max_redirects opts) + 1
    \<and> (case res of Inl e \<Rightarrow> True | Inr resp \<Rightarrow> int (length (rs_body resp)) \<le> o_max_bytes opts)"
  using request_history(3,4) [OF assms] by (auto split: sum.splits)

theorem calls_are_bounded_witness:
  "int (length sample_log) \<le> max 0 5 + 1 \<and> int (length [1 :: 8 word, 2, 3]) \<le> 3"
  using calls_are_bounded [OF sample_run] by (simp add: http_sample_options_def)

text \<open>
  C18. A redirect rewrites the request as HTTP asks: after a 303, or a 301 or 302 to a request that is
  neither GET nor HEAD, the next request is a GET without a body; after every other redirect it
  has the same method, JSON and content as the one before. The redirect was allowed by the
  caller, its status is one of the redirect codes and it had a location.
\<close>

theorem redirects_rewrite_request:
  assumes "safe_http_request w opts verb url json content = (sent, res)" "Suc i < length sent"
  shows "o_allow_redirects opts \<and>
     (\<exists>status location chunks. w_serve w (take i sent) (sent ! i) = Reply status (Some location) chunks None
        \<and> status \<in> set redirect_status_codes
        \<and> (if status = 303 \<or> status \<in> {301, 302} \<and> rq_method (sent ! i) \<notin> {''GET'', ''HEAD''}
           then rq_method (sent ! Suc i) = ''GET'' \<and> rq_json (sent ! Suc i) = None
             \<and> rq_content (sent ! Suc i) = None
           else rq_method (sent ! Suc i) = rq_method (sent ! i) \<and> rq_json (sent ! Suc i) = rq_json (sent ! i)
             \<and> rq_content (sent ! Suc i) = rq_content (sent ! i)))"
  using history_nth(2) [OF request_history(1) [OF assms(1)] assms(2)]
  by (simp add: redirected_def drops_body_def)

theorem redirects_rewrite_request_witness:
  "o_allow_redirects http_sample_options \<and>
     (\<exists>status location chunks. w_serve sample_world [] (sample_log ! 0) = Reply status (Some location) chunks None
        \<and> status \<in> set redirect_status_codes
        \<and> (if status = 303 \<or> status \<in> {301, 302} \<and> rq_method (sample_log ! 0) \<notin> {''GET'', ''HEAD''}
           then rq_method (sample_log ! 1) = ''GET'' \<and> rq_json (sample_log ! 1) = None
             \<and> rq_content (sample_log ! 1) = None
           else rq_method (sample_log ! 1) = rq_method (sample_log ! 0)
             \<and> rq_json (sample_log ! 1) = rq_json (sample_log ! 0)
             \<and> rq_content (sample_log ! 1) = rq_content (sample_log ! 0)))"
  using redirects_rewrite_request [OF sample_run sample_log_two] by (simp only: take_0 One_nat_def)

text \<open>
  C36. What is printed is read back: when the text of an address is accepted, for instance one the
  resolver returned, then its compressed text is accepted as the same address; two accepted
  addresses have the same compressed text only if they are the same.
\<close>

theorem address_text_roundtrip:
  assumes "parse_ip_address host s = Inr a" "parse_ip_address host t = Inr b"
  shows "parse_ip_address host (compressed a) = Inr a \<and> (compressed a = compressed b) = (a = b)"
proof -
  have "ip_address s = Some a" "ip_address t = Some b"
    using assms by (auto simp: parse_ip_address_def split: option.splits)
  then show ?thesis
    using ip_text.reparse [of s a] ip_text.same_text [of s a t b] by (simp add: parse_ip_address_def)
qed

theorem address_text_roundtrip_witness:
  "parse_ip_address [] (compressed (IPv6 1 None)) =
       Inr (IPv6 1 None)
    \<and> (compressed (IPv6 1 None) = compressed (IPv4 0x01020304)) =
       (IPv6 1 None = IPv4 0x01020304)"
proof (rule address_text_roundtrip)
  show "parse_ip_address [] ''0:0::0.0.0.1'' = Inr (IPv6 1 None)"
    by code_simp
  show "parse_ip_address [] ''1.2.3.4'' = Inr (IPv4 0x01020304)" by code_simp
qed

text \<open>
  C38. The header values of the caller go wherever a redirect points: a header other than \<open>Host\<close>,
  such as \<open>Authorization\<close>, is on every request of the call with the same value, also on the
  requests to another host than the caller named.
\<close>

theorem caller_headers_follow_redirects:
  assumes "safe_http_request w opts verb url json content = (sent, res)" "r \<in> set sent"
    "map_of (o_headers opts) k = Some v" "k \<noteq> ''Host''"
  shows "map_of (rq_headers r) k = Some v"
proof -
  obtain h where "rq_headers r = alist_put ''Host'' h (headers_with_default_accept_encoding (o_headers opts))"
    using request_history(2) [OF assms(1)] assms(2) by blast
  moreover have "list_ex (\<lambda>(k, _). py_lower k = ''accept-encoding'') (o_headers opts)" if "k = ''Accept-Encoding''"
  proof -
    have "py_lower ''Accept-Encoding'' = ''accept-encoding''" by code_simp
    then show ?thesis using map_of_SomeD [OF assms(3)] that by (force simp: list_ex_iff)
  qed
  ultimately show ?thesis
    using assms(3,4) by (auto simp: headers_with_default_accept_encoding_def)
qed

theorem caller_headers_follow_redirects_witness:
  "map_of (rq_headers (http_sample_request ''GET'' ''http://8.8.8.8:8080/b?q'' ''http://two.test:8080/b?q''
      ''two.test:8080'' None)) ''Authorization'' = Some ''Bearer key''"
  by (rule caller_headers_follow_redirects [OF sample_run])
    (simp_all add: sample_log_def http_sample_options_def)

definition v4_mapped :: "32 word \<Rightarrow> 128 word" where
  "v4_mapped w = word_of_nat (0xFFFF * 2 ^ 32 + unat w)"

text \<open>
  C37. IPv4-mapped IPv6 addresses pass: whatever the IPv4 address, its mapped form \<open>::ffff:a.b.c.d\<close>
  is in no denied network, so that a URL naming the loopback address in this form is validated
  and the connect URL names it.
\<close>

theorem mapped_addresses_pass:
  "blocked_ip_reason (IPv6 (v4_mapped w) scope) = None
    \<and> validate_and_resolve_target (\<lambda>_ _. Inr [''::ffff:127.0.0.1'']) True ''http://[::ffff:127.0.0.1]/admin'' =
        Inr \<lparr>t_request_url = ''http://[::ffff:127.0.0.1]/admin'',
             t_connect_url = ''http://[::ffff:7f00:1]:80/admin'', t_host_header = ''[::ffff:127.0.0.1]''\<rparr>"
proof
  have "unat w < 2 ^ 32" using unsigned_less [of w, where ?'a = nat] by simp
  have "unat (word_of_nat n :: 128 word) = take_bit 128 n" for n by (simp add: unsigned_of_nat)
  moreover have "take_bit 128 (0xFFFF * 2 ^ 32 + unat w) = 0xFFFF * 2 ^ 32 + unat w"
    using \<open>unat w < 2 ^ 32\<close> by (intro take_bit_nat_eq_self) simp
  ultimately have "unat (v4_mapped w) = 0xFFFF * 2 ^ 32 + unat w"
    unfolding v4_mapped_def by (simp only:)
  then have "\<not> denied_range (IPv6 (v4_mapped w) scope)"
    using unsigned_less [of w, where ?'a = nat] by (simp add: between_def)
  then show "blocked_ip_reason (IPv6 (v4_mapped w) scope) = None" by (simp flip: blocked_iff_range)
  let ?u = "sample_split ''[::ffff:127.0.0.1]'' ''/admin'' []"
  show "validate_and_resolve_target (\<lambda>_ _. Inr [''::ffff:127.0.0.1'']) True ''http://[::ffff:127.0.0.1]/admin'' =
        Inr \<lparr>t_request_url = ''http://[::ffff:127.0.0.1]/admin'',
             t_connect_url = ''http://[::ffff:7f00:1]:80/admin'', t_host_header = ''[::ffff:127.0.0.1]''\<rparr>"
  proof (rule validateI)
    have addr: "ip_address ''::ffff:127.0.0.1'' = Some (IPv6 0xFFFF7F000001 None)" by code_simp
    show "urlsplit (py_strip ''http://[::ffff:127.0.0.1]/admin'') [] = Some ?u" by code_simp
    have "\<not> denied_range (IPv6 0xFFFF7F000001 None)" by (simp add: between_def)
    then have "blocked_entry (IPv6 0xFFFF7F000001 None) = None"
      by (simp add: blocked_entry_def flip: blocked_iff_range)
    moreover have "hostname ?u = Some ''::ffff:127.0.0.1''" "userinfo ?u = (None, None)" "url_port ?u = Some None"
      "py_lower (url_scheme ?u) = ''http''" by code_simp+
    ultimately show "check_split ?u = Inr (''http'', ''::ffff:127.0.0.1'', 80)"
      by (simp add: check_split_def addr allowed_schemes_def default_port_def)
    show "parse_ip_addresses ''::ffff:127.0.0.1'' [''::ffff:127.0.0.1''] = Inr [IPv6 0xFFFF7F000001 None]"
      by (simp add: parse_ip_address_def addr)
    show "list_all (\<lambda>a. \<not> denied_range a) [IPv6 0xFFFF7F000001 None]" by (simp add: between_def)
    show "target_of True ?u ''http'' ''::ffff:127.0.0.1'' 80 [IPv6 0xFFFF7F000001 None] =
        Inr \<lparr>t_request_url = ''http://[::ffff:127.0.0.1]/admin'',
             t_connect_url = ''http://[::ffff:7f00:1]:80/admin'', t_host_header = ''[::ffff:127.0.0.1]''\<rparr>"
      by code_simp
  qed simp
qed

text \<open>A URL whose brackets do not match raises \<open>ValueError\<close>, which is no \<open>SafeHttpError\<close>.\<close>

lemma open_bracket_escapes:
  assumes "0 \<le> o_max_bytes opts" "0 \<le> o_max_redirects opts"
  shows "safe_http_request w opts verb ''http://[::1'' json content = ([], Inl UrlValueError)"
proof -
  have "py_strip ''http://[::1'' = ''http://[::1''" "urlsplit ''http://[::1'' [] = None" by code_simp+
  then show ?thesis
    using assms by (simp add: safe_http_request_def http_loop.simps http_turn_def validate_and_resolve_target_def)
qed

end
