(* ===== verification/Spec2Isabelle.thy ===== *)
theory Spec2Isabelle
  imports PromptQueueSessions JsonRpc ApprovalProps RunState ReadLedgerProps StepBudget Steering
    CancelTokens CompletionGate TransportRetry Personas ForgeLedgerProps
    ExecutionBudget TokenBudget SwarmProps ShellConsent WriteGuard DeadlineProps SafeHttpProps
begin

text \<open>
  Verification of the deterministic core of alysis-code, the coding agent under
  \<open>src/alysis_code/\<close>. The agent's outer layers talk to language models, terminals, git and the
  network. What decides whether an agent's action is allowed, remembered, scheduled or stopped is
  ordinary sequential code and small lock-protected state machines, and that is what is modelled here.

  \<^bold>\<open>Parts and how they interact.\<close>

  \<^item> Prompts of the IDE wait in a durable queue (\<open>ide/prompt_queue.py\<close>): clients enqueue, one worker per
    session claims with a lease and a fencing token, renews, finishes or releases.
    \<open>PromptQueueInput\<close> (errors, states, configuration, validation, payload normalisation),
    \<open>PromptQueuePayload\<close> (what normalisation guarantees), \<open>PromptQueueStore\<close> (the SQLite table with
    its constraints and every operation as a transaction), \<open>PromptQueueRows\<close> (point updates),
    \<open>PromptQueueOps\<close> (operations as steps and the table invariant), \<open>PromptQueueLeases\<close> (fencing),
    \<open>PromptQueueProps\<close> and \<open>PromptQueueSessions\<close> (progress, idempotence, rebinding of sessions).
  \<^item> Requests to plan with Forge are accepted durably and run at most once
    (\<open>ide/forge_request_ledger.py\<close>): \<open>ForgeLedger\<close> (limits, input checks, the table and every operation
    as a transaction), \<open>ForgeLedgerProps\<close> (rows and tables as transition relations, at most one
    execution, idempotent acceptance, dead leases).
  \<^item> Messages of MCP servers are JSON-RPC envelopes (\<open>mcp/jsonrpc.py\<close>): \<open>JsonRpc\<close>.
  \<^item> A tool call first passes the guards of \<open>agent/tools_assembly.py\<close>: \<open>ToolGuards\<close>, with the
    classifier of sensitive paths from \<open>tools/fs.py\<close> and the protected prefixes of
    \<open>agent/prompt_context.py\<close>. They consult the command policy (\<open>policy.py\<close>: \<open>ShellPolicy\<close>, over
    \<open>Shlex\<close>) and ask the user with an approval request. What a remembered answer covers is
    \<open>approval_scope.py\<close>: \<open>ApprovalScope\<close>; the threads that ask, answer and clear share the broker of
    \<open>ide/approvals.py\<close>: \<open>ApprovalBroker\<close>, \<open>ApprovalProps\<close>. \<open>ShellConsent\<close> joins guard, scope and broker.
  \<^item> Requests of the web tools, the search providers, MCP authorisation and the update check leave through
    \<open>safety/safe_http.py\<close>: \<open>SafeHttp\<close> (target validation, the default resolver, one request, the redirect
    loop) and \<open>SafeHttpProps\<close>, over Python's \<open>ipaddress\<close> (\<open>IpAddress\<close>, \<open>IpAddressProps\<close>: addresses as
    words, networks as ranges, text forms) and \<open>urllib.parse\<close> (\<open>UrlParts\<close>, \<open>UrlPartsProps\<close>).
  \<^item> A plan's tasks are read by \<open>task_readiness.py\<close> (\<open>TaskReadiness\<close>), their claimed paths normalised and
    matched by \<open>task_scope.py\<close> (\<open>TaskScope\<close>, \<open>ScopeMatch\<close> over \<open>Fnmatch\<close>, \<open>ScratchPaths\<close>) and
    classified by \<open>file_classification.py\<close> (\<open>FileClassification\<close>); predecessors are inferred by
    \<open>task_dependencies.py\<close> (\<open>TaskDependencies\<close>); \<open>swarm_scheduler.py\<close> selects candidates and batches
    them (\<open>SwarmScheduler\<close>, \<open>SwarmProps\<close>). While a batch runs, \<open>swarm_write_guard.py\<close> vetoes writes
    outside a task's scope (\<open>WriteGuard\<close>), with the paths of a patch read by \<open>diff_paths.py\<close>
    (\<open>DiffPaths\<close>). \<open>run_state.py\<close> keeps the run's status and recognises an edited plan (\<open>RunState\<close>).
  \<^item> A session remembers which lines it has shown (\<open>agent/read_ledger.py\<close>: \<open>LineRanges\<close>,
    \<open>ReadLedger\<close>, \<open>ReadLedgerProps\<close>) and is bounded by budgets: \<open>step_budget.py\<close> (\<open>StepBudget\<close>),
    \<open>execution_budget.py\<close> (\<open>ExecutionBudget\<close>), \<open>token_budget.py\<close> (\<open>TokenBudget\<close>) and the wall-clock
    budget with its watchdog thread, \<open>budget_policy.py\<close> (\<open>BudgetPolicy\<close>). Its persona (\<open>personas.py\<close>:
    \<open>Personas\<close>) lowers the mode the guards see and adds a write scope to theirs.
  \<^item> A run has a wall-clock deadline, shared with its subagents (\<open>execution_deadline.py\<close>): as it comes near,
    new lines of work, then edits, are closed, and time is kept for a final summary. \<open>DeadlinePolicy\<close>
    holds policies, observed durations, phases and the admission of an operation, \<open>DeadlineClient\<close> the
    narrowed timeouts of a provider call and the expiry a managed host imposes
    (\<open>managed_host_deadline.py\<close>), \<open>DeadlineProps\<close> the deadline as a machine.
  \<^item> While a turn runs, the user steers it through the inboxes of \<open>agent/steering.py\<close> (\<open>Steering\<close>) and
    stops it through the tokens of \<open>cancellation.py\<close> (\<open>CancelTokens\<close>), whose callbacks run on threads of
    their own; a lost connection to the model is told from other errors and retried by
    \<open>transport_retry.py\<close> (\<open>TransportRetry\<close>); when the model wants to finish,
    \<open>agent/completion_gate.py\<close> (\<open>CompletionGate\<close>) decides whether it is sent back to work.

  \<open>Prelude\<close> holds the lemma collections and generic lemmas, \<open>PyValue\<close> Python's strings, integers and
  exceptions, \<open>PyObjects\<close> dynamic values and dictionaries, \<open>PyJson\<close> the \<open>json\<close> module, \<open>PyRegex\<close> the
  regular expressions, \<open>Shlex\<close> and \<open>Fnmatch\<close> the modules of these names, \<open>Machines\<close> the contracts of
  stateful components: \<open>safe_machine\<close> (a step function with an invariant) and \<open>monotone_machine\<close>
  (whose states also move forward in an order). They are interpreted on the prompt queue (\<open>pqm\<close>, \<open>pqf\<close>),
  the broker (\<open>brk\<close>), the read ledger (\<open>rl\<close>), the write guard (\<open>wgm\<close>), the steering inbox (\<open>stm\<close>),
  the cancellation token (\<open>tkm\<close>), the request ledger (\<open>frm\<close>) and the run deadline (\<open>dlm\<close>); \<open>point_table\<close> of \<open>PromptQueueRows\<close>, the contract of a table addressed by
  a key, on the queue's rows (\<open>tbl\<close>); \<open>mailbox\<close> of \<open>Mailbox\<close>, the contract of a bounded box that is
  emptied at once, on the two inboxes (\<open>steer\<close>, \<open>opsbox\<close>); \<open>text_form\<close> of \<open>IpAddressProps\<close>, the contract of
  a text form that is read back, on the addresses of both versions (\<open>v4_text\<close>, \<open>v6_text\<close>, \<open>ip_text\<close>).

  \<^bold>\<open>Correspondence.\<close> Definitions keep the names of the code without leading underscores. A frozen
  dataclass or an object's attributes are a \<open>record\<close>, an enumeration a \<open>datatype\<close>. A raised exception is
  the \<open>Inl\<close> of a sum, a value that may be missing an option. An operation that changes state returns the
  new state; a method that runs under one lock is one step, and a method that gives up its lock in the
  middle (\<open>ApprovalBroker.request\<close>, \<open>BudgetWatchdog.disarm\<close>) is several, so that the theorems about traces
  cover every interleaving of the threads. Loops are recursive functions on the list they traverse. Two
  loops have no evident end: the trimming of a text is a \<open>partial_function\<close> with a theorem that it returns,
  the walk along exception causes a function whose measure counts the exceptions not yet seen. Regular expressions are matched by structural recursion with backtracking, the iteration of a
  class by recursion on the text, so no fuel is used anywhere.

  Characters are those of Latin-1, as HOL's \<open>char\<close> has them. Integers are unbounded as in Python. A time is
  an exact rational, and a method of the deadline takes every reading of the clock it makes; other floats are kept as the text they print as, and \<open>int(n * 0.9)\<close> is \<open>9 * n div 10\<close>,
  which agrees below \<open>2 ^ 48\<close>. Parameters of the definitions stand for what is outside: SHA-256, fresh
  identifiers and tokens, the clock, the environment, the file tree and how it resolves paths, name
  resolution and what an HTTP client reports for a request (both may depend on all requests before), the tokenizer, \<open>float(text)\<close>, the user's answer to an approval request. No theorem assumes anything of
  them that it does not state.

  \<^bold>\<open>What the lemmas show.\<close> Queue: the table constraints hold after every operation, a prompt's history
  is kept, a stale lease token cannot act, an eligible prompt is claimed unless the session is occupied,
  a retry with the same key returns the stored prompt. Request ledger: work is begun at most once for a
  key while its record is kept, an acceptance never makes a second job, a superseded lease can do
  nothing, accepted work can be begun and completed. Broker: every verdict was given by a
  resolve call for that approval, once, and an approval without asking was authorised by a grant to an
  earlier request with the same scope. Ledger: it refines a map
  from paths to delivered lines, and a suppressed line was shown before. Scheduler: tasks of one batch
  claim disjoint precise scopes; every dependency is finished, or is a test expected to fail that waits to be
  merged before an implementation task. Guards: a target the swarm's guard reads off a write it admits lands
  in the task's scope or an allowed root, refusals are recorded, protected prefixes are never written, a
  remembered yes to a command covers that command only, sensitive files need a fresh yes. Budgets: resolutions are
  within their bounds; the watchdog cancels a run only after budget and grace, and once armed it does.
  Deadline: what a stage has closed stays closed, an admitted operation fits into what remains and leaves
  the finalization reserve, children and hosts only shorten it, a provider call gives its client back
  unchanged and its retries leave the reserve.
  Turns: steering messages arrive in order and are counted when dropped, every callback registered for
  a cancellation runs once and the durable one first, repairs of an unfinished turn are bounded, the
  walk along the causes of an error ends and misses none. Personas: none raises the mode the user
  chose, custom ones stay untrusted and never shadow a built-in one, the architect writes markdown only.
  Outbound requests: every request, also after redirects, goes to a target whose resolved addresses lie in no
  denied range, and over http to the address that was checked; requests and bodies are bounded.
  Each group starts from an invariant or an abstract specification in the component's theory and ends in
  a theorem per guarantee; what the scheduler and the write guard promise together is stated below, with a closed instance where it has hypotheses.

  \<^bold>\<open>Flaws found.\<close> A rebound session can be blocked forever (\<open>claim_blocked_after_rebind\<close>); a cleared
  allowance can return (\<open>cleared_allowance_returns\<close>); the execution reserve misses a floor it could keep
  (\<open>reserve_floor_missed\<close>); a directory named without a slash shares a batch with a file below it
  (\<open>directory_claim_shares_batch\<close>); an unbalanced apostrophe hides a recursive removal
  (\<open>destructive_rm_missed\<close>); a patch that mixes header styles hides files from the write guard
  (\<open>mixed_patch_passes_guard\<close>); an absolute path through a symlink is admitted
  (\<open>absolute_symlink_admitted\<close>); two tasks of a batch may both claim and write the root README under
  its two names (\<open>readme_claims_share_batch\<close>); an IPv4-mapped address of the loopback passes the outbound
  guard (\<open>mapped_addresses_pass\<close>), which also repeats the caller's credentials to the target of a redirect
  (\<open>caller_headers_follow_redirects\<close>) and lets a \<open>ValueError\<close> escape (\<open>open_bracket_escapes\<close>);
  a disabled deadline can be reported as exhausted (\<open>exhaustion_is_reported_iff\<close>); verification commands skip the deny list (\<open>verify_skips_denylist\<close>).

  \<^bold>\<open>Not modelled.\<close> The IDE bridge (\<open>ide/stdio_bridge.py\<close>), the turn engine (\<open>agent/turn/core.py\<close>),
  subagents, the terminal interface and the chat commands, the plan assistant, the swarm orchestrator and
  the model providers are dominated by input and output, threads of other programs and calls of language
  models. Of \<open>agent/tools_assembly.py\<close> the guards are modelled and the tools are not; of \<open>task_scope.py\<close>
  and \<open>task_readiness.py\<close> the extraction of path hints from prose and the git scans are left out; of
  \<open>execution_budget.py\<close> the assembly of prompts whose tokens it counts; of \<open>ide/approvals.py\<close> the
  events and redacted texts shown to the user; of \<open>cancellation.py\<close> the timed waits; of \<open>personas.py\<close> the
  reading of directories and front matter; of the deadline modules the telemetry payloads.
\<close>

section \<open>Scheduling and guarding together\<close>

definition two_claims :: "string \<Rightarrow> string \<Rightarrow> (pykey \<times> pyval) list list" where
  "two_claims p q =
     [[(KStr ''id'', PStr ''T1''), (KStr ''status'', PStr ''done''), (KStr ''title'', PStr ''x'')],
      claim_task ''T2'' p, claim_task ''T3'' q]"

lemma claim_matches_itself:
  assumes "scope_path_matches_pattern (Some fs) path p"
    and "normalize_repo_path_entry (\<lambda>_. False) True p = Some p"
    and "\<not> has_glob p" and "\<not> rf_is_dir fs p"
  shows "rstrip_slash (scope_normalize_path path) = p \<or>
    is_root_readme_alias (rstrip_slash (scope_normalize_path path)) \<and> is_root_readme_alias p"
  using assms
  by (auto simp: scope_path_matches_pattern_def normalize_scope_match_pattern_def Let_def
      is_root_readme_alias_match_def is_existing_directory_scope_def split: if_splits)

text \<open>
  C7. Scheduler and write guard agree, up to a root README: let two different tasks share a batch, and
  let each claim a file in normal form that is not a directory of the tree. If the matcher of the write
  guard lets one and the same path count as covered by both claims, then both claims are spellings of
  the root README.
\<close>

theorem batch_claims_overlap_at_readme_only:
  assumes "distinct (map task_id_of runnable)" "build_batches runnable workers = Inr bs"
    "b \<in> set bs" "c \<in> set runnable" "d \<in> set runnable" "c \<noteq> d"
    "task_id_of c \<in> set (task_ids b)" "task_id_of d \<in> set (task_ids b)"
    and claims: "p \<in> set (claimed_files c)" "q \<in> set (claimed_files d)"
    and normal: "\<forall>r\<in>{p, q}. normalize_repo_path_entry (\<lambda>_. False) True r = Some r \<and>
      \<not> has_glob r \<and> \<not> rf_is_dir fs r"
    and covered: "scope_path_matches_pattern (Some fs) path p" "scope_path_matches_pattern (Some fs) path q"
  shows "is_root_readme_alias p \<and> is_root_readme_alias q"
proof -
  have "p \<noteq> q" using batch_compatible [OF assms(1-8)] claims by (auto simp: compatible_def)
  with claim_matches_itself [OF covered(1)] claim_matches_itself [OF covered(2)] normal
  show ?thesis by auto
qed

definition readme_schedule :: schedule where
  "readme_schedule =
     projr (compute_schedule ''main'' (two_claims ''README'' ''README.md'') 2 None sample_options)"

lemma readme_schedule_ok:
  "compute_schedule ''main'' (two_claims ''README'' ''README.md'') 2 None sample_options = Inr readme_schedule"
proof -
  have "is_ok (compute_schedule ''main'' (two_claims ''README'' ''README.md'') 2 None sample_options)" by code_simp
  then show ?thesis by (auto simp: readme_schedule_def is_ok_iff)
qed

lemma readme_runnable:
  "map (\<lambda>c. (task_id_of c, claimed_files c)) (sched_runnable readme_schedule) =
     [(''T2'', [''README'']), (''T3'', [''README.md''])]"
  "map task_ids (sched_batches readme_schedule) = [[''T2'', ''T3'']]"
  by code_simp+

definition empty_tree :: repo_files where
  "empty_tree = \<lparr>rf_is_dir = (\<lambda>_. False), rf_is_file = (\<lambda>_. False), rf_read = (\<lambda>_. None)\<rparr>"

theorem batch_claims_overlap_at_readme_only_witness:
  "is_root_readme_alias ''README'' \<and> is_root_readme_alias ''README.md''"
proof -
  obtain b where b: "sched_batches readme_schedule = [b]" "task_ids b = [''T2'', ''T3'']"
    using readme_runnable(2) by (cases "sched_batches readme_schedule") auto
  obtain c d where cd: "sched_runnable readme_schedule = [c, d]" "task_id_of c = ''T2''" "task_id_of d = ''T3''"
    "claimed_files c = [''README'']" "claimed_files d = [''README.md'']"
    using readme_runnable(1) by (auto simp: map_eq_Cons_conv)
  have "\<forall>r\<in>{''README'', ''README.md''}. normalize_repo_path_entry (\<lambda>_. False) True r = Some r \<and>
      \<not> has_glob r \<and> \<not> rf_is_dir empty_tree r"
    "scope_path_matches_pattern (Some empty_tree) ''README.md'' ''README''"
    "scope_path_matches_pattern (Some empty_tree) ''README.md'' ''README.md''"
    by code_simp+
  moreover have "distinct (map task_id_of (sched_runnable readme_schedule))" "c \<noteq> d" using cd by auto
  ultimately show ?thesis
    using batch_claims_overlap_at_readme_only
      [OF _ schedule_batches [OF readme_schedule_ok], of b c d "''README''" "''README.md''" empty_tree "''README.md''"]
    by (simp add: b cd)
qed

text \<open>
  Two tasks of one batch can both write the root README: a plan in which one task claims \<open>README\<close>
  and another \<open>README.md\<close> runs both in one parallel batch, and the write guards of both let
  \<open>README.md\<close> be written.
\<close>

theorem readme_claims_share_batch:
  "compute_schedule ''main'' (two_claims ''README'' ''README.md'') 2 None sample_options = Inr readme_schedule \<and>
   map (\<lambda>c. (task_id_of c, claimed_files c)) (sched_runnable readme_schedule) =
     [(''T2'', [''README'']), (''T3'', [''README.md''])] \<and>
   map task_ids (sched_batches readme_schedule) = [[''T2'', ''T3'']] \<and>
   list_all (\<lambda>claim. case new_write_guard sample_fs ''/wt'' [PStr claim] [] False of
       Inl e \<Rightarrow> False
     | Inr g \<Rightarrow> check_tool_call sample_fs None ''fs_write'' (write_args ''README.md'') g = (g, Inr ()))
     [''README'', ''README.md'']"
proof -
  have new: "new_write_guard sample_fs ''/wt'' [PStr ''README''] [] False = Inr (sample_guard ''README'')"
    "new_write_guard sample_fs ''/wt'' [PStr ''README.md''] [] False = Inr (sample_guard ''README.md'')"
    by code_simp+
  have "check_tool_call sample_fs None ''fs_write'' (write_args ''README.md'') (sample_guard ''README'') =
      (sample_guard ''README'', Inr ())"
    "check_tool_call sample_fs None ''fs_write'' (write_args ''README.md'') (sample_guard ''README.md'') =
      (sample_guard ''README.md'', Inr ())"
    by code_simp+
  with new readme_runnable readme_schedule_ok show ?thesis by simp
qed

end
